(* ===== verification/Prelude.thy ===== *)
theory Prelude
  imports Complex_Main
begin

text \<open>
  Shared vocabulary of the development: Go's fixed-width integers as \<open>int\<close> with the
  wrap-around written out, Go's \<open>(value, error)\<close> results as sums, optional pointers, and the
  generic list facts the component theories use.

  A Go \<open>int32\<close>, \<open>int64\<close> or \<open>int\<close> (64 bits on the amd64 image the repository builds) is an
  \<open>int\<close>; an operation that can leave the width is wrapped with \<open>wrap32\<close> or \<open>wrap64\<close>. A
  pointer that may be nil is an \<open>option\<close>. An error is its format string, without the operands
  that only decorate the message.
\<close>

section \<open>Collections of proof rules\<close>

named_theorems go_int \<open>facts on wrapped machine integers\<close>
named_theorems go_defs \<open>definitions of Go library operations, for symbolic evaluation\<close>

section \<open>Machine integers\<close>

type_synonym int32 = int
type_synonym int64 = int

abbreviation max_int32 :: int where "max_int32 \<equiv> 2147483647"
abbreviation min_int32 :: int where "min_int32 \<equiv> - 2147483648"
abbreviation max_int64 :: int where "max_int64 \<equiv> 9223372036854775807"
abbreviation min_int64 :: int where "min_int64 \<equiv> - 9223372036854775808"

definition in_i32 :: "int \<Rightarrow> bool" where
  "in_i32 x \<longleftrightarrow> min_int32 \<le> x \<and> x \<le> max_int32"

definition in_i64 :: "int \<Rightarrow> bool" where
  "in_i64 x \<longleftrightarrow> min_int64 \<le> x \<and> x \<le> max_int64"

definition wrap32 :: "int \<Rightarrow> int32" where
  "wrap32 x = (x + 2147483648) mod 4294967296 - 2147483648"

definition wrap64 :: "int \<Rightarrow> int64" where
  "wrap64 x = (x + 9223372036854775808) mod 18446744073709551616 - 9223372036854775808"

text \<open>Go's integer division truncates towards zero (the divisor is never zero where it is used).\<close>

definition go_div :: "int \<Rightarrow> int \<Rightarrow> int" where
  "go_div a b = sgn a * sgn b * (\<bar>a\<bar> div \<bar>b\<bar>)"

lemma wrap32_id [go_int]: "in_i32 x \<Longrightarrow> wrap32 x = x"
  by (simp add: in_i32_def wrap32_def)

lemma wrap64_id [go_int]: "in_i64 x \<Longrightarrow> wrap64 x = x"
  by (simp add: in_i64_def wrap64_def)

lemma in_i32_wrap32 [go_int]: "in_i32 (wrap32 x)"
  unfolding in_i32_def wrap32_def
  using pos_mod_bound [of 4294967296 "x + 2147483648"] pos_mod_sign [of 4294967296 "x + 2147483648"]
  by simp

lemma in_i64_wrap64 [go_int]: "in_i64 (wrap64 x)"
  unfolding in_i64_def wrap64_def
  using pos_mod_bound [of 18446744073709551616 "x + 9223372036854775808"]
    pos_mod_sign [of 18446744073709551616 "x + 9223372036854775808"]
  by simp

lemma in_i32_i64 [go_int]: "in_i32 x \<Longrightarrow> in_i64 x"
  by (simp add: in_i32_def in_i64_def)

lemma go_div_nonneg [go_int]: "0 \<le> a \<Longrightarrow> 0 < b \<Longrightarrow> go_div a b = a div b"
  by (cases "a = 0") (auto simp: go_div_def)

lemma div_bounds:
  fixes a d :: int
  assumes "0 < d"
  shows "d * (a div d) \<le> a" "a \<le> d * (a div d + 1) - 1"
  using mult_div_mod_eq [of d a] pos_mod_bound [OF assms, of a] pos_mod_sign [OF assms, of a]
  unfolding ring_distribs by linarith+

lemma div_between:
  fixes a d :: int
  assumes "0 < d" "d * lo \<le> a" "a < d * (hi + 1)"
  shows "lo \<le> a div d" "a div d \<le> hi"
proof -
  have "d * lo < d * (a div d + 1)" "d * (a div d) < d * (hi + 1)"
    using div_bounds [OF assms(1), of a] assms(2,3) by linarith+
  then show "lo \<le> a div d" "a div d \<le> hi" using assms(1) by simp_all
qed

section \<open>Results and optional values\<close>

type_synonym error = string
type_synonym 'a result = "error + 'a"

definition is_ok :: "'a result \<Rightarrow> bool" where
  "is_ok r = (case r of Inl _ \<Rightarrow> False | Inr _ \<Rightarrow> True)"

lemma is_ok_simps [simp]: "\<not> is_ok (Inl e)" "is_ok (Inr v)"
  by (simp_all add: is_ok_def)

lemma is_ok_iff: "is_ok r \<longleftrightarrow> (\<exists>v. r = Inr v)"
  by (cases r) simp_all

text \<open>\<open>if err != nil { return err }\<close> between two steps.\<close>

definition rbind :: "'a result \<Rightarrow> ('a \<Rightarrow> 'b result) \<Rightarrow> 'b result" where
  "rbind r f = (case r of Inl e \<Rightarrow> Inl e | Inr v \<Rightarrow> f v)"

lemma rbind_simps [simp]: "rbind (Inl e) f = Inl e" "rbind (Inr v) f = f v"
  by (simp_all add: rbind_def)

lemma rbind_eq_Inr_iff: "rbind r f = Inr w \<longleftrightarrow> (\<exists>v. r = Inr v \<and> f v = Inr w)"
  by (cases r) simp_all

lemma is_ok_rbind: "is_ok (rbind r f) \<longleftrightarrow> (\<exists>v. r = Inr v \<and> is_ok (f v))"
  by (cases r) simp_all

definition opt_default :: "'a \<Rightarrow> 'a option \<Rightarrow> 'a" where
  "opt_default d x = (case x of None \<Rightarrow> d | Some v \<Rightarrow> v)"

lemma opt_default_simps [simp]: "opt_default d None = d" "opt_default d (Some v) = v"
  by (simp_all add: opt_default_def)

section \<open>Validation\<close>

text \<open>
  \<open>p != nil && P(*p)\<close> on an optional pointer, and sequences of checks that return the first error:
  guards in a row, one validation after another, and a loop that stops at the first error.
\<close>

definition present :: "('a \<Rightarrow> bool) \<Rightarrow> 'a option \<Rightarrow> bool" where
  "present P x = (case x of None \<Rightarrow> False | Some v \<Rightarrow> P v)"

lemma present_simps [simp]: "\<not> present P None" "present P (Some v) = P v"
  by (simp_all add: present_def)

lemma not_present_iff: "\<not> present P x \<longleftrightarrow> (\<forall>v. x = Some v \<longrightarrow> \<not> P v)"
  by (cases x) simp_all

fun firstError :: "(bool \<times> error) list \<Rightarrow> error option" where
  "firstError [] = None"
| "firstError ((bad, e) # cs) = (if bad then Some e else firstError cs)"

lemma firstError_None [simp]: "firstError ((bad, e) # cs) = None \<longleftrightarrow> \<not> bad \<and> firstError cs = None"
  by simp

lemma firstError_append [simp]: "firstError (cs @ ds) = None \<longleftrightarrow> firstError cs = None \<and> firstError ds = None"
  by (induction cs rule: firstError.induct) simp_all

declare firstError.simps(2) [simp del]

definition andThen :: "error option \<Rightarrow> error option \<Rightarrow> error option" where
  "andThen a b = (case a of Some e \<Rightarrow> Some e | None \<Rightarrow> b)"

lemma andThen_simps [simp]: "andThen None b = b" "andThen (Some e) b = Some e"
  by (simp_all add: andThen_def)

lemma andThen_None [simp]: "andThen a b = None \<longleftrightarrow> a = None \<and> b = None"
  by (cases a) simp_all

fun eachError :: "('a \<Rightarrow> error option) \<Rightarrow> 'a list \<Rightarrow> error option" where
  "eachError f [] = None"
| "eachError f (x # xs) = andThen (f x) (eachError f xs)"

lemma eachError_None [simp]: "eachError f xs = None \<longleftrightarrow> (\<forall>x \<in> set xs. f x = None)"
  by (induction xs) auto

section \<open>Loops that may return early\<close>

fun foldR :: "('s \<Rightarrow> 'a \<Rightarrow> 's result) \<Rightarrow> 's \<Rightarrow> 'a list \<Rightarrow> 's result" where
  "foldR f s [] = Inr s"
| "foldR f s (x # xs) = rbind (f s x) (\<lambda>s'. foldR f s' xs)"

lemma foldR_append: "foldR f s (xs @ ys) = rbind (foldR f s xs) (\<lambda>s'. foldR f s' ys)"
  by (induction xs arbitrary: s) (auto simp: rbind_def split: sum.split)

lemma foldR_invariant:
  assumes "foldR f s xs = Inr t" "P s" "\<And>a x b. x \<in> set xs \<Longrightarrow> P a \<Longrightarrow> f a x = Inr b \<Longrightarrow> P b"
  shows "P t"
  using assms
proof (induction xs arbitrary: s)
  case (Cons x xs)
  then obtain b where b: "f s x = Inr b" "foldR f b xs = Inr t" by (auto simp: rbind_eq_Inr_iff)
  then have "P b" using Cons.prems(3) [of x s b] Cons.prems(2) by simp
  show ?case
  proof (rule Cons.IH [OF b(2) \<open>P b\<close>])
    show "P c" if "y \<in> set xs" "P a" "f a y = Inr c" for y a c using Cons.prems(3) [of y a c] that by simp
  qed
qed simp

lemma foldR_visits:
  assumes "foldR f s xs = Inr t" "x \<in> set xs"
  obtains a b ys zs where "xs = ys @ x # zs" "foldR f s ys = Inr a" "f a x = Inr b" "foldR f b zs = Inr t"
proof -
  obtain ys zs where "xs = ys @ x # zs" using split_list [OF assms(2)] by blast
  with assms(1) that show thesis by (auto simp: foldR_append rbind_eq_Inr_iff)
qed

section \<open>Lists\<close>

lemma foldl_min_le_init: "foldl min (a::'a::linorder) xs \<le> a"
proof (induction xs arbitrary: a)
  case (Cons y ys)
  show ?case using order_trans [OF Cons [of "min a y"] min.cobounded1] by simp
qed simp

lemma foldl_min_le: "x \<in> set xs \<Longrightarrow> foldl min (a::'a::linorder) xs \<le> x"
proof (induction xs arbitrary: a)
  case (Cons y ys)
  then show ?case using order_trans [OF foldl_min_le_init [of "min a y"] min.cobounded2] by auto
qed simp

lemma foldl_max_ge_init: "(a::'a::linorder) \<le> foldl max a xs"
proof (induction xs arbitrary: a)
  case (Cons y ys)
  show ?case using order_trans [OF max.cobounded1 Cons [of "max a y"]] by simp
qed simp

lemma foldl_max_ge: "x \<in> set xs \<Longrightarrow> x \<le> foldl max (a::'a::linorder) xs"
proof (induction xs arbitrary: a)
  case (Cons y ys)
  then show ?case using order_trans [OF max.cobounded2 foldl_max_ge_init [of "max a y"]] by auto
qed simp

lemma foldl_min_in: "foldl min (a::'a::linorder) xs \<in> insert a (set xs)"
  by (induction xs arbitrary: a) (auto simp: min_def split: if_splits)

lemma foldl_max_in: "foldl max (a::'a::linorder) xs \<in> insert a (set xs)"
  by (induction xs arbitrary: a) (auto simp: max_def split: if_splits)

lemma foldl_max_Max: "foldl max (x::'a::linorder) xs = Max (set (x # xs))"
proof -
  have "(\<lambda>a b::'a. max b a) = max" by (simp add: fun_eq_iff max.commute)
  then show ?thesis unfolding Max.set_eq_fold by (simp add: foldl_conv_fold)
qed

lemma foldl_min_Min: "foldl min (x::'a::linorder) xs = Min (set (x # xs))"
proof -
  have "(\<lambda>a b::'a. min b a) = min" by (simp add: fun_eq_iff min.commute)
  then show ?thesis unfolding Min.set_eq_fold by (simp add: foldl_conv_fold)
qed

lemma if_gt_max: "(if x > m then x else m) = max m (x::'a::linorder)"
  by (auto simp: max_def)

lemma if_lt_min: "(if x < m then x else m) = min m (x::'a::linorder)"
  by (auto simp: min_def)

text \<open>\<open>xs[len(xs)-n:]\<close>: the last \<open>n\<close> elements.\<close>

definition last_n :: "nat \<Rightarrow> 'a list \<Rightarrow> 'a list" where
  "last_n n xs = drop (length xs - n) xs"

lemma length_last_n [simp]: "length (last_n n xs) = min n (length xs)"
  by (simp add: last_n_def)

lemma set_last_n: "set (last_n n xs) \<subseteq> set xs"
  by (simp add: last_n_def set_drop_subset)

end
