(* ===== verification/Float64.thy ===== *)
theory Float64
  imports Prelude "HOL-Library.Log_Nat"
begin

text \<open>
  Go's \<open>float64\<close>: IEEE 754 binary64 with round-to-nearest-even. A finite value is the rational
  it denotes; every arithmetic operation computes exactly and rounds once with \<open>round64\<close>. The
  sign of zero is not represented: no modelled operation reads a sign bit or divides by a negative zero.
\<close>

section \<open>Rounding\<close>

datatype float64 = NaN | PInf | NInf | Fin rat

text \<open>The exponent \<open>e\<close> with \<open>2^e \<le> x < 2^(e+1)\<close>, for positive \<open>x\<close>.\<close>

definition ilog2 :: "rat \<Rightarrow> int" where
  "ilog2 x = (let (n, d) = quotient_of x; e = bitlen n - bitlen d
              in if 2 powi e \<le> x then e else e - 1)"

text \<open>Round half to even.\<close>

definition rne :: "rat \<Rightarrow> int" where
  "rne y = (let f = \<lfloor>y\<rfloor>; d = y - of_int f
            in if d < 1 / 2 then f else if 1 / 2 < d then f + 1 else if even f then f else f + 1)"

text \<open>The spacing of binary64 numbers around \<open>x\<close>: 53 significant bits, not below \<open>2^-1074\<close>.\<close>

definition ulp_exp :: "rat \<Rightarrow> int" where
  "ulp_exp x = max (ilog2 x - 52) (- 1074)"

definition rmag :: "rat \<Rightarrow> rat" where
  "rmag x = of_int (rne (x / 2 powi ulp_exp x)) * 2 powi ulp_exp x"

definition max_finite_bound :: rat where
  "max_finite_bound = 2 powi 1024"

definition round64 :: "rat \<Rightarrow> float64" where
  "round64 x =
     (if x = 0 then Fin 0
      else if 0 < x then (if max_finite_bound \<le> rmag x then PInf else Fin (rmag x))
      else (if max_finite_bound \<le> rmag (- x) then NInf else Fin (- rmag (- x))))"

section \<open>Operations\<close>

definition f_of_int :: "int \<Rightarrow> float64" where
  "f_of_int n = round64 (of_int n)"

fun f_neg :: "float64 \<Rightarrow> float64" where
  "f_neg NaN = NaN" | "f_neg PInf = NInf" | "f_neg NInf = PInf" | "f_neg (Fin x) = Fin (- x)"

fun f_add :: "float64 \<Rightarrow> float64 \<Rightarrow> float64" where
  "f_add (Fin x) (Fin y) = round64 (x + y)"
| "f_add PInf (Fin y) = PInf" | "f_add PInf PInf = PInf" | "f_add (Fin x) PInf = PInf"
| "f_add NInf (Fin y) = NInf" | "f_add NInf NInf = NInf" | "f_add (Fin x) NInf = NInf"
| "f_add _ _ = NaN"

definition f_sub :: "float64 \<Rightarrow> float64 \<Rightarrow> float64" where
  "f_sub x y = f_add x (f_neg y)"

definition f_signed_inf :: "bool \<Rightarrow> float64" where
  "f_signed_inf neg = (if neg then NInf else PInf)"

fun f_mul :: "float64 \<Rightarrow> float64 \<Rightarrow> float64" where
  "f_mul (Fin x) (Fin y) = round64 (x * y)"
| "f_mul NaN _ = NaN" | "f_mul _ NaN = NaN"
| "f_mul PInf (Fin y) = (if y = 0 then NaN else f_signed_inf (y < 0))"
| "f_mul NInf (Fin y) = (if y = 0 then NaN else f_signed_inf (0 < y))"
| "f_mul (Fin x) PInf = (if x = 0 then NaN else f_signed_inf (x < 0))"
| "f_mul (Fin x) NInf = (if x = 0 then NaN else f_signed_inf (0 < x))"
| "f_mul PInf PInf = PInf" | "f_mul NInf NInf = PInf"
| "f_mul PInf NInf = NInf" | "f_mul NInf PInf = NInf"

text \<open>
  Division. A zero divisor is \<open>+0\<close>: the only modelled divisors that can be zero are a product of
  positive numbers and a difference of equal ones, and rounding to nearest gives both a positive sign.
\<close>

fun f_div :: "float64 \<Rightarrow> float64 \<Rightarrow> float64" where
  "f_div (Fin x) (Fin y) =
     (if y = 0 then (if x = 0 then NaN else f_signed_inf (x < 0)) else round64 (x / y))"
| "f_div PInf (Fin y) = f_signed_inf (y < 0)"
| "f_div NInf (Fin y) = f_signed_inf (0 \<le> y)"
| "f_div (Fin x) PInf = Fin 0" | "f_div (Fin x) NInf = Fin 0"
| "f_div _ _ = NaN"

fun f_lt :: "float64 \<Rightarrow> float64 \<Rightarrow> bool" where
  "f_lt (Fin x) (Fin y) = (x < y)"
| "f_lt NInf (Fin y) = True" | "f_lt NInf PInf = True" | "f_lt (Fin x) PInf = True"
| "f_lt _ _ = False"

fun f_eq :: "float64 \<Rightarrow> float64 \<Rightarrow> bool" where
  "f_eq (Fin x) (Fin y) = (x = y)" | "f_eq PInf PInf = True" | "f_eq NInf NInf = True"
| "f_eq _ _ = False"

definition f_le :: "float64 \<Rightarrow> float64 \<Rightarrow> bool" where
  "f_le x y \<longleftrightarrow> f_lt x y \<or> f_eq x y"

fun f_abs :: "float64 \<Rightarrow> float64" where
  "f_abs NaN = NaN" | "f_abs (Fin x) = Fin \<bar>x\<bar>" | "f_abs PInf = PInf" | "f_abs NInf = PInf"

definition f_is_nan :: "float64 \<Rightarrow> bool" where
  "f_is_nan x \<longleftrightarrow> x = NaN"

definition f_is_inf :: "float64 \<Rightarrow> bool" where
  "f_is_inf x \<longleftrightarrow> x = PInf \<or> x = NInf"

text \<open>\<open>math.Max\<close> and \<open>math.Min\<close>: infinities first, then NaN.\<close>

definition f_max :: "float64 \<Rightarrow> float64 \<Rightarrow> float64" where
  "f_max x y = (if x = PInf \<or> y = PInf then PInf else if x = NaN \<or> y = NaN then NaN
                else if f_lt y x then x else y)"

definition f_min :: "float64 \<Rightarrow> float64 \<Rightarrow> float64" where
  "f_min x y = (if x = NInf \<or> y = NInf then NInf else if x = NaN \<or> y = NaN then NaN
                else if f_lt x y then x else y)"

fun f_ceil :: "float64 \<Rightarrow> float64" where
  "f_ceil (Fin x) = Fin (of_int \<lceil>x\<rceil>)" | "f_ceil x = x"

text \<open>\<open>math.Round\<close>: half away from zero.\<close>

definition round_away :: "rat \<Rightarrow> int" where
  "round_away x = (if 0 \<le> x then \<lfloor>x + 1 / 2\<rfloor> else - \<lfloor>- x + 1 / 2\<rfloor>)"

fun f_round :: "float64 \<Rightarrow> float64" where
  "f_round (Fin x) = Fin (of_int (round_away x))" | "f_round x = x"

text \<open>
  Conversion to a signed integer truncates; a value that does not fit becomes the smallest
  integer of the width, as the amd64 conversion instructions do.
\<close>

definition trunc_rat :: "rat \<Rightarrow> int" where
  "trunc_rat x = (if 0 \<le> x then \<lfloor>x\<rfloor> else \<lceil>x\<rceil>)"

fun f_to_int64 :: "float64 \<Rightarrow> int64" where
  "f_to_int64 (Fin x) = (if in_i64 (trunc_rat x) then trunc_rat x else min_int64)"
| "f_to_int64 _ = min_int64"

fun f_to_int32 :: "float64 \<Rightarrow> int32" where
  "f_to_int32 (Fin x) = (if in_i32 (trunc_rat x) then trunc_rat x else min_int32)"
| "f_to_int32 _ = min_int32"

section \<open>Rounding facts\<close>

lemma bitlen_powi:
  assumes "0 < k"
  shows "2 powi (bitlen k - 1) \<le> (of_int k :: rat)" "(of_int k :: rat) < 2 powi bitlen k"
proof -
  have p: "1 \<le> bitlen k" using assms by (auto simp: bitlen_alt_def)
  have "(2::int) ^ nat (bitlen k - 1) \<le> k" "k < 2 ^ nat (bitlen k)"
    using bitlen_bounds [OF assms] by auto
  then have "(of_int (2 ^ nat (bitlen k - 1)) :: rat) \<le> of_int k"
      "(of_int k :: rat) < of_int (2 ^ nat (bitlen k))"
    by (simp_all only: of_int_le_iff of_int_less_iff)
  then show "2 powi (bitlen k - 1) \<le> (of_int k :: rat)" "(of_int k :: rat) < 2 powi bitlen k"
    using p by (simp_all add: power_int_def)
qed

lemma ilog2_bounds:
  assumes "0 < x"
  shows "2 powi ilog2 x \<le> x" "x < 2 powi (ilog2 x + 1)"
proof -
  obtain n d where q: "quotient_of x = (n, d)" by (cases "quotient_of x")
  have d: "0 < d" using quotient_of_denom_pos [OF q] .
  have x: "x = of_int n / of_int d" using quotient_of_div [OF q] .
  have n: "0 < n" using assms d by (simp add: x zero_less_divide_iff)
  define a b where "a = bitlen n" and "b = bitlen d"
  have hi: "x < 2 powi (a - b + 1)"
  proof -
    have "x < 2 powi a / of_int d"
      using bitlen_powi(2) [OF n] d by (simp add: x a_def divide_strict_right_mono)
    also have "\<dots> \<le> 2 powi a / 2 powi (b - 1)"
      using bitlen_powi(1) [OF d] d by (intro divide_left_mono) (auto simp: b_def)
    also have "\<dots> = 2 powi (a - b + 1)" by (simp add: power_int_diff power_int_add)
    finally show ?thesis .
  qed
  have lo: "2 powi (a - b - 1) \<le> x"
  proof -
    have "2 powi (a - b - 1) = (2 powi (a - 1) :: rat) / 2 powi b"
      by (simp add: power_int_diff)
    also have "\<dots> \<le> of_int n / 2 powi b"
      using bitlen_powi(1) [OF n] by (simp add: a_def divide_right_mono)
    also have "\<dots> \<le> x"
      using bitlen_powi(2) [OF d] d n by (auto simp: x b_def intro!: divide_left_mono)
    finally show ?thesis .
  qed
  show "2 powi ilog2 x \<le> x" "x < 2 powi (ilog2 x + 1)"
    using lo hi by (auto simp: ilog2_def q Let_def a_def b_def)
qed

lemma powi2_le_iff [simp]: "((2::rat) powi a \<le> 2 powi b) \<longleftrightarrow> a \<le> b"
  by (metis linorder_not_le one_less_numeral_iff order_less_imp_le power_int_increasing
      power_int_strict_increasing semiring_norm(76) one_le_numeral order.strict_iff_not)

lemma powi2_less_iff [simp]: "((2::rat) powi a < 2 powi b) \<longleftrightarrow> a < b"
  by (simp add: less_le_not_le)

lemma powi2_pos [simp]: "0 < (2::rat) powi a"
  by simp

lemma ilog2_eqI:
  assumes "2 powi e \<le> x" "x < 2 powi (e + 1)"
  shows "ilog2 x = e"
proof -
  have x: "0 < x" using assms(1) powi2_pos less_le_trans by blast
  have "2 powi ilog2 x < (2::rat) powi (e + 1)" "2 powi e < (2::rat) powi (ilog2 x + 1)"
    using le_less_trans [OF ilog2_bounds(1) [OF x] assms(2)]
      le_less_trans [OF assms(1) ilog2_bounds(2) [OF x]] by simp_all
  then show ?thesis by simp
qed

lemma ilog2_less: "0 < x \<Longrightarrow> x < 2 powi e \<Longrightarrow> ilog2 x < e"
  using ilog2_bounds(1) [of x] by (metis le_less_trans powi2_less_iff)

lemma ilog2_mono: "0 < x \<Longrightarrow> x \<le> y \<Longrightarrow> ilog2 x \<le> ilog2 y"
  using ilog2_bounds(1) [of x] ilog2_bounds(2) [of y]
  by (metis le_less_trans less_le_trans powi2_less_iff zless_add1_eq order_le_less)

lemma ulp_exp_mono: "0 < x \<Longrightarrow> x \<le> y \<Longrightarrow> ulp_exp x \<le> ulp_exp y"
  using ilog2_mono [of x y] by (simp add: ulp_exp_def)

lemma rne_of_int [simp]: "rne (of_int k) = k"
  by (simp add: rne_def)

lemma rne_near: "of_int (rne y) - 1 / 2 \<le> y" "y \<le> of_int (rne y) + 1 / 2"
  unfolding rne_def Let_def by (auto simp: algebra_simps) linarith+

lemma rne_floor: "\<lfloor>y\<rfloor> \<le> rne y" "rne y \<le> \<lfloor>y\<rfloor> + 1"
  by (auto simp: rne_def Let_def)

lemma rne_mono:
  assumes "y \<le> z"
  shows "rne y \<le> rne z"
proof (cases "\<lfloor>y\<rfloor> = \<lfloor>z\<rfloor>")
  case True
  then show ?thesis using assms by (auto simp: rne_def Let_def)
next
  case False
  with floor_mono [OF assms] have "\<lfloor>y\<rfloor> + 1 \<le> \<lfloor>z\<rfloor>" by simp
  then show ?thesis using rne_floor(2) [of y] rne_floor(1) [of z] by simp
qed

lemma powi2_int: "0 \<le> k \<Longrightarrow> (2::rat) powi k = of_int (2 ^ nat k)"
  by (simp add: power_int_def)

lemma rmag_eqI:
  assumes "x = of_int m * 2 powi q" and "ulp_exp x \<le> q"
  shows "rmag x = x"
proof -
  let ?u = "ulp_exp x"
  have "x / 2 powi ?u = of_int m * 2 powi (q - ?u)"
    by (subst assms(1)) (simp add: power_int_diff)
  also have "\<dots> = of_int (m * 2 ^ nat (q - ?u))"
    using assms(2) by (simp add: powi2_int)
  finally show ?thesis
    unfolding rmag_def by (metis nonzero_eq_divide_eq rne_of_int powi2_pos less_irrefl)
qed

lemma rmag_le_powi:
  assumes "x \<le> 2 powi e" "ulp_exp x \<le> e"
  shows "rmag x \<le> 2 powi e"
proof -
  let ?u = "ulp_exp x"
  have eq: "(2::rat) powi e / 2 powi ?u = of_int (2 ^ nat (e - ?u))"
    using assms(2) by (simp add: powi2_int flip: power_int_diff)
  have "x / 2 powi ?u \<le> 2 powi e / 2 powi ?u"
    using assms(1) by (simp add: divide_right_mono)
  then have "rne (x / 2 powi ?u) \<le> 2 ^ nat (e - ?u)"
    unfolding eq using rne_mono [of _ "of_int (2 ^ nat (e - ?u))"] rne_of_int by metis
  then have "of_int (rne (x / 2 powi ?u)) \<le> (2::rat) powi e / 2 powi ?u"
    unfolding eq by (simp only: of_int_le_iff)
  then show ?thesis unfolding rmag_def by (simp add: pos_le_divide_eq)
qed

lemma rmag_ge_powi:
  assumes "2 powi e \<le> x" "ulp_exp x \<le> e"
  shows "2 powi e \<le> rmag x"
proof -
  let ?u = "ulp_exp x"
  have eq: "(2::rat) powi e / 2 powi ?u = of_int (2 ^ nat (e - ?u))"
    using assms(2) by (simp add: powi2_int flip: power_int_diff)
  have "2 powi e / 2 powi ?u \<le> x / 2 powi ?u"
    using assms(1) by (simp add: divide_right_mono)
  then have "2 ^ nat (e - ?u) \<le> rne (x / 2 powi ?u)"
    unfolding eq using rne_mono [of "of_int (2 ^ nat (e - ?u))"] rne_of_int by metis
  then have "(2::rat) powi e / 2 powi ?u \<le> of_int (rne (x / 2 powi ?u))"
    unfolding eq by (simp only: of_int_le_iff)
  then show ?thesis unfolding rmag_def by (simp add: pos_divide_le_eq)
qed

lemma rmag_mono:
  assumes "0 < x" "x \<le> y"
  shows "rmag x \<le> rmag y"
proof (cases "ulp_exp x = ulp_exp y")
  case True
  have "x / 2 powi ulp_exp y \<le> y / 2 powi ulp_exp y"
    using assms(2) by (simp add: divide_right_mono)
  then have "rne (x / 2 powi ulp_exp y) \<le> rne (y / 2 powi ulp_exp y)" by (rule rne_mono)
  then show ?thesis by (simp add: rmag_def True mult_right_mono)
next
  case False
  with ulp_exp_mono [OF assms] have "ulp_exp x < ulp_exp y" by simp
  then have e: "ilog2 x < ilog2 y" "ulp_exp y \<le> ilog2 y" "ulp_exp x \<le> ilog2 y"
    by (auto simp: ulp_exp_def)
  have "0 < y" using assms by simp
  have "x < 2 powi (ilog2 x + 1)" by (rule ilog2_bounds [OF assms(1)])
  also have "\<dots> \<le> 2 powi ilog2 y" using e(1) by simp
  finally have "rmag x \<le> 2 powi ilog2 y" using e(3) by (intro rmag_le_powi) auto
  also have "\<dots> \<le> rmag y" using ilog2_bounds(1) [OF \<open>0 < y\<close>] e(2) by (rule rmag_ge_powi)
  finally show ?thesis .
qed

lemma rmag_nonneg: "0 < x \<Longrightarrow> 0 \<le> rmag x"
  unfolding rmag_def using rne_floor(1) [of "x / 2 powi ulp_exp x"]
  by (intro mult_nonneg_nonneg) (auto simp: le_floor_iff intro: order_trans [of _ "\<lfloor>x / 2 powi ulp_exp x\<rfloor>"])

lemma rmag_idem:
  assumes "0 < x" "0 < rmag x"
  shows "rmag (rmag x) = rmag x"
proof -
  define u E where "u = ulp_exp x" and "E = max (ilog2 x + 1) u"
  have x: "x \<le> 2 powi E"
  proof -
    have "x \<le> 2 powi (ilog2 x + 1)" using ilog2_bounds(2) [OF assms(1)] by simp
    also have "\<dots> \<le> 2 powi E" by (simp only: powi2_le_iff) (simp add: E_def)
    finally show ?thesis .
  qed
  have r: "rmag x \<le> 2 powi E" using x by (intro rmag_le_powi) (auto simp: E_def u_def)
  show ?thesis
  proof (cases "rmag x = 2 powi E")
    case True
    have "ilog2 (2 powi E) = E" by (rule ilog2_eqI) simp_all
    moreover have "- 1074 \<le> E" by (simp add: E_def u_def ulp_exp_def)
    ultimately have "ulp_exp (2 powi E) \<le> E" by (simp add: ulp_exp_def)
    then show ?thesis unfolding True by (intro rmag_eqI [of _ 1 E]) auto
  next
    case False
    with r have "ilog2 (rmag x) < E" using ilog2_less [OF assms(2)] by simp
    then have "ulp_exp (rmag x) \<le> u"
      by (auto simp: ulp_exp_def E_def u_def split: if_splits)
    then show ?thesis
      by (intro rmag_eqI [of _ "rne (x / 2 powi u)" u]) (simp_all add: rmag_def u_def)
  qed
qed

section \<open>Representable values\<close>

definition representable :: "rat \<Rightarrow> bool" where
  "representable r \<longleftrightarrow> round64 r = Fin r"

lemma round64_0 [simp]: "round64 0 = Fin 0"
  by (simp add: round64_def)

lemma round64_neg: "round64 (- x) = f_neg (round64 x)"
  by (auto simp: round64_def)

lemma representable_neg [simp]: "representable (- x) \<longleftrightarrow> representable x"
  by (cases "round64 x") (auto simp: representable_def round64_neg)

lemma representable_0 [simp]: "representable 0"
  by (simp add: representable_def)

lemma representable_dyadic:
  assumes "0 < x" "x = of_int m * 2 powi q" "ulp_exp x \<le> q" "x < max_finite_bound"
  shows "representable x"
  using assms(1,4) rmag_eqI [OF assms(2,3)] by (simp add: representable_def round64_def)

lemma powi_less_bound: "e < 1024 \<Longrightarrow> 2 powi e < max_finite_bound"
  by (simp only: max_finite_bound_def powi2_less_iff)

lemma representable_powi:
  assumes "- 1074 \<le> e" "e < 1024"
  shows "representable (2 powi e)"
proof -
  have "ilog2 (2 powi e) = e" by (rule ilog2_eqI) auto
  then show ?thesis using assms
    by (intro representable_dyadic [of _ 1 e]) (auto simp: ulp_exp_def powi_less_bound)
qed

lemma representable_of_int_pos:
  assumes "0 < n" "n \<le> 2 ^ 53"
  shows "representable (of_int n)"
proof (cases "n = 2 ^ 53")
  case True
  then show ?thesis using representable_powi [of 53] by (simp add: power_int_def)
next
  case False
  with assms have "n < 2 ^ 53" by simp
  then have "(of_int n :: rat) < of_int (2 ^ 53)" by (simp only: of_int_less_iff)
  then have lt: "(of_int n :: rat) < 2 powi 53" by (simp add: power_int_def)
  then have "ilog2 (of_int n) < 53" using assms by (intro ilog2_less) auto
  moreover have "(of_int n :: rat) < max_finite_bound"
    using less_trans [OF lt powi_less_bound [of 53]] by simp
  ultimately show ?thesis using assms
    by (intro representable_dyadic [of _ n 0]) (auto simp: ulp_exp_def)
qed

lemma representable_of_int:
  assumes "\<bar>n\<bar> \<le> 2 ^ 53"
  shows "representable (of_int n)"
proof (cases n "0::int" rule: linorder_cases)
  case less
  then show ?thesis using representable_of_int_pos [of "- n"] assms by simp
next
  case greater
  then show ?thesis using representable_of_int_pos [of n] assms by simp
qed simp

lemma f_of_int_exact [simp]: "\<bar>n\<bar> \<le> 2 ^ 53 \<Longrightarrow> f_of_int n = Fin (of_int n)"
  using representable_of_int by (simp add: f_of_int_def representable_def)

lemma f_le_simps [simp]:
  "f_le (Fin x) (Fin y) \<longleftrightarrow> x \<le> y" "f_le (Fin x) PInf" "f_le NInf (Fin x)" "f_le PInf PInf"
  "f_le NInf NInf" "f_le NInf PInf" "\<not> f_le PInf (Fin x)" "\<not> f_le (Fin x) NInf" "\<not> f_le PInf NInf"
  by (auto simp: f_le_def)

lemma round64_cases:
  obtains (pos) "0 < x" "round64 x = (if max_finite_bound \<le> rmag x then PInf else Fin (rmag x))"
  | (zero) "x = 0" "round64 x = Fin 0"
  | (neg) "x < 0" "round64 x = (if max_finite_bound \<le> rmag (- x) then NInf else Fin (- rmag (- x)))"
  by (cases x "0::rat" rule: linorder_cases) (auto simp: round64_def)

text \<open>Rounding is monotone: the fact every bound on a computed float rests on.\<close>

lemma round64_mono:
  assumes "x \<le> y"
  shows "f_le (round64 x) (round64 y)"
proof (cases x rule: round64_cases)
  case pos
  with assms rmag_mono [of x y] show ?thesis by (auto simp: round64_def)
next
  case zero
  with assms rmag_nonneg [of y] show ?thesis by (auto simp: round64_def)
next
  case neg
  note x = neg
  show ?thesis
  proof (cases y rule: round64_cases)
    case pos
    then show ?thesis using x rmag_nonneg [of y] rmag_nonneg [of "- x"] by auto
  next
    case zero
    then show ?thesis using x rmag_nonneg [of "- x"] by auto
  next
    case neg
    then show ?thesis using x assms rmag_mono [of "- y" "- x"] by auto
  qed
qed

lemma round64_representable:
  assumes "round64 x = Fin r"
  shows "representable r"
proof (cases x rule: round64_cases)
  case pos
  then have r: "r = rmag x" "r < max_finite_bound" using assms by (auto split: if_splits)
  show ?thesis
  proof (cases "0 < r")
    case True
    then show ?thesis using r rmag_idem [OF pos(1)] by (simp add: representable_def round64_def)
  next
    case False
    then show ?thesis using r rmag_nonneg [OF pos(1)] by simp
  qed
next
  case zero
  then show ?thesis using assms by simp
next
  case neg
  then have r: "r = - rmag (- x)" "rmag (- x) < max_finite_bound" using assms by (auto split: if_splits)
  show ?thesis
  proof (cases "0 < rmag (- x)")
    case True
    then have "representable (rmag (- x))"
      using r(2) rmag_idem [of "- x"] neg(1) by (simp add: representable_def round64_def)
    then show ?thesis by (simp add: r)
  next
    case False
    then show ?thesis using r rmag_nonneg [of "- x"] neg(1) by simp
  qed
qed

text \<open>A value between two representable bounds rounds to a finite value between them.\<close>

lemma round64_between:
  assumes "representable lo" "representable hi" "lo \<le> x" "x \<le> hi"
  obtains r where "round64 x = Fin r" "lo \<le> r" "r \<le> hi" "representable r"
proof -
  have "f_le (Fin lo) (round64 x)" "f_le (round64 x) (Fin hi)"
    using round64_mono assms unfolding representable_def by metis+
  then obtain r where "round64 x = Fin r" "lo \<le> r" "r \<le> hi"
    by (cases "round64 x") (auto simp: f_le_def)
  then show ?thesis using that round64_representable by blast
qed

section \<open>Evaluating a rounding\<close>

text \<open>
  Given the exponent and the rounded significand, a rounding is checked by rational arithmetic
  on numerals; the simplifier never has to search for them.
\<close>

lemma rne_eqI:
  assumes "of_int m - 1 / 2 < y" "y < of_int m + 1 / 2"
  shows "rne y = m"
  using rne_near [of y] assms by linarith

lemma round64_eval:
  assumes "2 powi e \<le> x" "x < 2 powi (e + 1)" "- 1022 \<le> e" "e < 1023"
    and "of_int m - 1 / 2 < x / 2 powi (e - 52)" "x / 2 powi (e - 52) < of_int m + 1 / 2"
  shows "round64 x = Fin (of_int m * 2 powi (e - 52))"
proof -
  have x: "0 < x" using assms(1) powi2_pos less_le_trans by blast
  have u: "ulp_exp x = e - 52" using ilog2_eqI [OF assms(1,2)] assms(3) by (simp add: ulp_exp_def)
  have "rmag x \<le> 2 powi (e + 1)" using assms(2) u by (intro rmag_le_powi) auto
  also have "\<dots> < max_finite_bound" using assms(4) by (intro powi_less_bound) simp
  finally show ?thesis
    using x rne_eqI [OF assms(5,6)] by (simp add: round64_def rmag_def u)
qed

lemma round64_of_representable: "representable x \<Longrightarrow> round64 x = Fin x"
  by (simp add: representable_def)

lemma rmag_error:
  assumes "0 < x" "x \<le> 2 powi k" "- 1022 \<le> k"
  shows "\<bar>rmag x - x\<bar> \<le> 2 powi (k - 53)"
proof -
  let ?u = "ulp_exp x" and ?y = "x / 2 powi ulp_exp x"
  have "ilog2 x \<le> k" using ilog2_bounds(1) [OF assms(1)] assms(2) powi2_le_iff order_trans by blast
  then have u: "?u \<le> k - 52" using assms(3) by (simp add: ulp_exp_def)
  have "\<bar>of_int (rne ?y) - ?y\<bar> \<le> 1 / 2" using rne_near [of ?y] by linarith
  then have "\<bar>of_int (rne ?y) - ?y\<bar> * 2 powi ?u \<le> 1 / 2 * 2 powi ?u" by (intro mult_right_mono) auto
  moreover have "rmag x - x = (of_int (rne ?y) - ?y) * 2 powi ?u" by (simp add: rmag_def left_diff_distrib)
  ultimately have "\<bar>rmag x - x\<bar> \<le> 1 / 2 * 2 powi ?u" by (simp add: abs_mult)
  also have "\<dots> = 2 powi (?u - 1)" by (simp add: power_int_diff)
  also have "\<dots> \<le> 2 powi (k - 53)" using u by simp
  finally show ?thesis .
qed

text \<open>Half a unit in the last place bounds the rounding error.\<close>

lemma round64_error:
  assumes "\<bar>x\<bar> \<le> 2 powi k" "- 1022 \<le> k" "k < 1024"
  obtains r where "round64 x = Fin r" "\<bar>r - x\<bar> \<le> 2 powi (k - 53)"
proof -
  have "- (2 powi k) \<le> x" "x \<le> 2 powi k" using assms(1) by linarith+
  moreover have "representable (- (2 powi k))" "representable (2 powi k)"
    using assms representable_powi [of k] by simp_all
  ultimately obtain r where r: "round64 x = Fin r" using round64_between by metis
  have "\<bar>r - x\<bar> \<le> 2 powi (k - 53)"
  proof (cases x rule: round64_cases)
    case pos
    then show ?thesis using r rmag_error [of x k] assms by (auto split: if_splits)
  next
    case zero
    then show ?thesis using r by (auto simp: less_imp_le)
  next
    case neg
    then show ?thesis using r rmag_error [of "- x" k] assms by (auto split: if_splits)
  qed
  with r that show ?thesis by blast
qed

lemma representable_half:
  assumes "0 < n" "n < 2 ^ 53"
  shows "representable (of_int n / 2)"
proof (rule representable_dyadic)
  have "(of_int n :: rat) < of_int (2 ^ 53)" using assms(2) by (simp only: of_int_less_iff)
  then have b: "of_int n / 2 < (2::rat) powi 52" by (simp add: power_int_def)
  show "0 < (of_int n / 2 :: rat)" using assms(1) by simp
  then show "ulp_exp (of_int n / 2) \<le> - 1" using ilog2_less [OF _ b] by (simp add: ulp_exp_def)
  show "of_int n / 2 < max_finite_bound" using b powi_less_bound [of 52] by linarith
  show "(of_int n / 2 :: rat) = of_int n * 2 powi - 1" by (simp add: power_int_def)
qed

section \<open>The order of \<open>sort.Float64s\<close>\<close>

text \<open>
  NaN before everything else, then the numbers. Go's own comparison \<open><\<close> is \<open>f_lt\<close>; on values that
  are not NaN the two agree (\<open>less_float64_f_lt\<close>).
\<close>

fun f_rank :: "float64 \<Rightarrow> nat \<times> rat" where
  "f_rank NaN = (0, 0)" | "f_rank NInf = (1, 0)" | "f_rank (Fin x) = (2, x)" | "f_rank PInf = (3, 0)"

lemma f_rank_inj: "fst (f_rank x) = fst (f_rank y) \<Longrightarrow> snd (f_rank x) = snd (f_rank y) \<Longrightarrow> x = y"
  by (cases x; cases y) simp_all

instantiation float64 :: linorder
begin

definition less_eq_float64 :: "float64 \<Rightarrow> float64 \<Rightarrow> bool" where
  "less_eq_float64 x y \<longleftrightarrow> fst (f_rank x) < fst (f_rank y) \<or> fst (f_rank x) = fst (f_rank y) \<and> snd (f_rank x) \<le> snd (f_rank y)"

definition less_float64 :: "float64 \<Rightarrow> float64 \<Rightarrow> bool" where
  "less_float64 x y \<longleftrightarrow> fst (f_rank x) < fst (f_rank y) \<or> fst (f_rank x) = fst (f_rank y) \<and> snd (f_rank x) < snd (f_rank y)"

instance
  by standard (auto simp: less_eq_float64_def less_float64_def intro: f_rank_inj)

end

lemma less_float64_f_lt: "x \<noteq> NaN \<Longrightarrow> y \<noteq> NaN \<Longrightarrow> x < y \<longleftrightarrow> f_lt x y"
  by (cases x; cases y) (simp_all add: less_float64_def)

lemma less_eq_Fin [simp]: "Fin x \<le> Fin y \<longleftrightarrow> x \<le> y"
  by (simp add: less_eq_float64_def)

end
