(* ===== verification/GoTime.thy ===== *)
theory GoTime
  imports Prelude
begin

text \<open>
  Go's \<open>time\<close> package as the source uses it. An instant is the number of nanoseconds since
  0001-01-01T00:00:00Z, so that \<open>IsZero\<close> is being 0; beside it a time carries the offset of its
  zone in seconds, which only formatting reads. A duration is an \<open>int64\<close> of nanoseconds.
  Forecast points persist their times as RFC3339Nano strings: \<open>parse_time\<close> and \<open>format_time\<close>
  are \<open>time.Parse(time.RFC3339Nano, s)\<close> and \<open>t.Format(time.RFC3339Nano)\<close>, with the leniency
  Go's parser has (a one-digit hour, a comma before the fraction, excess fraction digits), and
  \<open>parse_format_time\<close> is their round trip.
\<close>

section \<open>Instants and durations\<close>

datatype gotime = GoTime (ns: int) (zone: int)

type_synonym duration = int64

abbreviation millisecond :: duration where "millisecond \<equiv> 1000000"
abbreviation second :: duration where "second \<equiv> 1000000000"
abbreviation minute :: duration where "minute \<equiv> 60 * second"
abbreviation hour :: duration where "hour \<equiv> 60 * minute"

abbreviation (input) atSecond :: "int \<Rightarrow> gotime" where "atSecond s \<equiv> GoTime (s * second) 0"

definition zero_time :: gotime where "zero_time = GoTime 0 0"

definition is_zero :: "gotime \<Rightarrow> bool" where "is_zero t \<longleftrightarrow> ns t = 0"
definition before :: "gotime \<Rightarrow> gotime \<Rightarrow> bool" where "before t u \<longleftrightarrow> ns t < ns u"
definition after :: "gotime \<Rightarrow> gotime \<Rightarrow> bool" where "after t u \<longleftrightarrow> ns u < ns t"
definition same_instant :: "gotime \<Rightarrow> gotime \<Rightarrow> bool" where "same_instant t u \<longleftrightarrow> ns t = ns u"

definition t_add :: "gotime \<Rightarrow> duration \<Rightarrow> gotime" where
  "t_add t d = GoTime (ns t + d) (zone t)"

text \<open>\<open>Sub\<close> saturates at the largest and smallest duration.\<close>

definition t_sub :: "gotime \<Rightarrow> gotime \<Rightarrow> duration" where
  "t_sub t u = (let d = ns t - ns u in
     if d < min_int64 then min_int64 else if max_int64 < d then max_int64 else d)"

definition t_utc :: "gotime \<Rightarrow> gotime" where "t_utc t = GoTime (ns t) 0"

definition t_truncate :: "gotime \<Rightarrow> duration \<Rightarrow> gotime" where
  "t_truncate t d = (if d \<le> 0 then t else GoTime (ns t - ns t mod d) (zone t))"

definition t_nanosecond :: "gotime \<Rightarrow> int" where "t_nanosecond t = ns t mod second"

lemmas time_cmp [simp] = is_zero_def before_def after_def same_instant_def

lemma ns_simps [simp]:
  "ns zero_time = 0" "ns (t_add t d) = ns t + d" "ns (t_utc t) = ns t"
  "zone (t_add t d) = zone t" "zone (t_utc t) = 0"
  by (simp_all add: zero_time_def t_add_def t_utc_def)

lemma t_sub_exact: "in_i64 (ns t - ns u) \<Longrightarrow> t_sub t u = ns t - ns u"
  by (simp add: t_sub_def in_i64_def)

lemma t_sub_pos_iff: "0 < t_sub t u \<longleftrightarrow> ns u < ns t"
  by (auto simp: t_sub_def Let_def)

lemma t_sub_le_iff: "d < max_int64 \<Longrightarrow> min_int64 \<le> d \<Longrightarrow> t_sub t u \<le> d \<longleftrightarrow> ns t - ns u \<le> d"
  by (auto simp: t_sub_def Let_def)

section \<open>The proleptic Gregorian calendar\<close>

definition is_leap :: "int \<Rightarrow> bool" where
  "is_leap y \<longleftrightarrow> 4 dvd y \<and> (\<not> 100 dvd y \<or> 400 dvd y)"

definition days_before_year :: "int \<Rightarrow> int" where
  "days_before_year y = 365 * (y - 1) + (y - 1) div 4 - (y - 1) div 100 + (y - 1) div 400"

definition month_days :: "int \<Rightarrow> int list" where
  "month_days y = [31, if is_leap y then 29 else 28, 31, 30, 31, 30, 31, 31, 30, 31, 30, 31]"

definition days_in :: "int \<Rightarrow> int \<Rightarrow> int" where
  "days_in m y = (if 1 \<le> m \<and> m \<le> 12 then month_days y ! nat (m - 1) else 0)"

text \<open>Days since 0001-01-01 of a date.\<close>

definition days_of_civil :: "int \<Rightarrow> int \<Rightarrow> int \<Rightarrow> int" where
  "days_of_civil y m d = days_before_year y + sum_list (take (nat (m - 1)) (month_days y)) + (d - 1)"

text \<open>The year of a day number and the day within that year, by 400-, 100-, 4- and 1-year cycles.\<close>

definition year_of_days :: "int \<Rightarrow> int \<times> int" where
  "year_of_days n =
     (let n400 = n div 146097; d1 = n mod 146097;
          n100 = min 3 (d1 div 36524); d2 = d1 - 36524 * n100;
          n4 = d2 div 1461; d3 = d2 mod 1461;
          n1 = min 3 (d3 div 365)
      in (400 * n400 + 100 * n100 + 4 * n4 + n1 + 1, d3 - 365 * n1))"

fun month_of_yday :: "int list \<Rightarrow> int \<Rightarrow> int \<Rightarrow> int \<times> int" where
  "month_of_yday [] m d = (m, d + 1)"
| "month_of_yday (l # ls) m d = (if d < l then (m, d + 1) else month_of_yday ls (m + 1) (d - l))"

definition civil_of_days :: "int \<Rightarrow> int \<times> int \<times> int" where
  "civil_of_days n = (let (y, yd) = year_of_days n; (m, d) = month_of_yday (month_days y) 1 yd in (y, m, d))"

section \<open>Characters and numbers\<close>

definition is_digit :: "char \<Rightarrow> bool" where
  "is_digit c \<longleftrightarrow> 48 \<le> (of_char c :: nat) \<and> (of_char c :: nat) \<le> 57"

definition digit_val :: "char \<Rightarrow> int" where
  "digit_val c = int (of_char c) - 48"

definition digit_char :: "int \<Rightarrow> char" where
  "digit_char n = char_of (48 + nat n)"

fun dec_digits :: "nat \<Rightarrow> int \<Rightarrow> string" where
  "dec_digits 0 n = []"
| "dec_digits (Suc k) n = dec_digits k (n div 10) @ [digit_char (n mod 10)]"

definition dec_value :: "string \<Rightarrow> int" where
  "dec_value s = foldl (\<lambda>a c. 10 * a + digit_val c) 0 s"

text \<open>The number of decimal digits of a nonnegative number, and Go's zero-padded \<open>appendInt\<close>.\<close>

fun num_digits :: "nat \<Rightarrow> nat" where
  "num_digits n = (if n < 10 then 1 else Suc (num_digits (n div 10)))"

declare num_digits.simps [simp del]

definition append_int :: "int \<Rightarrow> nat \<Rightarrow> string" where
  "append_int n w = (if n < 0 then ''-'' else '''') @ dec_digits (max w (num_digits (nat \<bar>n\<bar>))) \<bar>n\<bar>"

section \<open>Parsing\<close>

fun getnum :: "bool \<Rightarrow> string \<Rightarrow> (int \<times> string) option" where
  "getnum fixed [] = None"
| "getnum fixed [c] = (if is_digit c \<and> \<not> fixed then Some (digit_val c, []) else None)"
| "getnum fixed (c # d # s) =
     (if \<not> is_digit c then None
      else if is_digit d then Some (10 * digit_val c + digit_val d, s)
      else if fixed then None else Some (digit_val c, d # s))"

fun get_year :: "string \<Rightarrow> (int \<times> string) option" where
  "get_year (a # b # c # d # s) =
     (if list_all is_digit [a, b, c, d] then Some (dec_value [a, b, c, d], s) else None)"
| "get_year _ = None"

fun skip :: "char \<Rightarrow> string \<Rightarrow> string option" where
  "skip p [] = None"
| "skip p (c # s) = (if c = p then Some s else None)"

definition frac_value :: "string \<Rightarrow> int" where
  "frac_value ds = dec_value (take 9 ds) * 10 ^ (9 - length (take 9 ds))"

fun parse_frac :: "string \<Rightarrow> int \<times> string" where
  "parse_frac (c # d # s) =
     (if (c = CHR ''.'' \<or> c = CHR '','') \<and> is_digit d
      then (frac_value (takeWhile is_digit (d # s)), dropWhile is_digit (d # s))
      else (0, c # d # s))"
| "parse_frac s = (0, s)"

fun parse_zone :: "string \<Rightarrow> (int \<times> string) option" where
  "parse_zone [] = None"
| "parse_zone (c # s) =
     (if c = CHR ''Z'' then Some (0, s)
      else case s of
        h1 # h2 # p # m1 # m2 # r \<Rightarrow>
          (if p \<noteq> CHR '':'' then None
           else case (getnum True [h1, h2], getnum True [m1, m2]) of
             (Some (h, _), Some (m, _)) \<Rightarrow>
               (if 24 < h \<or> 60 < m then None
                else if c = CHR ''+'' then Some ((h * 60 + m) * 60, r)
                else if c = CHR ''-'' then Some (- ((h * 60 + m) * 60), r)
                else None)
           | _ \<Rightarrow> None)
      | _ \<Rightarrow> None)"

definition civil_time :: "int \<Rightarrow> int \<Rightarrow> int \<Rightarrow> int \<Rightarrow> int \<Rightarrow> int \<Rightarrow> int \<Rightarrow> int \<Rightarrow> gotime" where
  "civil_time y mo d h mi s f off =
     GoTime ((days_of_civil y mo d * 86400 + h * 3600 + mi * 60 + s - off) * second + f) off"

definition parse_fields :: "string \<Rightarrow> (int \<times> int \<times> int \<times> int \<times> int \<times> int \<times> string) option" where
  "parse_fields str =
     Option.bind (get_year str) (\<lambda>(y, r1).
     Option.bind (Option.bind (skip CHR ''-'' r1) (getnum True)) (\<lambda>(mo, r2).
     Option.bind (Option.bind (skip CHR ''-'' r2) (getnum True)) (\<lambda>(d, r3).
     Option.bind (Option.bind (skip CHR ''T'' r3) (getnum False)) (\<lambda>(h, r4).
     Option.bind (Option.bind (skip CHR '':'' r4) (getnum True)) (\<lambda>(mi, r5).
     Option.bind (Option.bind (skip CHR '':'' r5) (getnum True)) (\<lambda>(s, r6).
     Some (y, mo, d, h, mi, s, r6)))))))"

definition parse_time :: "string \<Rightarrow> gotime option" where
  "parse_time str =
     Option.bind (parse_fields str) (\<lambda>(y, mo, d, h, mi, s, r).
       let (f, r') = parse_frac r in
       Option.bind (parse_zone r') (\<lambda>(off, r'').
         if r'' \<noteq> [] \<or> mo < 1 \<or> 12 < mo \<or> d < 1 \<or> days_in mo y < d \<or> 24 \<le> h \<or> 60 \<le> mi \<or> 60 \<le> s
         then None else Some (civil_time y mo d h mi s f off)))"

text \<open>\<open>t, _ := time.Parse(...)\<close>: the zero time when parsing fails.\<close>

definition parse_or_zero :: "string \<Rightarrow> gotime" where
  "parse_or_zero s = opt_default zero_time (parse_time s)"

section \<open>Formatting\<close>

definition strip_zeros :: "string \<Rightarrow> string" where
  "strip_zeros s = rev (dropWhile (\<lambda>c. c = CHR ''0'') (rev s))"

definition format_frac :: "int \<Rightarrow> string" where
  "format_frac f = (if f = 0 then '''' else CHR ''.'' # strip_zeros (dec_digits 9 f))"

definition format_zone :: "int \<Rightarrow> string" where
  "format_zone off =
     (if off = 0 then ''Z''
      else let z = go_div off 60; a = \<bar>z\<bar>
           in (if z < 0 then CHR ''-'' else CHR ''+'') # append_int (a div 60) 2 @ CHR '':'' # append_int (a mod 60) 2)"

definition format_time :: "gotime \<Rightarrow> string" where
  "format_time t =
     (let secs = ns t div second + zone t; f = ns t mod second;
          (y, mo, d) = civil_of_days (secs div 86400); r = secs mod 86400
      in append_int y 4 @ CHR ''-'' # append_int mo 2 @ CHR ''-'' # append_int d 2 @
         CHR ''T'' # append_int (r div 3600) 2 @ CHR '':'' # append_int (r mod 3600 div 60) 2 @
         CHR '':'' # append_int (r mod 60) 2 @ format_frac f @ format_zone (zone t))"

section \<open>Calendar facts\<close>

lemma days_before_year_cycles:
  assumes "y = 400 * a + 100 * b + 4 * c + e + 1" "0 \<le> b" "b \<le> 3" "0 \<le> c" "c \<le> 24" "0 \<le> e" "e \<le> 3"
  shows "days_before_year y = 146097 * a + 36524 * b + 1461 * c + 365 * e"
proof -
  have "(y - 1) div 4 = 100 * a + 25 * b + c" "(y - 1) div 100 = 4 * a + b" "(y - 1) div 400 = a"
    using assms by linarith+
  then show ?thesis by (simp add: days_before_year_def assms(1))
qed

lemma capped_div:
  assumes "0 < (k::int)" "0 \<le> n"
  shows "0 \<le> min 3 (n div k)" "min 3 (n div k) \<le> 3" "k * min 3 (n div k) \<le> n"
    "min 3 (n div k) < 3 \<Longrightarrow> n - k * min 3 (n div k) < k"
proof -
  define q where "q = n div k"
  have q: "0 \<le> q" "k * q \<le> n" "n < k * q + k"
    using mult_div_mod_eq [of k n] pos_mod_bound [OF assms(1), of n] pos_mod_sign [OF assms(1), of n]
      pos_imp_zdiv_nonneg_iff [OF assms(1), of n] assms(2)
    unfolding q_def [symmetric] by linarith+
  have m: "k * min 3 q \<le> k * q" using assms(1) by (intro mult_left_mono) auto
  show "0 \<le> min 3 (n div k)" "min 3 (n div k) \<le> 3" "k * min 3 (n div k) \<le> n"
      "min 3 (n div k) < 3 \<Longrightarrow> n - k * min 3 (n div k) < k"
    using q order_trans [OF m q(2)] unfolding q_def [symmetric] by (auto simp: min_def)
qed

lemma year_of_days_correct:
  assumes "year_of_days n = (y, yd)"
  shows "days_before_year y + yd = n" "0 \<le> yd" "yd < (if is_leap y then 366 else 365)"
proof -
  define a d1 b d2 c d3 e where "a = n div 146097" and "d1 = n mod 146097"
    and "b = min 3 (d1 div 36524)" and "d2 = d1 - 36524 * b"
    and "c = d2 div 1461" and "d3 = d2 mod 1461" and "e = min 3 (d3 div 365)"
  have y: "y = 400 * a + 100 * b + 4 * c + e + 1" and yd: "yd = d3 - 365 * e"
    using assms unfolding year_of_days_def Let_def a_def d1_def b_def d2_def c_def d3_def e_def
    by (simp_all only: prod.inject)
  have d1: "0 \<le> d1" "d1 < 146097" "n = 146097 * a + d1" by (simp_all add: d1_def a_def)
  have b: "0 \<le> b" "b \<le> 3" "36524 * b \<le> d1" "b < 3 \<Longrightarrow> d2 < 36524"
    using capped_div [of 36524 d1] d1(1) by (simp_all only: b_def d2_def)
  have d2: "0 \<le> d2" "d2 \<le> 36524" "d2 = 36524 \<Longrightarrow> b = 3"
  proof -
    show "0 \<le> d2" using b(3) by (simp add: d2_def)
    show "d2 \<le> 36524" using b d1(2) by (cases "b < 3") (auto simp: d2_def)
    show "b = 3" if "d2 = 36524" using b(2,4) that by fastforce
  qed
  have c: "0 \<le> c" "c \<le> 24" "d2 = 1461 * c + d3" "0 \<le> d3" "d3 < 1461"
    using d2(1,2) unfolding c_def d3_def by auto
  have e: "0 \<le> e" "e \<le> 3" "365 * e \<le> d3" "e < 3 \<Longrightarrow> d3 - 365 * e < 365"
    using capped_div [of 365 d3] c(4) by (simp_all only: e_def)
  show "0 \<le> yd" using e(3) yd by simp
  show "days_before_year y + yd = n"
    using days_before_year_cycles [OF y b(1,2) c(1,2) e(1,2)] d1(3) c(3) yd by (simp add: d2_def)
  show "yd < (if is_leap y then 366 else 365)"
  proof (cases "yd < 365")
    case False
    then have e3: "e = 3" "d3 = 1460" using e c(5) yd by (cases "e < 3"; simp)+
    have y4: "y = 100 * (4 * a + b) + 4 * (c + 1)" using y e3(1) by simp
    have "c = 24 \<Longrightarrow> b = 3" using c(3) e3(2) d2(3) by simp
    have "4 dvd y" using y4 by simp
    moreover have "400 dvd y" if "c = 24"
      using y4 that \<open>c = 24 \<Longrightarrow> b = 3\<close> by (simp add: dvd_def) (rule exI [of _ "a + 1"], simp)
    moreover have "\<not> 100 dvd y" if "c \<noteq> 24"
    proof
      assume "100 dvd y"
      then have "100 dvd 4 * (c + 1)" unfolding y4 by (simp only: dvd_add_right_iff dvd_triv_left)
      moreover have "0 < 4 * (c + 1)" "4 * (c + 1) < 100" using c(1,2) that by auto
      ultimately show False using zdvd_not_zless by blast
    qed
    ultimately have "is_leap y" unfolding is_leap_def by blast
    then show ?thesis using e3 yd by simp
  qed simp
qed

lemma month_of_yday_correct:
  assumes "month_of_yday ls m d = (m', d')" "0 \<le> d" "d < sum_list ls"
  shows "m \<le> m' \<and> nat (m' - m) < length ls \<and> 1 \<le> d' \<and> d' \<le> ls ! nat (m' - m) \<and>
    sum_list (take (nat (m' - m)) ls) + d' - 1 = d"
  using assms
proof (induction ls m d rule: month_of_yday.induct)
  case (2 l ls m d)
  show ?case
  proof (cases "d < l")
    case False
    with "2.prems" have ih: "m + 1 \<le> m' \<and> nat (m' - (m + 1)) < length ls \<and> 1 \<le> d' \<and>
        d' \<le> ls ! nat (m' - (m + 1)) \<and> sum_list (take (nat (m' - (m + 1))) ls) + d' - 1 = d - l"
      by (intro "2.IH") auto
    moreover from ih have "nat (m' - m) = Suc (nat (m' - (m + 1)))"
      by (simp add: Suc_nat_eq_nat_zadd1)
    ultimately show ?thesis by simp
  qed (use "2.prems" in auto)
qed simp

lemma sum_month_days: "sum_list (month_days y) = (if is_leap y then 366 else 365)"
  by (simp add: month_days_def)

lemma civil_of_days_correct:
  assumes "civil_of_days n = (y, m, d)"
  shows "1 \<le> m" "m \<le> 12" "1 \<le> d" "d \<le> days_in m y" "days_of_civil y m d = n"
proof -
  obtain yd where yd: "year_of_days n = (y, yd)" "month_of_yday (month_days y) 1 yd = (m, d)"
    using assms by (auto simp: civil_of_days_def split: prod.splits)
  note yc = year_of_days_correct [OF yd(1)]
  have mc: "1 \<le> m \<and> nat (m - 1) < length (month_days y) \<and> 1 \<le> d \<and> d \<le> month_days y ! nat (m - 1) \<and>
      sum_list (take (nat (m - 1)) (month_days y)) + d - 1 = yd"
    using yc by (intro month_of_yday_correct [OF yd(2)]) (auto simp: sum_month_days)
  moreover have "length (month_days y) = 12" by (simp add: month_days_def)
  ultimately show "1 \<le> m" "m \<le> 12" "1 \<le> d" "d \<le> days_in m y" "days_of_civil y m d = n"
    using yc(1) by (auto simp: days_in_def days_of_civil_def)
qed

section \<open>Parsing what was formatted\<close>

lemma digit_char_val [simp]: "0 \<le> n \<Longrightarrow> n < 10 \<Longrightarrow> digit_val (digit_char n) = n"
  by (simp add: digit_val_def digit_char_def)

lemma is_digit_digit_char [simp]: "0 \<le> n \<Longrightarrow> n < 10 \<Longrightarrow> is_digit (digit_char n)"
  by (simp add: is_digit_def digit_char_def nat_less_iff)

lemma length_dec_digits [simp]: "length (dec_digits k n) = k"
  by (induction k arbitrary: n) auto

lemma dec_digits_all_digits: "0 \<le> n \<Longrightarrow> c \<in> set (dec_digits k n) \<Longrightarrow> is_digit c"
proof (induction k arbitrary: n)
  case (Suc k)
  have "0 \<le> n div 10" using Suc.prems(1) by simp
  with Suc show ?case by auto
qed simp

lemma dec_value_append: "dec_value (s @ [c]) = 10 * dec_value s + digit_val c"
  by (simp add: dec_value_def)

lemma dec_value_dec_digits: "0 \<le> n \<Longrightarrow> n < 10 ^ k \<Longrightarrow> dec_value (dec_digits k n) = n"
proof (induction k arbitrary: n)
  case 0
  then show ?case by (simp add: dec_value_def)
next
  case (Suc k)
  then have "n div 10 < 10 ^ k" by (simp add: div_less_iff_less_mult mult.commute)
  with Suc show ?case by (simp add: dec_value_append)
qed

lemma num_digits_le: "n < 10 ^ k \<Longrightarrow> 0 < k \<Longrightarrow> num_digits n \<le> k"
proof (induction k arbitrary: n)
  case (Suc k)
  show ?case
  proof (cases "n < 10")
    case False
    with Suc.prems have "0 < k" by (cases k) auto
    moreover have "n div 10 < 10 ^ k"
      using Suc.prems by (simp add: div_less_iff_less_mult mult.commute)
    ultimately show ?thesis using Suc.IH False by (simp add: num_digits.simps [of n])
  qed (simp add: num_digits.simps [of n])
qed simp

lemma append_int_eq:
  assumes "0 \<le> n" "n < 10 ^ w" "0 < w"
  shows "append_int n w = dec_digits w n"
proof -
  have "nat n < 10 ^ w" using assms(1,2) by (simp add: nat_less_iff)
  then show ?thesis using num_digits_le [of "nat n" w] assms by (simp add: append_int_def max_absorb1)
qed

lemma append_int_2: "0 \<le> n \<Longrightarrow> n < 100 \<Longrightarrow> append_int n 2 = [digit_char (n div 10), digit_char (n mod 10)]"
  by (simp add: append_int_eq numeral_2_eq_2)

lemma getnum_append_int [simp]: "0 \<le> n \<Longrightarrow> n < 100 \<Longrightarrow> getnum b (append_int n 2 @ s) = Some (n, s)"
  by (simp add: append_int_2)

lemma getnum_append_int' [simp]: "0 \<le> n \<Longrightarrow> n < 100 \<Longrightarrow> getnum b (append_int n 2) = Some (n, [])"
  using getnum_append_int [of n b "[]"] by simp

lemma get_year_append_int [simp]:
  assumes "0 \<le> y" "y \<le> 9999"
  shows "get_year (append_int y 4 @ s) = Some (y, s)"
proof -
  have eq: "append_int y 4 = dec_digits 4 y" using assms by (intro append_int_eq) auto
  then obtain a b c d where abcd: "append_int y 4 = [a, b, c, d]"
    by (auto simp: numeral_eq_Suc)
  have "\<forall>x \<in> set [a, b, c, d]. is_digit x"
    using dec_digits_all_digits assms(1) abcd eq by metis
  moreover have "dec_value [a, b, c, d] = y"
    using dec_value_dec_digits [of y 4] assms abcd eq by simp
  ultimately show ?thesis using abcd by simp
qed

lemma skip_Cons [simp]: "skip p (p # s) = Some s"
  by simp

lemma dec_value_zeros: "dec_value (s @ replicate k CHR ''0'') = dec_value s * 10 ^ k"
  by (induction k arbitrary: s) (auto simp: dec_value_def digit_val_def simp flip: replicate_append_same append_assoc)

lemma strip_zeros_decomp: "\<exists>k. s = strip_zeros s @ replicate k CHR ''0''"
proof -
  have "rev s = takeWhile (\<lambda>c. c = CHR ''0'') (rev s) @ dropWhile (\<lambda>c. c = CHR ''0'') (rev s)" by simp
  moreover have "takeWhile (\<lambda>c. c = CHR ''0'') xs = replicate (length (takeWhile (\<lambda>c. c = CHR ''0'') xs)) CHR ''0''"
    for xs by (induction xs) auto
  ultimately have "s = strip_zeros s @ replicate (length (takeWhile (\<lambda>c. c = CHR ''0'') (rev s))) CHR ''0''"
    unfolding strip_zeros_def by (metis rev_append rev_replicate rev_rev_ident)
  then show ?thesis ..
qed

lemma frac_value_strip:
  assumes "0 \<le> f" "f < second"
  shows "frac_value (strip_zeros (dec_digits 9 f)) = f" "f \<noteq> 0 \<Longrightarrow> strip_zeros (dec_digits 9 f) \<noteq> []"
    "list_all is_digit (strip_zeros (dec_digits 9 f))"
proof -
  let ?d = "dec_digits 9 f"
  obtain k where k: "?d = strip_zeros ?d @ replicate k CHR ''0''" using strip_zeros_decomp by blast
  then have len: "length (strip_zeros ?d) + k = 9" by (metis length_append length_dec_digits length_replicate)
  have v: "dec_value (strip_zeros ?d) * 10 ^ k = f"
    using dec_value_dec_digits [of f 9] assms k dec_value_zeros [of "strip_zeros ?d" k] by simp
  have "9 - length (strip_zeros ?d) = k" "length (strip_zeros ?d) \<le> 9" using len by auto
  then show "frac_value (strip_zeros ?d) = f" using v by (simp add: frac_value_def)
  show "strip_zeros ?d \<noteq> []" if "f \<noteq> 0" using v that by (auto simp: dec_value_def)
  show "list_all is_digit (strip_zeros ?d)"
    using k dec_digits_all_digits [OF assms(1), of _ 9] by (metis Un_iff list_all_iff set_append)
qed

lemma parse_frac_format:
  assumes "0 \<le> f" "f < second" and z: "\<not> is_digit c" "c \<noteq> CHR ''.''" "c \<noteq> CHR '',''"
  shows "parse_frac (format_frac f @ c # s) = (f, c # s)"
proof (cases "f = 0")
  case True
  then show ?thesis using z by (cases s) (auto simp: format_frac_def)
next
  case False
  let ?d = "strip_zeros (dec_digits 9 f)"
  note fr = frac_value_strip [OF assms(1,2)]
  obtain x xs where x: "?d = x # xs" using fr(2) [OF False] by (cases ?d) auto
  have "takeWhile is_digit (?d @ c # s) = ?d" "dropWhile is_digit (?d @ c # s) = c # s"
    using fr(3) z(1) by (auto simp: list_all_iff takeWhile_append dropWhile_append)
  then show ?thesis using fr(1,3) False x by (simp add: format_frac_def)
qed

definition zone_ok :: "int \<Rightarrow> bool" where
  "zone_ok off \<longleftrightarrow> off mod 60 = 0 \<and> - 90000 < off \<and> off < 90000"

lemma zone_split:
  assumes "zone_ok off" "off \<noteq> 0"
  shows "\<bar>go_div off 60\<bar> * 60 = \<bar>off\<bar>" "go_div off 60 < 0 \<longleftrightarrow> off < 0" "\<bar>go_div off 60\<bar> < 1500"
proof -
  obtain k where k: "off = 60 * k" using assms(1) unfolding zone_ok_def by (auto elim!: dvdE simp: mod_eq_0_iff_dvd)
  then have "go_div off 60 = k"
    using assms(2) by (simp add: go_div_def abs_mult sgn_mult sgn_mult_abs)
  then show "\<bar>go_div off 60\<bar> * 60 = \<bar>off\<bar>" "go_div off 60 < 0 \<longleftrightarrow> off < 0" "\<bar>go_div off 60\<bar> < 1500"
    using k assms(1) by (auto simp: abs_mult zone_ok_def)
qed

lemma parse_zone_format:
  assumes "zone_ok off"
  shows "parse_zone (format_zone off) = Some (off, [])"
proof (cases "off = 0")
  case True
  then show ?thesis by (simp add: format_zone_def)
next
  case False
  note z = zone_split [OF assms False]
  define a where "a = \<bar>go_div off 60\<bar>"
  have a: "0 \<le> a" "a div 60 \<le> 24" "0 \<le> a div 60" using z(3) by (auto simp: a_def)
  have h: "append_int (a div 60) 2 = [digit_char (a div 60 div 10), digit_char (a div 60 mod 10)]"
      "append_int (a mod 60) 2 = [digit_char (a mod 60 div 10), digit_char (a mod 60 mod 10)]"
    using a by (auto intro!: append_int_2)
  have v: "10 * (a div 60 div 10) + a div 60 mod 10 = a div 60" "10 * (a mod 60 div 10) + a mod 60 mod 10 = a mod 60"
    by auto
  have off: "(a div 60 * 60 + a mod 60) * 60 = \<bar>off\<bar>" using z(1) by (simp add: a_def)
  have g: "getnum True [digit_char (a div 60 div 10), digit_char (a div 60 mod 10)] = Some (a div 60, [])"
      "getnum True [digit_char (a mod 60 div 10), digit_char (a mod 60 mod 10)] = Some (a mod 60, [])"
    using a v by simp_all
  have m: "a mod 60 \<le> 60" by (simp add: less_imp_le)
  show ?thesis
  proof (cases "off < 0")
    case True
    then have "format_zone off = CHR ''-'' # digit_char (a div 60 div 10) # digit_char (a div 60 mod 10) #
        CHR '':'' # digit_char (a mod 60 div 10) # [digit_char (a mod 60 mod 10)]"
      using False z(2) h by (simp add: format_zone_def Let_def a_def)
    then show ?thesis using g a(2) m off True by (simp del: getnum.simps)
  next
    case pos: False
    then have "format_zone off = CHR ''+'' # digit_char (a div 60 div 10) # digit_char (a div 60 mod 10) #
        CHR '':'' # digit_char (a mod 60 div 10) # [digit_char (a mod 60 mod 10)]"
      using False z(2) h by (simp add: format_zone_def Let_def a_def)
    then show ?thesis using g a(2) m off pos by (simp del: getnum.simps)
  qed
qed

lemma format_zone_head: "\<exists>c s. format_zone off = c # s \<and> \<not> is_digit c \<and> c \<noteq> CHR ''.'' \<and> c \<noteq> CHR '',''"
  by (auto simp: format_zone_def Let_def is_digit_def)

text \<open>
  A formatted time parses back to itself, zone included, as long as its local year has four
  digits and its zone is a whole number of minutes.
\<close>

definition formattable :: "gotime \<Rightarrow> bool" where
  "formattable t \<longleftrightarrow> zone_ok (zone t) \<and>
     (case civil_of_days ((ns t div second + zone t) div 86400) of (y, _, _) \<Rightarrow> 0 \<le> y \<and> y \<le> 9999)"

lemma parse_time_fields:
  assumes "0 \<le> y" "y \<le> 9999" "1 \<le> mo" "mo \<le> 12" "1 \<le> d" "d \<le> days_in mo y"
    and "0 \<le> h" "h < 24" "0 \<le> mi" "mi < 60" "0 \<le> s" "s < 60"
    and "0 \<le> f" "f < second" "zone_ok off"
  shows "parse_time (append_int y 4 @ CHR ''-'' # append_int mo 2 @ CHR ''-'' # append_int d 2 @
      CHR ''T'' # append_int h 2 @ CHR '':'' # append_int mi 2 @ CHR '':'' # append_int s 2 @
      format_frac f @ format_zone off) = Some (civil_time y mo d h mi s f off)"
proof -
  have "days_in mo y \<le> 31"
    using assms(3,4) by (auto simp: days_in_def month_days_def nth_Cons' split: if_splits)
  then have d: "d < 100" using assms(6) by simp
  obtain zc zs where zz: "format_zone off = zc # zs" "\<not> is_digit zc" "zc \<noteq> CHR ''.''" "zc \<noteq> CHR '',''"
    using format_zone_head by blast
  have "parse_frac (format_frac f @ format_zone off) = (f, format_zone off)"
    using parse_frac_format [OF assms(13,14) zz(2-4)] zz(1) by simp
  then show ?thesis
    using assms(1-12) d parse_zone_format [OF assms(15)] by (simp add: parse_time_def parse_fields_def)
qed

lemma hms_split: "(r::int) div 3600 * 3600 + r mod 3600 div 60 * 60 + r mod 60 = r"
proof -
  have "r mod 3600 mod 60 = r mod 60" by (simp add: mod_mod_cancel)
  then show ?thesis
    using div_mult_mod_eq [of "r mod 3600" 60] div_mult_mod_eq [of r 3600] by linarith
qed

lemma parse_format_time:
  assumes "formattable t"
  shows "parse_time (format_time t) = Some t"
proof -
  define secs f r h mi s where "secs = ns t div second + zone t" and "f = ns t mod second"
    and "r = secs mod 86400" and "h = r div 3600" and "mi = r mod 3600 div 60" and "s = r mod 60"
  obtain y mo d where c: "civil_of_days (secs div 86400) = (y, mo, d)" by (metis prod_cases3)
  note cc = civil_of_days_correct [OF c]
  have y: "0 \<le> y" "y \<le> 9999" "zone_ok (zone t)"
    using assms c by (auto simp: formattable_def secs_def)
  have b: "0 \<le> h" "h < 24" "0 \<le> mi" "mi < 60" "0 \<le> s" "s < 60" "0 \<le> f" "f < second"
    by (simp_all add: h_def mi_def s_def f_def r_def div_less_iff_less_mult)
  have "format_time t = append_int y 4 @ CHR ''-'' # append_int mo 2 @ CHR ''-'' # append_int d 2 @
      CHR ''T'' # append_int h 2 @ CHR '':'' # append_int mi 2 @ CHR '':'' # append_int s 2 @
      format_frac f @ format_zone (zone t)"
    using c unfolding format_time_def secs_def f_def r_def h_def mi_def s_def by (simp add: Let_def)
  then have "parse_time (format_time t) = Some (civil_time y mo d h mi s f (zone t))"
    using parse_time_fields [OF y(1,2) cc(1-4) b y(3)] by simp
  moreover have "civil_time y mo d h mi s f (zone t) = t"
  proof -
    have "days_of_civil y mo d * 86400 + h * 3600 + mi * 60 + s = secs"
      using cc(5) hms_split [of r] div_mult_mod_eq [of secs 86400]
      by (simp only: h_def mi_def s_def r_def)
    then show ?thesis by (cases t) (simp add: civil_time_def secs_def f_def)
  qed
  ultimately show ?thesis by simp
qed

text \<open>RFC3339Nano text is short: 19 characters of date and time, at most ten of fraction and six of zone.\<close>

lemma length_append_int: "0 \<le> n \<Longrightarrow> n < 10 ^ w \<Longrightarrow> 0 < w \<Longrightarrow> length (append_int n w) = w"
  by (simp add: append_int_eq)

lemma length_format_zone:
  assumes "zone_ok off"
  shows "length (format_zone off) \<le> 6"
proof (cases "off = 0")
  case False
  define a where "a = \<bar>go_div off 60\<bar>"
  have "0 \<le> a" "a < 1500" using zone_split(3) [OF assms False] by (auto simp: a_def)
  then have "0 \<le> a div 60" "a div 60 < 100" "0 \<le> a mod 60" "a mod 60 < 60" by simp_all
  then have "length (append_int (a div 60) 2) = 2" "length (append_int (a mod 60) 2) = 2"
    by (simp_all add: length_append_int)
  then show ?thesis using False by (simp add: format_zone_def Let_def a_def)
qed (simp add: format_zone_def)

lemma length_format_frac: "length (format_frac f) \<le> 10"
proof -
  have "length (strip_zeros (dec_digits 9 f)) \<le> 9"
    unfolding strip_zeros_def length_rev by (rule order_trans [OF length_dropWhile_le]) simp
  then show ?thesis by (simp add: format_frac_def)
qed

lemma length_fields:
  assumes "0 \<le> y" "y \<le> 9999" "1 \<le> mo" "mo \<le> 12" "1 \<le> d" "d \<le> 31"
    and "0 \<le> h" "h < 24" "0 \<le> mi" "mi < 60" "0 \<le> s" "s < 60" "zone_ok off"
  shows "length (append_int y 4 @ CHR ''-'' # append_int mo 2 @ CHR ''-'' # append_int d 2 @
      CHR ''T'' # append_int h 2 @ CHR '':'' # append_int mi 2 @ CHR '':'' # append_int s 2 @
      format_frac f @ format_zone off) \<le> 35"
proof -
  have "length (append_int y 4) = 4" using assms(1,2) by (simp add: length_append_int)
  moreover have "length (append_int x 2) = 2" if "0 \<le> x" "x < 100" for x using that by (simp add: length_append_int)
  ultimately show ?thesis
    using assms length_format_zone [OF assms(13)] length_format_frac [of f] by simp
qed

lemma length_format_time:
  assumes "formattable t"
  shows "length (format_time t) \<le> 35"
proof -
  define secs f r h mi s where "secs = ns t div second + zone t" and "f = ns t mod second"
    and "r = secs mod 86400" and "h = r div 3600" and "mi = r mod 3600 div 60" and "s = r mod 60"
  obtain y mo d where c: "civil_of_days (secs div 86400) = (y, mo, d)" by (metis prod_cases3)
  note cc = civil_of_days_correct [OF c]
  have y: "0 \<le> y" "y \<le> 9999" "zone_ok (zone t)"
    using assms c by (auto simp: formattable_def secs_def)
  have "days_in mo y \<le> 31"
    using cc(1,2) by (auto simp: days_in_def month_days_def nth_Cons' split: if_splits)
  then have d: "d \<le> 31" using cc(4) by simp
  have b: "0 \<le> h" "h < 24" "0 \<le> mi" "mi < 60" "0 \<le> s" "s < 60"
    by (simp_all add: h_def mi_def s_def r_def div_less_iff_less_mult)
  have "format_time t = append_int y 4 @ CHR ''-'' # append_int mo 2 @ CHR ''-'' # append_int d 2 @
      CHR ''T'' # append_int h 2 @ CHR '':'' # append_int mi 2 @ CHR '':'' # append_int s 2 @
      format_frac f @ format_zone (zone t)"
    using c unfolding format_time_def secs_def f_def r_def h_def mi_def s_def by (simp add: Let_def)
  then show ?thesis using length_fields [OF y(1,2) cc(1-3) d b y(3)] by (simp only:)
qed

end
