(* ===== verification/ApiTypes.thy ===== *)
theory ApiTypes
  imports Float64 GoTime
begin

text \<open>
  The data of \<open>src/api/v1alpha1\<close>: one record per struct, with the source's field names behind a
  short prefix (Isabelle's fields share one name space), in the order of the source, and the
  defaulting functions of \<open>defaults.go\<close>, \<open>rollout.go\<close> and \<open>forecast_reliability.go\<close>. A nil-able
  pointer, and a slice whose nil-ness the code tests, is an \<open>option\<close>; a deep copy is the value
  itself. The Kubernetes structs the source reads are records too; they model no code.
\<close>

section \<open>Durations in seconds\<close>

text \<open>\<open>Duration.Seconds\<close>: whole seconds and the nanosecond rest, each converted exactly.\<close>

definition d_seconds :: "duration \<Rightarrow> float64" where
  "d_seconds d = (let sec = go_div d second; nsec = d - sec * second
     in f_add (f_of_int sec) (f_div (f_of_int nsec) (f_of_int second)))"

section \<open>Kubernetes structs the source reads\<close>

record HPAScalingPolicy =
  pol_type :: string
  pol_value :: int32
  pol_periodSeconds :: int32

record HPAScalingRules =
  sr_stabilizationWindowSeconds :: "int32 option"
  sr_selectPolicy :: "string option"
  sr_policies :: "HPAScalingPolicy list option"

record Behavior =
  b_scaleUp :: "HPAScalingRules option"
  b_scaleDown :: "HPAScalingRules option"

record ObjectReference =
  ref_kind :: string
  ref_name :: string
  ref_apiVersion :: string

type_synonym quantity = rat

record MetricTarget =
  mt_type :: string
  mt_value :: "quantity option"
  mt_averageValue :: "quantity option"
  mt_averageUtilization :: "int32 option"

text \<open>A label selector is only handed to the Kubernetes library: it stays an opaque string.\<close>

record MetricIdentifier =
  mi_name :: string
  mi_selector :: string

record MetricSpec =
  ms_type :: string
  ms_resource :: "(string \<times> MetricTarget) option"
  ms_containerResource :: "string option"
  ms_pods :: "(MetricIdentifier \<times> MetricTarget) option"
  ms_object :: "(ObjectReference \<times> MetricIdentifier \<times> MetricTarget) option"
  ms_external :: "(MetricIdentifier \<times> MetricTarget) option"

record Condition =
  cond_type :: string
  cond_status :: string
  cond_reason :: string
  cond_message :: string
  cond_observedGeneration :: int64
  cond_lastTransitionTime :: gotime

text \<open>Reported metric values are copied, never read.\<close>

type_synonym MetricStatus = string

section \<open>Model configurations\<close>

record HTTPHook =
  hh_method :: string
  hh_url :: string
  hh_headers :: "(string \<times> string) list"
  hh_successCodes :: "int64 list"
  hh_parameterMode :: string

record HookDefinition =
  hd_type :: string
  hd_timeout :: int64
  hd_http :: "HTTPHook option"

record Linear =
  lin_historySize :: int64
  lin_lookAhead :: int64

record HoltWinters =
  hw_lookAhead :: "int64 option"
  hw_alpha :: "float64 option"
  hw_beta :: "float64 option"
  hw_gamma :: "float64 option"
  hw_trend :: string
  hw_seasonal :: string
  hw_seasonalPeriods :: int64
  hw_storedSeasons :: int64
  hw_dampedTrend :: "bool option"
  hw_initializationMethod :: "string option"
  hw_initialLevel :: "float64 option"
  hw_initialTrend :: "float64 option"
  hw_initialSeasonal :: "float64 option"
  hw_runtimeTuningFetchHook :: "HookDefinition option"

record XGBoost =
  xgb_useUtilizationFeatures :: "bool option"
  xgb_seasonalFeatures :: bool
  xgb_forecastAggregation :: string
  xgb_forecastStrategy :: string
  xgb_historySize :: int64
  xgb_lookAhead :: int64
  xgb_lags :: int64
  xgb_windowSize :: "int64 option"
  xgb_maxDepth :: "int64 option"
  xgb_nEstimators :: "int64 option"
  xgb_learningRate :: "float64 option"
  xgb_subsample :: "float64 option"
  xgb_colsampleBytree :: "float64 option"
  xgb_objective :: "string option"
  xgb_quantileAlpha :: "float64 option"
  xgb_cpuDemandWeightExponent :: "float64 option"
  xgb_aftLossDistributionScale :: "float64 option"
  xgb_cpuCensoringUtilizationThreshold :: "float64 option"
  xgb_minChildWeight :: "float64 option"
  xgb_gamma :: "float64 option"
  xgb_regLambda :: "float64 option"
  xgb_regAlpha :: "float64 option"

record LightGBM =
  lgb_useUtilizationFeatures :: "bool option"
  lgb_historySize :: int64
  lgb_lookAhead :: int64
  lgb_lags :: int64
  lgb_windowSize :: "int64 option"
  lgb_maxDepth :: "int64 option"
  lgb_nEstimators :: "int64 option"
  lgb_learningRate :: "float64 option"
  lgb_subsample :: "float64 option"
  lgb_colsampleBytree :: "float64 option"
  lgb_objective :: "string option"
  lgb_numLeaves :: "int64 option"
  lgb_minChildSamples :: "int64 option"
  lgb_regLambda :: "float64 option"
  lgb_regAlpha :: "float64 option"

record Arima =
  ar_order :: "int64 list"
  ar_lookAhead :: int64
  ar_trend :: "string option"
  ar_autoArima :: "bool option"
  ar_informationCriterion :: "string option"
  ar_maxOrder :: "int64 list option"
  ar_enforceStationarity :: "bool option"
  ar_enforceInvertibility :: "bool option"
  ar_concentrateScale :: "bool option"
  ar_useSarima :: "bool option"
  ar_seasonalOrder :: "int64 list option"
  ar_seasonalPeriods :: "int64 option"
  ar_historySize :: "int64 option"
  ar_incrementalUpdates :: "bool option"
  ar_refitEvery :: "int64 option"

record PredictivePolicy =
  pp_scaleUpLeadSeconds :: int32
  pp_tolerance :: "float64 option"
  pp_scaleUpLeadFromStartup :: bool

record CPUForecastPoint =
  fp_at :: string
  fp_until :: string
  fp_cpu :: int64

section \<open>Request demand and reliability\<close>

record TrafficProviderConfig =
  tp_provider :: string
  tp_namespaceLabel :: string
  tp_podLabel :: string
  tp_podUIDLabel :: string
  tp_arrivalsMetric :: string
  tp_completionsMetric :: string
  tp_arrivalSemantics :: string
  tp_completionSemantics :: string
  tp_retrySemantics :: string
  tp_additionalLabels :: "(string \<times> string) list"
  tp_errorsMetric :: string
  tp_outcomesMetric :: string
  tp_latencyBucketMetric :: string
  tp_maxAgeSeconds :: int64

record DemandExtraMetric =
  dx_name :: string
  dx_metric :: string
  dx_unit :: string
  dx_kind :: string
  dx_maxAgeSeconds :: int64

record RequestDemandConfig =
  rd_traffic :: TrafficProviderConfig
  rd_forecastIntervalSeconds :: int64
  rd_forecastTarget :: string
  rd_extraMetrics :: "DemandExtraMetric list"

record ForecastReliabilityPolicy =
  frp_calibrationSamples :: int64
  frp_window :: int64
  frp_breaches :: int64
  frp_minimumRelativeError :: float64

record ForecastVerification =
  fv_at :: string
  fv_until :: string
  fv_issuedAt :: string
  fv_cpu :: int64
  fv_leadMilliseconds :: int64

record ForecastReliabilityState =
  frs_fingerprint :: string
  frs_leadMilliseconds :: int64
  frs_pending :: "ForecastVerification list"
  frs_baseline :: "float64 list"
  frs_recent :: "float64 list"
  frs_lastObservationTime :: string
  frs_lastEvaluationTime :: string
  frs_lastIntervalEnd :: string
  frs_errorBound :: float64
  frs_degraded :: bool
  frs_adaptationPending :: bool
  frs_adaptation :: string

record ForecastReliabilityStatus =
  frt_state :: string
  frt_calibrationSamples :: int64
  frt_recentSamples :: int64
  frt_underpredictions :: int64
  frt_overpredictions :: int64
  frt_errorBound :: float64
  frt_adaptationPending :: bool
  frt_adaptation :: string

section \<open>Models, histories, decisions\<close>

record Model =
  m_requestDemand :: "RequestDemandConfig option"
  m_forecastReliability :: "ForecastReliabilityPolicy option"
  m_predictivePolicy :: "PredictivePolicy option"
  m_type :: string
  m_name :: string
  m_sessionID :: string
  m_cpuRequestPerPodMillicores :: int64
  m_targetCPUUtilizationPercentage :: int32
  m_startInterval :: "duration option"
  m_resetDuration :: "duration option"
  m_calculationTimeout :: "int64 option"
  m_perSyncPeriod :: "int64 option"
  m_predictionMaxAge :: "int64 option"
  m_historyMaxAge :: "int64 option"
  m_linear :: "Linear option"
  m_holtWinters :: "HoltWinters option"
  m_arima :: "Arima option"
  m_xgboost :: "XGBoost option"
  m_lightgbm :: "LightGBM option"

record TimestampedSample =
  ts_time :: "gotime option"
  ts_replicas :: int32
  ts_metric :: "float64 option"
  ts_totalCPUUsageMillicores :: "int64 option"
  ts_requestPerPodMillicores :: "int64 option"
  ts_targetCPUUtilizationPercentage :: "int32 option"

record ScaleDecision =
  sd_id :: string
  sd_ownerUID :: string
  sd_target :: ObjectReference
  sd_targetUID :: string
  sd_resourceVersion :: string
  sd_previousDesired :: int32
  sd_desired :: int32
  sd_observed :: int32
  sd_time :: gotime
  sd_scaleUpRecommendations :: "TimestampedSample list"
  sd_scaleDownRecommendations :: "TimestampedSample list"

record ModelFailureState =
  mf_fingerprint :: string
  mf_consecutiveFailures :: int32
  mf_failedAt :: gotime
  mf_retryAfter :: gotime

record CachedPrediction =
  cp_trajectory :: "CPUForecastPoint list"
  cp_replicas :: int32
  cp_fingerprint :: string
  cp_consumedUntil :: gotime
  cp_completedAt :: gotime
  cp_expiresAt :: gotime
  cp_historyStart :: "gotime option"

record ModelHistory =
  mh_reliability :: "ForecastReliabilityState option"
  mh_lastObservationID :: string
  mh_lastObservationTime :: string
  mh_historyEpoch :: int64
  mh_lastSampleTime :: "gotime option"
  mh_type :: string
  mh_syncPeriodsPassed :: int64
  mh_replicaHistory :: "TimestampedSample list"
  mh_startTime :: "gotime option"
  mh_lastModelRunTime :: "gotime option"
  mh_cachedPrediction :: "CachedPrediction option"
  mh_failureState :: "ModelFailureState option"

record HPAPlusData =
  d_cpuHistorySource :: string
  d_schemaVersion :: int64
  d_targetIdentity :: string
  d_modelHistories :: "string \<rightharpoonup> ModelHistory"
  d_pendingScale :: "ScaleDecision option"

record HPAPlusSpec =
  s_predictionFailurePolicy :: string
  s_mode :: "string option"
  s_scaleTargetRef :: ObjectReference
  s_minReplicas :: "int32 option"
  s_maxReplicas :: int32
  s_metrics :: "MetricSpec list"
  s_behavior :: "Behavior option"
  s_cpuInitializationPeriod :: "int64 option"
  s_initialReadinessDelay :: "int64 option"
  s_tolerance :: "float64 option"
  s_syncPeriod :: "int64 option"
  s_metricMaxAge :: "int64 option"
  s_models :: "Model list"
  s_decisionType :: "string option"
  s_includeHPA :: "bool option"

record RequestDemandStatus =
  rs_state :: string
  rs_source :: string
  rs_fallbackReason :: string
  rs_cpuSecondsPerRequest :: float64
  rs_backgroundCoresPerPod :: float64
  rs_qualifiedSamples :: int64
  rs_version :: nat
  rs_lastObservationAt :: "gotime option"
  rs_freshUntil :: "gotime option"
  rs_target :: string
  rs_measuredCores :: float64
  rs_reconstructedCores :: float64
  rs_reconstructionFallbacks :: int64
  rs_forecastOnlyReplicas :: int32
  rs_floorReplicas :: int32
  rs_decidedBy :: string

record ModelStatus =
  mst_requestDemand :: "RequestDemandStatus option"
  mst_reliability :: "ForecastReliabilityStatus option"
  mst_lastAttemptTime :: "gotime option"
  mst_lastSuccessTime :: "gotime option"
  mst_lastRunDurationMilliseconds :: "int64 option"
  mst_lastRunOutcome :: string
  mst_name :: string
  mst_state :: string
  mst_historySamples :: int64
  mst_requiredSamples :: int64
  mst_forecastReplicas :: "int32 option"
  mst_consumedUntil :: "gotime option"
  mst_expiresAt :: "gotime option"
  mst_consecutiveFailures :: int32
  mst_retryAfter :: "gotime option"

record DecisionCandidate =
  dc_model :: string
  dc_replicas :: int32

record DecisionEvidence =
  de_models :: "ModelStatus list"
  de_modelsOmitted :: int32
  de_selectedReplicas :: int32
  de_guardedReplicas :: int32
  de_baselineIncluded :: bool
  de_constraints :: "string list"
  de_candidates :: "DecisionCandidate list"
  de_candidatesOmitted :: int32

record DecisionStatus =
  ds_evidence :: "DecisionEvidence option"
  ds_id :: string
  ds_mode :: string
  ds_candidateMode :: string
  ds_scaleWrite :: string
  ds_evaluatedAt :: gotime
  ds_observedGeneration :: int64
  ds_targetUID :: string
  ds_requestedReplicas :: int32
  ds_observedReplicas :: int32
  ds_baselineReplicas :: int32
  ds_baselineDesiredReplicas :: int32
  ds_controlDesiredReplicas :: int32
  ds_desiredReplicas :: int32

record HistoryCapacityStatus =
  hc_projectedStateBytes :: int64
  hc_projectedJournalBytes :: int64
  hc_currentStateBytes :: int64
  hc_currentJournalBytes :: int64
  hc_stateBudgetBytes :: int64
  hc_journalBudgetBytes :: int64

record HPAPlusStatus =
  st_lastDecision :: "DecisionStatus option"
  st_historyCapacity :: "HistoryCapacityStatus option"
  st_observedGeneration :: int64
  st_conditions :: "Condition list"
  st_modelStatuses :: "ModelStatus list"
  st_modelStatusesOmitted :: int32
  st_targetIdentity :: string
  st_lastScaleDecisionID :: string
  st_lastScaleTime :: "gotime option"
  st_scaleUpReplicaHistory :: "TimestampedSample list"
  st_scaleDownReplicaHistory :: "TimestampedSample list"
  st_scaleUpEventHistory :: "TimestampedSample list"
  st_scaleDownEventHistory :: "TimestampedSample list"
  st_reference :: string
  st_currentReplicas :: int32
  st_desiredReplicas :: int32
  st_currentMetrics :: "MetricStatus list"
  st_currentMetricsOmitted :: int32

text \<open>The object: the metadata the code reads, the specification and the status.\<close>

record HPAPlus =
  h_namespace :: string
  h_name :: string
  h_uid :: string
  h_generation :: int64
  h_deletionTimestamp :: "gotime option"
  h_spec :: HPAPlusSpec
  h_status :: HPAPlusStatus

section \<open>Constants\<close>

abbreviation DecisionMaximum :: string where "DecisionMaximum \<equiv> ''maximum''"
abbreviation DecisionMinimum :: string where "DecisionMinimum \<equiv> ''minimum''"
abbreviation DecisionMean :: string where "DecisionMean \<equiv> ''mean''"
abbreviation DecisionMedian :: string where "DecisionMedian \<equiv> ''median''"

abbreviation TypeHoltWinters :: string where "TypeHoltWinters \<equiv> ''HoltWinters''"
abbreviation TypeLinear :: string where "TypeLinear \<equiv> ''Linear''"
abbreviation TypeArima :: string where "TypeArima \<equiv> ''ARIMA''"
abbreviation TypeXGBoost :: string where "TypeXGBoost \<equiv> ''XGBoost''"
abbreviation TypeLightGBM :: string where "TypeLightGBM \<equiv> ''LightGBM''"

abbreviation ModeObserve :: string where "ModeObserve \<equiv> ''observe''"
abbreviation ModeAssist :: string where "ModeAssist \<equiv> ''assist''"
abbreviation ModeControl :: string where "ModeControl \<equiv> ''control''"

abbreviation PredictionFailureHoldCurrent :: string where "PredictionFailureHoldCurrent \<equiv> ''HoldCurrent''"
abbreviation PredictionFailureReactive :: string where "PredictionFailureReactive \<equiv> ''Reactive''"

abbreviation MaxChangePolicySelect :: string where "MaxChangePolicySelect \<equiv> ''Max''"
abbreviation MinChangePolicySelect :: string where "MinChangePolicySelect \<equiv> ''Min''"
abbreviation DisabledPolicySelect :: string where "DisabledPolicySelect \<equiv> ''Disabled''"
abbreviation PodsScalingPolicy :: string where "PodsScalingPolicy \<equiv> ''Pods''"
abbreviation PercentScalingPolicy :: string where "PercentScalingPolicy \<equiv> ''Percent''"

section \<open>Defaults\<close>

text \<open>The untyped constant \<open>0.1\<close> as a \<open>float64\<close>.\<close>

definition tenth :: float64 where "tenth = round64 (1 / 10)"

abbreviation (input) DefaultMinReplicas :: int32 where "DefaultMinReplicas \<equiv> 1"
abbreviation (input) DefaultSyncPeriodMillis :: int64 where "DefaultSyncPeriodMillis \<equiv> 15000"
abbreviation (input) DefaultCPUInitializationSeconds :: int64 where "DefaultCPUInitializationSeconds \<equiv> 300"
abbreviation (input) DefaultInitialReadinessSeconds :: int64 where "DefaultInitialReadinessSeconds \<equiv> 30"
abbreviation (input) DefaultPerSyncPeriod :: int64 where "DefaultPerSyncPeriod \<equiv> 1"
abbreviation (input) DefaultCalculationTimeoutMillis :: int64 where "DefaultCalculationTimeoutMillis \<equiv> 30000"
abbreviation (input) DefaultARIMAHistorySize :: int64 where "DefaultARIMAHistorySize \<equiv> 50"
abbreviation (input) DefaultDecisionType :: string where "DefaultDecisionType \<equiv> DecisionMaximum"

definition EffectiveMode :: "HPAPlusSpec \<Rightarrow> string" where
  "EffectiveMode s = (case s_mode s of None \<Rightarrow> ModeControl | Some m \<Rightarrow> m)"

definition EffectiveTolerance :: "PredictivePolicy \<Rightarrow> float64" where
  "EffectiveTolerance p = (case pp_tolerance p of None \<Rightarrow> tenth | Some t \<Rightarrow> t)"

definition defaultDownscale :: HPAScalingRules where
  "defaultDownscale =
     \<lparr>sr_stabilizationWindowSeconds = Some 0, sr_selectPolicy = Some MaxChangePolicySelect,
      sr_policies = Some [\<lparr>pol_type = PercentScalingPolicy, pol_value = 100, pol_periodSeconds = 60\<rparr>]\<rparr>"

definition defaultUpscale :: HPAScalingRules where
  "defaultUpscale =
     \<lparr>sr_stabilizationWindowSeconds = Some 0, sr_selectPolicy = Some MaxChangePolicySelect,
      sr_policies = Some [\<lparr>pol_type = PercentScalingPolicy, pol_value = 100, pol_periodSeconds = 15\<rparr>,
                          \<lparr>pol_type = PodsScalingPolicy, pol_value = 4, pol_periodSeconds = 15\<rparr>]\<rparr>"

definition copyHPAScalingRules :: "HPAScalingRules option \<Rightarrow> HPAScalingRules \<Rightarrow> HPAScalingRules" where
  "copyHPAScalingRules from to =
     (case from of None \<Rightarrow> to
      | Some f \<Rightarrow>
          let t1 = (if sr_selectPolicy f \<noteq> None then to\<lparr>sr_selectPolicy := sr_selectPolicy f\<rparr> else to);
              t2 = (if sr_stabilizationWindowSeconds f \<noteq> None
                    then t1\<lparr>sr_stabilizationWindowSeconds := sr_stabilizationWindowSeconds f\<rparr> else t1)
          in if sr_policies f \<noteq> None then t2\<lparr>sr_policies := sr_policies f\<rparr> else t2)"

definition DefaultBehavior :: "Behavior option \<Rightarrow> Behavior" where
  "DefaultBehavior b =
     (case b of
        None \<Rightarrow> \<lparr>b_scaleUp = Some defaultUpscale, b_scaleDown = Some defaultDownscale\<rparr>
      | Some b \<Rightarrow> b\<lparr>b_scaleUp := Some (copyHPAScalingRules (b_scaleUp b) defaultUpscale),
                    b_scaleDown := Some (copyHPAScalingRules (b_scaleDown b) defaultDownscale)\<rparr>)"

text \<open>The body of the loop over \<open>out.Models\<close> in \<open>WithDefaults\<close>.\<close>

definition modelWithDefaults :: "Model \<Rightarrow> Model" where
  "modelWithDefaults m =
     m\<lparr>m_predictivePolicy :=
         map_option (\<lambda>p. p\<lparr>pp_tolerance := Some (opt_default tenth (pp_tolerance p))\<rparr>) (m_predictivePolicy m),
       m_perSyncPeriod := Some (opt_default DefaultPerSyncPeriod (m_perSyncPeriod m)),
       m_calculationTimeout := Some (opt_default DefaultCalculationTimeoutMillis (m_calculationTimeout m)),
       m_arima :=
         map_option (\<lambda>a. a\<lparr>ar_historySize := Some (opt_default DefaultARIMAHistorySize (ar_historySize a))\<rparr>) (m_arima m)\<rparr>"

definition WithDefaults :: "HPAPlusSpec \<Rightarrow> HPAPlusSpec" where
  "WithDefaults s =
     s\<lparr>s_mode := Some (opt_default ModeControl (s_mode s)),
       s_minReplicas := Some (opt_default DefaultMinReplicas (s_minReplicas s)),
       s_syncPeriod := Some (opt_default DefaultSyncPeriodMillis (s_syncPeriod s)),
       s_cpuInitializationPeriod := Some (opt_default DefaultCPUInitializationSeconds (s_cpuInitializationPeriod s)),
       s_initialReadinessDelay := Some (opt_default DefaultInitialReadinessSeconds (s_initialReadinessDelay s)),
       s_tolerance := Some (opt_default tenth (s_tolerance s)),
       s_decisionType := Some (opt_default DefaultDecisionType (s_decisionType s)),
       s_includeHPA := Some (opt_default False (s_includeHPA s)),
       s_behavior := Some (DefaultBehavior (s_behavior s)),
       s_models := map modelWithDefaults (s_models s)\<rparr>"

definition Effective :: "ForecastReliabilityPolicy \<Rightarrow> ForecastReliabilityPolicy" where
  "Effective p =
     (let p1 = (if frp_calibrationSamples p = 0 then p\<lparr>frp_calibrationSamples := 20\<rparr> else p);
          p2 = (if frp_window p1 = 0 then p1\<lparr>frp_window := 5\<rparr> else p1);
          p3 = (if frp_breaches p2 = 0 then p2\<lparr>frp_breaches := 4\<rparr> else p2)
      in if f_eq (frp_minimumRelativeError p3) (f_of_int 0)
         then p3\<lparr>frp_minimumRelativeError := tenth\<rparr> else p3)"

section \<open>Facts on the defaults\<close>

lemma tenth_eq: "tenth = Fin (3602879701896397 / 36028797018963968)"
  using round64_eval [of "-4" "1/10" 7205759403792794]
  by (simp add: tenth_def power_int_def power_divide)

text \<open>Defaulted rules have every pointer the rate limiter dereferences.\<close>

definition rules_complete :: "HPAScalingRules \<Rightarrow> bool" where
  "rules_complete r \<longleftrightarrow> sr_selectPolicy r \<noteq> None \<and> sr_stabilizationWindowSeconds r \<noteq> None \<and> sr_policies r \<noteq> None"

lemma default_rules_complete [simp]: "rules_complete defaultUpscale" "rules_complete defaultDownscale"
  by (simp_all add: rules_complete_def defaultUpscale_def defaultDownscale_def)

lemma copy_rules_complete [simp]: "rules_complete to \<Longrightarrow> rules_complete (copyHPAScalingRules from to)"
  by (auto simp: rules_complete_def copyHPAScalingRules_def Let_def split: option.split)

lemma copy_rules_idem: "rules_complete f \<Longrightarrow> copyHPAScalingRules (Some f) to = f"
  by (cases f; cases to) (auto simp: rules_complete_def copyHPAScalingRules_def Let_def)

lemma DefaultBehavior_up: "\<exists>r. b_scaleUp (DefaultBehavior b) = Some r \<and> rules_complete r"
  by (cases b) (auto simp: DefaultBehavior_def)

lemma DefaultBehavior_down: "\<exists>r. b_scaleDown (DefaultBehavior b) = Some r \<and> rules_complete r"
  by (cases b) (auto simp: DefaultBehavior_def)

lemma DefaultBehavior_idem: "DefaultBehavior (Some (DefaultBehavior b)) = DefaultBehavior b"
proof -
  obtain u d where "b_scaleUp (DefaultBehavior b) = Some u" "rules_complete u"
      "b_scaleDown (DefaultBehavior b) = Some d" "rules_complete d"
    using DefaultBehavior_up DefaultBehavior_down by blast
  then show ?thesis by (simp add: DefaultBehavior_def [of "Some _"] copy_rules_idem)
qed

lemma modelWithDefaults_idem: "modelWithDefaults (modelWithDefaults m) = modelWithDefaults m"
  by (simp add: modelWithDefaults_def option.map_comp comp_def)

lemma m_requestDemand_modelWithDefaults [simp]: "m_requestDemand (modelWithDefaults m) = m_requestDemand m"
  by (simp add: modelWithDefaults_def)

lemma WithDefaults_idempotent: "WithDefaults (WithDefaults s) = WithDefaults s"
  by (simp add: WithDefaults_def DefaultBehavior_idem modelWithDefaults_idem comp_def)

section \<open>An object for examples\<close>

definition exampleSpec :: HPAPlusSpec where
  "exampleSpec = \<lparr>s_predictionFailurePolicy = '''', s_mode = None,
     s_scaleTargetRef = \<lparr>ref_kind = ''Deployment'', ref_name = ''web'', ref_apiVersion = ''apps/v1''\<rparr>,
     s_minReplicas = Some 1, s_maxReplicas = 10, s_metrics = [], s_behavior = None,
     s_cpuInitializationPeriod = None, s_initialReadinessDelay = None, s_tolerance = None,
     s_syncPeriod = Some 20000, s_metricMaxAge = None, s_models = [], s_decisionType = None,
     s_includeHPA = None\<rparr>"

definition emptyStatus :: HPAPlusStatus where
  "emptyStatus = \<lparr>st_lastDecision = None, st_historyCapacity = None, st_observedGeneration = 0, st_conditions = [],
     st_modelStatuses = [], st_modelStatusesOmitted = 0, st_targetIdentity = '''', st_lastScaleDecisionID = '''',
     st_lastScaleTime = None, st_scaleUpReplicaHistory = [], st_scaleDownReplicaHistory = [],
     st_scaleUpEventHistory = [], st_scaleDownEventHistory = [], st_reference = '''', st_currentReplicas = 0,
     st_desiredReplicas = 0, st_currentMetrics = [], st_currentMetricsOmitted = 0\<rparr>"

definition sampleInstance :: HPAPlus where
  "sampleInstance = \<lparr>h_namespace = ''prod'', h_name = ''web'', h_uid = ''u1'', h_generation = 1,
     h_deletionTimestamp = None, h_spec = exampleSpec, h_status = emptyStatus\<rparr>"

end
