(* ===== verification/ScaleBehavior.thy ===== *)
theory ScaleBehavior
  imports ApiTypes "HOL-Library.Multiset"
begin

text \<open>
  \<open>src/internal/scalebehavior/scalebehavior.go\<close>: combining replica candidates by the configured
  strategy, and the Kubernetes HPA stabilization and rate-limit rules. Reading a nil rule
  pointer panics in Go; here the functions that dereference rules return an option, \<open>None\<close> being
  the panic.
\<close>

section \<open>Combining candidates\<close>

fun maxLoop :: "nat \<Rightarrow> int32 \<Rightarrow> int32 list \<Rightarrow> int32" where
  "maxLoop i m [] = m"
| "maxLoop i m (x # xs) = maxLoop (Suc i) (if i = 0 \<or> x > m then x else m) xs"

fun minLoop :: "nat \<Rightarrow> int32 \<Rightarrow> int32 list \<Rightarrow> int32" where
  "minLoop i m [] = m"
| "minLoop i m (x # xs) = minLoop (Suc i) (if i = 0 \<or> x < m then x else m) xs"

definition total64 :: "int list \<Rightarrow> int64" where
  "total64 xs = foldl (\<lambda>t x. wrap64 (t + x)) 0 xs"

definition DecideTargetReplicasByScalingStrategy :: "string \<Rightarrow> int32 list \<Rightarrow> int32 result" where
  "DecideTargetReplicasByScalingStrategy decisionType predicted =
     (if predicted = [] then Inl ''no replica candidates''
      else if \<exists>v \<in> set predicted. v < 0 then Inl ''negative replica candidate''
      else let xs = sort predicted in
        if decisionType = DecisionMaximum then Inr (maxLoop 0 0 xs)
        else if decisionType = DecisionMinimum then Inr (minLoop 0 0 xs)
        else if decisionType = DecisionMean then
          (let total = total64 xs in
           if total \<le> 0 then Inr 0
           else Inr (f_to_int32 (f_round (f_div (f_of_int total) (f_of_int (int (length xs)))))))
        else if decisionType = DecisionMedian then
          (let h = length xs div 2 in
           if even (length xs) then Inr (wrap32 (go_div (wrap64 (xs ! (h - 1) + xs ! h)) 2))
           else Inr (xs ! h))
        else Inl ''unknown decision type'')"

section \<open>Windows and events\<close>

definition GetLongestPolicyPeriod :: "HPAScalingRules option \<Rightarrow> int32" where
  "GetLongestPolicyPeriod rules =
     (case rules of None \<Rightarrow> 0
      | Some r \<Rightarrow> foldl (\<lambda>l p. if pol_periodSeconds p > l then pol_periodSeconds p else l) 0
                   (opt_default [] (sr_policies r)))"

definition PruneTimestampedReplicasToWindow ::
  "TimestampedSample list \<Rightarrow> int32 \<Rightarrow> gotime \<Rightarrow> TimestampedSample list" where
  "PruneTimestampedReplicasToWindow rows window now =
     (let cutoff = t_add now (wrap64 (wrap32 (- window) * second))
      in filter (\<lambda>r. case ts_time r of None \<Rightarrow> False | Some t \<Rightarrow> after t cutoff) rows)"

definition getReplicaChanges :: "TimestampedSample list \<Rightarrow> int32 \<Rightarrow> gotime \<Rightarrow> int64" where
  "getReplicaChanges events periodSeconds now =
     (let cutoff = t_add now (wrap64 (- wrap64 (second * periodSeconds)))
      in foldl (\<lambda>t e. case ts_time e of None \<Rightarrow> t
                        | Some u \<Rightarrow> if after u cutoff then wrap64 (t + ts_replicas e) else t) 0 events)"

definition boundedReplicas :: "int64 \<Rightarrow> int32" where
  "boundedReplicas v = (if v \<le> 0 then 0 else if v \<ge> max_int32 then max_int32 else wrap32 v)"

definition max64 :: "int64 \<Rightarrow> int64 \<Rightarrow> int64" where
  "max64 a b = (if a > b then a else b)"

definition max32 :: "int32 \<Rightarrow> int32 \<Rightarrow> int32" where
  "max32 a b = (if a \<ge> b then a else b)"

definition min32 :: "int32 \<Rightarrow> int32 \<Rightarrow> int32" where
  "min32 a b = (if a \<le> b then a else b)"

section \<open>Rate limits\<close>

definition periodStartReplicas ::
  "int32 \<Rightarrow> TimestampedSample list \<Rightarrow> TimestampedSample list \<Rightarrow> HPAScalingPolicy \<Rightarrow> gotime \<Rightarrow> int64" where
  "periodStartReplicas current upEvents downEvents p now =
     max64 0 (wrap64 (wrap64 (current - getReplicaChanges upEvents (pol_periodSeconds p) now) +
                      getReplicaChanges downEvents (pol_periodSeconds p) now))"

definition percentUp :: "int64 \<Rightarrow> int32 \<Rightarrow> int32" where
  "percentUp start v =
     boundedReplicas (f_to_int64 (f_ceil (f_min (f_of_int max_int32)
       (f_mul (f_of_int start) (f_add (f_of_int 1) (f_div (f_of_int v) (f_of_int 100)))))))"

definition percentDown :: "int64 \<Rightarrow> int32 \<Rightarrow> int32" where
  "percentDown start v =
     boundedReplicas (f_to_int64 (f_max (f_of_int 0) (f_min (f_of_int max_int32)
       (f_mul (f_of_int start) (f_sub (f_of_int 1) (f_div (f_of_int v) (f_of_int 100)))))))"

text \<open>
  One pass of the policy loop. A policy of an unknown type leaves \<open>proposed\<close> as the previous
  iteration set it, so the pair (\<open>result\<close>, \<open>proposed\<close>) is the loop state.
\<close>

definition upProposal :: "int64 \<Rightarrow> HPAScalingPolicy \<Rightarrow> int32 \<Rightarrow> int32" where
  "upProposal start p proposed =
     (if pol_type p = PodsScalingPolicy then boundedReplicas (wrap64 (start + pol_value p))
      else if pol_type p = PercentScalingPolicy then percentUp start (pol_value p)
      else proposed)"

definition downProposal :: "int64 \<Rightarrow> HPAScalingPolicy \<Rightarrow> int32 \<Rightarrow> int32" where
  "downProposal start p proposed =
     (if pol_type p = PodsScalingPolicy then boundedReplicas (wrap64 (start - pol_value p))
      else if pol_type p = PercentScalingPolicy then percentDown start (pol_value p)
      else proposed)"

fun policyLoop ::
  "(HPAScalingPolicy \<Rightarrow> int64) \<Rightarrow> (int64 \<Rightarrow> HPAScalingPolicy \<Rightarrow> int32 \<Rightarrow> int32) \<Rightarrow> (int32 \<Rightarrow> int32 \<Rightarrow> int32) \<Rightarrow>
    int32 \<Rightarrow> int32 \<Rightarrow> HPAScalingPolicy list \<Rightarrow> int32" where
  "policyLoop start propose select result proposed [] = result"
| "policyLoop start propose select result proposed (p # ps) =
     (let proposed' = propose (start p) p proposed
      in policyLoop start propose select (select result proposed') proposed' ps)"

definition calculateScaleUpLimitWithinScalingRules ::
  "int32 \<Rightarrow> TimestampedSample list \<Rightarrow> TimestampedSample list \<Rightarrow> HPAScalingRules \<Rightarrow> gotime \<Rightarrow> int32 option" where
  "calculateScaleUpLimitWithinScalingRules current upEvents downEvents rules now =
     (case sr_selectPolicy rules of
        None \<Rightarrow> None
      | Some sel \<Rightarrow>
          if sel = DisabledPolicySelect then Some current
          else
            let (result, select) = (if sel = MinChangePolicySelect then (max_int32, min32) else (min_int32, max32))
            in Some (policyLoop (\<lambda>p. periodStartReplicas current upEvents downEvents p now)
                       upProposal select result 0 (opt_default [] (sr_policies rules))))"

definition calculateScaleDownLimitWithinScalingRules ::
  "int32 \<Rightarrow> TimestampedSample list \<Rightarrow> TimestampedSample list \<Rightarrow> HPAScalingRules \<Rightarrow> gotime \<Rightarrow> int32 option" where
  "calculateScaleDownLimitWithinScalingRules current upEvents downEvents rules now =
     (case sr_selectPolicy rules of
        None \<Rightarrow> None
      | Some sel \<Rightarrow>
          if sel = DisabledPolicySelect then Some current
          else
            let (result, select) = (if sel = MinChangePolicySelect then (min_int32, max32) else (max_int32, min32))
            in Some (policyLoop (\<lambda>p. periodStartReplicas current upEvents downEvents p now)
                       downProposal select result 0 (opt_default [] (sr_policies rules))))"

definition decideTargetReplicasByBehaviorRate ::
  "Behavior \<Rightarrow> int32 \<Rightarrow> int32 \<Rightarrow> TimestampedSample list \<Rightarrow> TimestampedSample list \<Rightarrow> gotime \<Rightarrow> int32 option" where
  "decideTargetReplicasByBehaviorRate behavior current target upEvents downEvents now =
     (if target > current then
        Option.bind (b_scaleUp behavior) (\<lambda>rules.
        Option.bind (calculateScaleUpLimitWithinScalingRules current upEvents downEvents rules now) (\<lambda>limit.
          let limit' = (if limit < current then current else limit)
          in if target > limit' then Some limit' else Some target))
      else if target < current then
        Option.bind (b_scaleDown behavior) (\<lambda>rules.
        Option.bind (calculateScaleDownLimitWithinScalingRules current upEvents downEvents rules now) (\<lambda>limit.
          let limit' = (if limit > current then current else limit)
          in if target < limit' then Some limit' else Some target))
      else Some target)"

section \<open>Stabilization and bounds\<close>

record BehaviorResult =
  br_stabilized :: int32
  br_rateLimited :: int32
  br_desired :: int32

definition upscaleMin :: "int32 \<Rightarrow> TimestampedSample list \<Rightarrow> int32" where
  "upscaleMin target rows = foldl (\<lambda>m r. if ts_replicas r < m then ts_replicas r else m) target rows"

definition downscaleMax :: "int32 \<Rightarrow> TimestampedSample list \<Rightarrow> int32" where
  "downscaleMax target rows = foldl (\<lambda>m r. if ts_replicas r > m then ts_replicas r else m) target rows"

definition stabilize :: "int32 \<Rightarrow> int32 \<Rightarrow> TimestampedSample list \<Rightarrow> TimestampedSample list \<Rightarrow> int32" where
  "stabilize current target upRows downRows =
     (let lo = upscaleMin target upRows; hi = downscaleMax target downRows;
          s = (if current < lo then lo else current)
      in if s > hi then hi else s)"

definition DecideTargetReplicasByBehaviorDetails ::
  "Behavior \<Rightarrow> int32 \<Rightarrow> int32 \<Rightarrow> int32 \<Rightarrow> int32 \<Rightarrow> TimestampedSample list \<Rightarrow> TimestampedSample list \<Rightarrow>
    TimestampedSample list \<Rightarrow> TimestampedSample list \<Rightarrow> gotime \<Rightarrow> BehaviorResult option" where
  "DecideTargetReplicasByBehaviorDetails behavior current target minR maxR upRows downRows upEvents downEvents now =
     (let stabilized = stabilize current target upRows downRows in
      map_option
        (\<lambda>rate. let t1 = (if rate < minR then minR else rate); t2 = (if t1 > maxR then maxR else t1)
                in \<lparr>br_stabilized = stabilized, br_rateLimited = rate, br_desired = t2\<rparr>)
        (decideTargetReplicasByBehaviorRate behavior current stabilized upEvents downEvents now))"

definition DecideTargetReplicasByBehavior ::
  "Behavior \<Rightarrow> int32 \<Rightarrow> int32 \<Rightarrow> int32 \<Rightarrow> int32 \<Rightarrow> TimestampedSample list \<Rightarrow> TimestampedSample list \<Rightarrow>
    TimestampedSample list \<Rightarrow> TimestampedSample list \<Rightarrow> gotime \<Rightarrow> int32 option" where
  "DecideTargetReplicasByBehavior behavior current target minR maxR upRows downRows upEvents downEvents now =
     map_option br_desired
       (DecideTargetReplicasByBehaviorDetails behavior current target minR maxR upRows downRows upEvents downEvents now)"

section \<open>Combining candidates: facts\<close>

lemma maxLoop_Suc: "maxLoop (Suc i) m xs = foldl max m xs"
  by (induction xs arbitrary: i m) (simp_all add: if_gt_max)

lemma minLoop_Suc: "minLoop (Suc i) m xs = foldl min m xs"
  by (induction xs arbitrary: i m) (simp_all add: if_lt_min)

lemma maxLoop_Max: "xs \<noteq> [] \<Longrightarrow> maxLoop 0 m xs = Max (set xs)"
  by (cases xs) (simp_all only: maxLoop.simps, simp_all add: maxLoop_Suc foldl_max_Max del: set_simps)

lemma minLoop_Min: "xs \<noteq> [] \<Longrightarrow> minLoop 0 m xs = Min (set xs)"
  by (cases xs) (simp_all only: minLoop.simps, simp_all add: minLoop_Suc foldl_min_Min del: set_simps)

text \<open>Sums of \<open>int32\<close> values do not overflow an \<open>int64\<close> for any list that fits in memory.\<close>

lemma foldl_wrap64_sum:
  assumes "\<And>k. k \<le> length xs \<Longrightarrow> in_i64 (a + sum_list (take k xs))"
  shows "foldl (\<lambda>t x. wrap64 (t + x)) a xs = a + sum_list xs"
  using assms
proof (induction xs arbitrary: a)
  case (Cons x xs)
  have "in_i64 (a + x)" using Cons.prems [of 1] by simp
  moreover have "in_i64 (a + x + sum_list (take k xs))" if "k \<le> length xs" for k
    using Cons.prems [of "Suc k"] that by (simp add: add.assoc)
  ultimately show ?case using Cons.IH [of "a + x"] by (simp add: wrap64_id add.assoc)
qed simp

lemma sum_list_bounds:
  assumes "\<forall>x \<in> set xs. lo \<le> x \<and> x \<le> (hi::int)"
  shows "int (length xs) * lo \<le> sum_list xs" "sum_list xs \<le> int (length xs) * hi"
  using assms by (induction xs) (auto simp: algebra_simps)

lemma total64_sum:
  assumes "\<forall>x \<in> set xs. 0 \<le> x \<and> x \<le> max_int32" "length xs \<le> 2 ^ 22"
  shows "total64 xs = sum_list xs"
proof -
  have "in_i64 (0 + sum_list (take k xs))" if "k \<le> length xs" for k
  proof -
    have "\<forall>x \<in> set (take k xs). 0 \<le> x \<and> x \<le> max_int32" using assms(1) in_set_takeD by metis
    from sum_list_bounds [OF this]
    have "0 \<le> sum_list (take k xs)" "sum_list (take k xs) \<le> int (length (take k xs)) * max_int32" by auto
    moreover have "int (length (take k xs)) \<le> 4194304" using assms(2) that by simp
    ultimately show ?thesis by (simp add: in_i64_def)
  qed
  then show ?thesis unfolding total64_def using foldl_wrap64_sum [of xs 0] by simp
qed

lemma round_away_between:
  assumes "of_int lo \<le> x" "x \<le> of_int hi"
  shows "lo \<le> round_away x" "round_away x \<le> hi"
  using assms unfolding round_away_def by (auto simp: le_floor_iff floor_le_iff) linarith+

text \<open>
  Rounding the quotient of two integers to binary64 does not move it across a half: with
  \<open>n \<le> 2^20\<close> the distance to the next half is at least \<open>2^-21\<close>, the rounding error at most \<open>2^-22\<close>.
\<close>

lemma half_bounds:
  fixes n s :: int
  assumes "0 < n"
  defines "k \<equiv> (2 * s + n) div (2 * n)"
  shows "of_int k \<le> (of_int s / of_int n + 1 / 2 :: rat)"
    "of_int s / of_int n + 1 / 2 + 1 / (2 * of_int n) \<le> (of_int k + 1 :: rat)"
proof -
  have div: "2 * n * k \<le> 2 * s + n" "2 * s + n \<le> 2 * n * (k + 1) - 1"
    using div_bounds [of "2 * n" "2 * s + n"] assms(1) unfolding k_def by simp_all
  have "(of_int (2 * n * k) :: rat) \<le> of_int (2 * s + n)" using div(1) by (simp only: of_int_le_iff)
  then show "of_int k \<le> (of_int s / of_int n + 1 / 2 :: rat)" using assms(1) by (simp add: field_simps)
  have "(of_int (2 * s + n) :: rat) \<le> of_int (2 * n * (k + 1) - 1)" using div(2) by (simp only: of_int_le_iff)
  then show "of_int s / of_int n + 1 / 2 + 1 / (2 * of_int n) \<le> (of_int k + 1 :: rat)"
    using assms(1) by (simp add: field_simps)
qed

lemma round64_half_le:
  assumes "round64 q = Fin r" "of_int k \<le> q + 1 / 2" "0 < k" "k \<le> 2 ^ 32"
  shows "of_int k \<le> r + 1 / 2"
proof -
  have "representable (of_int (2 * k - 1) / 2)" using assms(3,4) by (intro representable_half) auto
  moreover have "of_int (2 * k - 1) / 2 \<le> q" using assms(2) by (simp add: field_simps)
  ultimately have "f_le (Fin (of_int (2 * k - 1) / 2)) (round64 q)"
    using round64_mono by (metis round64_of_representable)
  then show ?thesis using assms(1) by (simp add: field_simps)
qed

lemma round_away_quotient:
  assumes n: "0 < n" "n \<le> 2 ^ 20" and s: "0 \<le> s" "s \<le> n * max_int32"
  obtains r where "round64 (of_int s / of_int n) = Fin r" "0 \<le> r" "r \<le> 2147483647"
    "round_away r = (2 * s + n) div (2 * n)"
proof -
  define q k where "q = (of_int s / of_int n :: rat)" and "k = (2 * s + n) div (2 * n)"
  have "(of_int s :: rat) \<le> of_int (n * max_int32)" using s(2) by (simp only: of_int_le_iff)
  then have q: "0 \<le> q" "q \<le> 2147483647" using n s by (simp_all add: q_def pos_divide_le_eq mult.commute)
  obtain r where r: "round64 q = Fin r" "0 \<le> r" "r \<le> 2147483647"
    using round64_between [of 0 2147483647 q] representable_of_int [of 2147483647] q by auto
  have "\<bar>q\<bar> \<le> 2 powi 31" using q by (simp add: power_int_def)
  then obtain r' where "round64 q = Fin r'" "\<bar>r' - q\<bar> \<le> 2 powi (31 - 53)"
    by (rule round64_error) auto
  then have err: "\<bar>r - q\<bar> \<le> 1 / 4194304" using r(1) by (simp add: power_int_def power_divide)
  note kq = half_bounds [OF n(1), of s, folded q_def k_def]
  have "(of_int n :: rat) \<le> of_int 1048576" using n(2) by (simp only: of_int_le_iff) simp
  then have "1 / 4194304 < 1 / (2 * (of_int n :: rat))" using n by (simp add: field_simps)
  then have hi: "r + 1 / 2 < of_int k + 1" using kq(2) err by linarith
  have "(of_int k :: rat) \<le> of_int 2147483648" using kq(1) q by simp
  then have "k \<le> 2 ^ 32" by (simp only: of_int_le_iff) simp
  then have lo: "of_int k \<le> r + 1 / 2"
    using round64_half_le [OF r(1) kq(1)] r(2) s n by (cases "0 < k") (auto simp: k_def pos_imp_zdiv_nonneg_iff)
  have "round_away r = k" using r(2) lo hi by (simp add: round_away_def floor_eq_iff)
  with r that show ?thesis by (simp add: q_def k_def)
qed

text \<open>
  The mean of up to a million candidates is not disturbed by the rounding of the division: it is
  the rational mean, rounded half up.
\<close>

lemma mean_exact:
  assumes "xs \<noteq> []" "\<forall>x \<in> set xs. 0 \<le> x \<and> x \<le> max_int32" "length xs \<le> 2 ^ 20"
  shows "f_to_int32 (f_round (f_div (f_of_int (total64 xs)) (f_of_int (int (length xs))))) =
    (2 * sum_list xs + int (length xs)) div (2 * int (length xs))"
proof -
  define n s where "n = int (length xs)" and "s = sum_list xs"
  have n: "0 < n" "n \<le> 2 ^ 20" using assms(1,3) by (auto simp: n_def)
  have s: "0 \<le> s" "s \<le> n * max_int32" using sum_list_bounds [OF assms(2)] by (simp_all add: n_def s_def)
  obtain r where r: "round64 (of_int s / of_int n) = Fin r" "0 \<le> r" "r \<le> 2147483647"
    "round_away r = (2 * s + n) div (2 * n)" using round_away_quotient [OF n s] .
  have "round_away r \<le> max_int32" "0 \<le> round_away r"
    using round_away_between [of 0 r max_int32] r by simp_all
  moreover have "f_of_int s = Fin (of_int s)" using s n by (intro f_of_int_exact) auto
  moreover have "f_of_int n = Fin (of_int n)" using n by (intro f_of_int_exact) auto
  moreover have "total64 xs = s" using total64_sum [OF assms(2)] assms(3) by (simp add: s_def)
  ultimately have "f_to_int32 (f_round (f_div (f_of_int (total64 xs)) (f_of_int n))) = round_away r"
    using n r(1) by (simp add: in_i32_def trunc_rat_def)
  then show ?thesis by (simp only: r(4) n_def s_def)
qed

lemma div_half_between:
  fixes n s :: int
  assumes "0 < n" "n * lo \<le> s" "s \<le> n * hi"
  shows "lo \<le> (2 * s + n) div (2 * n)" "(2 * s + n) div (2 * n) \<le> hi"
  using assms div_between [of "2 * n" lo "2 * s + n" hi] by (simp_all add: ring_distribs)

lemma avg_between:
  fixes a b :: int
  assumes "lo \<le> a" "a \<le> hi" "lo \<le> b" "b \<le> hi"
  shows "lo \<le> (a + b) div 2" "(a + b) div 2 \<le> hi"
  using assms by linarith+

lemma avg_exact:
  fixes a b :: int
  assumes "0 \<le> a" "a \<le> max_int32" "0 \<le> b" "b \<le> max_int32"
  shows "wrap32 (go_div (wrap64 (a + b)) 2) = (a + b) div 2"
proof -
  have "wrap64 (a + b) = a + b" using assms by (intro wrap64_id) (simp add: in_i64_def)
  moreover have "in_i32 ((a + b) div 2)"
    using avg_between [OF assms] by (simp add: in_i32_def)
  ultimately show ?thesis using assms by (simp add: wrap32_id go_div_nonneg)
qed

lemma strategy_ok_iff:
  "is_ok (DecideTargetReplicasByScalingStrategy t xs) \<longleftrightarrow>
     xs \<noteq> [] \<and> (\<forall>x \<in> set xs. 0 \<le> x) \<and> t \<in> {DecisionMaximum, DecisionMinimum, DecisionMean, DecisionMedian}"
proof (cases "xs = [] \<or> (\<exists>v \<in> set xs. v < 0)")
  case True
  then show ?thesis by (auto simp: DecideTargetReplicasByScalingStrategy_def not_le)
next
  case False
  then have "\<forall>x \<in> set xs. 0 \<le> x" by (auto simp: not_less)
  with False show ?thesis by (simp add: DecideTargetReplicasByScalingStrategy_def Let_def)
qed

lemma sort_eq_Nil_iff [simp]: "sort xs = [] \<longleftrightarrow> xs = []"
  by (metis set_empty set_sort)

lemma strategy_Max:
  "xs \<noteq> [] \<Longrightarrow> \<forall>x \<in> set xs. 0 \<le> x \<Longrightarrow>
     DecideTargetReplicasByScalingStrategy DecisionMaximum xs = Inr (Max (set xs))"
  using maxLoop_Max [of "sort xs" 0]
  by (auto simp: DecideTargetReplicasByScalingStrategy_def Let_def not_less)

lemma strategy_Min:
  "xs \<noteq> [] \<Longrightarrow> \<forall>x \<in> set xs. 0 \<le> x \<Longrightarrow>
     DecideTargetReplicasByScalingStrategy DecisionMinimum xs = Inr (Min (set xs))"
  using minLoop_Min [of "sort xs" 0]
  by (auto simp: DecideTargetReplicasByScalingStrategy_def Let_def not_less)

lemma strategy_Mean:
  assumes "xs \<noteq> []" "\<forall>x \<in> set xs. 0 \<le> x \<and> x \<le> max_int32" "length xs \<le> 2 ^ 20"
  shows "DecideTargetReplicasByScalingStrategy DecisionMean xs =
    Inr ((2 * sum_list xs + int (length xs)) div (2 * int (length xs)))"
proof -
  let ?ys = "sort xs"
  have sum: "sum_list ?ys = sum_list xs" by (metis mset_sort sum_mset_sum_list)
  have tot: "total64 ?ys = sum_list xs" using total64_sum [of ?ys] assms sum by simp
  have m: "f_to_int32 (f_round (f_div (f_of_int (total64 ?ys)) (f_of_int (int (length xs))))) =
      (2 * sum_list xs + int (length xs)) div (2 * int (length xs))"
    using mean_exact [of ?ys] assms sum by simp
  have "0 \<le> sum_list xs" using assms(2) by (simp add: sum_list_nonneg)
  then have "(2 * sum_list xs + int (length xs)) div (2 * int (length xs)) = 0" if "sum_list xs \<le> 0"
    using that assms(1) by simp
  then show ?thesis using m tot assms(1,2)
    by (auto simp: DecideTargetReplicasByScalingStrategy_def Let_def not_less)
qed

lemma strategy_Median:
  assumes "xs \<noteq> []" "\<forall>x \<in> set xs. 0 \<le> x \<and> x \<le> max_int32"
  shows "DecideTargetReplicasByScalingStrategy DecisionMedian xs =
    Inr ((sort xs ! ((length xs - 1) div 2) + sort xs ! (length xs div 2)) div 2)"
proof -
  let ?ys = "sort xs" and ?n = "length xs"
  have b: "0 \<le> ?ys ! i \<and> ?ys ! i \<le> max_int32" if "i < ?n" for i
    using assms(2) that by (metis length_sort nth_mem set_sort)
  have half: "?n div 2 < ?n" "?n div 2 - 1 < ?n" using assms(1) by (cases xs; simp)+
  have "wrap32 (go_div (wrap64 (?ys ! (?n div 2 - 1) + ?ys ! (?n div 2))) 2) =
      (?ys ! (?n div 2 - 1) + ?ys ! (?n div 2)) div 2"
    using b [OF half(1)] b [OF half(2)] by (intro avg_exact) auto
  moreover have "(?n - 1) div 2 = ?n div 2 - 1" if "even ?n" using that assms(1) by (auto elim!: evenE)
  moreover have "(?n - 1) div 2 = ?n div 2" if "odd ?n" using that by (auto elim!: oddE)
  ultimately show ?thesis using assms(1,2)
    by (auto simp: DecideTargetReplicasByScalingStrategy_def Let_def not_less)
qed

lemma strategy_between:
  assumes r: "DecideTargetReplicasByScalingStrategy t xs = Inr r"
    and b: "\<forall>x \<in> set xs. lo \<le> x \<and> x \<le> hi" and h: "hi \<le> max_int32" "length xs \<le> 2 ^ 20"
  shows "lo \<le> r \<and> r \<le> hi"
proof -
  have "is_ok (DecideTargetReplicasByScalingStrategy t xs)" using r by simp
  then have xs: "xs \<noteq> []" "\<forall>x \<in> set xs. 0 \<le> x" and
    t: "t \<in> {DecisionMaximum, DecisionMinimum, DecisionMean, DecisionMedian}"
    unfolding strategy_ok_iff by blast+
  have i32: "\<forall>x \<in> set xs. 0 \<le> x \<and> x \<le> max_int32" using xs(2) b h by fastforce
  have nth: "lo \<le> sort xs ! i \<and> sort xs ! i \<le> hi" if "i < length xs" for i
    using b that by (metis length_sort nth_mem set_sort)
  have half: "(length xs - 1) div 2 < length xs" "length xs div 2 < length xs" using xs(1) by (cases xs; simp)+
  consider "t = DecisionMaximum" | "t = DecisionMinimum" | "t = DecisionMean" | "t = DecisionMedian"
    using t by blast
  then show ?thesis
  proof cases
    case 1 then show ?thesis using r strategy_Max [OF xs] b xs(1) by auto
  next
    case 2 then show ?thesis using r strategy_Min [OF xs] b xs(1) by auto
  next
    case 3 then show ?thesis
      using r strategy_Mean [OF xs(1) i32 h(2)] sum_list_bounds [OF b] xs(1)
        div_half_between [of "int (length xs)" lo "sum_list xs" hi] by auto
  next
    case 4 then show ?thesis
      using r strategy_Median [OF xs(1) i32] 
        avg_between [of lo _ hi] nth [OF half(1)] nth [OF half(2)] by (metis sum.inject(2))
  qed
qed

section \<open>Rate limits: facts\<close>

lemma max32_max [simp]: "max32 a b = max a b" by (simp add: max32_def max_def)
lemma min32_min [simp]: "min32 a b = min a b" by (simp add: min32_def min_def)
lemma max64_max [simp]: "max64 a b = max a b" by (simp add: max64_def max_def)

lemma boundedReplicas_clamp: "boundedReplicas v = max 0 (min v max_int32)"
  by (auto simp: boundedReplicas_def in_i32_def go_int)

text \<open>
  The three roundings of a percentage stay within \<open>2^-13\<close> of the exact product, for percentages up
  to 10000 and any \<open>int32\<close> number of replicas; \<open>g\<close> is the sign of the change.
\<close>

lemma percent_error:
  assumes start: "0 \<le> start" "start \<le> max_int32" and v: "0 \<le> v" "v \<le> 10000"
    and g: "g = 1 \<or> g = - 1"
  obtains r1 r2 r where "round64 (of_int v / 100) = Fin r1" "round64 (1 + g * r1) = Fin r2"
    "round64 (of_int start * r2) = Fin r" "\<bar>r - of_int start * (1 + g * (of_int v / 100))\<bar> \<le> 1 / 8192"
proof -
  define q :: rat where "q = of_int v / 100"
  have "(of_int v :: rat) \<le> of_int 10000" using v by (simp only: of_int_le_iff)
  then have q: "0 \<le> q" "q \<le> 100" using v(1) by (simp_all add: q_def)
  have s': "(0::rat) \<le> of_int start" "(of_int start :: rat) \<le> of_int max_int32"
    using start by (simp_all only: of_int_le_iff of_int_0_le_iff)
  have p: "(2::rat) powi 7 = 128" "(2::rat) powi (7 - 53) = 1 / 70368744177664"
    "(2::rat) powi 38 = 274877906944" "(2::rat) powi (38 - 53) = 1 / 32768"
    by (simp_all add: power_int_def power_divide)
  have "\<bar>q\<bar> \<le> 2 powi 7" using q p by linarith
  then obtain r1 where r1: "round64 q = Fin r1" "\<bar>r1 - q\<bar> \<le> 2 powi (7 - 53)"
    by (rule round64_error) auto
  have e1: "\<bar>r1 - q\<bar> \<le> 1 / 70368744177664" using r1(2) p by linarith
  have "\<bar>1 + g * r1\<bar> \<le> 128" using g
  proof
    assume "g = 1" then show ?thesis using e1 q by (simp only: mult_1)
  next
    assume "g = - 1" then show ?thesis using e1 q by (simp only: mult_minus1)
  qed
  then have "\<bar>1 + g * r1\<bar> \<le> 2 powi 7" by (simp only: p)
  then obtain r2 where r2: "round64 (1 + g * r1) = Fin r2" "\<bar>r2 - (1 + g * r1)\<bar> \<le> 2 powi (7 - 53)"
    by (rule round64_error) auto
  have "\<bar>r2 - (1 + g * q)\<bar> \<le> 1 / 35184372088832 \<and> \<bar>r2\<bar> \<le> 128" using g
  proof
    assume "g = 1" then show ?thesis using e1 q r2(2) p by (simp only: mult_1) linarith
  next
    assume "g = - 1" then show ?thesis using e1 q r2(2) p by (simp only: mult_minus1) linarith
  qed
  then have e2: "\<bar>r2 - (1 + g * q)\<bar> \<le> 1 / 35184372088832" and r2b: "\<bar>r2\<bar> \<le> 2 ^ 7" by simp_all
  have "\<bar>of_int start\<bar> * \<bar>r2\<bar> \<le> 2 ^ 31 * (2 ^ 7 :: rat)" using s' r2b by (intro mult_mono) auto
  then have "\<bar>of_int start * r2\<bar> \<le> 2 powi 38" by (simp add: abs_mult p)
  then obtain r where r: "round64 (of_int start * r2) = Fin r" "\<bar>r - of_int start * r2\<bar> \<le> 2 powi (38 - 53)"
    by (rule round64_error) auto
  have e3: "\<bar>r - of_int start * r2\<bar> \<le> 1 / 32768" using r(2) p by linarith
  have "\<bar>of_int start\<bar> * \<bar>r2 - (1 + g * q)\<bar> \<le> 2 ^ 31 * (1 / 35184372088832 :: rat)"
    using s' e2 by (intro mult_mono) auto
  then have "\<bar>of_int start * r2 - of_int start * (1 + g * q)\<bar> \<le> 1 / 16384"
    by (simp add: abs_mult flip: right_diff_distrib)
  then have "\<bar>r - of_int start * (1 + g * q)\<bar> \<le> 1 / 8192" using e3 by linarith
  then show ?thesis using that r1(1) r2(1) r(1) by (simp add: q_def)
qed

text \<open>A value that close to a multiple of a hundredth rounds as that multiple, or is off by one when it is an integer.\<close>

lemma near_hundredth:
  fixes N :: int and r :: rat
  assumes "\<bar>r - of_int N / 100\<bar> \<le> 1 / 8192"
  shows "\<lceil>r\<rceil> = (N + 99) div 100 \<or> 100 dvd N \<and> \<lceil>r\<rceil> = N div 100 + 1"
    "\<lfloor>r\<rfloor> = N div 100 \<or> 100 dvd N \<and> \<lfloor>r\<rfloor> = N div 100 - 1"
proof -
  define k m d where "k = N div 100" and "m = N mod 100" and "d = (of_int m / 100 :: rat)"
  have N: "N = 100 * k + m" and m: "0 \<le> m" "m < 100" by (simp_all add: k_def m_def)
  have "\<bar>r - (of_int k + d)\<bar> \<le> 1 / 8192" using assms by (simp add: N d_def add_divide_distrib)
  then have r: "of_int k + d - 1 / 8192 \<le> r" "r \<le> of_int k + d + 1 / 8192" unfolding abs_le_iff by linarith+
  have up: "(N + 99) div 100 = (if m = 0 then k else k + 1)" using N m by auto
  have dvd: "100 dvd N \<longleftrightarrow> m = 0" by (simp add: m_def dvd_eq_mod_eq_0)
  have d: "m = 0 \<and> d = 0 \<or> m \<noteq> 0 \<and> 1 / 100 \<le> d \<and> d \<le> 99 / 100"
  proof (cases "m = 0")
    case False
    then have "(of_int 1 :: rat) \<le> of_int m" "(of_int m :: rat) \<le> of_int 99" using m by (simp_all only: of_int_le_iff)
    then show ?thesis using False by (simp add: d_def)
  qed (simp add: d_def)
  show "\<lceil>r\<rceil> = (N + 99) div 100 \<or> 100 dvd N \<and> \<lceil>r\<rceil> = N div 100 + 1"
    unfolding up dvd k_def [symmetric] ceiling_eq_iff using r d by (cases "m = 0") auto
  show "\<lfloor>r\<rfloor> = N div 100 \<or> 100 dvd N \<and> \<lfloor>r\<rfloor> = N div 100 - 1"
    unfolding dvd k_def [symmetric] floor_eq_iff using r d by (cases "m = 0") auto
qed

lemma percentUp_exact:
  assumes "0 \<le> start" "start \<le> max_int32" "0 \<le> v" "v \<le> 10000"
  defines "N \<equiv> start * (100 + v)"
  shows "percentUp start v = min max_int32 ((N + 99) div 100) \<or>
    100 dvd N \<and> percentUp start v = min max_int32 (N div 100 + 1)"
proof -
  obtain r1 r2 r where r: "round64 (of_int v / 100) = Fin r1" "round64 (1 + 1 * r1) = Fin r2"
    "round64 (of_int start * r2) = Fin r" "\<bar>r - of_int start * (1 + 1 * (of_int v / 100))\<bar> \<le> 1 / 8192"
    using percent_error [OF assms(1-4), of 1] by blast
  have E: "of_int start * (1 + 1 * (of_int v / 100)) = (of_int N / 100 :: rat)" by (simp add: N_def field_simps)
  have N0: "0 \<le> N" using assms by (simp add: N_def)
  note near = near_hundredth(1) [OF r(4) [unfolded E]]
  have "0 \<le> (N + 99) div 100" "0 \<le> N div 100 + 1" using N0 by (simp_all add: pos_imp_zdiv_nonneg_iff)
  then have c0: "0 \<le> \<lceil>r\<rceil>" using near by metis
  have "percentUp start v = boundedReplicas (f_to_int64 (f_ceil (f_min (Fin (of_int max_int32)) (Fin r))))"
    using r(1-3) assms(1-4) by (simp add: percentUp_def)
  also have "f_ceil (f_min (Fin (of_int max_int32)) (Fin r)) = Fin (of_int (min max_int32 \<lceil>r\<rceil>))"
    using ceiling_correct [of r] by (auto simp: f_min_def min_def ceiling_le_iff less_ceiling_iff le_ceiling_iff not_less ceiling_eq_iff)
  also have "boundedReplicas (f_to_int64 \<dots>) = min max_int32 \<lceil>r\<rceil>"
    using c0 by (auto simp: boundedReplicas_clamp trunc_rat_def in_i64_def)
  finally show ?thesis using near by auto
qed

lemma percentDown_exact:
  assumes "0 \<le> start" "start \<le> max_int32" "0 \<le> v" "v \<le> 100"
  defines "N \<equiv> start * (100 - v)"
  shows "percentDown start v = N div 100 \<or> 100 dvd N \<and> percentDown start v = max 0 (N div 100 - 1)"
proof -
  have v: "v \<le> 10000" using assms(4) by simp
  obtain r1 r2 r where r: "round64 (of_int v / 100) = Fin r1" "round64 (1 + - 1 * r1) = Fin r2"
    "round64 (of_int start * r2) = Fin r" "\<bar>r - of_int start * (1 + - 1 * (of_int v / 100))\<bar> \<le> 1 / 8192"
    by (rule percent_error [OF assms(1-3) v, of "- 1"]) (rule disjI2, rule refl)
  have E: "of_int start * (1 + - 1 * (of_int v / 100)) = (of_int N / 100 :: rat)" by (simp add: N_def field_simps)
  have "N \<le> 100 * start" using assms(1,3) by (simp add: N_def mult.commute algebra_simps)
  then have N: "0 \<le> N" "N div 100 \<le> start" using assms by (auto simp: N_def)
  note near = near_hundredth(2) [OF r(4) [unfolded E]]
  have k0: "0 \<le> N div 100" using N by (simp add: pos_imp_zdiv_nonneg_iff)
  then have c: "\<lfloor>r\<rfloor> \<le> max_int32" using near N(2) assms(2) by linarith
  have "percentDown start v =
      boundedReplicas (f_to_int64 (f_max (Fin 0) (f_min (Fin (of_int max_int32)) (Fin r))))"
    using r(1-3) assms(1-4) by (simp add: percentDown_def f_sub_def)
  also have "f_max (Fin 0) (f_min (Fin (of_int max_int32)) (Fin r)) = Fin (max 0 (min (of_int max_int32) r))"
    by (auto simp: f_min_def f_max_def min_def max_def)
  also have "boundedReplicas (f_to_int64 \<dots>) = max 0 \<lfloor>r\<rfloor>"
    using c floor_correct [of r] by (auto simp: boundedReplicas_clamp trunc_rat_def in_i64_def min_def max_def not_le le_floor_iff floor_le_iff floor_eq_iff)
  finally show ?thesis using near max_absorb2 [OF k0] by metis
qed

lemma percentUp_100_10: "percentUp 100 10 = 111"
proof -
  have a: "round64 (1 / 10) = Fin (3602879701896397 / 36028797018963968)"
    using round64_eval [of "- 4" "1 / 10" 7205759403792794] by (simp add: power_int_def power_divide)
  have b: "round64 (39631676720860365 / 36028797018963968) = Fin (2476979795053773 / 2251799813685248)"
    using round64_eval [of 0 "39631676720860365 / 36028797018963968" 4953959590107546]
    by (simp add: power_int_def power_divide)
  have c: "round64 (61924494876344325 / 562949953421312) = Fin (7740561859543041 / 70368744177664)"
    using round64_eval [of 6 "61924494876344325 / 562949953421312" 7740561859543041]
    by (simp add: power_int_def power_divide)
  have "\<lceil>7740561859543041 / 70368744177664 :: rat\<rceil> = 111" by (simp add: ceiling_eq_iff)
  then show ?thesis
    by (simp add: percentUp_def a b c f_min_def boundedReplicas_clamp trunc_rat_def in_i64_def)
qed

lemma percentDown_10_90: "percentDown 10 90 = 0"
proof -
  have a: "round64 (9 / 10) = Fin (8106479329266893 / 9007199254740992)"
    using round64_eval [of "- 1" "9 / 10" 8106479329266893] by (simp add: power_int_def power_divide)
  have b: "round64 (900719925474099 / 9007199254740992) = Fin (900719925474099 / 9007199254740992)"
    using round64_eval [of "- 4" "900719925474099 / 9007199254740992" 7205759403792792]
    by (simp add: power_int_def power_divide)
  have c: "round64 (4503599627370495 / 4503599627370496) = Fin (4503599627370495 / 4503599627370496)"
    using round64_eval [of "- 1" "4503599627370495 / 4503599627370496" 9007199254740990]
    by (simp add: power_int_def power_divide)
  have "\<lfloor>4503599627370495 / 4503599627370496 :: rat\<rfloor> = 0" by (simp add: floor_eq_iff)
  then show ?thesis
    by (simp add: percentDown_def f_sub_def a b c f_min_def f_max_def boundedReplicas_clamp trunc_rat_def in_i64_def)
qed

abbreviation known_policy :: "HPAScalingPolicy \<Rightarrow> bool" where
  "known_policy p \<equiv> pol_type p = PodsScalingPolicy \<or> pol_type p = PercentScalingPolicy"

lemma upProposal_known: "known_policy p \<Longrightarrow> upProposal s p a = upProposal s p b"
  by (auto simp: upProposal_def)

lemma downProposal_known: "known_policy p \<Longrightarrow> downProposal s p a = downProposal s p b"
  by (auto simp: downProposal_def)

text \<open>With policies of known types the loop folds the proposals, each independent of the others.\<close>

lemma policyLoop_foldl:
  assumes "\<And>p a b. p \<in> set ps \<Longrightarrow> propose (start p) p a = propose (start p) p b"
  shows "policyLoop start propose select r a ps = foldl select r (map (\<lambda>p. propose (start p) p 0) ps)"
  using assms
proof (induction ps arbitrary: r a)
  case (Cons p ps)
  have "propose (start p) p a = propose (start p) p 0" using Cons.prems [of p a 0] by simp
  moreover have "policyLoop start propose select r' a' ps =
      foldl select r' (map (\<lambda>p. propose (start p) p 0) ps)" for r' a'
    using Cons.prems by (intro Cons.IH) auto
  ultimately show ?case by (simp only: policyLoop.simps Let_def list.map foldl.simps)
qed simp

lemma scaleUpLimit_cases:
  assumes "\<forall>p \<in> set (opt_default [] (sr_policies rules)). known_policy p"
    and "calculateScaleUpLimitWithinScalingRules current upE downE rules now = Some limit"
    and "limit > current" "in_i32 current" "x \<le> limit"
  defines "Q \<equiv> \<lambda>p. x \<le> upProposal (periodStartReplicas current upE downE p now) p 0"
  shows "if sr_selectPolicy rules = Some MinChangePolicySelect
         then \<forall>p \<in> set (opt_default [] (sr_policies rules)). Q p
         else \<exists>p \<in> set (opt_default [] (sr_policies rules)). Q p"
proof -
  let ?ps = "opt_default [] (sr_policies rules)"
  let ?g = "\<lambda>p. upProposal (periodStartReplicas current upE downE p now) p 0"
  obtain sel where sel: "sr_selectPolicy rules = Some sel" "sel \<noteq> DisabledPolicySelect"
    using assms(2,3) by (auto simp: calculateScaleUpLimitWithinScalingRules_def split: option.splits if_splits)
  have fold: "policyLoop (\<lambda>p. periodStartReplicas current upE downE p now) upProposal f r 0 ?ps = foldl f r (map ?g ?ps)"
    for f r using assms(1) upProposal_known by (intro policyLoop_foldl) metis
  show ?thesis
  proof (cases "sel = MinChangePolicySelect")
    case True
    then have "limit = foldl min max_int32 (map ?g ?ps)"
      using assms(2) sel fold by (simp add: calculateScaleUpLimitWithinScalingRules_def min32_min [abs_def])
    then have "\<forall>p \<in> set ?ps. limit \<le> ?g p" by (auto intro: foldl_min_le)
    then show ?thesis using True sel assms(5) by (auto simp: Q_def)
  next
    case False
    then have l: "limit = foldl max min_int32 (map ?g ?ps)"
      using assms(2) sel fold by (simp add: calculateScaleUpLimitWithinScalingRules_def max32_max [abs_def])
    then have "limit \<in> set (map ?g ?ps)"
      using foldl_max_in [of min_int32 "map ?g ?ps"] assms(3,4) by (auto simp: in_i32_def)
    then show ?thesis using False sel assms(5) by (auto simp: Q_def)
  qed
qed

lemma scaleDownLimit_cases:
  assumes "\<forall>p \<in> set (opt_default [] (sr_policies rules)). known_policy p"
    and "calculateScaleDownLimitWithinScalingRules current upE downE rules now = Some limit"
    and "limit < current" "in_i32 current" "limit \<le> x"
  defines "Q \<equiv> \<lambda>p. downProposal (periodStartReplicas current upE downE p now) p 0 \<le> x"
  shows "if sr_selectPolicy rules = Some MinChangePolicySelect
         then \<forall>p \<in> set (opt_default [] (sr_policies rules)). Q p
         else \<exists>p \<in> set (opt_default [] (sr_policies rules)). Q p"
proof -
  let ?ps = "opt_default [] (sr_policies rules)"
  let ?g = "\<lambda>p. downProposal (periodStartReplicas current upE downE p now) p 0"
  obtain sel where sel: "sr_selectPolicy rules = Some sel" "sel \<noteq> DisabledPolicySelect"
    using assms(2,3) by (auto simp: calculateScaleDownLimitWithinScalingRules_def split: option.splits if_splits)
  have fold: "policyLoop (\<lambda>p. periodStartReplicas current upE downE p now) downProposal f r 0 ?ps = foldl f r (map ?g ?ps)"
    for f r using assms(1) downProposal_known by (intro policyLoop_foldl) metis
  show ?thesis
  proof (cases "sel = MinChangePolicySelect")
    case True
    then have "limit = foldl max min_int32 (map ?g ?ps)"
      using assms(2) sel fold by (simp add: calculateScaleDownLimitWithinScalingRules_def max32_max [abs_def])
    then have "\<forall>p \<in> set ?ps. ?g p \<le> limit" by (auto intro: foldl_max_ge)
    then show ?thesis using True sel assms(5) by (auto simp: Q_def)
  next
    case False
    then have l: "limit = foldl min max_int32 (map ?g ?ps)"
      using assms(2) sel fold by (simp add: calculateScaleDownLimitWithinScalingRules_def min32_min [abs_def])
    then have "limit \<in> set (map ?g ?ps)"
      using foldl_min_in [of max_int32 "map ?g ?ps"] assms(3,4) by (auto simp: in_i32_def)
    then show ?thesis using False sel assms(5) by (auto simp: Q_def)
  qed
qed

lemmas scaleLimit_defs =
  calculateScaleUpLimitWithinScalingRules_def calculateScaleDownLimitWithinScalingRules_def

lemma rate_between:
  assumes "decideTargetReplicasByBehaviorRate b current target upE downE now = Some r"
  shows "min current target \<le> r \<and> r \<le> max current target"
  using assms unfolding decideTargetReplicasByBehaviorRate_def
  by (auto simp: bind_eq_Some_conv Let_def min_def max_def split: if_splits)

lemma rate_up_limit:
  assumes "decideTargetReplicasByBehaviorRate b current target upE downE now = Some r" "current < r"
  obtains rules limit where "b_scaleUp b = Some rules" "current < limit" "r \<le> limit"
    "calculateScaleUpLimitWithinScalingRules current upE downE rules now = Some limit"
  using assms unfolding decideTargetReplicasByBehaviorRate_def
  by (fastforce simp: bind_eq_Some_conv Let_def split: if_splits)

lemma rate_down_limit:
  assumes "decideTargetReplicasByBehaviorRate b current target upE downE now = Some r" "r < current"
  obtains rules limit where "b_scaleDown b = Some rules" "limit < current" "limit \<le> r"
    "calculateScaleDownLimitWithinScalingRules current upE downE rules now = Some limit"
  using assms unfolding decideTargetReplicasByBehaviorRate_def
  by (fastforce simp: bind_eq_Some_conv Let_def split: if_splits)

text \<open>Rules with a select policy, as every defaulted behavior has, never panic.\<close>

definition rules_ready :: "HPAScalingRules option \<Rightarrow> bool" where
  "rules_ready rules = (case rules of None \<Rightarrow> False | Some r \<Rightarrow> sr_selectPolicy r \<noteq> None \<and> sr_stabilizationWindowSeconds r \<noteq> None)"

lemma rate_total:
  assumes "rules_ready (b_scaleUp b)" "rules_ready (b_scaleDown b)"
  shows "decideTargetReplicasByBehaviorRate b current target upE downE now \<noteq> None"
  using assms unfolding decideTargetReplicasByBehaviorRate_def scaleLimit_defs rules_ready_def
  by (auto simp: Let_def split: option.splits)

section \<open>Stabilization: facts\<close>

lemma upscaleMin_Min: "upscaleMin target rows = Min (set (target # map ts_replicas rows))"
proof -
  have "upscaleMin target rows = foldl min target (map ts_replicas rows)"
    by (simp add: upscaleMin_def if_lt_min foldl_map)
  then show ?thesis by (simp only: foldl_min_Min)
qed

lemma downscaleMax_Max: "downscaleMax target rows = Max (set (target # map ts_replicas rows))"
proof -
  have "downscaleMax target rows = foldl max target (map ts_replicas rows)"
    by (simp add: downscaleMax_def if_gt_max foldl_map)
  then show ?thesis by (simp only: foldl_max_Max)
qed

lemma stabilize_clamp:
  "stabilize current target upRows downRows =
     min (Max (set (target # map ts_replicas downRows))) (max (Min (set (target # map ts_replicas upRows))) current)"
  unfolding stabilize_def Let_def upscaleMin_Min [symmetric] downscaleMax_Max [symmetric] by (simp add: min_def max_def)

lemma upscaleMin_le: "upscaleMin target rows \<le> target" "r \<in> set rows \<Longrightarrow> upscaleMin target rows \<le> ts_replicas r"
  unfolding upscaleMin_Min by auto

lemma downscaleMax_ge: "target \<le> downscaleMax target rows" "r \<in> set rows \<Longrightarrow> ts_replicas r \<le> downscaleMax target rows"
  unfolding downscaleMax_Max by auto

lemma stabilize_up:
  assumes "current < stabilize current target upRows downRows"
  shows "stabilize current target upRows downRows \<le> target"
    "\<forall>r \<in> set upRows. stabilize current target upRows downRows \<le> ts_replicas r"
  using assms upscaleMin_le [where target = target and rows = upRows]
    downscaleMax_ge [where target = target and rows = downRows]
  by (force simp: stabilize_def Let_def split: if_splits)+

lemma stabilize_down:
  assumes "stabilize current target upRows downRows < current"
  shows "target \<le> stabilize current target upRows downRows"
    "\<forall>r \<in> set downRows. ts_replicas r \<le> stabilize current target upRows downRows"
  using assms upscaleMin_le [where target = target and rows = upRows]
    downscaleMax_ge [where target = target and rows = downRows]
  by (force simp: stabilize_def Let_def split: if_splits)+

text \<open>
  A larger target never gives a smaller count. The newest recommendation of both windows is the
  target itself, as the planner appends it.
\<close>

lemma upscaleMin_snoc: "ts_replicas row = t \<Longrightarrow> upscaleMin t (rows @ [row]) = upscaleMin t rows"
  unfolding upscaleMin_Min by (simp add: insert_commute)

lemma downscaleMax_snoc: "ts_replicas row = t \<Longrightarrow> downscaleMax t (rows @ [row]) = downscaleMax t rows"
  unfolding downscaleMax_Max by (simp add: insert_commute)

lemma upscaleMin_mono: "t \<le> t' \<Longrightarrow> upscaleMin t rows \<le> upscaleMin t' rows"
  unfolding upscaleMin_Min by (auto simp: Min_le_iff intro!: Min.boundedI)

lemma downscaleMax_mono: "t \<le> t' \<Longrightarrow> downscaleMax t rows \<le> downscaleMax t' rows"
  unfolding downscaleMax_Max by (cases "rows = []") (auto simp del: Max_le_iff Max_ge_iff intro: max.mono)

lemma stabilize_mono:
  assumes "t \<le> t'" "ts_replicas row = t" "ts_replicas row' = t'"
  shows "stabilize c t (u @ [row]) (d @ [row]) \<le> stabilize c t' (u @ [row']) (d @ [row'])"
  using upscaleMin_mono [OF assms(1), of u] downscaleMax_mono [OF assms(1), of d]
  by (simp add: stabilize_def Let_def upscaleMin_snoc downscaleMax_snoc assms(2,3))

lemma rate_mono:
  assumes "decideTargetReplicasByBehaviorRate b c t upE downE now = Some r"
    and "decideTargetReplicasByBehaviorRate b c t' upE downE now = Some r'" "t \<le> t'"
  shows "r \<le> r'"
proof (cases "t \<le> c \<and> c \<le> t'")
  case True
  then show ?thesis using rate_between [OF assms(1)] rate_between [OF assms(2)] by simp
next
  case False
  then consider "c < t" "c < t'" | "t < c" "t' < c" using assms(3) by linarith
  then show ?thesis using assms
    by cases (auto simp: decideTargetReplicasByBehaviorRate_def bind_eq_Some_conv Let_def split: if_splits)
qed

lemma details_mono:
  assumes "DecideTargetReplicasByBehaviorDetails b c t mn mx (u @ [row]) (d @ [row]) upE downE now = Some r"
    and "DecideTargetReplicasByBehaviorDetails b c t' mn mx (u @ [row']) (d @ [row']) upE downE now = Some r'"
    and "t \<le> t'" "ts_replicas row = t" "ts_replicas row' = t'"
  shows "br_desired r \<le> br_desired r'"
proof -
  have "br_rateLimited r \<le> br_rateLimited r'"
    using rate_mono [OF _ _ stabilize_mono [OF assms(3-5), of c u d]] assms(1,2)
    by (auto simp: DecideTargetReplicasByBehaviorDetails_def Let_def)
  then show ?thesis using assms(1,2) by (auto simp: DecideTargetReplicasByBehaviorDetails_def Let_def)
qed

text \<open>A target at the current count keeps it; a target not below the current count is no scale-down.\<close>

lemma details_at_current:
  assumes "DecideTargetReplicasByBehaviorDetails b c c mn mx u d upE downE now = Some r"
  shows "br_rateLimited r = c"
proof -
  have "stabilize c c u d = c"
    using upscaleMin_le(1) [of c u] downscaleMax_ge(1) [of c d] by (simp add: stabilize_def Let_def)
  then show ?thesis using assms
    by (auto simp: DecideTargetReplicasByBehaviorDetails_def decideTargetReplicasByBehaviorRate_def Let_def)
qed

lemma details_no_down:
  assumes "DecideTargetReplicasByBehaviorDetails b c t mn mx u d upE downE now = Some r" "c \<le> t"
  shows "c \<le> br_rateLimited r"
proof -
  have "c \<le> stabilize c t u d"
    using downscaleMax_ge(1) [of t d] assms(2) by (simp add: stabilize_def Let_def)
  moreover obtain l where "decideTargetReplicasByBehaviorRate b c (stabilize c t u d) upE downE now = Some l"
    "br_rateLimited r = l"
    using assms(1) by (auto simp: DecideTargetReplicasByBehaviorDetails_def Let_def)
  ultimately show ?thesis using rate_between by force
qed

lemma details_desired:
  assumes "DecideTargetReplicasByBehaviorDetails b c t mn mx u d upE downE now = Some r" "mn \<le> mx"
  shows "br_desired r = max mn (min mx (br_rateLimited r))"
  using assms by (auto simp: DecideTargetReplicasByBehaviorDetails_def Let_def min_def max_def)

section \<open>Properties\<close>

text \<open>
  C23: on non-negative \<open>int32\<close> candidates (at most a million), each strategy returns what its name
  says: the maximum, the minimum, the mean rounded half up (the floating-point division loses
  nothing), and the lower-rounded average of the two middle candidates of the sorted list.
\<close>

theorem strategy_exact:
  assumes "xs \<noteq> []" "\<forall>x \<in> set xs. 0 \<le> x \<and> x \<le> max_int32" "length xs \<le> 2 ^ 20"
  shows "DecideTargetReplicasByScalingStrategy DecisionMaximum xs = Inr (Max (set xs)) \<and>
    DecideTargetReplicasByScalingStrategy DecisionMinimum xs = Inr (Min (set xs)) \<and>
    DecideTargetReplicasByScalingStrategy DecisionMean xs =
      Inr ((2 * sum_list xs + int (length xs)) div (2 * int (length xs))) \<and>
    DecideTargetReplicasByScalingStrategy DecisionMedian xs =
      Inr ((sort xs ! ((length xs - 1) div 2) + sort xs ! (length xs div 2)) div 2)"
  using assms strategy_Max [of xs] strategy_Min [of xs] strategy_Mean [of xs] strategy_Median [of xs] by blast

theorem strategy_exact_witness:
  "DecideTargetReplicasByScalingStrategy DecisionMean [3, 8, 3] = Inr 5 \<and>
   DecideTargetReplicasByScalingStrategy DecisionMedian [3, 8, 3] = Inr 3"
  using strategy_exact [of "[3, 8, 3]"] by simp

text \<open>
  C5: the final count lies within the configured bounds, and before that clamp the rate-limited
  count never moves away from the request on any recommendation of the window: a scale-up is
  covered by the target and every recommendation of the scale-up window, a scale-down by those of
  the scale-down window.
\<close>

theorem behavior_covered_by_window:
  assumes "DecideTargetReplicasByBehaviorDetails b current target minR maxR upRows downRows upE downE now = Some r"
    and "minR \<le> maxR"
  shows "minR \<le> br_desired r \<and> br_desired r \<le> maxR \<and>
    (minR \<le> br_rateLimited r \<and> br_rateLimited r \<le> maxR \<longrightarrow> br_desired r = br_rateLimited r) \<and>
    (current < br_rateLimited r \<longrightarrow> br_rateLimited r \<le> target \<and> (\<forall>x \<in> set upRows. br_rateLimited r \<le> ts_replicas x)) \<and>
    (br_rateLimited r < current \<longrightarrow> target \<le> br_rateLimited r \<and> (\<forall>x \<in> set downRows. ts_replicas x \<le> br_rateLimited r))"
proof -
  let ?s = "stabilize current target upRows downRows"
  obtain l where l: "decideTargetReplicasByBehaviorRate b current ?s upE downE now = Some l"
    and r: "br_rateLimited r = l" "br_desired r = (let t = (if l < minR then minR else l) in if t > maxR then maxR else t)"
    using assms(1) by (auto simp: DecideTargetReplicasByBehaviorDetails_def Let_def)
  have "current < l \<longrightarrow> current < ?s \<and> l \<le> ?s" "l < current \<longrightarrow> ?s < current \<and> ?s \<le> l"
    using rate_between [OF l] by (auto simp: min_def max_def split: if_splits)
  then have "current < l \<longrightarrow> l \<le> target \<and> (\<forall>x \<in> set upRows. l \<le> ts_replicas x)"
    "l < current \<longrightarrow> target \<le> l \<and> (\<forall>x \<in> set downRows. ts_replicas x \<le> l)"
    using stabilize_up [of current target upRows downRows] stabilize_down [of current target upRows downRows]
    by (meson order_trans)+
  then show ?thesis using assms(2) r by (auto simp: Let_def)
qed

theorem behavior_covered_by_window_witness:
  "DecideTargetReplicasByBehaviorDetails
     \<lparr>b_scaleUp = Some \<lparr>sr_stabilizationWindowSeconds = Some 0, sr_selectPolicy = Some MaxChangePolicySelect,
        sr_policies = Some [\<lparr>pol_type = PodsScalingPolicy, pol_value = 4, pol_periodSeconds = 15\<rparr>]\<rparr>, b_scaleDown = None\<rparr>
     3 9 1 6 [] [] [] [] zero_time = Some \<lparr>br_stabilized = 9, br_rateLimited = 7, br_desired = 6\<rparr> \<and>
   1 \<le> (6::int) \<and> (6::int) \<le> 6"
proof -
  let ?b = "\<lparr>b_scaleUp = Some \<lparr>sr_stabilizationWindowSeconds = Some 0, sr_selectPolicy = Some MaxChangePolicySelect,
        sr_policies = Some [\<lparr>pol_type = PodsScalingPolicy, pol_value = 4, pol_periodSeconds = 15\<rparr>]\<rparr>, b_scaleDown = None\<rparr>"
  have "DecideTargetReplicasByBehaviorDetails ?b 3 9 1 6 [] [] [] [] zero_time =
      Some \<lparr>br_stabilized = 9, br_rateLimited = 7, br_desired = 6\<rparr>"
    by code_simp
  with behavior_covered_by_window [OF this] show ?thesis by simp
qed

text \<open>
  A scale-up is within the rate policies: it needs scale-up rules, and the rate-limited count
  does not exceed what the policies allow from the count at the start of their period - every
  policy when the rules select the smallest change, one of them otherwise.
\<close>

theorem scale_up_within_policies:
  assumes "DecideTargetReplicasByBehaviorDetails b current target minR maxR upRows downRows upE downE now = Some r"
    and "current < br_rateLimited r" "in_i32 current" "b_scaleUp b = Some rules"
    and "\<forall>p \<in> set (opt_default [] (sr_policies rules)). known_policy p"
  shows "sr_selectPolicy rules \<noteq> Some DisabledPolicySelect \<and>
    (if sr_selectPolicy rules = Some MinChangePolicySelect
     then \<forall>p \<in> set (opt_default [] (sr_policies rules)).
            br_rateLimited r \<le> upProposal (periodStartReplicas current upE downE p now) p 0
     else \<exists>p \<in> set (opt_default [] (sr_policies rules)).
            br_rateLimited r \<le> upProposal (periodStartReplicas current upE downE p now) p 0)"
proof -
  obtain t where l: "decideTargetReplicasByBehaviorRate b current t upE downE now = Some (br_rateLimited r)"
    using assms(1) by (auto simp: DecideTargetReplicasByBehaviorDetails_def Let_def)
  from rate_up_limit [OF l assms(2)] obtain limit where lim: "current < limit" "br_rateLimited r \<le> limit"
    "calculateScaleUpLimitWithinScalingRules current upE downE rules now = Some limit"
    using assms(4) by auto
  have "sr_selectPolicy rules \<noteq> Some DisabledPolicySelect" using lim(1,3) by (auto simp: scaleLimit_defs)
  then show ?thesis using scaleUpLimit_cases [OF assms(5) lim(3,1) assms(3) lim(2)] by blast
qed

theorem scale_up_within_policies_witness:
  "(7::int) \<le> upProposal (periodStartReplicas 3 [] []
      \<lparr>pol_type = PodsScalingPolicy, pol_value = 4, pol_periodSeconds = 15\<rparr> zero_time)
      \<lparr>pol_type = PodsScalingPolicy, pol_value = 4, pol_periodSeconds = 15\<rparr> 0"
proof -
  let ?p = "\<lparr>pol_type = PodsScalingPolicy, pol_value = 4, pol_periodSeconds = 15\<rparr>"
  let ?s = "\<lparr>sr_stabilizationWindowSeconds = Some 0, sr_selectPolicy = Some MinChangePolicySelect, sr_policies = Some [?p]\<rparr>"
  have "DecideTargetReplicasByBehaviorDetails \<lparr>b_scaleUp = Some ?s, b_scaleDown = None\<rparr> 3 9 1 6 [] [] [] [] zero_time =
      Some \<lparr>br_stabilized = 9, br_rateLimited = 7, br_desired = 6\<rparr>"
    by code_simp
  from scale_up_within_policies [OF this, of ?s] show ?thesis by (simp add: in_i32_def opt_default_def)
qed

text \<open>
  A scale-down is within the rate policies: the rate-limited count is not below what the
  scale-down policies allow from the count at the start of their period - every policy when the
  rules select the smallest change, one of them otherwise.
\<close>

theorem scale_down_within_policies:
  assumes "DecideTargetReplicasByBehaviorDetails b current target minR maxR upRows downRows upE downE now = Some r"
    and "br_rateLimited r < current" "in_i32 current" "b_scaleDown b = Some rules"
    and "\<forall>p \<in> set (opt_default [] (sr_policies rules)). known_policy p"
  shows "sr_selectPolicy rules \<noteq> Some DisabledPolicySelect \<and>
    (if sr_selectPolicy rules = Some MinChangePolicySelect
     then \<forall>p \<in> set (opt_default [] (sr_policies rules)).
            downProposal (periodStartReplicas current upE downE p now) p 0 \<le> br_rateLimited r
     else \<exists>p \<in> set (opt_default [] (sr_policies rules)).
            downProposal (periodStartReplicas current upE downE p now) p 0 \<le> br_rateLimited r)"
proof -
  obtain t where l: "decideTargetReplicasByBehaviorRate b current t upE downE now = Some (br_rateLimited r)"
    using assms(1) by (auto simp: DecideTargetReplicasByBehaviorDetails_def Let_def)
  from rate_down_limit [OF l assms(2)] obtain limit where lim: "limit < current" "limit \<le> br_rateLimited r"
    "calculateScaleDownLimitWithinScalingRules current upE downE rules now = Some limit"
    using assms(4) by auto
  have "sr_selectPolicy rules \<noteq> Some DisabledPolicySelect" using lim(1,3) by (auto simp: scaleLimit_defs)
  then show ?thesis using scaleDownLimit_cases [OF assms(5) lim(3,1) assms(3) lim(2)] by blast
qed

theorem scale_down_within_policies_witness:
  "downProposal (periodStartReplicas 9 [] []
      \<lparr>pol_type = PodsScalingPolicy, pol_value = 4, pol_periodSeconds = 15\<rparr> zero_time)
      \<lparr>pol_type = PodsScalingPolicy, pol_value = 4, pol_periodSeconds = 15\<rparr> 0 \<le> 5"
proof -
  let ?p = "\<lparr>pol_type = PodsScalingPolicy, pol_value = 4, pol_periodSeconds = 15\<rparr>"
  let ?s = "\<lparr>sr_stabilizationWindowSeconds = Some 0, sr_selectPolicy = Some MinChangePolicySelect, sr_policies = Some [?p]\<rparr>"
  have "DecideTargetReplicasByBehaviorDetails \<lparr>b_scaleUp = None, b_scaleDown = Some ?s\<rparr> 9 2 1 6 [] [] [] [] zero_time =
      Some \<lparr>br_stabilized = 2, br_rateLimited = 5, br_desired = 5\<rparr>"
    by code_simp
  from scale_down_within_policies [OF this, of ?s] show ?thesis by (simp add: in_i32_def opt_default_def)
qed

text \<open>
  C24: the floating-point percentage limits are the exact ones (rounded up for a scale-up, rounded
  down for a scale-down, capped at the largest \<open>int32\<close>), except that where the exact limit is an
  integer the result can be one replica beyond it. That excess does occur: ten percent of 100 replicas
  allows 111, because the binary64 value of 1.1 lies above 1.1 and the product is rounded up; a 90
  percent scale-down from 10 replicas allows 0 and not 1, because \<open>1 - 0.9\<close> lies below 0.1 and the
  product is truncated.
\<close>

theorem percent_limit_near_exact:
  assumes "0 \<le> start" "start \<le> max_int32" "0 \<le> v"
  shows "(v \<le> 10000 \<longrightarrow>
      percentUp start v = min max_int32 ((start * (100 + v) + 99) div 100) \<or>
      100 dvd start * (100 + v) \<and> percentUp start v = min max_int32 (start * (100 + v) div 100 + 1)) \<and>
    (v \<le> 100 \<longrightarrow>
      percentDown start v = start * (100 - v) div 100 \<or>
      100 dvd start * (100 - v) \<and> percentDown start v = max 0 (start * (100 - v) div 100 - 1)) \<and>
    percentUp 100 10 = 111 \<and> percentDown 10 90 = 0"
  using percentUp_exact [OF assms] percentDown_exact [OF assms] percentUp_100_10 percentDown_10_90 by blast

theorem percent_limit_near_exact_witness:
  "percentUp 7 50 = 11 \<and> percentDown 7 50 = 3"
  using percent_limit_near_exact [of 7 50] by simp

end
