(* ===== verification/Decision.thy ===== *)
theory Decision
  imports ScaleBehavior
begin

text \<open>
  \<open>src/internal/decision/decision.go\<close>: one decision cycle planned from the specification, the
  recorded accounting history and the candidates of this cycle, without clients, clocks or writes.
  \<open>plan\<close> and \<open>Plan\<close> return \<open>None\<close> where the Go code would dereference a nil rule pointer; the facts
  below show that this never happens.
\<close>

section \<open>Inputs and results\<close>

record Input =
  in_spec :: HPAPlusSpec
  in_status :: HPAPlusStatus
  in_now :: gotime
  in_requested :: int32
  in_baseline :: int32
  in_predictions :: "int32 list"
  in_metricsIncomplete :: bool

record Result =
  r_rolloutMode :: string
  r_baselineDesired :: int32
  r_controlDesired :: int32
  r_constraints :: "string list"
  r_mode :: string
  r_baselineIncluded :: bool
  r_metricsHeld :: bool
  r_selected :: int32
  r_guarded :: int32
  r_desired :: int32
  r_scaleUpRecommendations :: "TimestampedSample list"
  r_scaleDownRecommendations :: "TimestampedSample list"

definition BehaviorDefaults :: "Behavior option \<Rightarrow> Behavior" where
  "BehaviorDefaults b = DefaultBehavior b"

section \<open>Candidates\<close>

definition minReplicasOf :: "Input \<Rightarrow> int32" where
  "minReplicasOf i = (case s_minReplicas (in_spec i) of None \<Rightarrow> DefaultMinReplicas | Some m \<Rightarrow> m)"

definition strategyOf :: "Input \<Rightarrow> string" where
  "strategyOf i = (case s_decisionType (in_spec i) of None \<Rightarrow> DefaultDecisionType | Some t \<Rightarrow> t)"

definition holdFailure :: "Input \<Rightarrow> bool" where
  "holdFailure i \<longleftrightarrow>
     s_predictionFailurePolicy (in_spec i) = PredictionFailureHoldCurrent \<or>
     (\<exists>m \<in> set (s_models (in_spec i)). m_requestDemand m \<noteq> None)"

definition baselineIncluded :: "Input \<Rightarrow> bool" where
  "baselineIncluded i \<longleftrightarrow>
     (in_predictions i = [] \<and> \<not> holdFailure i) \<or>
     (in_predictions i \<noteq> [] \<and> s_includeHPA (in_spec i) = Some True)"

definition candidates :: "Input \<Rightarrow> int32 list" where
  "candidates i =
     in_predictions i @ (if in_predictions i = [] \<and> holdFailure i then [in_requested i] else []) @
     (if baselineIncluded i then [in_baseline i] else [])"

definition candidateMode :: "Input \<Rightarrow> bool \<Rightarrow> string" where
  "candidateMode i assist =
     (if in_predictions i \<noteq> [] then (if baselineIncluded i \<or> assist then ''mixed'' else ''predictive'')
      else if holdFailure i then ''hold'' else ''baseline'')"

definition invalidInputs :: "Input \<Rightarrow> bool" where
  "invalidInputs i \<longleftrightarrow>
     is_zero (in_now i) \<or> in_requested i < 0 \<or> in_baseline i < 0 \<or> minReplicasOf i < 0 \<or>
     s_maxReplicas (in_spec i) < minReplicasOf i"

section \<open>The plan\<close>

definition sampleRow :: "gotime \<Rightarrow> int32 \<Rightarrow> TimestampedSample" where
  "sampleRow now n =
     \<lparr>ts_time = Some now, ts_replicas = n, ts_metric = None, ts_totalCPUUsageMillicores = None,
      ts_requestPerPodMillicores = None, ts_targetCPUUtilizationPercentage = None\<rparr>"

text \<open>The reasons recorded after the behavior rules, in the order the code appends them.\<close>

definition behaviorConstraints :: "Input \<Rightarrow> bool \<Rightarrow> int32 \<Rightarrow> HPAScalingRules \<Rightarrow> HPAScalingRules \<Rightarrow> BehaviorResult \<Rightarrow> string list" where
  "behaviorConstraints i held guarded up down d =
     (if held then [''partial_metrics''] else []) @
     (if br_stabilized d \<noteq> guarded then [''stabilization''] else []) @
     (if br_rateLimited d \<noteq> br_stabilized d
      then [if (br_stabilized d > in_requested i \<and> sr_selectPolicy up = Some DisabledPolicySelect) \<or>
               (br_stabilized d < in_requested i \<and> sr_selectPolicy down = Some DisabledPolicySelect)
            then ''disabled'' else ''rate_limit'']
      else []) @
     (if br_rateLimited d < minReplicasOf i then [''minimum''] else []) @
     (if br_rateLimited d > s_maxReplicas (in_spec i) then [''maximum''] else [])"

text \<open>From the guarded count on: pruning, recommendations and the behavior rules.\<close>

definition applyBehavior :: "Input \<Rightarrow> int32 \<Rightarrow>
    (TimestampedSample list \<times> TimestampedSample list \<times> HPAScalingRules \<times> HPAScalingRules \<times> BehaviorResult) option" where
  "applyBehavior i guarded =
     (let behavior = BehaviorDefaults (s_behavior (in_spec i)); st = in_status i; now = in_now i;
          upEvents = PruneTimestampedReplicasToWindow (st_scaleUpEventHistory st)
            (GetLongestPolicyPeriod (b_scaleUp behavior)) now;
          downEvents = PruneTimestampedReplicasToWindow (st_scaleDownEventHistory st)
            (GetLongestPolicyPeriod (b_scaleDown behavior)) now;
          row = sampleRow now guarded
      in Option.bind (b_scaleUp behavior) (\<lambda>up. Option.bind (sr_stabilizationWindowSeconds up) (\<lambda>wu.
         Option.bind (b_scaleDown behavior) (\<lambda>down. Option.bind (sr_stabilizationWindowSeconds down) (\<lambda>wd.
           let ups = PruneTimestampedReplicasToWindow (st_scaleUpReplicaHistory st) wu now @ [row];
               downs = PruneTimestampedReplicasToWindow (st_scaleDownReplicaHistory st) wd now @ [row]
           in map_option (\<lambda>d. (ups, downs, up, down, d))
                (DecideTargetReplicasByBehaviorDetails behavior (in_requested i) guarded (minReplicasOf i)
                   (s_maxReplicas (in_spec i)) ups downs upEvents downEvents now))))))"

definition plan :: "Input \<Rightarrow> bool \<Rightarrow> Result result option" where
  "plan i assist =
     (if invalidInputs i then Some (Inl ''invalid decision inputs'')
      else case DecideTargetReplicasByScalingStrategy (strategyOf i) (candidates i) of
        Inl e \<Rightarrow> Some (Inl e)
      | Inr chosen \<Rightarrow>
          let raised = (assist \<and> chosen < in_baseline i);
              selected = (if raised then in_baseline i else chosen);
              held = (in_metricsIncomplete i \<and> selected < in_requested i);
              guarded = (if held then in_requested i else selected);
              hold = (if in_predictions i = [] \<and> holdFailure i then [''prediction_unavailable_hold''] else []);
              floor = (if raised then [''assist_baseline''] else [])
          in map_option
               (\<lambda>(ups, downs, up, down, d). Inr
                  \<lparr>r_rolloutMode = '''', r_baselineDesired = 0, r_controlDesired = 0,
                   r_constraints = hold @ floor @ behaviorConstraints i held guarded up down d,
                   r_mode = candidateMode i assist,
                   r_baselineIncluded = baselineIncluded i \<or> assist,
                   r_metricsHeld = held, r_selected = selected, r_guarded = guarded, r_desired = br_desired d,
                   r_scaleUpRecommendations = ups, r_scaleDownRecommendations = downs\<rparr>)
               (applyBehavior i guarded))"

definition baselineInput :: "Input \<Rightarrow> Input" where
  "baselineInput i =
     i\<lparr>in_predictions := [],
       in_spec := (in_spec i)\<lparr>s_models := [], s_predictionFailurePolicy := PredictionFailureReactive\<rparr>\<rparr>"

text \<open>The zero \<open>Result{}\<close> that \<open>plan\<close> returns beside an error, which \<open>Plan\<close> would read if it ignored one.\<close>

definition zeroResult :: Result where
  "zeroResult =
     \<lparr>r_rolloutMode = '''', r_baselineDesired = 0, r_controlDesired = 0, r_constraints = [], r_mode = '''',
      r_baselineIncluded = False, r_metricsHeld = False, r_selected = 0, r_guarded = 0, r_desired = 0,
      r_scaleUpRecommendations = [], r_scaleDownRecommendations = []\<rparr>"

definition ignoreError :: "Result result \<Rightarrow> Result" where
  "ignoreError x = (case x of Inl _ \<Rightarrow> zeroResult | Inr r \<Rightarrow> r)"

definition Plan :: "Input \<Rightarrow> Result result option" where
  "Plan i =
     (let mode = EffectiveMode (in_spec i) in
      if mode \<noteq> ModeObserve \<and> mode \<noteq> ModeAssist \<and> mode \<noteq> ModeControl then Some (Inl ''invalid rollout mode'')
      else Option.bind (plan i False) (\<lambda>c. case c of
          Inl e \<Rightarrow> Some (Inl e)
        | Inr control \<Rightarrow>
            Option.bind (map_option ignoreError (plan (baselineInput i) False)) (\<lambda>baseline.
            Option.bind (if mode = ModeAssist then map_option ignoreError (plan i True) else Some control) (\<lambda>result.
              Some (Inr (let result' = result\<lparr>r_rolloutMode := mode, r_baselineDesired := r_desired baseline,
                                r_controlDesired := r_desired control\<rparr>
                         in if mode = ModeObserve
                            then result'\<lparr>r_desired := in_requested i, r_scaleUpRecommendations := [],
                                   r_scaleDownRecommendations := []\<rparr>
                            else result')))))) "

section \<open>Facts\<close>

lemma behavior_ready:
  obtains up down wu wd where "b_scaleUp (BehaviorDefaults b) = Some up" "b_scaleDown (BehaviorDefaults b) = Some down"
    "sr_stabilizationWindowSeconds up = Some wu" "sr_stabilizationWindowSeconds down = Some wd"
    "rules_ready (b_scaleUp (BehaviorDefaults b))" "rules_ready (b_scaleDown (BehaviorDefaults b))"
proof -
  obtain up down where "b_scaleUp (DefaultBehavior b) = Some up" "rules_complete up"
    "b_scaleDown (DefaultBehavior b) = Some down" "rules_complete down"
    using DefaultBehavior_up DefaultBehavior_down by blast
  then show ?thesis using that by (auto simp: rules_complete_def rules_ready_def BehaviorDefaults_def)
qed

text \<open>
  The behavior rules applied to a guarded count: the recommendations are those inside the windows
  and this cycle's row, and no pointer read on the way is nil.
\<close>

definition upRules :: "Input \<Rightarrow> HPAScalingRules" where
  "upRules i = the (b_scaleUp (BehaviorDefaults (s_behavior (in_spec i))))"

definition downRules :: "Input \<Rightarrow> HPAScalingRules" where
  "downRules i = the (b_scaleDown (BehaviorDefaults (s_behavior (in_spec i))))"

definition upWindow :: "Input \<Rightarrow> TimestampedSample list" where
  "upWindow i = PruneTimestampedReplicasToWindow (st_scaleUpReplicaHistory (in_status i))
     (the (sr_stabilizationWindowSeconds (upRules i))) (in_now i)"

definition downWindow :: "Input \<Rightarrow> TimestampedSample list" where
  "downWindow i = PruneTimestampedReplicasToWindow (st_scaleDownReplicaHistory (in_status i))
     (the (sr_stabilizationWindowSeconds (downRules i))) (in_now i)"

definition behaviorDetails :: "Input \<Rightarrow> int32 \<Rightarrow> BehaviorResult option" where
  "behaviorDetails i g =
     DecideTargetReplicasByBehaviorDetails (BehaviorDefaults (s_behavior (in_spec i))) (in_requested i) g (minReplicasOf i)
       (s_maxReplicas (in_spec i)) (upWindow i @ [sampleRow (in_now i) g]) (downWindow i @ [sampleRow (in_now i) g])
       (PruneTimestampedReplicasToWindow (st_scaleUpEventHistory (in_status i)) (GetLongestPolicyPeriod (Some (upRules i))) (in_now i))
       (PruneTimestampedReplicasToWindow (st_scaleDownEventHistory (in_status i)) (GetLongestPolicyPeriod (Some (downRules i))) (in_now i))
       (in_now i)"

lemma applyBehavior_eq:
  "applyBehavior i g =
     map_option (\<lambda>d. (upWindow i @ [sampleRow (in_now i) g], downWindow i @ [sampleRow (in_now i) g], upRules i, downRules i, d))
       (behaviorDetails i g)"
proof -
  obtain up down wu wd where b: "b_scaleUp (BehaviorDefaults (s_behavior (in_spec i))) = Some up"
    "b_scaleDown (BehaviorDefaults (s_behavior (in_spec i))) = Some down"
    "sr_stabilizationWindowSeconds up = Some wu" "sr_stabilizationWindowSeconds down = Some wd"
    by (rule behavior_ready)
  then show ?thesis
    by (simp add: applyBehavior_def Let_def behaviorDetails_def upWindow_def downWindow_def upRules_def downRules_def)
qed

lemma behaviorDetails_some: "\<exists>d. behaviorDetails i g = Some d"
proof -
  have "rules_ready (b_scaleUp (BehaviorDefaults (s_behavior (in_spec i))))"
    "rules_ready (b_scaleDown (BehaviorDefaults (s_behavior (in_spec i))))"
    by (rule behavior_ready, assumption)+
  from rate_total [OF this] show ?thesis
    by (simp add: behaviorDetails_def DecideTargetReplicasByBehaviorDetails_def Let_def)
qed

lemma applyBehavior_some: "\<exists>ups downs up down d. applyBehavior i g = Some (ups, downs, up, down, d)"
  using behaviorDetails_some [of i g] by (auto simp: applyBehavior_eq)

text \<open>The desired count as a function of the guarded one.\<close>

definition desiredFrom :: "Input \<Rightarrow> int32 \<Rightarrow> int32" where
  "desiredFrom i g = (case behaviorDetails i g of None \<Rightarrow> 0 | Some d \<Rightarrow> br_desired d)"

definition guardedOf :: "Input \<Rightarrow> int32 \<Rightarrow> int32" where
  "guardedOf i selected = (if in_metricsIncomplete i \<and> selected < in_requested i then in_requested i else selected)"

definition selectedOf :: "Input \<Rightarrow> bool \<Rightarrow> int32 \<Rightarrow> int32" where
  "selectedOf i assist chosen = (if assist \<and> chosen < in_baseline i then in_baseline i else chosen)"

lemma guardedOf_mono: "x \<le> y \<Longrightarrow> guardedOf i x \<le> guardedOf i y"
  by (auto simp: guardedOf_def)

text \<open>A plan in one line: an error, or the strategy's choice raised, guarded and put through the behavior rules.\<close>

lemma plan_cases:
  obtains e where "plan i assist = Some (Inl e)"
    "invalidInputs i \<or> \<not> is_ok (DecideTargetReplicasByScalingStrategy (strategyOf i) (candidates i))"
  | chosen r where "\<not> invalidInputs i"
    "DecideTargetReplicasByScalingStrategy (strategyOf i) (candidates i) = Inr chosen"
    "plan i assist = Some (Inr r)" "r_selected r = selectedOf i assist chosen"
    "r_guarded r = guardedOf i (r_selected r)" "r_desired r = desiredFrom i (r_guarded r)"
    "r_metricsHeld r \<longleftrightarrow> in_metricsIncomplete i \<and> r_selected r < in_requested i"
proof (cases "invalidInputs i \<or> \<not> is_ok (DecideTargetReplicasByScalingStrategy (strategyOf i) (candidates i))")
  case True
  then show ?thesis
    by (cases "invalidInputs i"; cases "DecideTargetReplicasByScalingStrategy (strategyOf i) (candidates i)")
      (auto simp: plan_def intro: that(1))
next
  case False
  then obtain chosen where c: "\<not> invalidInputs i" "DecideTargetReplicasByScalingStrategy (strategyOf i) (candidates i) = Inr chosen"
    by (auto simp: is_ok_iff)
  obtain d where a: "behaviorDetails i (guardedOf i (selectedOf i assist chosen)) = Some d"
    using behaviorDetails_some by blast
  show ?thesis
    by (rule that(2) [OF c]) (use a c in \<open>auto simp: plan_def Let_def guardedOf_def selectedOf_def desiredFrom_def applyBehavior_eq\<close>)
qed

text \<open>What a plan reads of its input.\<close>

lemma plan_cong:
  assumes "in_baseline j = in_baseline i" "in_requested j = in_requested i" "in_predictions j = in_predictions i"
    "in_metricsIncomplete j = in_metricsIncomplete i" "invalidInputs j = invalidInputs i" "strategyOf j = strategyOf i"
    "holdFailure j = holdFailure i" "baselineIncluded j = baselineIncluded i"
    "behaviorConstraints j = behaviorConstraints i" "applyBehavior j = applyBehavior i"
  shows "plan j a = plan i a"
proof -
  have c: "candidates j = candidates i" "candidateMode j a = candidateMode i a"
    unfolding candidates_def candidateMode_def assms by (rule refl)+
  show ?thesis unfolding plan_def assms c by (rule refl)
qed

lemma plan_mode: "plan i a = Some (Inr x) \<Longrightarrow> r_mode x = candidateMode i a"
  by (auto simp: plan_def Let_def split: if_splits sum.splits)

lemma plan_total: "plan i assist \<noteq> None"
  by (cases rule: plan_cases [of i assist]) auto

lemma candidates_nonempty: "candidates i \<noteq> []"
  by (auto simp: candidates_def baselineIncluded_def)

lemma plan_ok_iff:
  "(\<exists>r. plan i assist = Some (Inr r)) \<longleftrightarrow>
     \<not> invalidInputs i \<and> (\<forall>p \<in> set (in_predictions i). 0 \<le> p) \<and>
     strategyOf i \<in> {DecisionMaximum, DecisionMinimum, DecisionMean, DecisionMedian}"
proof -
  have "(\<exists>r. plan i assist = Some (Inr r)) \<longleftrightarrow>
      \<not> invalidInputs i \<and> is_ok (DecideTargetReplicasByScalingStrategy (strategyOf i) (candidates i))"
    by (cases rule: plan_cases [of i assist]) auto
  moreover have "\<not> invalidInputs i \<Longrightarrow>
      (\<forall>x \<in> set (candidates i). 0 \<le> x) \<longleftrightarrow> (\<forall>p \<in> set (in_predictions i). 0 \<le> p)"
    by (auto simp: candidates_def invalidInputs_def)
  ultimately show ?thesis using candidates_nonempty unfolding strategy_ok_iff by blast
qed

lemma sampleRow_replicas [simp]: "ts_replicas (sampleRow now n) = n"
  by (simp add: sampleRow_def)

lemma desiredFrom_mono:
  assumes "g \<le> g'"
  shows "desiredFrom i g \<le> desiredFrom i g'"
proof -
  obtain d where d: "behaviorDetails i g = Some d" using behaviorDetails_some by blast
  obtain d' where d': "behaviorDetails i g' = Some d'" using behaviorDetails_some by blast
  have "br_desired d \<le> br_desired d'"
    by (rule details_mono [OF d [unfolded behaviorDetails_def] d' [unfolded behaviorDetails_def] assms]) simp_all
  then show ?thesis by (simp add: desiredFrom_def d d')
qed

lemma desiredFrom_clamp:
  assumes "\<not> invalidInputs i"
  obtains d where "behaviorDetails i g = Some d"
    "desiredFrom i g = max (minReplicasOf i) (min (s_maxReplicas (in_spec i)) (br_rateLimited d))"
proof -
  obtain d where d: "behaviorDetails i g = Some d" using behaviorDetails_some by blast
  have "minReplicasOf i \<le> s_maxReplicas (in_spec i)" using assms by (simp add: invalidInputs_def)
  then show ?thesis using that d details_desired by (simp add: desiredFrom_def behaviorDetails_def)
qed

lemma desiredFrom_bounds:
  assumes "\<not> invalidInputs i"
  shows "minReplicasOf i \<le> desiredFrom i g" "desiredFrom i g \<le> s_maxReplicas (in_spec i)"
proof -
  obtain d where "behaviorDetails i g = Some d" "desiredFrom i g = max (minReplicasOf i) (min (s_maxReplicas (in_spec i)) (br_rateLimited d))"
    by (rule desiredFrom_clamp [OF assms, of g])
  then show "minReplicasOf i \<le> desiredFrom i g" "desiredFrom i g \<le> s_maxReplicas (in_spec i)"
    using assms by (simp_all add: invalidInputs_def)
qed

lemma desiredFrom_requested:
  assumes "\<not> invalidInputs i"
  shows "desiredFrom i (in_requested i) = max (minReplicasOf i) (min (s_maxReplicas (in_spec i)) (in_requested i))"
proof -
  obtain d where d: "behaviorDetails i (in_requested i) = Some d"
    "desiredFrom i (in_requested i) = max (minReplicasOf i) (min (s_maxReplicas (in_spec i)) (br_rateLimited d))"
    using desiredFrom_clamp [OF assms] .
  have "br_rateLimited d = in_requested i" using d(1) details_at_current by (simp add: behaviorDetails_def)
  then show ?thesis using d(2) by simp
qed

lemma desiredFrom_no_down:
  assumes "\<not> invalidInputs i" "in_requested i \<le> g"
  shows "min (s_maxReplicas (in_spec i)) (in_requested i) \<le> desiredFrom i g"
proof -
  obtain d where d: "behaviorDetails i g = Some d"
    "desiredFrom i g = max (minReplicasOf i) (min (s_maxReplicas (in_spec i)) (br_rateLimited d))"
    using desiredFrom_clamp [OF assms(1)] .
  have "in_requested i \<le> br_rateLimited d"
    using details_no_down [OF d(1) [unfolded behaviorDetails_def] assms(2)] .
  then show ?thesis using d(2) by linarith
qed

text \<open>The reactive counterfactual: only the baseline is a candidate, and the rest of the input is unchanged.\<close>

lemma baselineInput_simps [simp]:
  "invalidInputs (baselineInput i) \<longleftrightarrow> invalidInputs i" "strategyOf (baselineInput i) = strategyOf i"
  "in_predictions (baselineInput i) = []" "candidates (baselineInput i) = [in_baseline i]"
  "guardedOf (baselineInput i) = guardedOf i" "minReplicasOf (baselineInput i) = minReplicasOf i"
  by (simp_all add: baselineInput_def invalidInputs_def minReplicasOf_def strategyOf_def candidates_def
      baselineIncluded_def holdFailure_def guardedOf_def fun_eq_iff)

lemma desiredFrom_baselineInput [simp]: "desiredFrom (baselineInput i) = desiredFrom i"
  by (simp add: fun_eq_iff desiredFrom_def behaviorDetails_def baselineInput_def minReplicasOf_def
      upWindow_def downWindow_def upRules_def downRules_def)

lemma strategy_singleton:
  assumes "DecideTargetReplicasByScalingStrategy t [b] = Inr r" "b \<le> max_int32"
  shows "r = b"
  using strategy_between [OF assms(1), of b b] assms(2) by simp

lemma baseline_plan:
  assumes "plan i False = Some (Inr c)" "in_baseline i \<le> max_int32"
  obtains b where "plan (baselineInput i) False = Some (Inr b)" "r_selected b = in_baseline i"
    "r_desired b = desiredFrom i (guardedOf i (in_baseline i))"
proof -
  have ok: "\<exists>r. plan (baselineInput i) False = Some (Inr r)"
    using assms(1) plan_ok_iff [of i False] plan_ok_iff [of "baselineInput i" False] by auto
  show ?thesis
  proof (cases rule: plan_cases [of "baselineInput i" False])
    case 1
    then show ?thesis using ok by simp
  next
    case (2 chosen r)
    then have "chosen = in_baseline i" using strategy_singleton assms(2) by simp
    with 2 show ?thesis by (intro that) (auto simp: selectedOf_def)
  qed
qed

lemma assist_plan:
  assumes "plan i False = Some (Inr c)"
  obtains a where "plan i True = Some (Inr a)" "r_selected a = max (in_baseline i) (r_selected c)"
    "r_guarded a = guardedOf i (r_selected a)" "r_desired a = desiredFrom i (r_guarded a)"
    "r_guarded c = guardedOf i (r_selected c)" "r_desired c = desiredFrom i (r_guarded c)"
proof -
  have ok: "\<exists>r. plan i True = Some (Inr r)" using assms plan_ok_iff by blast
  show ?thesis
  proof (cases rule: plan_cases [of i True])
    case 1
    then show ?thesis using ok by simp
  next
    case (2 chosen r)
    note t = this
    show ?thesis
    proof (cases rule: plan_cases [of i False])
      case 1
      then show ?thesis using assms by simp
    next
      case (2 chosen' r')
      with t assms show ?thesis by (intro that [of r]) (auto simp: selectedOf_def)
    qed
  qed
qed

text \<open>What \<open>Plan\<close> returns: the control plan or the assist plan, with both counterfactuals; the errors it ignores are nil.\<close>

definition planResult :: "Input \<Rightarrow> Result \<Rightarrow> Result \<Rightarrow> Result" where
  "planResult i c b =
     (let mode = EffectiveMode (in_spec i);
             r' = (if mode = ModeAssist then ignoreError (the (plan i True)) else c)
               \<lparr>r_rolloutMode := mode, r_baselineDesired := r_desired b, r_controlDesired := r_desired c\<rparr>
          in if mode = ModeObserve
             then r'\<lparr>r_desired := in_requested i, r_scaleUpRecommendations := [], r_scaleDownRecommendations := []\<rparr> else r')"

lemma Plan_cases:
  assumes "Plan i = Some (Inr r)"
  obtains c b where "EffectiveMode (in_spec i) \<in> {ModeObserve, ModeAssist, ModeControl}" "plan i False = Some (Inr c)"
    "plan (baselineInput i) False = Some (Inr b)"
    "r = planResult i c b"
proof -
  have m: "EffectiveMode (in_spec i) \<in> {ModeObserve, ModeAssist, ModeControl}"
    using assms by (auto simp: Plan_def Let_def split: if_splits)
  obtain x where x: "plan i False = Some x" using plan_total by blast
  obtain c where c: "plan i False = Some (Inr c)"
    using assms m x by (cases x) (auto simp: Plan_def Let_def split: if_splits)
  have "\<exists>b. plan (baselineInput i) False = Some (Inr b)"
    using c plan_ok_iff [of i False] plan_ok_iff [of "baselineInput i" False] by auto
  then obtain b where b: "plan (baselineInput i) False = Some (Inr b)" ..
  obtain a where a: "plan i True = Some (Inr a)" using assist_plan [OF c] by blast
  from m show ?thesis
    by (intro that [OF m c b])
      (use assms in \<open>auto simp: Plan_def planResult_def Let_def c b a ignoreError_def split: if_splits\<close>)
qed

lemma Plan_ok_iff:
  "(\<exists>r. Plan i = Some (Inr r)) \<longleftrightarrow>
     EffectiveMode (in_spec i) \<in> {ModeObserve, ModeAssist, ModeControl} \<and> (\<exists>c. plan i False = Some (Inr c))"
proof
  assume "\<exists>r. Plan i = Some (Inr r)"
  then show "EffectiveMode (in_spec i) \<in> {ModeObserve, ModeAssist, ModeControl} \<and> (\<exists>c. plan i False = Some (Inr c))"
    using Plan_cases by metis
next
  assume "EffectiveMode (in_spec i) \<in> {ModeObserve, ModeAssist, ModeControl} \<and> (\<exists>c. plan i False = Some (Inr c))"
  then show "\<exists>r. Plan i = Some (Inr r)"
    using plan_total [of "baselineInput i" False] plan_total [of i True]
    by (auto simp: Plan_def Let_def)
qed

section \<open>Properties\<close>

text \<open>
  C27: planning never panics, and it succeeds exactly on a known rollout mode and strategy, a set
  clock, non-negative counts and predictions and \<open>0 \<le> min \<le> max\<close>.
\<close>

theorem Plan_succeeds_iff:
  "Plan i \<noteq> None \<and>
   ((\<exists>r. Plan i = Some (Inr r)) \<longleftrightarrow>
     EffectiveMode (in_spec i) \<in> {ModeObserve, ModeAssist, ModeControl} \<and>
     strategyOf i \<in> {DecisionMaximum, DecisionMinimum, DecisionMean, DecisionMedian} \<and>
     \<not> is_zero (in_now i) \<and> 0 \<le> in_requested i \<and> 0 \<le> in_baseline i \<and>
     0 \<le> minReplicasOf i \<and> minReplicasOf i \<le> s_maxReplicas (in_spec i) \<and>
     (\<forall>p \<in> set (in_predictions i). 0 \<le> p))"
proof
  show "Plan i \<noteq> None"
    using plan_total [of i False] plan_total [of "baselineInput i" False] plan_total [of i True]
    by (auto simp: Plan_def Let_def split: sum.split)
  show "(\<exists>r. Plan i = Some (Inr r)) \<longleftrightarrow>
     EffectiveMode (in_spec i) \<in> {ModeObserve, ModeAssist, ModeControl} \<and>
     strategyOf i \<in> {DecisionMaximum, DecisionMinimum, DecisionMean, DecisionMedian} \<and>
     \<not> is_zero (in_now i) \<and> 0 \<le> in_requested i \<and> 0 \<le> in_baseline i \<and>
     0 \<le> minReplicasOf i \<and> minReplicasOf i \<le> s_maxReplicas (in_spec i) \<and>
     (\<forall>p \<in> set (in_predictions i). 0 \<le> p)"
    unfolding Plan_ok_iff plan_ok_iff invalidInputs_def not_less de_Morgan_disj by blast
qed

definition sampleSpec :: HPAPlusSpec where
  "sampleSpec =
     \<lparr>s_predictionFailurePolicy = '''', s_mode = Some ModeAssist, s_scaleTargetRef =
        \<lparr>ref_kind = ''Deployment'', ref_name = ''web'', ref_apiVersion = ''apps/v1''\<rparr>,
      s_minReplicas = Some 2, s_maxReplicas = 20, s_metrics = [], s_behavior = Some
        \<lparr>b_scaleUp = Some \<lparr>sr_stabilizationWindowSeconds = None, sr_selectPolicy = None,
           sr_policies = Some [\<lparr>pol_type = PodsScalingPolicy, pol_value = 4, pol_periodSeconds = 15\<rparr>]\<rparr>,
         b_scaleDown = Some \<lparr>sr_stabilizationWindowSeconds = Some 300, sr_selectPolicy = None,
           sr_policies = Some [\<lparr>pol_type = PodsScalingPolicy, pol_value = 2, pol_periodSeconds = 60\<rparr>]\<rparr>\<rparr>,
      s_cpuInitializationPeriod = None, s_initialReadinessDelay = None, s_tolerance = None,
      s_syncPeriod = None, s_metricMaxAge = None, s_models = [], s_decisionType = None, s_includeHPA = None\<rparr>"

definition sampleStatus :: HPAPlusStatus where
  "sampleStatus =
     \<lparr>st_lastDecision = None, st_historyCapacity = None, st_observedGeneration = 1, st_conditions = [],
      st_modelStatuses = [], st_modelStatusesOmitted = 0, st_targetIdentity = '''', st_lastScaleDecisionID = '''',
      st_lastScaleTime = None, st_scaleUpReplicaHistory = [], st_scaleDownReplicaHistory = [],
      st_scaleUpEventHistory = [], st_scaleDownEventHistory = [], st_reference = '''', st_currentReplicas = 4,
      st_desiredReplicas = 4, st_currentMetrics = [], st_currentMetricsOmitted = 0\<rparr>"

definition sampleInput :: Input where
  "sampleInput =
     \<lparr>in_spec = sampleSpec, in_status = sampleStatus, in_now = GoTime (1700000000 * second) 0, in_requested = 4,
      in_baseline = 6, in_predictions = [3], in_metricsIncomplete = True\<rparr>"

lemma sampleInput_plan:
  "map_option (map_sum id (\<lambda>r. (r_baselineDesired r, r_controlDesired r, r_desired r))) (Plan sampleInput) =
     Some (Inr (6, 4, 6))"
  by code_simp

lemma sampleInput_ok: obtains r where "Plan sampleInput = Some (Inr r)" "r_baselineDesired r = 6" "r_desired r = 6"
proof -
  obtain x where "Plan sampleInput = Some x" using sampleInput_plan by auto
  then show ?thesis using that sampleInput_plan by (cases x) auto
qed

theorem Plan_succeeds_iff_witness:
  "\<not> is_zero (in_now sampleInput) \<and> 0 \<le> minReplicasOf sampleInput \<and> minReplicasOf sampleInput \<le> s_maxReplicas (in_spec sampleInput)"
  using Plan_succeeds_iff [of sampleInput] sampleInput_ok by metis

text \<open>
  C1: in assist mode the forecasts only ever add capacity: the desired count is at least the count
  the reactive baseline alone would have given from the same accounting history, and at least what
  control mode would have given.
\<close>

theorem assist_never_below_baseline:
  assumes "Plan i = Some (Inr r)" "EffectiveMode (in_spec i) = ModeAssist" "in_baseline i \<le> max_int32"
  shows "r_baselineDesired r \<le> r_desired r \<and> r_controlDesired r \<le> r_desired r \<and> in_baseline i \<le> r_selected r"
proof -
  from assms(1) obtain c b where p: "plan i False = Some (Inr c)" "plan (baselineInput i) False = Some (Inr b)"
    and r: "r = planResult i c b" by (rule Plan_cases)
  obtain a where a: "plan i True = Some (Inr a)" "r_selected a = max (in_baseline i) (r_selected c)"
    "r_guarded a = guardedOf i (r_selected a)" "r_desired a = desiredFrom i (r_guarded a)"
    "r_guarded c = guardedOf i (r_selected c)" "r_desired c = desiredFrom i (r_guarded c)"
    using assist_plan [OF p(1)] .
  have "r_desired b = desiredFrom i (guardedOf i (in_baseline i))"
    using baseline_plan [OF p(1) assms(3)] p(2) by (metis option.inject sum.inject(2))
  then have "r_desired b \<le> r_desired a" "r_desired c \<le> r_desired a"
    using a by (auto intro!: desiredFrom_mono guardedOf_mono)
  then show ?thesis using r a(1,2) assms(2) by (simp add: ignoreError_def planResult_def Let_def)
qed

theorem assist_never_below_baseline_witness:
  "\<exists>r. Plan sampleInput = Some (Inr r) \<and> EffectiveMode (in_spec sampleInput) = ModeAssist \<and>
     r_baselineDesired r = 6 \<and> r_baselineDesired r \<le> r_desired r \<and> in_baseline sampleInput \<le> r_selected r"
proof -
  obtain r where r: "Plan sampleInput = Some (Inr r)" "r_baselineDesired r = 6" by (rule sampleInput_ok)
  have "EffectiveMode (in_spec sampleInput) = ModeAssist" "in_baseline sampleInput \<le> max_int32"
    by (simp_all add: sampleInput_def sampleSpec_def EffectiveMode_def)
  with assist_never_below_baseline [OF r(1)] r show ?thesis by blast
qed

lemma Plan_desired_cases:
  assumes "Plan i = Some (Inr r)" "EffectiveMode (in_spec i) \<noteq> ModeObserve"
  obtains a where "plan i a = Some (Inr (r\<lparr>r_rolloutMode := '''', r_baselineDesired := 0, r_controlDesired := 0\<rparr>))"
    "a \<longleftrightarrow> EffectiveMode (in_spec i) = ModeAssist"
proof -
  have z: "x\<lparr>r_rolloutMode := '''', r_baselineDesired := 0, r_controlDesired := 0\<rparr> = x" if "plan i a = Some (Inr x)" for a x
    using that by (auto simp: plan_def Let_def split: if_splits sum.splits)
  from assms(1) obtain c b where p: "plan i False = Some (Inr c)" and r: "r = planResult i c b" by (rule Plan_cases)
  obtain a where a: "plan i True = Some (Inr a)" using assist_plan [OF p] by blast
  show ?thesis
    using that r a p z [OF a] z [OF p] assms(2)
    by (cases "EffectiveMode (in_spec i) = ModeAssist") (auto simp: ignoreError_def planResult_def Let_def)
qed

text \<open>
  C25: both counterfactuals respect the replica limits, the desired count respects them in assist
  and control mode, and observe mode proposes no change and records no recommendation.
\<close>

theorem Plan_within_limits:
  assumes "Plan i = Some (Inr r)"
  shows "minReplicasOf i \<le> r_baselineDesired r \<and> r_baselineDesired r \<le> s_maxReplicas (in_spec i) \<and>
    minReplicasOf i \<le> r_controlDesired r \<and> r_controlDesired r \<le> s_maxReplicas (in_spec i) \<and>
    (if EffectiveMode (in_spec i) = ModeObserve
     then r_desired r = in_requested i \<and> r_scaleUpRecommendations r = [] \<and> r_scaleDownRecommendations r = []
     else minReplicasOf i \<le> r_desired r \<and> r_desired r \<le> s_maxReplicas (in_spec i))"
proof -
  have lim: "minReplicasOf j \<le> r_desired x \<and> r_desired x \<le> s_maxReplicas (in_spec j)" if "plan j a = Some (Inr x)" for j a x
    by (cases rule: plan_cases [of j a]) (use that desiredFrom_bounds in auto)
  from assms obtain c b where p: "plan i False = Some (Inr c)" "plan (baselineInput i) False = Some (Inr b)"
    and r: "r = planResult i c b"
    by (rule Plan_cases)
  have "s_maxReplicas (in_spec (baselineInput i)) = s_maxReplicas (in_spec i)" by (simp add: baselineInput_def)
  moreover have "EffectiveMode (in_spec i) \<noteq> ModeObserve \<Longrightarrow> minReplicasOf i \<le> r_desired r \<and> r_desired r \<le> s_maxReplicas (in_spec i)"
    using Plan_desired_cases [OF assms] lim by (metis Result.select_convs(10) Result.surjective Result.update_convs(1,2,3))
  ultimately show ?thesis using r lim [OF p(1)] lim [OF p(2)] by (simp add: planResult_def Let_def)
qed

theorem Plan_within_limits_witness:
  "\<exists>r. Plan sampleInput = Some (Inr r) \<and> 2 \<le> r_desired r \<and> r_desired r \<le> 20"
proof -
  obtain r where r: "Plan sampleInput = Some (Inr r)" by (rule sampleInput_ok)
  with Plan_within_limits [OF r] show ?thesis
    by (simp add: sampleInput_def sampleSpec_def EffectiveMode_def minReplicasOf_def)
qed

text \<open>
  C26: with incomplete metrics no plan scales down: unless the mode is observe (which changes
  nothing), the desired count is at least the requested one, capped by the maximum.
\<close>

theorem incomplete_metrics_never_scale_down:
  assumes "Plan i = Some (Inr r)" "EffectiveMode (in_spec i) \<noteq> ModeObserve" "in_metricsIncomplete i"
  shows "min (s_maxReplicas (in_spec i)) (in_requested i) \<le> r_desired r"
proof -
  obtain a where a: "plan i a = Some (Inr (r\<lparr>r_rolloutMode := '''', r_baselineDesired := 0, r_controlDesired := 0\<rparr>))"
    using Plan_desired_cases [OF assms(1,2)] by blast
  show ?thesis
  proof (cases rule: plan_cases [of i a])
    case (2 chosen x)
    then have "in_requested i \<le> r_guarded x" using assms(3) by (simp add: guardedOf_def)
    then show ?thesis using 2 a desiredFrom_no_down by auto
  qed (use a in simp)
qed

theorem incomplete_metrics_never_scale_down_witness:
  "\<exists>r. Plan sampleInput = Some (Inr r) \<and> in_metricsIncomplete sampleInput \<and> in_requested sampleInput \<le> r_desired r"
proof -
  obtain r where r: "Plan sampleInput = Some (Inr r)" by (rule sampleInput_ok)
  have "EffectiveMode (in_spec sampleInput) \<noteq> ModeObserve" "in_metricsIncomplete sampleInput"
    by (simp_all add: sampleInput_def sampleSpec_def EffectiveMode_def)
  with incomplete_metrics_never_scale_down [OF r] r show ?thesis by (simp add: sampleInput_def sampleSpec_def)
qed

text \<open>
  When every prediction is unavailable and the policy is to hold (or a model is demand-driven),
  control mode keeps the requested count, moved only by the replica limits.
\<close>

theorem hold_keeps_request:
  assumes "Plan i = Some (Inr r)" "EffectiveMode (in_spec i) = ModeControl" "in_predictions i = []" "holdFailure i"
    and "in_requested i \<le> max_int32"
  shows "r_mode r = ''hold'' \<and> r_selected r = in_requested i \<and>
    r_desired r = max (minReplicasOf i) (min (s_maxReplicas (in_spec i)) (in_requested i))"
proof -
  let ?r = "r\<lparr>r_rolloutMode := '''', r_baselineDesired := 0, r_controlDesired := 0\<rparr>"
  have a: "plan i False = Some (Inr ?r)"
    using Plan_desired_cases [OF assms(1)] assms(2) by auto
  have c: "candidates i = [in_requested i]" using assms(3,4) by (simp add: candidates_def baselineIncluded_def)
  have mode: "r_mode r = ''hold''"
    using plan_mode [OF a] assms(3,4) by (simp add: candidateMode_def)
  show ?thesis
  proof (cases rule: plan_cases [of i False])
    case (2 chosen x)
    then have "chosen = in_requested i" using c assms(5) strategy_singleton by simp
    then have "r_selected x = in_requested i" "r_guarded x = in_requested i"
      using 2 by (simp_all add: selectedOf_def guardedOf_def)
    then show ?thesis using 2 a mode desiredFrom_requested by auto
  qed (use a in simp)
qed

definition holdInput :: Input where
  "holdInput = sampleInput\<lparr>in_predictions := [],
     in_spec := sampleSpec\<lparr>s_mode := Some ModeControl, s_predictionFailurePolicy := PredictionFailureHoldCurrent\<rparr>\<rparr>"

theorem hold_keeps_request_witness:
  "\<exists>r. Plan holdInput = Some (Inr r) \<and> r_mode r = ''hold'' \<and> r_desired r = 4"
proof -
  have s: "in_spec holdInput = sampleSpec\<lparr>s_mode := Some ModeControl, s_predictionFailurePolicy := PredictionFailureHoldCurrent\<rparr>"
    "in_predictions holdInput = []" "in_requested holdInput = 4" "in_now holdInput = GoTime (1700000000 * second) 0"
    "in_baseline holdInput = 6"
    by (simp_all add: holdInput_def sampleInput_def)
  have h: "EffectiveMode (in_spec holdInput) = ModeControl" "holdFailure holdInput" "minReplicasOf holdInput = 2"
    "strategyOf holdInput = DecisionMaximum" "s_maxReplicas (in_spec holdInput) = 20"
    by (simp_all add: s sampleSpec_def EffectiveMode_def holdFailure_def minReplicasOf_def strategyOf_def)
  have "\<exists>r. Plan holdInput = Some (Inr r)"
    unfolding Plan_ok_iff plan_ok_iff invalidInputs_def by (simp add: s(2-5) h zero_time_def)
  then obtain r where "Plan holdInput = Some (Inr r)" ..
  with hold_keeps_request [OF this] h s show ?thesis by auto
qed

text \<open>
  The baseline counterfactual that every plan carries is the plan a purely reactive deployment
  would have made: the same input without models and predictions, in control mode. In particular
  the error that \<open>Plan\<close> discards there is always nil.
\<close>

theorem baseline_is_reactive_plan:
  assumes "Plan i = Some (Inr r)"
  shows "\<exists>b. Plan ((baselineInput i)\<lparr>in_spec := (in_spec (baselineInput i))\<lparr>s_mode := Some ModeControl\<rparr>\<rparr>) = Some (Inr b) \<and>
    r_baselineDesired r = r_desired b"
proof -
  let ?j = "(baselineInput i)\<lparr>in_spec := (in_spec (baselineInput i))\<lparr>s_mode := Some ModeControl\<rparr>\<rparr>"
  from assms obtain c b where p: "plan (baselineInput i) False = Some (Inr b)" and r: "r = planResult i c b"
    by (rule Plan_cases)
  have same: "plan ?j False = plan (baselineInput i) False"
    by (rule plan_cong)
      (simp_all add: invalidInputs_def minReplicasOf_def strategyOf_def baselineIncluded_def holdFailure_def
        behaviorConstraints_def applyBehavior_def fun_eq_iff)
  have m: "EffectiveMode (in_spec ?j) = ModeControl" by (simp add: EffectiveMode_def)
  have "\<exists>x. Plan ?j = Some (Inr x)" unfolding Plan_ok_iff same using m p by auto
  then obtain x where x: "Plan ?j = Some (Inr x)" ..
  from x obtain c' b' where "plan ?j False = Some (Inr c')" "x = planResult ?j c' b'" by (rule Plan_cases)
  then have "r_desired x = r_desired b" using m p same by (simp add: planResult_def Let_def)
  moreover have "r_baselineDesired r = r_desired b" using r by (simp add: planResult_def Let_def)
  ultimately show ?thesis using x by auto
qed

theorem baseline_is_reactive_plan_witness:
  "\<exists>b. Plan ((baselineInput sampleInput)\<lparr>in_spec := (in_spec (baselineInput sampleInput))\<lparr>s_mode := Some ModeControl\<rparr>\<rparr>)
       = Some (Inr b) \<and> r_desired b = 6"
proof -
  obtain r where r: "Plan sampleInput = Some (Inr r)" "r_baselineDesired r = 6" by (rule sampleInput_ok)
  with baseline_is_reactive_plan [OF r(1)] show ?thesis by auto
qed

text \<open>
  Planning does not depend on whether the specification's defaults were written out by the
  admission webhook: \<open>Plan\<close> gives the same result on a defaulted specification.
\<close>

theorem Plan_WithDefaults:
  "Plan (i\<lparr>in_spec := WithDefaults (in_spec i)\<rparr>) = Plan i"
proof -
  let ?w = "\<lambda>i. i\<lparr>in_spec := WithDefaults (in_spec i)\<rparr>"
  have behav: "BehaviorDefaults (s_behavior (WithDefaults s)) = BehaviorDefaults (s_behavior s)" for s
    by (simp add: WithDefaults_def BehaviorDefaults_def DefaultBehavior_idem)
  have f: "minReplicasOf (?w i) = minReplicasOf i" "strategyOf (?w i) = strategyOf i" "holdFailure (?w i) = holdFailure i"
    "baselineIncluded (?w i) = baselineIncluded i" "s_maxReplicas (WithDefaults (in_spec i)) = s_maxReplicas (in_spec i)" for i
    by (auto simp: minReplicasOf_def strategyOf_def holdFailure_def baselineIncluded_def WithDefaults_def opt_default_def
        split: option.split)
  have c: "invalidInputs (?w i) = invalidInputs i" "behaviorConstraints (?w i) = behaviorConstraints i"
    "applyBehavior (?w i) = applyBehavior i" for i
    by (simp_all add: invalidInputs_def behaviorConstraints_def applyBehavior_def f behav fun_eq_iff)
  have pl: "plan (?w i) a = plan i a" for i a
    by (rule plan_cong) (simp_all only: f c, simp_all)
  have base: "plan (baselineInput (?w i)) False = plan (baselineInput i) False"
  proof -
    have "baselineInput (?w i) = ?w (baselineInput i)"
      by (intro Input.equality HPAPlusSpec.equality) (simp_all add: baselineInput_def WithDefaults_def)
    then show ?thesis using pl [of "baselineInput i"] by simp
  qed
  have mode: "EffectiveMode (WithDefaults (in_spec i)) = EffectiveMode (in_spec i)"
    by (simp add: EffectiveMode_def WithDefaults_def opt_default_def split: option.split)
  show ?thesis unfolding Plan_def Let_def pl base by (simp add: mode)
qed

end
