(* ===== verification/Demand.thy ===== *)
theory Demand
  imports ApiTypes "HOL-Library.Option_ord" "HOL-Library.Multiset"
begin

text \<open>
  \<open>src/internal/prediction/{demand,cpu,requirements,history,prediction}.go\<close>: typed demand and its
  conversion to replicas, the warm-up each model needs, and the pruning of CPU histories. The
  conversion uses \<open>math/big\<close>, so the integers of the model are exact there.
\<close>

section \<open>Demand and capacity\<close>

record MetricKind =
  mk_source :: string
  mk_unit :: string

definition CPUKind :: MetricKind where
  "CPUKind = \<lparr>mk_source = ''resource.cpu'', mk_unit = ''millicores''\<rparr>"

record Capacity =
  cap_kind :: MetricKind
  cap_policy :: string
  cap_requestPerPod :: int64
  cap_targetPercentage :: int32

record Observation =
  ob_kind :: MetricKind
  ob_target :: string
  ob_sourceID :: string
  ob_at :: gotime
  ob_value :: int64
  ob_capacity :: Capacity

record Demand =
  dm_kind :: MetricKind
  dm_target :: string
  dm_value :: int64

record DemandResult =
  dr_trajectory :: "CPUForecastPoint list"
  dr_demand :: Demand
  dr_consumedUntil :: "gotime option"

record DemandRequest =
  dq_model :: "Model option"
  dq_history :: "TimestampedSample list"
  dq_observation :: Observation

text \<open>The fields of \<open>prediction.Result\<close> that the conversion sets.\<close>

record PredictionResult =
  pr_trajectory :: "CPUForecastPoint list"
  pr_replicas :: int32
  pr_consumedUntil :: "gotime option"

definition ValidateDemandRequest :: "DemandRequest \<Rightarrow> MetricKind list \<Rightarrow> error option" where
  "ValidateDemandRequest r accepted =
     (if dq_model r = None then Some ''missing model''
      else if ob_kind (dq_observation r) \<in> set accepted then None
      else Some ''model does not accept observation source/unit'')"

definition CPUObservation :: "Model option \<Rightarrow> Observation" where
  "CPUObservation model =
     \<lparr>ob_kind = CPUKind, ob_target = '''', ob_sourceID = '''', ob_at = zero_time, ob_value = 0,
      ob_capacity =
        \<lparr>cap_kind = CPUKind, cap_policy = ''cpu-request-utilization'',
         cap_requestPerPod = (case model of None \<Rightarrow> 0 | Some m \<Rightarrow> m_cpuRequestPerPodMillicores m),
         cap_targetPercentage = (case model of None \<Rightarrow> 0 | Some m \<Rightarrow> m_targetCPUUtilizationPercentage m)\<rparr>\<rparr>"

definition ResolveDemand :: "DemandResult \<Rightarrow> Observation \<Rightarrow> PredictionResult result" where
  "ResolveDemand result observation =
     (let d = dr_demand result; c = ob_capacity observation in
      if dm_kind d \<noteq> ob_kind observation \<or> dm_kind d \<noteq> cap_kind c \<or> dm_target d \<noteq> ob_target observation
      then Inl ''forecast observation identity mismatch''
      else if dm_kind d \<noteq> CPUKind \<or> cap_policy c \<noteq> ''cpu-request-utilization''
      then Inl ''unsupported capacity conversion''
      else if cap_requestPerPod c \<le> 0 \<or> cap_targetPercentage c \<le> 0
      then Inl ''CPU capacity requires positive request and target utilization''
      else
        let out = \<lparr>pr_trajectory = dr_trajectory result, pr_replicas = 0, pr_consumedUntil = dr_consumedUntil result\<rparr> in
        if dm_value d \<le> 0 then Inr out
        else
          let numerator = dm_value d * 100;
              denominator = cap_requestPerPod c * cap_targetPercentage c;
              q0 = go_div numerator denominator;
              remainder = numerator - denominator * q0;
              quotient = (if remainder \<noteq> 0 then q0 + 1 else q0)
          in if \<not> in_i64 quotient \<or> quotient > max_int32 then Inl ''replica forecast exceeds int32''
             else Inr (out\<lparr>pr_replicas := quotient\<rparr>))"

definition CPUForecastToReplicas :: "Model option \<Rightarrow> int64 \<Rightarrow> int32 result" where
  "CPUForecastToReplicas model usage =
     rbind (ResolveDemand \<lparr>dr_trajectory = [], dr_demand = \<lparr>dm_kind = CPUKind, dm_target = '''', dm_value = usage\<rparr>,
                            dr_consumedUntil = None\<rparr> (CPUObservation model))
       (\<lambda>r. Inr (pr_replicas r))"

section \<open>Model requirements\<close>

definition UsesCPUHistory :: "string \<Rightarrow> bool" where
  "UsesCPUHistory t \<longleftrightarrow> t \<in> {TypeLinear, TypeHoltWinters, TypeArima, TypeXGBoost, TypeLightGBM}"

definition holtWintersRequired :: "HoltWinters \<Rightarrow> int64" where
  "holtWintersRequired hw =
     (let required = wrap64 (hw_seasonalPeriods hw * hw_storedSeasons hw);
          statsmodelsMin = wrap64 (2 * hw_seasonalPeriods hw);
          statsmodelsHeuristic = wrap64 (10 + wrap64 (2 * go_div (hw_seasonalPeriods hw) 2));
          r1 = (if statsmodelsMin > required then statsmodelsMin else required)
      in if statsmodelsHeuristic > r1 then statsmodelsHeuristic else r1)"

definition RequiredHistorySize :: "Model \<Rightarrow> int64" where
  "RequiredHistorySize m =
     (if m_type m = TypeLinear then (case m_linear m of Some l \<Rightarrow> lin_historySize l | None \<Rightarrow> 0)
      else if m_type m = TypeXGBoost then (case m_xgboost m of Some x \<Rightarrow> xgb_historySize x | None \<Rightarrow> 0)
      else if m_type m = TypeLightGBM then (case m_lightgbm m of Some x \<Rightarrow> lgb_historySize x | None \<Rightarrow> 0)
      else if m_type m = TypeArima then
        (case m_arima m of Some a \<Rightarrow> (case ar_historySize a of Some n \<Rightarrow> n | None \<Rightarrow> DefaultARIMAHistorySize)
         | None \<Rightarrow> DefaultARIMAHistorySize)
      else if m_type m = TypeHoltWinters then
        (case m_holtWinters m of Some hw \<Rightarrow> holtWintersRequired hw | None \<Rightarrow> 0)
      else 0)"

section \<open>CPU histories\<close>

definition hasCPU :: "TimestampedSample \<Rightarrow> bool" where
  "hasCPU r \<longleftrightarrow> ts_totalCPUUsageMillicores r \<noteq> None"

definition FilterCPUHistory :: "TimestampedSample list \<Rightarrow> TimestampedSample list" where
  "FilterCPUHistory history = filter hasCPU history"

fun countLoop :: "int64 \<Rightarrow> TimestampedSample list \<Rightarrow> int64" where
  "countLoop n [] = n"
| "countLoop n (r # rs) = countLoop (if hasCPU r then n + 1 else n) rs"

definition CountCPUHistory :: "TimestampedSample list \<Rightarrow> int64" where
  "CountCPUHistory history = countLoop 0 history"

text \<open>
  The comparison given to \<open>sort.SliceStable\<close> orders by time with the undated rows first, which is
  the order of the optional instant; \<open>sort_key\<close> is the stable sort.
\<close>

definition timeKey :: "TimestampedSample \<Rightarrow> int option" where
  "timeKey r = map_option ns (ts_time r)"

definition historyLess :: "TimestampedSample \<Rightarrow> TimestampedSample \<Rightarrow> bool" where
  "historyLess a b =
     (case ts_time a of None \<Rightarrow> ts_time b \<noteq> None
      | Some t \<Rightarrow> (case ts_time b of None \<Rightarrow> False | Some u \<Rightarrow> before t u))"

text \<open>The loop from the newest row down to the one where the number of CPU rows reaches the limit.\<close>

fun pruneLoop :: "int64 \<Rightarrow> int64 \<Rightarrow> TimestampedSample list \<Rightarrow> TimestampedSample list \<Rightarrow> TimestampedSample list option" where
  "pruneLoop limit n [] kept = None"
| "pruneLoop limit n (r # older) kept =
     (let n' = (if hasCPU r then n + 1 else n)
      in if n' = limit then Some (r # kept) else pruneLoop limit n' older (r # kept))"

definition PruneCPUHistory :: "TimestampedSample list \<Rightarrow> int64 \<Rightarrow> TimestampedSample list" where
  "PruneCPUHistory history limit =
     (if limit \<le> 0 then []
      else if CountCPUHistory history \<le> limit then history
      else let sorted = sort_key timeKey history
           in case pruneLoop limit 0 (rev sorted) [] of Some kept \<Rightarrow> kept | None \<Rightarrow> sorted)"

fun metricValues :: "TimestampedSample list \<Rightarrow> float64 list option" where
  "metricValues [] = Some []"
| "metricValues (r # rs) =
     (case ts_metric r of None \<Rightarrow> None | Some v \<Rightarrow> map_option ((#) v) (metricValues rs))"

text \<open>\<open>nil\<close> and an empty series are both the absence of an auxiliary series.\<close>

definition MetricHistory :: "TimestampedSample list \<Rightarrow> float64 list option" where
  "MetricHistory history = (if history = [] then None else metricValues history)"

definition LatestTimestamp :: "TimestampedSample list \<Rightarrow> gotime option" where
  "LatestTimestamp history =
     foldl (\<lambda>latest r. case ts_time r of None \<Rightarrow> latest
                       | Some t \<Rightarrow> (case latest of None \<Rightarrow> Some t | Some l \<Rightarrow> if after t l then Some t else latest))
       None history"

section \<open>Facts\<close>

lemma ceil_quotient:
  fixes n d :: int
  assumes "0 < d"
  defines "q \<equiv> (if n - d * (n div d) \<noteq> 0 then n div d + 1 else n div d)"
  shows "n \<le> q * d" "n \<le> k * d \<Longrightarrow> q \<le> k"
proof -
  note b = div_bounds [OF assms(1), of n]
  show "n \<le> q * d" using b by (auto simp: q_def algebra_simps)
  show "q \<le> k" if "n \<le> k * d"
  proof (cases "n - d * (n div d) = 0")
    case True
    then have "d * (n div d) \<le> d * k" using that by (simp add: algebra_simps)
    then show ?thesis using True assms(1) by (simp add: q_def)
  next
    case False
    then have "d * (n div d) < n" using b(1) by linarith
    also have "n \<le> d * k" using that by (simp add: mult.commute)
    finally show ?thesis using False assms(1) by (simp add: q_def)
  qed
qed

text \<open>The capacity a conversion accepts.\<close>

definition convertible :: "DemandResult \<Rightarrow> Observation \<Rightarrow> bool" where
  "convertible r ob \<longleftrightarrow>
     dm_kind (dr_demand r) = CPUKind \<and> ob_kind ob = CPUKind \<and> cap_kind (ob_capacity ob) = CPUKind \<and>
     dm_target (dr_demand r) = ob_target ob \<and> cap_policy (ob_capacity ob) = ''cpu-request-utilization'' \<and>
     0 < cap_requestPerPod (ob_capacity ob) \<and> 0 < cap_targetPercentage (ob_capacity ob)"

lemma ResolveDemand_convertible:
  assumes "ResolveDemand r ob = Inr out"
  shows "convertible r ob"
  using assms by (auto simp: ResolveDemand_def convertible_def Let_def split: if_splits)

lemma ResolveDemand_eq:
  assumes "convertible r ob"
  defines "n \<equiv> dm_value (dr_demand r) * 100" and "d \<equiv> cap_requestPerPod (ob_capacity ob) * cap_targetPercentage (ob_capacity ob)"
  defines "q \<equiv> (if n - d * (n div d) \<noteq> 0 then n div d + 1 else n div d)"
  defines "out \<equiv> \<lparr>pr_trajectory = dr_trajectory r, pr_replicas = 0, pr_consumedUntil = dr_consumedUntil r\<rparr>"
  shows "ResolveDemand r ob =
    (if dm_value (dr_demand r) \<le> 0 then Inr out
     else if max_int32 < q then Inl ''replica forecast exceeds int32'' else Inr (out\<lparr>pr_replicas := q\<rparr>))"
proof -
  have d: "0 < d" using assms(1) by (simp add: d_def convertible_def)
  have g: "go_div n d = n div d" if "0 < dm_value (dr_demand r)" using that d by (simp add: go_div_nonneg n_def)
  have "0 < q" if "0 < dm_value (dr_demand r)"
  proof (rule ccontr)
    assume "\<not> 0 < q"
    then have "q * d \<le> 0" using d by (simp add: mult_nonpos_nonneg)
    then show False using ceil_quotient(1) [OF d, of n] that by (simp add: q_def n_def)
  qed
  then have "\<not> in_i64 q \<or> max_int32 < q \<longleftrightarrow> max_int32 < q" if "0 < dm_value (dr_demand r)"
    using that by (auto simp: in_i64_def)
  then show ?thesis using assms(1) g unfolding q_def
    by (cases "dm_value (dr_demand r) \<le> 0")
      (auto simp: ResolveDemand_def Let_def convertible_def out_def n_def [symmetric] d_def [symmetric] split: if_splits)
qed

lemma countLoop_length: "countLoop c h = c + int (length (filter hasCPU h))"
  by (induction h arbitrary: c) simp_all

lemma CountCPUHistory_length: "CountCPUHistory h = int (length (FilterCPUHistory h))"
  by (simp add: CountCPUHistory_def FilterCPUHistory_def countLoop_length)

lemma historyLess_key: "historyLess a b \<longleftrightarrow> timeKey a < timeKey b"
  by (cases "ts_time a"; cases "ts_time b") (simp_all add: historyLess_def timeKey_def)

lemma pruneLoop_prefix:
  assumes "n < limit" "limit \<le> n + CountCPUHistory xs"
  obtains pre older where "xs = pre @ older" "pruneLoop limit n xs kept = Some (rev pre @ kept)"
    "n + CountCPUHistory pre = limit"
  using assms
proof (induction xs arbitrary: n kept thesis)
  case (Cons r xs)
  let ?c = "if hasCPU r then n + 1 else n"
  show ?case
  proof (cases "?c = limit")
    case True
    then show ?thesis using Cons.prems(2)
      by (intro Cons.prems(1) [of "[r]" xs]) (auto simp: CountCPUHistory_def split: if_splits)
  next
    case False
    then have "?c < limit" "limit \<le> ?c + CountCPUHistory xs"
      using Cons.prems(2,3) by (auto simp: CountCPUHistory_def countLoop_length split: if_splits)
    from Cons.IH [OF _ this, of "r # kept"] obtain pre older where
      "xs = pre @ older" "pruneLoop limit ?c xs (r # kept) = Some (rev pre @ r # kept)" "?c + CountCPUHistory pre = limit"
      by metis
    then show ?thesis using False
      by (intro Cons.prems(1) [of "r # pre" older]) (auto simp: CountCPUHistory_def countLoop_length Let_def split: if_splits)
  qed
qed (simp add: CountCPUHistory_def)

lemma PruneCPUHistory_suffix:
  assumes "0 < limit" "limit < CountCPUHistory h"
  obtains older where "sort_key timeKey h = older @ PruneCPUHistory h limit"
    "CountCPUHistory (PruneCPUHistory h limit) = limit"
proof -
  let ?s = "sort_key timeKey h"
  have cnt: "CountCPUHistory (rev ?s) = CountCPUHistory h"
    unfolding CountCPUHistory_length FilterCPUHistory_def
    by (metis mset_filter mset_rev mset_sort size_mset)
  then have "0 + CountCPUHistory (rev ?s) \<ge> limit" using assms(2) by simp
  then obtain pre older where p: "rev ?s = pre @ older" "pruneLoop limit 0 (rev ?s) [] = Some (rev pre @ [])"
    "0 + CountCPUHistory pre = limit"
    by (rule pruneLoop_prefix [OF assms(1)])
  have "PruneCPUHistory h limit = rev pre" using assms p(2) by (simp add: PruneCPUHistory_def Let_def)
  moreover have "?s = rev older @ rev pre" using p(1) by (metis rev_append rev_rev_ident)
  moreover have "CountCPUHistory (rev pre) = limit" using p(3) by (simp add: CountCPUHistory_length FilterCPUHistory_def flip: rev_filter)
  ultimately show ?thesis using that by metis
qed

lemma LatestTimestamp_step:
  "foldl (\<lambda>latest r. case ts_time r of None \<Rightarrow> latest
            | Some t \<Rightarrow> (case latest of None \<Rightarrow> Some t | Some l \<Rightarrow> if after t l then Some t else latest)) (Some l) h
   = Some m \<Longrightarrow> ns l \<le> ns m \<and> (\<forall>r \<in> set h. \<forall>t. ts_time r = Some t \<longrightarrow> ns t \<le> ns m) \<and>
       (m = l \<or> (\<exists>r \<in> set h. ts_time r = Some m))"
proof (induction h arbitrary: l)
  case (Cons r h)
  show ?case using Cons.prems Cons.IH by (auto split: option.splits if_splits) (force+)
qed simp

section \<open>Properties\<close>

text \<open>
  C9: the replica count for a positive demand is the least one whose capacity at the target
  utilization covers the demand, exactly (no rounding, no overflow); the conversion fails on a
  convertible input only where that count exceeds \<open>int32\<close>.
\<close>

theorem ResolveDemand_least:
  assumes "convertible r ob" "0 < dm_value (dr_demand r)"
  shows "(case ResolveDemand r ob of
      Inr out \<Rightarrow>
        dm_value (dr_demand r) * 100 \<le> pr_replicas out * (cap_requestPerPod (ob_capacity ob) * cap_targetPercentage (ob_capacity ob)) \<and>
        (\<forall>k. dm_value (dr_demand r) * 100 \<le> k * (cap_requestPerPod (ob_capacity ob) * cap_targetPercentage (ob_capacity ob))
             \<longrightarrow> pr_replicas out \<le> k) \<and> 0 < pr_replicas out \<and> pr_replicas out \<le> max_int32
    | Inl e \<Rightarrow>
        (\<forall>k. dm_value (dr_demand r) * 100 \<le> k * (cap_requestPerPod (ob_capacity ob) * cap_targetPercentage (ob_capacity ob))
             \<longrightarrow> max_int32 < k))"
proof -
  define n d q where "n = dm_value (dr_demand r) * 100"
    and "d = cap_requestPerPod (ob_capacity ob) * cap_targetPercentage (ob_capacity ob)"
    and "q = (if n - d * (n div d) \<noteq> 0 then n div d + 1 else n div d)"
  have d: "0 < d" using assms(1) by (simp add: convertible_def d_def)
  note c = ceil_quotient [OF d, of n, folded q_def]
  have "0 < q * d" using c(1) assms(2) by (simp add: n_def)
  then have q: "0 < q" using d zero_less_mult_pos2 by blast
  have big: "max_int32 < q \<Longrightarrow> n \<le> k * d \<Longrightarrow> max_int32 < k" for k using c(2) [of k] by linarith
  have eq: "ResolveDemand r ob = (if max_int32 < q then Inl ''replica forecast exceeds int32''
      else Inr \<lparr>pr_trajectory = dr_trajectory r, pr_replicas = q, pr_consumedUntil = dr_consumedUntil r\<rparr>)"
    using ResolveDemand_eq [OF assms(1), folded n_def d_def, folded q_def] assms(2) by simp
  show ?thesis unfolding n_def [symmetric] d_def [symmetric] eq using c q big by (cases "max_int32 < q") simp_all
qed

definition sampleDemand :: DemandResult where
  "sampleDemand = \<lparr>dr_trajectory = [], dr_demand = \<lparr>dm_kind = CPUKind, dm_target = '''', dm_value = 1750\<rparr>, dr_consumedUntil = None\<rparr>"

definition sampleObservation :: Observation where
  "sampleObservation = \<lparr>ob_kind = CPUKind, ob_target = '''', ob_sourceID = '''', ob_at = zero_time, ob_value = 0,
     ob_capacity = \<lparr>cap_kind = CPUKind, cap_policy = ''cpu-request-utilization'', cap_requestPerPod = 500, cap_targetPercentage = 70\<rparr>\<rparr>"

theorem ResolveDemand_least_witness:
  "convertible sampleDemand sampleObservation \<and>
   (\<exists>out. ResolveDemand sampleDemand sampleObservation = Inr out \<and> 175000 \<le> pr_replicas out * 35000)"
proof -
  have c: "convertible sampleDemand sampleObservation" by code_simp
  have ok: "is_ok (ResolveDemand sampleDemand sampleObservation)" by code_simp
  have v: "0 < dm_value (dr_demand sampleDemand)" "dm_value (dr_demand sampleDemand) = 1750"
    "cap_requestPerPod (ob_capacity sampleObservation) = 500" "cap_targetPercentage (ob_capacity sampleObservation) = 70"
    by (simp_all add: sampleDemand_def sampleObservation_def)
  show ?thesis using ResolveDemand_least [OF c v(1)] ok c v(2-)
    by (cases "ResolveDemand sampleDemand sampleObservation") simp_all
qed

text \<open>
  Pruning a CPU history keeps exactly the newest rows: as many CPU samples as the limit allows,
  and no dropped row is newer than a kept one (undated rows count as oldest).
\<close>

theorem PruneCPUHistory_newest:
  assumes "0 < limit"
  shows "CountCPUHistory (PruneCPUHistory h limit) = min limit (CountCPUHistory h) \<and>
    (\<exists>dropped. mset h = mset dropped + mset (PruneCPUHistory h limit) \<and>
       (\<forall>d \<in> set dropped. \<forall>k \<in> set (PruneCPUHistory h limit). \<not> historyLess k d))"
proof (cases "CountCPUHistory h \<le> limit")
  case True
  then show ?thesis using assms by (intro conjI exI [of _ "[]"]) (simp_all add: PruneCPUHistory_def min_def)
next
  case False
  then have "limit < CountCPUHistory h" by simp
  then obtain older where o: "sort_key timeKey h = older @ PruneCPUHistory h limit"
    "CountCPUHistory (PruneCPUHistory h limit) = limit"
    using PruneCPUHistory_suffix [OF assms] by metis
  have "sorted (map timeKey (older @ PruneCPUHistory h limit))" using o(1) sorted_sort_key by metis
  then have "\<forall>d \<in> set older. \<forall>k \<in> set (PruneCPUHistory h limit). timeKey d \<le> timeKey k"
    by (auto simp: sorted_append)
  moreover have "mset h = mset older + mset (PruneCPUHistory h limit)" using o(1) by (metis mset_append mset_sort)
  ultimately show ?thesis using False o(2) unfolding historyLess_key not_less by (intro conjI exI [of _ older]) auto
qed

theorem PruneCPUHistory_newest_witness:
  "CountCPUHistory (PruneCPUHistory
     [\<lparr>ts_time = Some (GoTime 20 0), ts_replicas = 2, ts_metric = None, ts_totalCPUUsageMillicores = Some 7,
       ts_requestPerPodMillicores = None, ts_targetCPUUtilizationPercentage = None\<rparr>,
      \<lparr>ts_time = Some (GoTime 10 0), ts_replicas = 1, ts_metric = None, ts_totalCPUUsageMillicores = Some 5,
       ts_requestPerPodMillicores = None, ts_targetCPUUtilizationPercentage = None\<rparr>] 1) = 1"
  using PruneCPUHistory_newest [of 1
     "[\<lparr>ts_time = Some (GoTime 20 0), ts_replicas = 2, ts_metric = None, ts_totalCPUUsageMillicores = Some 7,
       ts_requestPerPodMillicores = None, ts_targetCPUUtilizationPercentage = None\<rparr>,
      \<lparr>ts_time = Some (GoTime 10 0), ts_replicas = 1, ts_metric = None, ts_totalCPUUsageMillicores = Some 5,
       ts_requestPerPodMillicores = None, ts_targetCPUUtilizationPercentage = None\<rparr>]"]
  by (simp add: CountCPUHistory_def hasCPU_def)

end
