(* ===== verification/Trajectory.thy ===== *)
theory Trajectory
  imports Demand
begin

text \<open>
  \<open>src/internal/algorithm/forecast_trajectory.go\<close> (validation) and
  \<open>src/internal/prediction/{timed,trajectory,verification}.go\<close>: timed forecasts. A trajectory is a
  list of points whose times are RFC3339Nano strings; every function parses them again, as the
  code does. Errors of validation are \<open>Some e\<close>.
\<close>

section \<open>Validation\<close>

abbreviation (input) MaxTrajectoryPoints :: nat where "MaxTrajectoryPoints \<equiv> 32"

text \<open>The two times of a point, the zero time where a string does not parse.\<close>

definition point_at :: "CPUForecastPoint \<Rightarrow> gotime" where "point_at p = parse_or_zero (fp_at p)"
definition point_until :: "CPUForecastPoint \<Rightarrow> gotime" where "point_until p = parse_or_zero (fp_until p)"

definition point_invalid :: "nat \<Rightarrow> gotime \<Rightarrow> CPUForecastPoint \<Rightarrow> bool" where
  "point_invalid i previous p \<longleftrightarrow>
     parse_time (fp_at p) = None \<or> parse_time (fp_until p) = None \<or> is_zero (point_at p) \<or>
     \<not> after (point_until p) (point_at p) \<or> t_sub (point_until p) (point_at p) > 24 * hour \<or>
     length (fp_at p) > 40 \<or> length (fp_until p) > 40 \<or> fp_cpu p < 0 \<or>
     (i > 0 \<and> before (point_at p) previous)"

fun trajectoryLoop :: "nat \<Rightarrow> gotime \<Rightarrow> CPUForecastPoint list \<Rightarrow> error option" where
  "trajectoryLoop i previous [] = None"
| "trajectoryLoop i previous (p # ps) =
     (if point_invalid i previous p then Some ''invalid trajectory point''
      else trajectoryLoop (Suc i) (point_until p) ps)"

definition ValidateForecastTrajectory :: "CPUForecastPoint list \<Rightarrow> error option" where
  "ValidateForecastTrajectory points =
     (if length points < 1 \<or> length points > MaxTrajectoryPoints + 1 then Some ''invalid trajectory length''
      else trajectoryLoop 0 zero_time points)"

section \<open>Timed decisions\<close>

definition ForecastWindows :: "CPUForecastPoint list \<Rightarrow> CPUForecastPoint list" where
  "ForecastWindows points =
     (if points = [] then []
      else let step = t_sub (point_until (last points)) (point_at (last points))
           in map (\<lambda>p. p\<lparr>fp_at := format_time (t_add (point_at p) (wrap64 (- step))),
                         fp_until := format_time (t_add (point_until p) (wrap64 (- step)))\<rparr>) points)"

text \<open>The closure \<open>consider\<close>: the earliest time after \<open>now\<close> seen so far.\<close>

definition considerTime :: "gotime \<Rightarrow> gotime \<Rightarrow> gotime \<Rightarrow> gotime" where
  "considerTime now boundary t = (if after t now \<and> (is_zero boundary \<or> before t boundary) then t else boundary)"

definition timedBoundary :: "gotime \<Rightarrow> duration \<Rightarrow> gotime \<Rightarrow> CPUForecastPoint \<Rightarrow> gotime" where
  "timedBoundary now lead boundary p =
     considerTime now (considerTime now (considerTime now boundary (point_at p)) (point_until p)) (t_add (point_at p) (wrap64 (- lead)))"

definition inWindow :: "gotime \<Rightarrow> CPUForecastPoint \<Rightarrow> bool" where
  "inWindow now p \<longleftrightarrow> \<not> before now (point_at p) \<and> before now (point_until p)"

definition inLead :: "gotime \<Rightarrow> duration \<Rightarrow> CPUForecastPoint \<Rightarrow> bool" where
  "inLead now lead p \<longleftrightarrow> after (point_at p) now \<and> \<not> after (point_at p) (t_add now lead)"

definition timedDemand :: "gotime \<Rightarrow> duration \<Rightarrow> int64 \<Rightarrow> CPUForecastPoint \<Rightarrow> int64" where
  "timedDemand now lead demand p =
     (let d = (if inWindow now p \<and> fp_cpu p > demand then fp_cpu p else demand)
      in if inLead now lead p \<and> fp_cpu p > d then fp_cpu p else d)"

text \<open>One pass over the points: (current window known, demand, boundary).\<close>

definition timedStep :: "gotime \<Rightarrow> duration \<Rightarrow> bool \<times> int64 \<times> gotime \<Rightarrow> CPUForecastPoint \<Rightarrow> bool \<times> int64 \<times> gotime" where
  "timedStep now lead s p =
     (case s of (known, demand, boundary) \<Rightarrow>
        (known \<or> inWindow now p, timedDemand now lead demand p, timedBoundary now lead boundary p))"

text \<open>The constant \<open>.2\<close> as a \<open>float64\<close>.\<close>

definition fifth :: float64 where "fifth = round64 (1 / 5)"

definition timedPolicyInvalid :: "PredictivePolicy \<Rightarrow> int32 \<Rightarrow> bool" where
  "timedPolicyInvalid policy requested \<longleftrightarrow>
     (let tolerance = EffectiveTolerance policy in
      requested < 0 \<or> pp_scaleUpLeadSeconds policy < 0 \<or> pp_scaleUpLeadSeconds policy > 3600 \<or>
      f_is_nan tolerance \<or> f_is_inf tolerance \<or> f_lt tolerance (f_of_int 0) \<or> f_lt fifth tolerance)"

text \<open>\<open>ratio.Cmp(limit) <= 0\<close> on exact rationals; \<open>1 + tolerance\<close> is rounded first.\<close>

definition withinTolerance :: "int64 \<Rightarrow> Capacity \<Rightarrow> int32 \<Rightarrow> float64 \<Rightarrow> bool" where
  "withinTolerance demand capacity requested tolerance =
     (case f_add (f_of_int 1) tolerance of
        Fin limit \<Rightarrow>
          (of_int (demand * 100) / of_int (cap_requestPerPod capacity * cap_targetPercentage capacity * requested) :: rat) \<le> limit
      | _ \<Rightarrow> False)"

definition TimedWindowReplicas ::
  "CPUForecastPoint list \<Rightarrow> PredictivePolicy \<Rightarrow> Capacity \<Rightarrow> int32 \<Rightarrow> gotime \<Rightarrow> (int32 \<times> gotime) result" where
  "TimedWindowReplicas points policy capacity requested now =
     (case ValidateForecastTrajectory points of Some e \<Rightarrow> Inl e
      | None \<Rightarrow>
        if timedPolicyInvalid policy requested then Inl ''invalid timed decision policy''
        else
          let tolerance = EffectiveTolerance policy;
              lead = wrap64 (pp_scaleUpLeadSeconds policy * second);
              (currentKnown, demand, boundary) = foldl (timedStep now lead) (False, 0, zero_time) points
          in rbind (ResolveDemand
                \<lparr>dr_trajectory = [], dr_demand = \<lparr>dm_kind = CPUKind, dm_target = '''', dm_value = demand\<rparr>, dr_consumedUntil = None\<rparr>
                \<lparr>ob_kind = CPUKind, ob_target = '''', ob_sourceID = '''', ob_at = zero_time, ob_value = 0, ob_capacity = capacity\<rparr>)
              (\<lambda>result.
                 let replicas = (if \<not> currentKnown \<and> pr_replicas result < requested then requested else pr_replicas result);
                     replicas' = (if replicas > requested \<and> requested > 0 \<and> f_lt (f_of_int 0) tolerance \<and>
                                     withinTolerance demand capacity requested tolerance
                                  then requested else replicas)
                 in Inr (replicas', boundary)))"

definition TimedReplicas ::
  "CPUForecastPoint list \<Rightarrow> PredictivePolicy \<Rightarrow> Capacity \<Rightarrow> int32 \<Rightarrow> gotime \<Rightarrow> (int32 \<times> gotime) result" where
  "TimedReplicas points policy capacity requested now = TimedWindowReplicas points policy capacity requested now"

section \<open>Merging and expiry\<close>

definition mergedUntil :: "gotime \<Rightarrow> gotime \<Rightarrow> CPUForecastPoint \<Rightarrow> gotime" where
  "mergedUntil first expires p =
     (let u1 = (if after (point_until p) first then first else point_until p)
      in if after u1 expires then expires else u1)"

fun mergeLoop :: "gotime \<Rightarrow> gotime \<Rightarrow> gotime \<Rightarrow> CPUForecastPoint list \<Rightarrow> CPUForecastPoint option" where
  "mergeLoop first expires now [] = None"
| "mergeLoop first expires now (p # ps) =
     (let until = mergedUntil first expires p
      in if \<not> after (point_at p) now \<and> before now until then Some (p\<lparr>fp_until := format_time until\<rparr>)
         else mergeLoop first expires now ps)"

definition MergeCurrentInterval ::
  "CPUForecastPoint list \<Rightarrow> CachedPrediction option \<Rightarrow> string \<Rightarrow> gotime \<Rightarrow> CPUForecastPoint list" where
  "MergeCurrentInterval fresh old fingerprint now =
     (case (fresh, old) of
        (f # _, Some c) \<Rightarrow>
          if cp_fingerprint c \<noteq> fingerprint \<or> \<not> before now (cp_expiresAt c) \<or>
             ValidateForecastTrajectory (cp_trajectory c) \<noteq> None
          then fresh
          else (case mergeLoop (point_at f) (cp_expiresAt c) now (cp_trajectory c) of
                  Some p \<Rightarrow> p # fresh | None \<Rightarrow> fresh)
      | _ \<Rightarrow> fresh)"

fun gridLoop :: "gotime \<Rightarrow> duration \<Rightarrow> int \<Rightarrow> gotime \<Rightarrow> CPUForecastPoint list \<Rightarrow> gotime result" where
  "gridLoop consumed step i e [] = Inr e"
| "gridLoop consumed step i e (p # ps) =
     (if \<not> same_instant (point_at p) (t_add consumed (wrap64 (wrap64 (i + 1) * step))) \<or>
         \<not> same_instant (point_until p) (t_add (point_at p) step)
      then Inl ''invalid fresh trajectory grid''
      else gridLoop consumed step (i + 1) (point_until p) ps)"

definition TrajectoryExpiry :: "CPUForecastPoint list \<Rightarrow> gotime \<Rightarrow> duration \<Rightarrow> gotime result" where
  "TrajectoryExpiry points consumed horizon =
     (case ValidateForecastTrajectory points of Some e \<Rightarrow> Inl e
      | None \<Rightarrow>
        if length points > MaxTrajectoryPoints \<or> is_zero consumed \<or> horizon \<le> 0 then Inl ''invalid fresh trajectory''
        else let step = t_sub (point_at (hd points)) consumed in
          if step \<le> 0 \<or> step > 24 * hour then Inl ''invalid trajectory cadence''
          else if wrap64 (go_div (horizon - 1) step + 1) \<noteq> int (length points)
          then Inl ''trajectory does not cover requested horizon''
          else gridLoop consumed step 0 zero_time points)"

text \<open>The configured horizon in milliseconds, 0 where the model has none.\<close>

definition lookAheadMillis :: "Model \<Rightarrow> int64" where
  "lookAheadMillis m =
     (if m_type m = TypeLinear then (case m_linear m of Some l \<Rightarrow> lin_lookAhead l | None \<Rightarrow> 0)
      else if m_type m = TypeArima then (case m_arima m of Some a \<Rightarrow> ar_lookAhead a | None \<Rightarrow> 0)
      else if m_type m = TypeXGBoost then (case m_xgboost m of Some x \<Rightarrow> xgb_lookAhead x | None \<Rightarrow> 0)
      else if m_type m = TypeLightGBM then (case m_lightgbm m of Some x \<Rightarrow> lgb_lookAhead x | None \<Rightarrow> 0)
      else if m_type m = TypeHoltWinters then
        (case m_holtWinters m of Some h \<Rightarrow> opt_default 0 (hw_lookAhead h) | None \<Rightarrow> 0)
      else 0)"

definition ModelTrajectoryExpiry :: "Model \<Rightarrow> CPUForecastPoint list \<Rightarrow> gotime \<Rightarrow> gotime result" where
  "ModelTrajectoryExpiry m points consumed =
     (if m_type m = TypeHoltWinters \<and> (case m_holtWinters m of Some h \<Rightarrow> hw_lookAhead h = None | None \<Rightarrow> False)
      then (case ValidateForecastTrajectory points of Some e \<Rightarrow> Inl e
            | None \<Rightarrow> TrajectoryExpiry points consumed (t_sub (point_at (hd points)) consumed))
      else let millis = lookAheadMillis m in
        if millis \<le> 0 \<or> millis > go_div max_int64 millisecond then Inl ''invalid trajectory horizon''
        else TrajectoryExpiry points consumed (wrap64 (millis * millisecond)))"

definition ValidateTimedDemand :: "Model \<Rightarrow> DemandResult \<Rightarrow> error option" where
  "ValidateTimedDemand m r =
     (if m_predictivePolicy m = None then None
      else case dr_consumedUntil r of
        None \<Rightarrow> Some ''timed forecast lacks consumed timestamp''
      | Some consumed \<Rightarrow>
          (case ValidateForecastTrajectory (dr_trajectory r) of Some e \<Rightarrow> Some e
           | None \<Rightarrow>
             if \<not> after (point_at (hd (dr_trajectory r))) consumed
             then Some ''forecast trajectory must follow its consumed history''
             else (case ModelTrajectoryExpiry m (dr_trajectory r) consumed of Inl e \<Rightarrow> Some e | Inr _ \<Rightarrow> None)))"

definition CompleteCPUForecast :: "Model \<Rightarrow> DemandResult \<Rightarrow> DemandResult result" where
  "CompleteCPUForecast m r = (case ValidateTimedDemand m r of Some e \<Rightarrow> Inl e | None \<Rightarrow> Inr r)"

section \<open>Forecast diagnostics and verification targets\<close>

record ForecastDiagnostics =
  fd_schemaVersion :: int64
  fd_model :: string
  fd_engine :: string
  fd_engineVersion :: string
  fd_action :: string
  fd_windowSamples :: int64
  fd_forecastSteps :: int64
  fd_historyStart :: string
  fd_historyEnd :: string
  fd_forecastAt :: string
  fd_uncertainty :: string
  fd_trainingNanoseconds :: int64
  fd_inferenceNanoseconds :: int64

definition engineOf :: "string \<Rightarrow> string" where
  "engineOf model =
     (if model \<in> {''Linear'', ''HoltWinters'', ''ARIMA''} then ''statsmodels''
      else if model = ''XGBoost'' then ''xgboost''
      else if model = ''LightGBM'' then ''lightgbm'' else '''')"

definition ValidateDiagnostics :: "ForecastDiagnostics option \<Rightarrow> error option" where
  "ValidateDiagnostics dp =
     (case dp of None \<Rightarrow> None
      | Some d \<Rightarrow>
        let engine = engineOf (fd_model d) in
        if fd_schemaVersion d \<noteq> 1 \<or> engine = '''' \<or> fd_engine d \<noteq> engine \<or> length (fd_engineVersion d) = 0 \<or>
           length (fd_engineVersion d) > 64 \<or>
           (\<exists>c \<in> set (fd_engineVersion d). c \<in> {CHR 0x00, CHR 0x0D, CHR 0x0A}) \<or> fd_uncertainty d \<noteq> ''unavailable''
        then Some ''invalid forecast provenance''
        else if fd_action d \<notin> {''one_shot'', ''fit_forecast'', ''append_forecast'', ''forecast''}
        then Some ''invalid forecast action''
        else if fd_windowSamples d < 1 \<or> fd_windowSamples d > 10000 \<or> fd_forecastSteps d < 1 \<or> fd_forecastSteps d > 10000 \<or>
           fd_trainingNanoseconds d < 0 \<or> fd_inferenceNanoseconds d < 0 \<or>
           fd_trainingNanoseconds d > 24 * hour \<or> fd_inferenceNanoseconds d > 24 * hour
        then Some ''invalid forecast diagnostic bounds''
        else if fd_historyStart d = '''' \<and> fd_historyEnd d = '''' \<and> fd_forecastAt d = ''''
        then (if fd_model d = ''HoltWinters'' then None else Some ''missing forecast timestamps'')
        else if length (fd_historyStart d) > 40 \<or> length (fd_historyEnd d) > 40 \<or> length (fd_forecastAt d) > 40 \<or>
           parse_time (fd_historyStart d) = None \<or> parse_time (fd_historyEnd d) = None \<or> parse_time (fd_forecastAt d) = None \<or>
           after (parse_or_zero (fd_historyStart d)) (parse_or_zero (fd_historyEnd d)) \<or>
           \<not> after (parse_or_zero (fd_forecastAt d)) (parse_or_zero (fd_historyEnd d))
        then Some ''invalid forecast diagnostic timestamps''
        else None)"

fun stampDeltas :: "gotime list \<Rightarrow> duration list" where
  "stampDeltas (a # b # ts) = t_sub b a # stampDeltas (b # ts)"
| "stampDeltas _ = []"

definition medianDelta :: "duration list \<Rightarrow> duration" where
  "medianDelta deltas =
     (let s = sort deltas; n = length s; width = s ! (n div 2)
      in if even n then wrap64 (s ! (n div 2 - 1) + go_div (wrap64 (width - s ! (n div 2 - 1))) 2) else width)"

text \<open>The end of the interval a scalar forecast refers to, from the median cadence of the CPU history.\<close>

definition cadenceUntil :: "gotime \<Rightarrow> TimestampedSample list \<Rightarrow> gotime option" where
  "cadenceUntil start rows =
     (let stamps = map (\<lambda>r. the (ts_time r)) (filter (\<lambda>r. ts_time r \<noteq> None \<and> hasCPU r) rows) in
      if length stamps < 2 then None
      else let deltas = stampDeltas (sort_key ns stamps) in
        if \<exists>d \<in> set deltas. d \<le> 0 then None
        else let width = medianDelta deltas in
          if width \<le> 0 \<or> width > 24 * hour then None else Some (t_add start width))"

definition verificationEndpoint ::
  "Model \<Rightarrow> DemandResult \<Rightarrow> ForecastDiagnostics option \<Rightarrow> TimestampedSample list \<Rightarrow> (gotime \<times> gotime \<times> int64) option" where
  "verificationEndpoint m r d rows =
     (if dr_trajectory r \<noteq> [] then
        (if ValidateForecastTrajectory (dr_trajectory r) \<noteq> None then None
         else let p = last (dr_trajectory r) in Some (point_at p, point_until p, fp_cpu p))
      else if (case m_xgboost m of Some x \<Rightarrow> xgb_forecastAggregation x = ''maximum'' | None \<Rightarrow> False) then None
      else Option.bind d (\<lambda>d. Option.bind (parse_time (fd_forecastAt d)) (\<lambda>start.
           map_option (\<lambda>until. (start, until, dm_value (dr_demand r))) (cadenceUntil start rows))))"

definition VerificationFor ::
  "Model \<Rightarrow> DemandResult \<Rightarrow> ForecastDiagnostics option \<Rightarrow> TimestampedSample list \<Rightarrow> ForecastVerification option" where
  "VerificationFor m r d rows =
     (if m_forecastReliability m = None then None
      else Option.bind (dr_consumedUntil r) (\<lambda>consumed.
        Option.bind (verificationEndpoint m r d rows) (\<lambda>(start, until, v).
          let lead = go_div (t_sub start consumed) millisecond in
          if v < 0 \<or> lead \<le> 0 then None
          else Some \<lparr>fv_at = format_time (t_utc start), fv_until = format_time (t_utc until), fv_issuedAt = '''',
                     fv_cpu = v, fv_leadMilliseconds = lead\<rparr>)))"

section \<open>Facts on valid trajectories\<close>

definition point_ok :: "CPUForecastPoint \<Rightarrow> bool" where
  "point_ok p \<longleftrightarrow> \<not> point_invalid 0 zero_time p"

lemma point_invalid_iff: "point_invalid i prev p \<longleftrightarrow> \<not> point_ok p \<or> (i > 0 \<and> before (point_at p) prev)"
  by (auto simp: point_invalid_def point_ok_def)

lemma trajectoryLoop_iff:
  "trajectoryLoop i prev ps = None \<longleftrightarrow>
     (\<forall>p \<in> set ps. point_ok p) \<and> (i > 0 \<longrightarrow> ps \<noteq> [] \<longrightarrow> ns prev \<le> ns (point_at (hd ps))) \<and>
     successively (\<lambda>p q. ns (point_until p) \<le> ns (point_at q)) ps"
proof (induction ps arbitrary: i prev)
  case (Cons p ps)
  have "trajectoryLoop i prev (p # ps) = None \<longleftrightarrow>
      \<not> point_invalid i prev p \<and> trajectoryLoop (Suc i) (point_until p) ps = None" by simp
  then show ?case unfolding Cons.IH point_invalid_iff by (cases ps) auto
qed simp

text \<open>A valid trajectory: one to 33 points, each with parsable times in order, as disjoint intervals in time order.\<close>

lemma ValidateForecastTrajectory_iff:
  "ValidateForecastTrajectory ps = None \<longleftrightarrow>
     1 \<le> length ps \<and> length ps \<le> 33 \<and> (\<forall>p \<in> set ps. point_ok p) \<and>
     successively (\<lambda>p q. ns (point_until p) \<le> ns (point_at q)) ps"
proof -
  have "ValidateForecastTrajectory ps = None \<longleftrightarrow>
      1 \<le> length ps \<and> length ps \<le> 33 \<and> trajectoryLoop 0 zero_time ps = None"
    by (auto simp: ValidateForecastTrajectory_def Suc_le_eq)
  then show ?thesis unfolding trajectoryLoop_iff by blast
qed

lemma point_ok_times:
  assumes "point_ok p"
  shows "ns (point_at p) < ns (point_until p)" "ns (point_at p) \<noteq> 0" "0 \<le> fp_cpu p"
    "ns (point_until p) - ns (point_at p) \<le> 24 * hour" "length (fp_at p) \<le> 40" "length (fp_until p) \<le> 40"
    "parse_time (fp_at p) = Some (point_at p)" "parse_time (fp_until p) = Some (point_until p)"
proof -
  have "t_sub (point_until p) (point_at p) \<le> 24 * hour" using assms by (simp add: point_ok_def point_invalid_def)
  then show "ns (point_until p) - ns (point_at p) \<le> 24 * hour" by (simp add: t_sub_le_iff)
  show "parse_time (fp_at p) = Some (point_at p)" "parse_time (fp_until p) = Some (point_until p)"
    using assms by (auto simp: point_ok_def point_invalid_def point_at_def point_until_def parse_or_zero_def opt_default_def)
qed (use assms in \<open>auto simp: point_ok_def point_invalid_def\<close>)

section \<open>Facts on timed decisions\<close>

lemma timedFold_components:
  "foldl (timedStep now lead) (k, d, b) ps =
     (k \<or> (\<exists>p \<in> set ps. inWindow now p), foldl (timedDemand now lead) d ps, foldl (timedBoundary now lead) b ps)"
  by (induction ps arbitrary: k d b) (auto simp: timedStep_def)

text \<open>The demand is the largest of the current windows and of those that start within the lead.\<close>

definition relevant :: "gotime \<Rightarrow> duration \<Rightarrow> CPUForecastPoint \<Rightarrow> bool" where
  "relevant now lead p \<longleftrightarrow> inWindow now p \<or> inLead now lead p"

lemma timedDemand_max: "timedDemand now lead d p = (if relevant now lead p then max d (fp_cpu p) else d)"
  by (auto simp: timedDemand_def relevant_def Let_def max_def)

lemma timedDemand_foldl:
  "foldl (timedDemand now lead) d ps = foldl max d (map fp_cpu (filter (relevant now lead) ps))"
  by (induction ps arbitrary: d) (simp_all add: timedDemand_max)

text \<open>
  The boundary is the first time after \<open>now\<close> among the considered ones: between \<open>now\<close> and the
  boundary no considered time passes.
\<close>

lemma considerTime_spec:
  assumes "0 \<le> ns now"
  shows "ns b \<noteq> 0 \<Longrightarrow> ns (considerTime now b t) \<noteq> 0 \<and> ns (considerTime now b t) \<le> ns b"
    "ns now < ns t \<Longrightarrow> ns (considerTime now b t) \<noteq> 0 \<and> ns (considerTime now b t) \<le> ns t"
  using assms by (auto simp: considerTime_def)

lemma timedBoundary_le:
  assumes "0 \<le> ns now" "ns b \<noteq> 0"
  shows "ns (timedBoundary now lead b p) \<noteq> 0 \<and> ns (timedBoundary now lead b p) \<le> ns b"
  using assms considerTime_spec(1) [OF assms(1)] unfolding timedBoundary_def by (meson order_trans)

lemma timedBoundary_covers:
  assumes "0 \<le> ns now" "u \<in> {point_at p, point_until p, t_add (point_at p) (wrap64 (- lead))}" "ns now < ns u"
  shows "ns (timedBoundary now lead b p) \<noteq> 0 \<and> ns (timedBoundary now lead b p) \<le> ns u"
proof -
  note c = considerTime_spec [OF assms(1)]
  have keep: "ns (considerTime now x t) \<noteq> 0 \<and> ns (considerTime now x t) \<le> ns u" if "ns x \<noteq> 0 \<and> ns x \<le> ns u" for x t
    using c(1) [of x t] that by linarith
  have hit: "ns (considerTime now x u) \<noteq> 0 \<and> ns (considerTime now x u) \<le> ns u" for x using c(2) [OF assms(3)] .
  from assms(2) consider "u = point_at p" | "u = point_until p" | "u = t_add (point_at p) (wrap64 (- lead))" by blast
  then show ?thesis
  proof cases
    case 1 then show ?thesis unfolding timedBoundary_def using keep keep hit by metis
  next
    case 2 then show ?thesis unfolding timedBoundary_def using keep hit by metis
  next
    case 3 then show ?thesis unfolding timedBoundary_def using hit by metis
  qed
qed

lemma timedBoundary_foldl_le:
  assumes "0 \<le> ns now" "ns b \<noteq> 0"
  shows "ns (foldl (timedBoundary now lead) b ps) \<noteq> 0 \<and> ns (foldl (timedBoundary now lead) b ps) \<le> ns b"
  using assms(2)
proof (induction ps arbitrary: b)
  case (Cons p ps)
  then show ?case using timedBoundary_le [OF assms(1) Cons.prems, of lead p] by (auto intro: order_trans)
qed simp

lemma boundary_before_considered:
  assumes "0 \<le> ns now" "p \<in> set ps" "u \<in> {point_at p, point_until p, t_add (point_at p) (wrap64 (- lead))}" "ns now < ns u"
  shows "ns (foldl (timedBoundary now lead) b ps) \<noteq> 0 \<and> ns (foldl (timedBoundary now lead) b ps) \<le> ns u"
  using assms(2)
proof (induction ps arbitrary: b)
  case (Cons q ps)
  show ?case
  proof (cases "p = q")
    case True
    then have "ns (timedBoundary now lead b q) \<noteq> 0 \<and> ns (timedBoundary now lead b q) \<le> ns u"
      using timedBoundary_covers assms by blast
    then show ?thesis using timedBoundary_foldl_le [OF assms(1), of "timedBoundary now lead b q" lead ps] by auto
  qed (use Cons in auto)
qed simp

text \<open>No considered time lies in \<open>(now, later]\<close>.\<close>

definition quiet :: "gotime \<Rightarrow> gotime \<Rightarrow> duration \<Rightarrow> CPUForecastPoint \<Rightarrow> bool" where
  "quiet now later lead p \<longleftrightarrow>
     (\<forall>u \<in> {point_at p, point_until p, t_add (point_at p) (wrap64 (- lead))}. ns now < ns u \<longrightarrow> ns later < ns u)"

lemma quiet_step:
  assumes "quiet now later lead p" "ns now \<le> ns later" "in_i64 (- lead)"
  shows "inWindow later p = inWindow now p" "inLead later lead p = inLead now lead p"
    "considerTime later b (point_at p) = considerTime now b (point_at p)"
  using assms by (auto simp: quiet_def inWindow_def inLead_def considerTime_def wrap64_id)

lemma quiet_boundary:
  assumes "quiet now later lead p" "ns now \<le> ns later"
  shows "timedBoundary later lead b p = timedBoundary now lead b p"
proof -
  have "considerTime later b u = considerTime now b u"
    if "u \<in> {point_at p, point_until p, t_add (point_at p) (wrap64 (- lead))}" for b u
    using assms that unfolding quiet_def considerTime_def by (auto split: if_splits)
  then show ?thesis by (simp add: timedBoundary_def)
qed

lemma timedStep_quiet:
  assumes "\<forall>p \<in> set ps. quiet now later lead p" "ns now \<le> ns later" "in_i64 (- lead)"
  shows "foldl (timedStep later lead) s ps = foldl (timedStep now lead) s ps"
  using assms(1)
proof (induction ps arbitrary: s)
  case (Cons p ps)
  have "quiet now later lead p" using Cons.prems by simp
  then have "timedStep later lead s p = timedStep now lead s p"
    using quiet_step [OF _ assms(2,3)] quiet_boundary [OF _ assms(2)]
    by (simp add: timedStep_def timedDemand_def)
  then show ?case using Cons by simp
qed simp

abbreviation leadOf :: "PredictivePolicy \<Rightarrow> duration" where
  "leadOf policy \<equiv> pp_scaleUpLeadSeconds policy * second"

definition demandAt :: "CPUForecastPoint list \<Rightarrow> PredictivePolicy \<Rightarrow> gotime \<Rightarrow> int64" where
  "demandAt ps policy now = foldl max 0 (map fp_cpu (filter (relevant now (leadOf policy)) ps))"

definition timedConversion :: "int64 \<Rightarrow> Capacity \<Rightarrow> PredictionResult result" where
  "timedConversion demand capacity = ResolveDemand
     \<lparr>dr_trajectory = [], dr_demand = \<lparr>dm_kind = CPUKind, dm_target = '''', dm_value = demand\<rparr>, dr_consumedUntil = None\<rparr>
     \<lparr>ob_kind = CPUKind, ob_target = '''', ob_sourceID = '''', ob_at = zero_time, ob_value = 0, ob_capacity = capacity\<rparr>"

lemma timedLead:
  assumes "\<not> timedPolicyInvalid policy requested"
  shows "wrap64 (leadOf policy) = leadOf policy" "in_i64 (- leadOf policy)" "0 \<le> requested"
proof -
  have "0 \<le> pp_scaleUpLeadSeconds policy" "pp_scaleUpLeadSeconds policy \<le> 3600" "0 \<le> requested"
    using assms by (auto simp: timedPolicyInvalid_def Let_def)
  then show "wrap64 (leadOf policy) = leadOf policy" "in_i64 (- leadOf policy)" "0 \<le> requested"
    by (auto intro!: wrap64_id simp: in_i64_def)
qed

lemma TimedWindowReplicas_unfold:
  assumes "TimedWindowReplicas ps policy capacity requested now = Inr (r, b)"
  obtains out where "ValidateForecastTrajectory ps = None" "\<not> timedPolicyInvalid policy requested"
    "timedConversion (demandAt ps policy now) capacity = Inr out"
    "b = foldl (timedBoundary now (leadOf policy)) zero_time ps"
    "r = (let replicas = (if \<not> (\<exists>p \<in> set ps. inWindow now p) \<and> pr_replicas out < requested then requested else pr_replicas out)
          in if replicas > requested \<and> requested > 0 \<and> f_lt (f_of_int 0) (EffectiveTolerance policy) \<and>
                withinTolerance (demandAt ps policy now) capacity requested (EffectiveTolerance policy)
             then requested else replicas)"
proof -
  have v: "ValidateForecastTrajectory ps = None" and p: "\<not> timedPolicyInvalid policy requested"
    using assms by (auto simp: TimedWindowReplicas_def split: option.splits if_splits)
  show ?thesis using assms that v p
    by (auto simp: TimedWindowReplicas_def timedLead [OF p] timedFold_components timedDemand_foldl Let_def
        rbind_eq_Inr_iff timedConversion_def demandAt_def)
qed

lemma demandAt_ge: "p \<in> set ps \<Longrightarrow> relevant now (leadOf policy) p \<Longrightarrow> fp_cpu p \<le> demandAt ps policy now"
  unfolding demandAt_def by (rule foldl_max_ge) simp

lemma demandAt_in: "demandAt ps policy now = 0 \<or> (\<exists>p \<in> set ps. relevant now (leadOf policy) p \<and> demandAt ps policy now = fp_cpu p)"
  using foldl_max_in [of 0 "map fp_cpu (filter (relevant now (leadOf policy)) ps)"] by (auto simp: demandAt_def)

lemma timedConversion_least:
  assumes "timedConversion demand capacity = Inr out"
  defines "c \<equiv> cap_requestPerPod capacity * cap_targetPercentage capacity"
  shows "0 < c" "0 \<le> pr_replicas out" "demand * 100 \<le> pr_replicas out * c"
    "0 \<le> k \<Longrightarrow> demand * 100 \<le> k * c \<Longrightarrow> pr_replicas out \<le> k"
proof -
  let ?r = "\<lparr>dr_trajectory = [], dr_demand = \<lparr>dm_kind = CPUKind, dm_target = '''', dm_value = demand\<rparr>, dr_consumedUntil = None\<rparr>"
  let ?o = "\<lparr>ob_kind = CPUKind, ob_target = '''', ob_sourceID = '''', ob_at = zero_time, ob_value = 0, ob_capacity = capacity\<rparr>"
  have conv: "convertible ?r ?o" using assms(1) ResolveDemand_convertible unfolding timedConversion_def by blast
  then show c: "0 < c" by (simp add: convertible_def c_def)
  define q where "q = (if demand * 100 - c * (demand * 100 div c) \<noteq> 0 then demand * 100 div c + 1 else demand * 100 div c)"
  have eq: "pr_replicas out = (if demand \<le> 0 then 0 else q)"
    using assms(1) ResolveDemand_eq [OF conv] unfolding timedConversion_def
    by (auto simp: q_def c_def split: if_splits)
  note l = ceil_quotient [OF c, of "demand * 100", folded q_def]
  have q: "0 < q" if "0 < demand"
  proof (rule ccontr)
    assume "\<not> 0 < q"
    then have "q * c \<le> 0" using c by (simp add: mult_nonpos_nonneg)
    then show False using l(1) that by linarith
  qed
  show "0 \<le> pr_replicas out" using eq q by auto
  show "demand * 100 \<le> pr_replicas out * c" using eq l(1) by simp
  show "pr_replicas out \<le> k" if "0 \<le> k" "demand * 100 \<le> k * c" using eq l(2) that by simp
qed

lemma withinTolerance_mono:
  assumes "withinTolerance demand capacity requested tol" "d \<le> demand"
    and "0 < cap_requestPerPod capacity * cap_targetPercentage capacity" "0 < requested"
  shows "withinTolerance d capacity requested tol"
proof -
  have "0 < cap_requestPerPod capacity * cap_targetPercentage capacity * requested" using assms(3,4) by simp
  then have "(of_int (d * 100) / of_int (cap_requestPerPod capacity * cap_targetPercentage capacity * requested) :: rat) \<le>
      of_int (demand * 100) / of_int (cap_requestPerPod capacity * cap_targetPercentage capacity * requested)"
    using assms(2) by (intro divide_right_mono) (simp_all only: of_int_le_iff of_int_0_le_iff less_imp_le mult_right_mono zero_le_numeral)
  then show ?thesis using assms(1) by (auto simp: withinTolerance_def split: float64.splits)
qed

text \<open>What a decision covers: each current or impending window, unless the requested count is within tolerance of it.\<close>

lemma TimedWindowReplicas_covers:
  assumes "TimedWindowReplicas ps policy capacity requested now = Inr (r, b)" "p \<in> set ps" "relevant now (leadOf policy) p"
  defines "c \<equiv> cap_requestPerPod capacity * cap_targetPercentage capacity"
  shows "0 < c" "fp_cpu p * 100 \<le> r * c \<or> r = requested \<and> withinTolerance (fp_cpu p) capacity requested (EffectiveTolerance policy)"
proof -
  from assms(1) obtain out where u: "timedConversion (demandAt ps policy now) capacity = Inr out"
    and r: "r = (let replicas = (if \<not> (\<exists>p \<in> set ps. inWindow now p) \<and> pr_replicas out < requested then requested else pr_replicas out)
          in if replicas > requested \<and> requested > 0 \<and> f_lt (f_of_int 0) (EffectiveTolerance policy) \<and>
                withinTolerance (demandAt ps policy now) capacity requested (EffectiveTolerance policy)
             then requested else replicas)"
    by (rule TimedWindowReplicas_unfold)
  note l = timedConversion_least [OF u, folded c_def]
  show "0 < c" by (rule l(1))
  show "fp_cpu p * 100 \<le> r * c \<or> r = requested \<and> withinTolerance (fp_cpu p) capacity requested (EffectiveTolerance policy)"
  proof (cases "pr_replicas out \<le> r")
    case True
    have "fp_cpu p * 100 \<le> pr_replicas out * c" using demandAt_ge [OF assms(2,3)] l(3) by linarith
    also have "\<dots> \<le> r * c" using True l(1) by simp
    finally show ?thesis by simp
  next
    case False
    then have "r = requested" "0 < requested" "withinTolerance (demandAt ps policy now) capacity requested (EffectiveTolerance policy)"
      using r by (auto simp: Let_def split: if_splits)
    then show ?thesis using withinTolerance_mono demandAt_ge [OF assms(2,3)] l(1) by (auto simp: c_def)
  qed
qed

section \<open>Properties of timed decisions\<close>

text \<open>
  C6: the deadline returned with a timed decision is sound: until it, the same trajectory,
  policy, capacity and request give the same replica count and the same deadline; with no deadline
  (the zero time) they do so forever.
\<close>

theorem timed_decision_stable_until_deadline:
  assumes "TimedWindowReplicas ps policy capacity requested now = Inr (r, b)"
    and "0 \<le> ns now" "ns now \<le> ns later" "is_zero b \<or> before later b"
  shows "TimedWindowReplicas ps policy capacity requested later = Inr (r, b)"
proof -
  have u: "ValidateForecastTrajectory ps = None" "\<not> timedPolicyInvalid policy requested"
    "b = foldl (timedBoundary now (leadOf policy)) zero_time ps"
    by (rule TimedWindowReplicas_unfold [OF assms(1)], assumption)+
  have "\<forall>p \<in> set ps. quiet now later (leadOf policy) p"
    unfolding quiet_def
  proof (intro ballI impI)
    fix p u assume "p \<in> set ps" "u \<in> {point_at p, point_until p, t_add (point_at p) (wrap64 (- leadOf policy))}" "ns now < ns u"
    from boundary_before_considered [OF assms(2) this, of zero_time] show "ns later < ns u"
      using assms(4) u(3) by auto
  qed
  from timedStep_quiet [OF this assms(3) timedLead(2) [OF u(2)]]
  have "foldl (timedStep later (wrap64 (leadOf policy))) (False, 0, zero_time) ps =
      foldl (timedStep now (wrap64 (leadOf policy))) (False, 0, zero_time) ps"
    by (simp only: timedLead(1) [OF u(2)])
  then show ?thesis using assms(1) unfolding TimedWindowReplicas_def Let_def by (simp add: u(1,2))
qed

definition samplePoints :: "CPUForecastPoint list" where
  "samplePoints =
     [\<lparr>fp_at = ''2024-01-01T00:00:00Z'', fp_until = ''2024-01-01T00:01:00Z'', fp_cpu = 900\<rparr>,
      \<lparr>fp_at = ''2024-01-01T00:01:00Z'', fp_until = ''2024-01-01T00:02:00Z'', fp_cpu = 1800\<rparr>,
      \<lparr>fp_at = ''2024-01-01T00:02:00Z'', fp_until = ''2024-01-01T00:03:00Z'', fp_cpu = 300\<rparr>]"

definition samplePolicy :: PredictivePolicy where
  "samplePolicy = \<lparr>pp_scaleUpLeadSeconds = 30, pp_tolerance = Some (Fin 0), pp_scaleUpLeadFromStartup = False\<rparr>"

definition sampleCapacity :: Capacity where
  "sampleCapacity = \<lparr>cap_kind = CPUKind, cap_policy = ''cpu-request-utilization'', cap_requestPerPod = 500, cap_targetPercentage = 60\<rparr>"

definition sampleNow :: gotime where
  "sampleNow = parse_or_zero ''2024-01-01T00:00:10Z''"

lemma samplePoints_valid: "ValidateForecastTrajectory samplePoints = None"
  by code_simp

lemma samplePolicy_valid: "\<not> timedPolicyInvalid samplePolicy 4"
proof -
  have f: "fifth = Fin (3602879701896397 / 18014398509481984)"
    using round64_eval [of "- 3" "1 / 5" 7205759403792794] by (simp add: fifth_def power_int_def power_divide)
  show ?thesis
    by (simp add: f timedPolicyInvalid_def samplePolicy_def EffectiveTolerance_def Let_def f_is_nan_def f_is_inf_def)
qed

lemma sampleTimed_fold:
  "foldl (timedStep sampleNow (wrap64 (leadOf samplePolicy))) (False, 0, zero_time) samplePoints =
     (True, 900, parse_or_zero ''2024-01-01T00:00:30Z'')"
  by code_simp

lemma sampleTimed:
  "TimedWindowReplicas samplePoints samplePolicy sampleCapacity 4 sampleNow =
     Inr (3, parse_or_zero ''2024-01-01T00:00:30Z'')"
proof -
  have "ResolveDemand
      \<lparr>dr_trajectory = [], dr_demand = \<lparr>dm_kind = CPUKind, dm_target = '''', dm_value = 900\<rparr>, dr_consumedUntil = None\<rparr>
      \<lparr>ob_kind = CPUKind, ob_target = '''', ob_sourceID = '''', ob_at = zero_time, ob_value = 0, ob_capacity = sampleCapacity\<rparr> =
      Inr \<lparr>pr_trajectory = [], pr_replicas = 3, pr_consumedUntil = None\<rparr>" by code_simp
  then show ?thesis
    by (simp add: TimedWindowReplicas_def samplePoints_valid samplePolicy_valid sampleTimed_fold)
qed

theorem timed_decision_stable_until_deadline_witness:
  "TimedWindowReplicas samplePoints samplePolicy sampleCapacity 4 (parse_or_zero ''2024-01-01T00:00:29Z'') =
     Inr (3, parse_or_zero ''2024-01-01T00:00:30Z'')"
proof -
  have "0 \<le> ns sampleNow" "ns sampleNow \<le> ns (parse_or_zero ''2024-01-01T00:00:29Z'')"
    "before (parse_or_zero ''2024-01-01T00:00:29Z'') (parse_or_zero ''2024-01-01T00:00:30Z'')"
    by code_simp+
  then show ?thesis using timed_decision_stable_until_deadline [OF sampleTimed] by blast
qed

text \<open>
  C28: a timed decision has the capacity for every window it must serve - the current one and those
  starting within the lead - or differs from it by no more than the tolerance at the requested
  count; when no window covers the current time it does not go below the requested count; and where
  it does leave the requested count, it is the least count with that capacity.
\<close>

theorem timed_decision_covers_demand:
  assumes "TimedWindowReplicas ps policy capacity requested now = Inr (r, b)"
  defines "c \<equiv> cap_requestPerPod capacity * cap_targetPercentage capacity"
  shows "(\<forall>p \<in> set ps. inWindow now p \<or> inLead now (leadOf policy) p \<longrightarrow>
      fp_cpu p * 100 \<le> r * c \<or> r = requested \<and> withinTolerance (fp_cpu p) capacity requested (EffectiveTolerance policy)) \<and>
    ((\<forall>p \<in> set ps. \<not> inWindow now p) \<longrightarrow> requested \<le> r) \<and>
    (r \<noteq> requested \<longrightarrow> (\<forall>k \<ge> 0. (\<forall>p \<in> set ps. inWindow now p \<or> inLead now (leadOf policy) p \<longrightarrow> fp_cpu p * 100 \<le> k * c) \<longrightarrow> r \<le> k))"
proof -
  from assms(1) obtain out where "ValidateForecastTrajectory ps = None" "\<not> timedPolicyInvalid policy requested"
    and u: "timedConversion (demandAt ps policy now) capacity = Inr out"
    and "b = foldl (timedBoundary now (leadOf policy)) zero_time ps"
    and r: "r = (let replicas = (if \<not> (\<exists>p \<in> set ps. inWindow now p) \<and> pr_replicas out < requested then requested else pr_replicas out)
          in if replicas > requested \<and> requested > 0 \<and> f_lt (f_of_int 0) (EffectiveTolerance policy) \<and>
                withinTolerance (demandAt ps policy now) capacity requested (EffectiveTolerance policy)
             then requested else replicas)"
    by (rule TimedWindowReplicas_unfold)
  note l = timedConversion_least [OF u, folded c_def]
  note cover = TimedWindowReplicas_covers(2) [OF assms(1), folded c_def]
  have least: "r \<le> k" if "r \<noteq> requested" "0 \<le> k" "\<forall>p \<in> set ps. relevant now (leadOf policy) p \<longrightarrow> fp_cpu p * 100 \<le> k * c" for k
  proof -
    have "r = pr_replicas out" using r that(1) by (auto simp: Let_def split: if_splits)
    moreover have "demandAt ps policy now * 100 \<le> k * c" using demandAt_in [of ps policy now] that l(1) by auto
    ultimately show ?thesis using l(4) that(2) by simp
  qed
  have "(\<forall>p \<in> set ps. \<not> inWindow now p) \<longrightarrow> requested \<le> r" using r by (auto simp: Let_def)
  then show ?thesis using cover least by (simp add: relevant_def)
qed

theorem timed_decision_covers_demand_witness:
  "inWindow sampleNow (hd samplePoints) \<and> fp_cpu (hd samplePoints) * 100 \<le> 3 * (500 * 60)"
proof -
  have w: "hd samplePoints \<in> set samplePoints" "inWindow sampleNow (hd samplePoints)"
    by (simp add: samplePoints_def, code_simp)
  have "cap_requestPerPod sampleCapacity = 500" "cap_targetPercentage sampleCapacity = 60" by (simp_all add: sampleCapacity_def)
  with timed_decision_covers_demand [OF sampleTimed] w show ?thesis by auto
qed

section \<open>Facts on merging and expiry\<close>

lemma point_times_update [simp]:
  "point_at (p\<lparr>fp_until := s\<rparr>) = point_at p" "point_at (p\<lparr>fp_at := s, fp_until := s'\<rparr>) = parse_or_zero s"
  "point_until (p\<lparr>fp_until := s\<rparr>) = parse_or_zero s"
  by (simp_all add: point_at_def point_until_def)

lemma parse_or_zero_format [simp]: "formattable t \<Longrightarrow> parse_or_zero (format_time t) = t"
  by (simp add: parse_or_zero_def parse_format_time opt_default_def)

lemma mergedUntil_le:
  "ns (mergedUntil first expires p) \<le> ns first" "ns (mergedUntil first expires p) \<le> ns expires"
  "ns (mergedUntil first expires p) \<le> ns (point_until p)"
  "mergedUntil first expires p \<in> {first, expires, point_until p}"
  by (auto simp: mergedUntil_def Let_def)

lemma mergeLoop_Some:
  assumes "mergeLoop first expires now ps = Some q"
  obtains p where "p \<in> set ps" "q = p\<lparr>fp_until := format_time (mergedUntil first expires p)\<rparr>"
    "ns (point_at p) \<le> ns now" "ns now < ns (mergedUntil first expires p)"
proof -
  have "\<exists>p \<in> set ps. q = p\<lparr>fp_until := format_time (mergedUntil first expires p)\<rparr> \<and>
      ns (point_at p) \<le> ns now \<and> ns now < ns (mergedUntil first expires p)"
    using assms by (induction ps) (auto simp: Let_def split: if_splits)
  then show ?thesis using that by blast
qed

lemma point_ok_shorten:
  assumes "point_ok p" "formattable t" "ns (point_at p) < ns t" "ns t \<le> ns (point_until p)"
  shows "point_ok (p\<lparr>fp_until := format_time t\<rparr>)"
proof -
  note k = point_ok_times [OF assms(1)]
  have "t_sub t (point_at p) \<le> 24 * hour" using k(4) assms(4) by (simp add: t_sub_le_iff)
  moreover have "length (format_time t) \<le> 40" using length_format_time [OF assms(2)] by simp
  ultimately show ?thesis
    using k assms(2,3) by (simp add: point_ok_def point_invalid_def parse_format_time)
qed

lemma valid_Cons:
  assumes "ValidateForecastTrajectory fresh = None" "length fresh \<le> 32" "point_ok q"
    and "ns (point_until q) \<le> ns (point_at (hd fresh))"
  shows "ValidateForecastTrajectory (q # fresh) = None"
  using assms unfolding ValidateForecastTrajectory_iff by (cases fresh) auto

lemma gridLoop_Inr:
  assumes "gridLoop consumed step i e ps = Inr t" "0 \<le> i" "0 < step" "(i + int (length ps)) * step \<le> max_int64"
  shows "(\<forall>j < length ps. ns (point_at (ps ! j)) = ns consumed + (i + int j + 1) * step \<and>
            ns (point_until (ps ! j)) = ns consumed + (i + int j + 2) * step) \<and>
    (ps \<noteq> [] \<longrightarrow> ns t = ns consumed + (i + int (length ps) + 1) * step)"
  using assms
proof (induction ps arbitrary: i e)
  case (Cons p ps)
  have "(i + 1) * step \<le> (i + int (length (p # ps))) * step" using Cons.prems(3) by (intro mult_right_mono) auto
  moreover have "0 \<le> (i + 1) * step" using Cons.prems(2,3) by simp
  ultimately have "in_i64 ((i + 1) * step)" using Cons.prems(4) unfolding in_i64_def by linarith
  have "(i + 1) * 1 \<le> (i + 1) * step" using Cons.prems(2,3) by (intro mult_left_mono) auto
  then have "in_i64 (i + 1)" using \<open>in_i64 ((i + 1) * step)\<close> Cons.prems(2) unfolding in_i64_def mult_1_right by linarith
  with \<open>in_i64 ((i + 1) * step)\<close> have w: "wrap64 (wrap64 (i + 1) * step) = (i + 1) * step" by (simp only: wrap64_id)
  have p: "ns (point_at p) = ns consumed + (i + 1) * step" "ns (point_until p) = ns consumed + (i + 2) * step"
    and g: "gridLoop consumed step (i + 1) (point_until p) ps = Inr t"
    using Cons.prems(1) w by (auto simp: algebra_simps split: if_splits)
  have "(i + 1 + int (length ps)) * step \<le> max_int64" using Cons.prems(4) by (simp add: add.assoc)
  note IH = Cons.IH [OF g _ Cons.prems(3) this]
  show ?case
  proof (intro conjI allI impI)
    fix j assume j: "j < length (p # ps)"
    show "ns (point_at ((p # ps) ! j)) = ns consumed + (i + int j + 1) * step"
      using p IH j Cons.prems(2) by (cases j) (auto simp: add.assoc)
    show "ns (point_until ((p # ps) ! j)) = ns consumed + (i + int j + 2) * step"
      using p IH j Cons.prems(2) by (cases j) (auto simp: add.assoc)
  next
    show "ns t = ns consumed + (i + int (length (p # ps)) + 1) * step"
      using p IH g Cons.prems(2) by (cases ps) (auto simp: algebra_simps)
  qed
qed simp

section \<open>Properties of merging and expiry\<close>

text \<open>
  Merging a fresh trajectory with the cached one gives a valid trajectory: the fresh one,
  preceded by at most one interval of the old forecast. That interval covers the current time,
  keeps the old value, and ends no later than it did, than the old expiry and than the start of the
  fresh forecast.
\<close>

theorem merge_keeps_one_current_interval:
  assumes "ValidateForecastTrajectory fresh = None" "length fresh \<le> 32"
    and "formattable (point_at (hd fresh))" "formattable (cp_expiresAt c)"
    and "\<forall>p \<in> set (cp_trajectory c). formattable (point_until p)"
  shows "ValidateForecastTrajectory (MergeCurrentInterval fresh (Some c) fingerprint now) = None \<and>
    (MergeCurrentInterval fresh (Some c) fingerprint now = fresh \<or>
     (\<exists>q. MergeCurrentInterval fresh (Some c) fingerprint now = q # fresh \<and> inWindow now q \<and>
        cp_fingerprint c = fingerprint \<and> ns (point_until q) \<le> ns (cp_expiresAt c) \<and>
        ns (point_until q) \<le> ns (point_at (hd fresh)) \<and>
        (\<exists>p \<in> set (cp_trajectory c). fp_at q = fp_at p \<and> fp_cpu q = fp_cpu p \<and> ns (point_until q) \<le> ns (point_until p))))"
proof -
  obtain f fs where f: "fresh = f # fs" using assms(1) by (cases fresh) (simp_all add: ValidateForecastTrajectory_def)
  show ?thesis
  proof (cases "MergeCurrentInterval fresh (Some c) fingerprint now = fresh")
    case False
    then obtain q where fp: "cp_fingerprint c = fingerprint" "ValidateForecastTrajectory (cp_trajectory c) = None"
      and q: "mergeLoop (point_at f) (cp_expiresAt c) now (cp_trajectory c) = Some q"
        "MergeCurrentInterval fresh (Some c) fingerprint now = q # fresh"
      by (auto simp: MergeCurrentInterval_def f split: if_splits option.splits)
    let ?u = "mergedUntil (point_at f) (cp_expiresAt c)"
    obtain p where p: "p \<in> set (cp_trajectory c)" "q = p\<lparr>fp_until := format_time (?u p)\<rparr>"
      "ns (point_at p) \<le> ns now" "ns now < ns (?u p)" using mergeLoop_Some [OF q(1)] .
    note le = mergedUntil_le [of "point_at f" "cp_expiresAt c" p]
    have fm: "formattable (?u p)" using le(4) assms(3-5) p(1) f by auto
    have "point_ok p" using fp(2) p(1) by (simp add: ValidateForecastTrajectory_iff)
    then have ok: "point_ok q" using point_ok_shorten [OF _ fm] p le(3) by simp
    have until: "point_until q = ?u p" using p(2) fm by simp
    then have "ValidateForecastTrajectory (q # fresh) = None" using valid_Cons [OF assms(1,2) ok] le(1) f by simp
    moreover have "inWindow now q" using p until by (simp add: inWindow_def)
    ultimately show ?thesis using q(2) until le fp(1) p(1,2) f by auto
  qed (use assms(1) in simp)
qed

definition sampleCache :: CachedPrediction where
  "sampleCache =
     \<lparr>cp_trajectory = samplePoints, cp_replicas = 3, cp_fingerprint = ''f'', cp_consumedUntil = zero_time,
      cp_completedAt = zero_time, cp_expiresAt = parse_or_zero ''2024-01-01T00:00:45Z'', cp_historyStart = None\<rparr>"

theorem merge_keeps_one_current_interval_witness:
  "ValidateForecastTrajectory (MergeCurrentInterval (tl samplePoints) (Some sampleCache) ''f'' sampleNow) = None \<and>
   length (MergeCurrentInterval (tl samplePoints) (Some sampleCache) ''f'' sampleNow) = 3"
proof -
  have "ValidateForecastTrajectory (tl samplePoints) = None" "length (tl samplePoints) \<le> 32"
    "formattable (point_at (hd (tl samplePoints)))" "formattable (cp_expiresAt sampleCache)"
    "\<forall>p \<in> set (cp_trajectory sampleCache). formattable (point_until p)"
    by code_simp+
  moreover have "length (MergeCurrentInterval (tl samplePoints) (Some sampleCache) ''f'' sampleNow) = 3" by code_simp
  ultimately show ?thesis using merge_keeps_one_current_interval by blast
qed

text \<open>
  An accepted fresh trajectory is a uniform grid that starts one step after the consumed
  history and covers the requested horizon; its expiry is the end of its last interval, one step
  after the last grid time.
\<close>

theorem trajectory_expiry_covers_horizon:
  assumes "TrajectoryExpiry ps consumed horizon = Inr e" "in_i64 horizon"
  defines "step \<equiv> ns (point_at (hd ps)) - ns consumed"
  shows "0 < step \<and> step \<le> 24 * hour \<and> length ps \<le> 32 \<and>
    (\<forall>j < length ps. ns (point_at (ps ! j)) = ns consumed + (int j + 1) * step \<and>
       ns (point_until (ps ! j)) = ns (point_at (ps ! j)) + step) \<and>
    ns e = ns consumed + (int (length ps) + 1) * step \<and>
    ns consumed + horizon \<le> ns (point_at (last ps)) \<and> ns (point_at (last ps)) < ns consumed + horizon + step"
proof -
  define s where "s = t_sub (point_at (hd ps)) consumed"
  have a: "ValidateForecastTrajectory ps = None" "length ps \<le> 32" "0 < horizon" "0 < s" "s \<le> 24 * hour"
    "wrap64 (go_div (horizon - 1) s + 1) = int (length ps)" "gridLoop consumed s 0 zero_time ps = Inr e"
    using assms(1) by (auto simp: TrajectoryExpiry_def s_def Let_def split: option.splits if_splits)
  have s: "s = step" using a(4,5) by (auto simp: s_def step_def t_sub_def Let_def split: if_splits)
  have ne: "ps \<noteq> []" using a(1) by (auto simp: ValidateForecastTrajectory_def)
  have "int (length ps) * s \<le> 32 * (24 * hour)" using a(2,4,5) by (intro mult_mono) auto
  then have lim: "(0 + int (length ps)) * s \<le> max_int64" by simp
  note grid = gridLoop_Inr [OF a(7) _ a(4) lim]
  have n: "int (length ps) = (horizon - 1) div s + 1"
  proof -
    let ?q = "(horizon - 1) div s"
    have q: "0 \<le> ?q" using a(3,4) by (simp add: pos_imp_zdiv_nonneg_iff)
    then have "1 * ?q \<le> s * ?q" using a(4) by (intro mult_right_mono) auto
    then have "?q \<le> horizon - 1" using div_bounds(1) [OF a(4), of "horizon - 1"] by simp
    with q show ?thesis using a(3,4,6) assms(2) by (simp add: go_div_nonneg wrap64_id in_i64_def)
  qed
  have "horizon - 1 < s * ((horizon - 1) div s) + s" "s * ((horizon - 1) div s) \<le> horizon - 1"
    using div_bounds [OF a(4), of "horizon - 1"] by (auto simp: ring_distribs)
  then have cov: "horizon \<le> int (length ps) * s" "int (length ps) * s < horizon + s" using n by (auto simp: algebra_simps)
  have last: "ns (point_at (last ps)) = ns consumed + int (length ps) * s"
    using grid ne by (simp add: last_conv_nth of_nat_diff Suc_le_eq)
  have step: "ns (point_at (ps ! j)) = ns consumed + (int j + 1) * s \<and> ns (point_until (ps ! j)) = ns (point_at (ps ! j)) + s"
    if "j < length ps" for j using grid that by (simp add: algebra_simps)
  show ?thesis unfolding s [symmetric] using a(2,4,5) step last cov grid ne by simp
qed

theorem trajectory_expiry_covers_horizon_witness:
  "\<exists>e. TrajectoryExpiry samplePoints (parse_or_zero ''2023-12-31T23:59:00Z'') (180 * second) = Inr e \<and>
     ns (parse_or_zero ''2023-12-31T23:59:00Z'') + 180 * second \<le> ns (point_at (last samplePoints))"
proof -
  have "TrajectoryExpiry samplePoints (parse_or_zero ''2023-12-31T23:59:00Z'') (180 * second) =
      Inr (parse_or_zero ''2024-01-01T00:03:00Z'')" by code_simp
  with trajectory_expiry_covers_horizon [OF this] show ?thesis by (simp add: in_i64_def)
qed

end
