(* ===== verification/ForecastQuality.thy ===== *)
theory ForecastQuality
  imports ApiTypes
begin

text \<open>
  \<open>src/internal/forecastquality/quality.go\<close>: the monitor of timestamp-matched forecast errors. The
  state is persisted; \<open>valid\<close> is the code's own check of a loaded state. \<open>Observe\<close> returns \<open>None\<close>
  where slicing an empty baseline would panic; the invariant shows that it does not.
  \<open>Record\<close> sorts with \<open>sort.Slice\<close>; pending points have distinct target times unless two spellings
  denote one instant, and such a tie is kept in insertion order here.
\<close>

section \<open>State checks\<close>

abbreviation (input) MaxPending :: nat where "MaxPending \<equiv> 128"

definition emptyReliability :: "string \<Rightarrow> ForecastReliabilityState" where
  "emptyReliability fingerprint =
     \<lparr>frs_fingerprint = fingerprint, frs_leadMilliseconds = 0, frs_pending = [], frs_baseline = [], frs_recent = [],
      frs_lastObservationTime = '''', frs_lastEvaluationTime = '''', frs_lastIntervalEnd = '''',
      frs_errorBound = Fin 0, frs_degraded = False, frs_adaptationPending = False, frs_adaptation = ''''\<rparr>"

definition validError :: "float64 \<Rightarrow> bool" where
  "validError v \<longleftrightarrow> \<not> (f_is_nan v \<or> f_is_inf v \<or> f_lt (f_of_int 1) (f_abs v))"

definition validStamp :: "string \<Rightarrow> bool" where
  "validStamp s \<longleftrightarrow> (s \<noteq> '''' \<longrightarrow> parse_time s \<noteq> None)"

definition validPoint :: "ForecastVerification \<Rightarrow> bool" where
  "validPoint p =
     (case (parse_time (fv_at p), parse_time (fv_until p), parse_time (fv_issuedAt p)) of
        (Some a, Some b, Some issued) \<Rightarrow>
          \<not> is_zero a \<and> before issued a \<and> after b a \<and> t_sub b a \<le> 24 * hour \<and> fv_cpu p \<ge> 0 \<and> fv_leadMilliseconds p > 0
      | _ \<Rightarrow> False)"

definition valid :: "ForecastReliabilityState \<Rightarrow> bool" where
  "valid s \<longleftrightarrow>
     \<not> (length (frs_pending s) > MaxPending \<or> length (frs_baseline s) > 100 \<or> length (frs_recent s) > 20 \<or>
        frs_leadMilliseconds s < 0 \<or> f_is_nan (frs_errorBound s) \<or> f_is_inf (frs_errorBound s) \<or>
        f_lt (frs_errorBound s) (f_of_int 0) \<or> f_lt (f_of_int 1) (frs_errorBound s)) \<and>
     list_all validError (frs_baseline s) \<and> list_all validError (frs_recent s) \<and>
     list_all validStamp [frs_lastObservationTime s, frs_lastEvaluationTime s, frs_lastIntervalEnd s] \<and>
     list_all validPoint (frs_pending s)"

definition Ensure :: "ForecastReliabilityState option \<Rightarrow> string \<Rightarrow> ForecastReliabilityState" where
  "Ensure s fingerprint =
     (case s of None \<Rightarrow> emptyReliability fingerprint
      | Some st \<Rightarrow> if frs_fingerprint st \<noteq> fingerprint \<or> \<not> valid st then emptyReliability fingerprint else st)"

section \<open>Recording forecasts\<close>

definition targetKey :: "ForecastVerification \<Rightarrow> int" where
  "targetKey p = ns (parse_or_zero (fv_at p))"

definition Record :: "ForecastReliabilityState \<Rightarrow> ForecastVerification option \<Rightarrow> ForecastReliabilityState" where
  "Record s pp =
     (case pp of None \<Rightarrow> s
      | Some p \<Rightarrow>
        if \<not> validPoint p then s
        else
          let s0 = (if frs_leadMilliseconds s \<noteq> 0 \<and> frs_leadMilliseconds s \<noteq> fv_leadMilliseconds p
                    then emptyReliability (frs_fingerprint s) else s);
              s1 = s0\<lparr>frs_leadMilliseconds := fv_leadMilliseconds p\<rparr>
          in if \<exists>old \<in> set (frs_pending s1). fv_at old = fv_at p then s1
             else let sorted = sort_key targetKey (frs_pending s1 @ [p])
                  in s1\<lparr>frs_pending := (if length sorted > MaxPending then last_n MaxPending sorted else sorted)\<rparr>)"

section \<open>Scoring observations\<close>

text \<open>
  The loop over the pending points: ended ones are dropped, the first one that covers the
  observation and does not overlap the last scored interval is the match, later ones that cover it
  are dropped, future ones stay.
\<close>

fun scanPending ::
  "gotime \<Rightarrow> gotime \<Rightarrow> ForecastVerification option \<Rightarrow> ForecastVerification list \<Rightarrow>
    ForecastVerification option \<times> ForecastVerification list" where
  "scanPending obs lastEnd match [] = (match, [])"
| "scanPending obs lastEnd match (p # ps) =
     (if \<not> before obs (parse_or_zero (fv_until p)) then scanPending obs lastEnd match ps
      else if \<not> before obs (parse_or_zero (fv_at p)) then
        scanPending obs lastEnd
          (if match = None \<and> \<not> before (parse_or_zero (fv_at p)) lastEnd then Some p else match) ps
      else let (m, rest) = scanPending obs lastEnd match ps in (m, p # rest))"

definition ninetyFifth :: float64 where "ninetyFifth = round64 (95 / 100)"

definition boundIndex :: "nat \<Rightarrow> int64" where
  "boundIndex n = f_to_int64 (f_ceil (f_mul ninetyFifth (f_of_int (int n)))) - 1"

definition bound :: "float64 list \<Rightarrow> float64 \<Rightarrow> float64" where
  "bound values lower = f_max lower (sort values ! nat (boundIndex (length values)))"

definition relativeError :: "int64 \<Rightarrow> int64 \<Rightarrow> float64" where
  "relativeError cpu forecast =
     (let actual = f_of_int cpu; predicted = f_of_int forecast
      in f_div (f_sub actual predicted) (f_max (f_of_int 1) (f_max actual predicted)))"

definition underCount :: "float64 \<Rightarrow> float64 list \<Rightarrow> int" where
  "underCount b es = int (length (filter (\<lambda>e. f_lt b e) es))"

definition overCount :: "float64 \<Rightarrow> float64 list \<Rightarrow> int" where
  "overCount b es = int (length (filter (\<lambda>e. \<not> f_lt b e \<and> f_lt e (f_neg b)) es))"

definition insideCount :: "float64 \<Rightarrow> float64 list \<Rightarrow> int" where
  "insideCount b es = int (length (filter (\<lambda>e. \<not> f_lt b e \<and> \<not> f_lt e (f_neg b)) es))"

text \<open>The last part of \<open>Observe\<close>: the state after a full window of errors.\<close>

definition judge :: "ForecastReliabilityPolicy \<Rightarrow> ForecastReliabilityState \<Rightarrow> ForecastReliabilityState" where
  "judge p s =
     (let under = underCount (frs_errorBound s) (frs_recent s);
          over = overCount (frs_errorBound s) (frs_recent s);
          inside = insideCount (frs_errorBound s) (frs_recent s);
          s1 = (if \<not> frs_degraded s \<and> (under \<ge> frp_breaches p \<or> over \<ge> frp_breaches p)
                then s\<lparr>frs_degraded := True, frs_adaptationPending := True, frs_adaptation := ''Requested''\<rparr> else s)
      in if frs_degraded s1 \<and> \<not> frs_adaptationPending s1 \<and> inside \<ge> frp_breaches p
         then s1\<lparr>frs_degraded := False, frs_recent := []\<rparr> else s1)"

text \<open>The errors after calibration: the oldest error of a full window moves to the baseline unless degraded.\<close>

definition slide :: "ForecastReliabilityPolicy \<Rightarrow> ForecastReliabilityState \<Rightarrow> ForecastReliabilityState option" where
  "slide p s =
     (if int (length (frs_recent s)) = frp_window p then
        (if frs_recent s = [] then None
         else if \<not> frs_degraded s then
           (if frs_baseline s = [] then None
            else let b = tl (frs_baseline s) @ [f_abs (hd (frs_recent s))]
                 in Some (s\<lparr>frs_baseline := b, frs_errorBound := bound b (frp_minimumRelativeError p),
                            frs_recent := tl (frs_recent s)\<rparr>))
         else Some (s\<lparr>frs_recent := tl (frs_recent s)\<rparr>))
      else Some s)"

definition score ::
  "ForecastReliabilityPolicy \<Rightarrow> ForecastReliabilityState \<Rightarrow> float64 \<Rightarrow> ForecastReliabilityState option" where
  "score p s err =
     (if int (length (frs_baseline s)) < frp_calibrationSamples p then
        (let b = frs_baseline s @ [f_abs err]
         in Some (s\<lparr>frs_baseline := b, frs_errorBound := bound b (frp_minimumRelativeError p)\<rparr>))
      else map_option
             (\<lambda>s1. let s2 = s1\<lparr>frs_recent := frs_recent s1 @ [err]\<rparr>
                    in if int (length (frs_recent s2)) < frp_window p then s2 else judge p s2)
             (slide p s))"

definition evaluateMatch ::
  "ForecastReliabilityPolicy \<Rightarrow> ForecastReliabilityState \<Rightarrow> gotime \<Rightarrow> int64 \<Rightarrow> ForecastVerification \<Rightarrow>
    ForecastReliabilityState option" where
  "evaluateMatch policy s obs cpu m =
     (let p = Effective policy;
          width = t_sub (parse_or_zero (fv_until m)) (parse_or_zero (fv_at m));
          last = parse_or_zero (frs_lastEvaluationTime s);
          s1 = (if \<not> is_zero last \<and> t_sub obs last > wrap64 (wrap64 (frp_window p * width) * 2)
                then s\<lparr>frs_recent := []\<rparr> else s);
          s2 = s1\<lparr>frs_lastEvaluationTime := format_time (t_utc obs), frs_lastIntervalEnd := fv_until m\<rparr>
      in score p s2 (relativeError cpu (fv_cpu m)))"

definition Observe ::
  "ForecastReliabilityState \<Rightarrow> ForecastReliabilityPolicy \<Rightarrow> gotime \<Rightarrow> int64 \<Rightarrow> gotime \<Rightarrow> ForecastReliabilityState option" where
  "Observe s policy obs cpu now =
     (if cpu < 0 \<or> is_zero obs \<or> after obs now then Some s
      else
        let previous = parse_or_zero (frs_lastObservationTime s) in
        if \<not> is_zero previous \<and> \<not> after obs previous then Some s
        else
          let lastEnd = parse_or_zero (frs_lastIntervalEnd s);
              (match, pending) = scanPending obs lastEnd None (frs_pending s);
              s1 = s\<lparr>frs_lastObservationTime := format_time (t_utc obs), frs_pending := pending\<rparr>
          in case match of None \<Rightarrow> Some s1 | Some m \<Rightarrow> evaluateMatch policy s1 obs cpu m)"

definition Adapted :: "ForecastReliabilityState \<Rightarrow> string \<Rightarrow> ForecastReliabilityState" where
  "Adapted s action =
     s\<lparr>frs_adaptationPending := False, frs_adaptation := action, frs_pending := [], frs_recent := []\<rparr>"

definition Status :: "ForecastReliabilityState option \<Rightarrow> ForecastReliabilityPolicy \<Rightarrow> ForecastReliabilityStatus" where
  "Status sp policy =
     (let p = Effective policy;
          r = \<lparr>frt_state = ''Calibrating'', frt_calibrationSamples = 0, frt_recentSamples = 0, frt_underpredictions = 0,
               frt_overpredictions = 0, frt_errorBound = Fin 0, frt_adaptationPending = False, frt_adaptation = ''''\<rparr>
      in case sp of None \<Rightarrow> r
         | Some s \<Rightarrow>
           \<lparr>frt_state =
              (if frs_adaptation s = ''Unsupported'' then ''Unsupported''
               else if frs_degraded s then ''Degraded''
               else if int (length (frs_baseline s)) \<ge> frp_calibrationSamples p then ''Healthy'' else ''Calibrating''),
            frt_calibrationSamples = int (length (frs_baseline s)), frt_recentSamples = int (length (frs_recent s)),
            frt_underpredictions = int (length (filter (\<lambda>e. f_lt (frs_errorBound s) e) (frs_recent s))),
            frt_overpredictions = int (length (filter (\<lambda>e. f_lt e (f_neg (frs_errorBound s))) (frs_recent s))),
            frt_errorBound = frs_errorBound s, frt_adaptationPending = frs_adaptationPending s,
            frt_adaptation = frs_adaptation s\<rparr>)"

section \<open>Facts on errors and bounds\<close>

lemma validError_iff: "validError v \<longleftrightarrow> (\<exists>x. v = Fin x \<and> - 1 \<le> x \<and> x \<le> 1)"
  by (cases v) (auto simp: validError_def f_is_nan_def f_is_inf_def abs_le_iff)

lemma f_max_Fin [simp]: "f_max (Fin x) (Fin y) = Fin (max x y)"
  by (simp add: f_max_def max_def)

lemma f_of_int64:
  assumes "0 \<le> n" "n \<le> max_int64"
  obtains a where "f_of_int n = Fin a" "0 \<le> a" "representable a"
proof -
  have "(of_int n :: rat) \<le> of_int max_int64" using assms(2) by (simp only: of_int_le_iff)
  then have "of_int n \<le> (2::rat) powi 63" by (simp add: power_int_def)
  moreover have "representable (2 powi 63)" by (rule representable_powi) auto
  ultimately show ?thesis using that assms(1) round64_between [of 0 "2 powi 63" "of_int n"]
    by (auto simp: f_of_int_def)
qed

lemma relativeError_valid:
  assumes "0 \<le> cpu" "cpu \<le> max_int64" "0 \<le> forecast" "forecast \<le> max_int64"
  shows "validError (relativeError cpu forecast)"
proof -
  obtain a where a: "f_of_int cpu = Fin a" "0 \<le> a" "representable a" using f_of_int64 assms(1,2) .
  obtain b where b: "f_of_int forecast = Fin b" "0 \<le> b" "representable b" using f_of_int64 assms(3,4) .
  define m where "m = max 1 (max a b)"
  have m: "1 \<le> m" "a \<le> m" "b \<le> m" by (auto simp: m_def)
  have rm: "representable m" using a(3) b(3) representable_of_int [of 1] by (auto simp: m_def max_def)
  have "- m \<le> a - b" "a - b \<le> m" using a(2) b(2) m by linarith+
  then obtain r where r: "round64 (a - b) = Fin r" "- m \<le> r" "r \<le> m"
    using round64_between [of "- m" m "a - b"] rm by auto
  have "- 1 \<le> r / m" "r / m \<le> 1" using r(2,3) m(1) by (simp_all add: pos_le_divide_eq pos_divide_le_eq)
  then obtain q where "round64 (r / m) = Fin q" "- 1 \<le> q" "q \<le> 1"
    using round64_between [of "- 1" 1 "r / m"] representable_of_int [of 1] representable_of_int [of "- 1"] by auto
  then show ?thesis using a(1) b(1) r(1) m(1)
    by (simp add: relativeError_def Let_def f_sub_def m_def [symmetric] validError_iff)
qed

lemma boundIndex_range:
  assumes "0 < n" "n \<le> 2 ^ 52"
  shows "0 \<le> boundIndex n" "boundIndex n < int n"
proof -
  have half: "representable (1 / 2)" using representable_half [of 1] by simp
  obtain r where r: "ninetyFifth = Fin r" "1 / 2 \<le> r" "r \<le> 1"
    using round64_between [of "1 / 2" 1 "95 / 100"] half representable_of_int [of 1] by (auto simp: ninetyFifth_def)
  have n: "f_of_int (int n) = Fin (of_nat n)" using assms(2) f_of_int_exact [of "int n"] by simp
  have "1 / 2 * 1 \<le> r * (of_nat n :: rat)" using r(2) assms(1) by (intro mult_mono) auto
  moreover have "r * of_nat n \<le> (of_nat n :: rat)" using mult_right_mono [OF r(3), of "of_nat n"] by simp
  moreover have "representable (of_nat n)" using representable_of_int [of "int n"] assms(2) by simp
  ultimately obtain q where q: "round64 (r * of_nat n) = Fin q" "1 / 2 \<le> q" "q \<le> of_nat n"
    using round64_between [of "1 / 2" "of_nat n" "r * of_nat n"] half by auto
  then have c: "1 \<le> \<lceil>q\<rceil>" "\<lceil>q\<rceil> \<le> int n"
    by (simp_all add: less_ceiling_iff [of 0, simplified] ceiling_le_iff one_le_ceiling)
  have "int n \<le> 4503599627370496" using assms(2) by simp
  then have "in_i64 \<lceil>q\<rceil>" using c unfolding in_i64_def by linarith
  then have "f_to_int64 (f_ceil (f_mul ninetyFifth (f_of_int (int n)))) = \<lceil>q\<rceil>"
    using q(1,2) by (simp add: r(1) n trunc_rat_def)
  then show "0 \<le> boundIndex n" "boundIndex n < int n" using c by (simp_all add: boundIndex_def)
qed

text \<open>The reference band is the larger of the configured floor and a value of the baseline.\<close>

lemma bound_valid:
  assumes "values \<noteq> []" "length values \<le> 100" "list_all validError values" "0 \<le> x" "x \<le> 1"
  obtains y where "bound values (Fin x) = Fin y" "x \<le> y" "y \<le> 1" "y = x \<or> Fin y \<in> set values"
proof -
  let ?k = "nat (boundIndex (length values))"
  have "?k < length values" using boundIndex_range [of "length values"] assms(1,2) by (simp add: nat_less_iff)
  then have mem: "sort values ! ?k \<in> set values" by (metis length_sort nth_mem set_sort)
  then obtain v where v: "sort values ! ?k = Fin v" "v \<le> 1" using assms(3) by (auto simp: list_all_iff validError_iff)
  then have "bound values (Fin x) = Fin (max x v)" by (simp add: bound_def)
  then show ?thesis using that mem v assms(5) by (cases "v \<le> x") (auto simp: max_def)
qed

section \<open>The state invariant\<close>

text \<open>The policy bounds that admission enforces, and the invariant between policy and state.\<close>

definition policy_ok :: "ForecastReliabilityPolicy \<Rightarrow> bool" where
  "policy_ok p \<longleftrightarrow> 1 \<le> frp_calibrationSamples p \<and> frp_calibrationSamples p \<le> 100 \<and> 1 \<le> frp_window p \<and> frp_window p \<le> 20 \<and>
     (\<exists>x. frp_minimumRelativeError p = Fin x \<and> 0 \<le> x \<and> x \<le> 1)"

definition reliability_inv :: "ForecastReliabilityPolicy \<Rightarrow> ForecastReliabilityState \<Rightarrow> bool" where
  "reliability_inv p s \<longleftrightarrow> valid s \<and> int (length (frs_recent s)) \<le> frp_window p \<and>
     (\<forall>q \<in> set (frs_pending s). fv_cpu q \<le> max_int64)"

lemma valid_iff:
  "valid s \<longleftrightarrow>
     length (frs_pending s) \<le> 128 \<and> length (frs_baseline s) \<le> 100 \<and> length (frs_recent s) \<le> 20 \<and> 0 \<le> frs_leadMilliseconds s \<and>
     (\<exists>x. frs_errorBound s = Fin x \<and> 0 \<le> x \<and> x \<le> 1) \<and>
     list_all validError (frs_baseline s) \<and> list_all validError (frs_recent s) \<and>
     list_all validPoint (frs_pending s) \<and>
     validStamp (frs_lastObservationTime s) \<and> validStamp (frs_lastEvaluationTime s) \<and> validStamp (frs_lastIntervalEnd s)"
proof -
  have "\<not> (f_is_nan b \<or> f_is_inf b \<or> f_lt b (f_of_int 0) \<or> f_lt (f_of_int 1) b) \<longleftrightarrow> (\<exists>x. b = Fin x \<and> 0 \<le> x \<and> x \<le> 1)" for b
    by (cases b) (auto simp: f_is_nan_def f_is_inf_def)
  then show ?thesis unfolding valid_def by (auto simp: not_less)
qed

lemma validStamp_empty [simp]: "validStamp ''''"
  by (simp add: validStamp_def)

lemma validStamp_format [simp]: "formattable t \<Longrightarrow> validStamp (format_time t)"
  by (simp add: validStamp_def parse_format_time)

lemma validPoint_until: "validPoint p \<Longrightarrow> validStamp (fv_until p)"
  by (auto simp: validPoint_def validStamp_def split: option.splits)

lemma validPoint_cpu: "validPoint p \<Longrightarrow> 0 \<le> fv_cpu p"
  by (auto simp: validPoint_def split: option.splits)

lemma emptyReliability_inv: "policy_ok p \<Longrightarrow> reliability_inv p (emptyReliability fp)"
  by (simp add: reliability_inv_def valid_iff emptyReliability_def policy_ok_def)

lemma scanPending_set:
  assumes "scanPending obs lastEnd m ps = (m', rest)"
  shows "set rest \<subseteq> set ps" "length rest \<le> length ps" "m' = m \<or> (\<exists>q \<in> set ps. m' = Some q)"
  using assms by (induction ps arbitrary: m m' rest) (fastforce split: if_splits prod.splits)+

lemma judge_inv:
  assumes "reliability_inv p s" "policy_ok p"
  shows "reliability_inv p (judge p s)"
  using assms by (auto simp: reliability_inv_def valid_iff judge_def Let_def policy_ok_def)

lemma validError_abs: "validError e \<Longrightarrow> validError (f_abs e)"
  by (auto simp: validError_iff)

lemma set_tl_all: "list_all P xs \<Longrightarrow> list_all P (tl xs)"
  by (cases xs) auto

lemma slide_inv:
  assumes "reliability_inv p s" "policy_ok p" "frp_calibrationSamples p \<le> int (length (frs_baseline s))"
  obtains s' where "slide p s = Some s'" "reliability_inv p s'" "int (length (frs_recent s')) < frp_window p"
    "frs_degraded s' = frs_degraded s" "frs_pending s' = frs_pending s"
proof (cases "int (length (frs_recent s)) = frp_window p")
  case False
  then have "slide p s = Some s" "int (length (frs_recent s)) < frp_window p"
    using assms(1) by (simp_all add: slide_def reliability_inv_def)
  then show ?thesis using that assms(1) by blast
next
  case True
  then obtain e es where e: "frs_recent s = e # es" using assms(2) by (cases "frs_recent s") (auto simp: policy_ok_def)
  have v: "valid s" "\<forall>q \<in> set (frs_pending s). fv_cpu q \<le> max_int64" using assms(1) by (simp_all add: reliability_inv_def)
  show ?thesis
  proof (cases "frs_degraded s")
    case deg: True
    let ?s = "s\<lparr>frs_recent := es\<rparr>"
    have "slide p s = Some ?s" using True e deg by (simp add: slide_def)
    moreover have "reliability_inv p ?s" using v True e by (simp add: reliability_inv_def valid_iff)
    ultimately show ?thesis using that [of ?s] True e deg by simp
  next
    case deg: False
    obtain x where x: "frp_minimumRelativeError p = Fin x" "0 \<le> x" "x \<le> 1"
      using assms(2) unfolding policy_ok_def by blast
    have ne: "frs_baseline s \<noteq> []" using assms(2,3) by (auto simp: policy_ok_def)
    define b where "b = tl (frs_baseline s) @ [f_abs e]"
    have b: "b \<noteq> []" "length b \<le> 100" "list_all validError b"
      using v(1) ne e by (auto simp: b_def valid_iff validError_abs intro: set_tl_all)
    obtain y where y: "bound b (Fin x) = Fin y" "x \<le> y" "y \<le> 1" "y = x \<or> Fin y \<in> set b"
      by (rule bound_valid [OF b x(2,3)])
    let ?s = "s\<lparr>frs_baseline := b, frs_errorBound := Fin y, frs_recent := es\<rparr>"
    have "slide p s = Some ?s" using True e deg ne x(1) y(1) by (simp add: slide_def b_def)
    moreover have "reliability_inv p ?s" using v True e b x(2) y by (simp add: reliability_inv_def valid_iff)
    ultimately show ?thesis using that [of ?s] True e deg by simp
  qed
qed

lemma score_inv:
  assumes "reliability_inv p s" "policy_ok p" "validError err"
  obtains s' where "score p s err = Some s'" "reliability_inv p s'" "frs_pending s' = frs_pending s"
proof (cases "int (length (frs_baseline s)) < frp_calibrationSamples p")
  case True
  obtain x where x: "frp_minimumRelativeError p = Fin x" "0 \<le> x" "x \<le> 1"
    using assms(2) unfolding policy_ok_def by blast
  define b where "b = frs_baseline s @ [f_abs err]"
  have b: "b \<noteq> []" "length b \<le> 100" "list_all validError b"
    using True assms by (auto simp: b_def policy_ok_def reliability_inv_def valid_iff validError_abs)
  obtain y where y: "bound b (Fin x) = Fin y" "x \<le> y" "y \<le> 1" "y = x \<or> Fin y \<in> set b"
    by (rule bound_valid [OF b x(2,3)])
  let ?s = "s\<lparr>frs_baseline := b, frs_errorBound := Fin y\<rparr>"
  have "score p s err = Some ?s" using True x(1) y(1) by (simp add: score_def b_def)
  moreover have "reliability_inv p ?s" using assms(1) b x(2) y by (simp add: reliability_inv_def valid_iff)
  ultimately show ?thesis using that [of ?s] by simp
next
  case False
  then have "frp_calibrationSamples p \<le> int (length (frs_baseline s))" by simp
  then obtain s1 where s1: "slide p s = Some s1" "reliability_inv p s1" "int (length (frs_recent s1)) < frp_window p"
    "frs_degraded s1 = frs_degraded s" "frs_pending s1 = frs_pending s"
    by (rule slide_inv [OF assms(1,2)])
  define s2 where "s2 = s1\<lparr>frs_recent := frs_recent s1 @ [err]\<rparr>"
  have s2: "reliability_inv p s2" using s1(2,3) assms(2,3) by (simp add: s2_def reliability_inv_def valid_iff policy_ok_def)
  define s3 where "s3 = (if int (length (frs_recent s2)) < frp_window p then s2 else judge p s2)"
  have "score p s err = Some s3" using False s1(1) by (simp add: score_def s3_def s2_def)
  moreover have "reliability_inv p s3" using s2 judge_inv [OF s2 assms(2)] by (simp add: s3_def)
  moreover have "frs_pending s3 = frs_pending s" using s1(5) by (simp add: s3_def s2_def judge_def Let_def)
  ultimately show ?thesis using that by blast
qed

lemma evaluateMatch_inv:
  assumes "reliability_inv (Effective policy) s" "policy_ok (Effective policy)" "validPoint m" "fv_cpu m \<le> max_int64"
    and "0 \<le> cpu" "cpu \<le> max_int64" "formattable (t_utc obs)"
  obtains s' where "evaluateMatch policy s obs cpu m = Some s'" "reliability_inv (Effective policy) s'"
    "frs_pending s' = frs_pending s"
proof -
  define s1 where "s1 = (if \<not> is_zero (parse_or_zero (frs_lastEvaluationTime s)) \<and>
      t_sub obs (parse_or_zero (frs_lastEvaluationTime s)) >
        wrap64 (wrap64 (frp_window (Effective policy) * t_sub (parse_or_zero (fv_until m)) (parse_or_zero (fv_at m))) * 2)
      then s\<lparr>frs_recent := []\<rparr> else s)"
  let ?s2 = "s1\<lparr>frs_lastEvaluationTime := format_time (t_utc obs), frs_lastIntervalEnd := fv_until m\<rparr>"
  have "reliability_inv (Effective policy) s1" using assms(1,2) by (simp add: s1_def reliability_inv_def valid_iff policy_ok_def)
  then have s2: "reliability_inv (Effective policy) ?s2"
    using assms(3,7) validPoint_until by (simp add: reliability_inv_def valid_iff)
  have p: "frs_pending ?s2 = frs_pending s" by (simp add: s1_def)
  have "validError (relativeError cpu (fv_cpu m))" using relativeError_valid assms validPoint_cpu by blast
  from score_inv [OF s2 assms(2) this] p that show ?thesis
    by (simp add: evaluateMatch_def Let_def s1_def) metis
qed

lemma evaluateMatch_score:
  obtains s2 where "evaluateMatch policy s obs cpu m = score (Effective policy) s2 (relativeError cpu (fv_cpu m))"
    "frs_degraded s2 = frs_degraded s" "frs_adaptationPending s2 = frs_adaptationPending s"
    "length (frs_recent s2) \<le> length (frs_recent s)"
proof -
  show ?thesis by (rule that [OF evaluateMatch_def [unfolded Let_def]]) simp_all
qed

definition ignored :: "ForecastReliabilityState \<Rightarrow> gotime \<Rightarrow> int64 \<Rightarrow> gotime \<Rightarrow> bool" where
  "ignored s obs cpu now \<longleftrightarrow> cpu < 0 \<or> is_zero obs \<or> after obs now \<or>
     \<not> is_zero (parse_or_zero (frs_lastObservationTime s)) \<and> \<not> after obs (parse_or_zero (frs_lastObservationTime s))"

lemma Observe_ignored: "ignored s obs cpu now \<Longrightarrow> Observe s policy obs cpu now = Some s"
  by (auto simp: Observe_def Let_def ignored_def)

lemma Observe_accepted:
  assumes "\<not> ignored s obs cpu now"
    and "scanPending obs (parse_or_zero (frs_lastIntervalEnd s)) None (frs_pending s) = (m, rest)"
  shows "Observe s policy obs cpu now =
    (let s1 = s\<lparr>frs_lastObservationTime := format_time (t_utc obs), frs_pending := rest\<rparr>
     in case m of None \<Rightarrow> Some s1 | Some m \<Rightarrow> evaluateMatch policy s1 obs cpu m)"
  using assms by (auto simp: Observe_def Let_def ignored_def)

lemma Observe_inv:
  assumes "reliability_inv (Effective policy) s" "policy_ok (Effective policy)" "cpu \<le> max_int64" "formattable (t_utc obs)"
  obtains s' where "Observe s policy obs cpu now = Some s'" "reliability_inv (Effective policy) s'"
proof (cases "ignored s obs cpu now")
  case True
  then show ?thesis using that assms(1) Observe_ignored by blast
next
  case False
  obtain m rest where scan: "scanPending obs (parse_or_zero (frs_lastIntervalEnd s)) None (frs_pending s) = (m, rest)"
    by (cases "scanPending obs (parse_or_zero (frs_lastIntervalEnd s)) None (frs_pending s)")
  note sp = scanPending_set [OF scan]
  let ?s1 = "s\<lparr>frs_lastObservationTime := format_time (t_utc obs), frs_pending := rest\<rparr>"
  have s1: "reliability_inv (Effective policy) ?s1"
    using assms(1,4) sp(1,2) by (auto simp: reliability_inv_def valid_iff list_all_iff)
  have eq: "Observe s policy obs cpu now = (case m of None \<Rightarrow> Some ?s1 | Some m \<Rightarrow> evaluateMatch policy ?s1 obs cpu m)"
    using Observe_accepted [OF False scan] by (simp add: Let_def)
  show ?thesis
  proof (cases m)
    case None
    then show ?thesis using that [of ?s1] eq s1 by simp
  next
    case (Some q)
    then have "q \<in> set (frs_pending s)" using sp(3) by auto
    then have "validPoint q" "fv_cpu q \<le> max_int64" using assms(1) by (auto simp: reliability_inv_def valid_iff list_all_iff)
    from evaluateMatch_inv [OF s1 assms(2) this _ assms(3,4)] False that show ?thesis
      by (simp add: eq Some ignored_def) (metis linorder_not_less)
  qed
qed

lemma Record_inv:
  assumes "reliability_inv p s" "policy_ok p" "\<forall>q. pp = Some q \<longrightarrow> fv_cpu q \<le> max_int64"
  shows "reliability_inv p (Record s pp)"
proof (cases "pp = None \<or> (\<exists>q. pp = Some q \<and> \<not> validPoint q)")
  case True
  then show ?thesis using assms(1) by (auto simp: Record_def)
next
  case False
  then obtain q where q: "pp = Some q" "validPoint q" by auto
  define s0 where "s0 = (if frs_leadMilliseconds s \<noteq> 0 \<and> frs_leadMilliseconds s \<noteq> fv_leadMilliseconds q
      then emptyReliability (frs_fingerprint s) else s)"
  let ?s1 = "s0\<lparr>frs_leadMilliseconds := fv_leadMilliseconds q\<rparr>"
  let ?sorted = "sort_key targetKey (frs_pending s0 @ [q])"
  have "0 < fv_leadMilliseconds q" using q(2) by (auto simp: validPoint_def split: option.splits)
  moreover have "reliability_inv p s0" using assms(1) emptyReliability_inv [OF assms(2)] by (simp add: s0_def)
  ultimately have s1: "reliability_inv p ?s1" by (simp add: reliability_inv_def valid_iff)
  have all: "\<forall>r \<in> set ?sorted. validPoint r \<and> fv_cpu r \<le> max_int64"
    using s1 q assms(3) by (auto simp: reliability_inv_def valid_iff list_all_iff)
  have "reliability_inv p (?s1\<lparr>frs_pending := (if length ?sorted > MaxPending then last_n MaxPending ?sorted else ?sorted)\<rparr>)"
    using s1 all set_last_n [of 128 ?sorted] by (auto simp: reliability_inv_def valid_iff list_all_iff)
  then show ?thesis using s1 q by (simp add: Record_def Let_def s0_def [symmetric])
qed

lemma Adapted_inv: "reliability_inv p s \<Longrightarrow> policy_ok p \<Longrightarrow> reliability_inv p (Adapted s action)"
  by (simp add: reliability_inv_def valid_iff Adapted_def policy_ok_def)

lemma Ensure_inv:
  assumes "policy_ok p" "s = None \<or> reliability_inv p (the s)"
  shows "reliability_inv p (Ensure s fp)"
  using assms emptyReliability_inv by (auto simp: Ensure_def split: option.splits)

section \<open>Runs of the monitor\<close>

text \<open>The states that the controller can persist for one policy: any sequence of the operations from a fresh state.\<close>

inductive monitored :: "ForecastReliabilityPolicy \<Rightarrow> ForecastReliabilityState \<Rightarrow> bool" for policy where
  fresh: "monitored policy (Ensure None fp)"
| ensured: "monitored policy s \<Longrightarrow> monitored policy (Ensure (Some s) fp)"
| recorded: "monitored policy s \<Longrightarrow> (\<And>q. pp = Some q \<Longrightarrow> in_i64 (fv_cpu q)) \<Longrightarrow> monitored policy (Record s pp)"
| observed: "monitored policy s \<Longrightarrow> in_i64 cpu \<Longrightarrow> formattable (t_utc obs) \<Longrightarrow>
    Observe s policy obs cpu now = Some s' \<Longrightarrow> monitored policy s'"
| adapted: "monitored policy s \<Longrightarrow> monitored policy (Adapted s action)"

lemma monitored_inv:
  assumes "monitored policy s" "policy_ok (Effective policy)"
  shows "reliability_inv (Effective policy) s"
  using assms(1)
proof induction
  case (fresh fp)
  then show ?case using Ensure_inv [OF assms(2)] by blast
next
  case (ensured s fp)
  then show ?case using Ensure_inv [OF assms(2), of "Some s"] by simp
next
  case (recorded s pp)
  then show ?case using Record_inv [OF _ assms(2)] by (auto simp: in_i64_def)
next
  case (observed s cpu obs now s')
  then show ?case using Observe_inv [OF observed.IH assms(2) _ observed.hyps(3), of cpu now] by (auto simp: in_i64_def)
next
  case (adapted s action)
  then show ?case using Adapted_inv assms(2) by blast
qed

lemma judge_degraded:
  assumes "\<not> frs_degraded s" "frs_degraded (judge p s)"
  shows "frs_adaptationPending (judge p s) \<and> frs_adaptation (judge p s) = ''Requested'' \<and> frs_recent (judge p s) = frs_recent s \<and>
    frs_errorBound (judge p s) = frs_errorBound s \<and> frs_baseline (judge p s) = frs_baseline s \<and>
    (frp_breaches p \<le> underCount (frs_errorBound s) (frs_recent s) \<or> frp_breaches p \<le> overCount (frs_errorBound s) (frs_recent s))"
  using assms by (auto simp: judge_def Let_def split: if_splits)

lemma judge_recovers:
  assumes "frs_degraded s" "\<not> frs_degraded (judge p s)"
  shows "\<not> frs_adaptationPending s \<and> frs_recent (judge p s) = [] \<and>
    frp_breaches p \<le> insideCount (frs_errorBound s) (frs_recent s)"
  using assms by (auto simp: judge_def Let_def split: if_splits)

lemma slide_length:
  assumes "slide p s = Some s'"
  shows "length (frs_baseline s') = length (frs_baseline s)" "frs_degraded s' = frs_degraded s"
    "frs_adaptationPending s' = frs_adaptationPending s" "frs_lastObservationTime s' = frs_lastObservationTime s"
    "frs_pending s' = frs_pending s"
  using assms by (auto simp: slide_def Let_def split: if_splits)

lemma score_keeps:
  assumes "score p s err = Some s'"
  shows "frs_lastObservationTime s' = frs_lastObservationTime s" "frs_pending s' = frs_pending s"
proof -
  have j: "frs_lastObservationTime (judge p x) = frs_lastObservationTime x" "frs_pending (judge p x) = frs_pending x" for x
    by (simp_all add: judge_def Let_def)
  show "frs_lastObservationTime s' = frs_lastObservationTime s" "frs_pending s' = frs_pending s"
    using assms slide_length j by (auto simp: score_def Let_def split: if_splits)
qed

lemma score_judged:
  assumes "score p s err = Some s'" "frs_degraded s' \<noteq> frs_degraded s"
  shows "\<exists>s3. frp_calibrationSamples p \<le> int (length (frs_baseline s)) \<and> slide p s = Some s3 \<and>
    s' = judge p (s3\<lparr>frs_recent := frs_recent s3 @ [err]\<rparr>) \<and> \<not> int (length (frs_recent s3)) + 1 < frp_window p"
proof -
  have c: "\<not> int (length (frs_baseline s)) < frp_calibrationSamples p"
    using assms by (auto simp: score_def Let_def)
  then obtain s3 where s3: "slide p s = Some s3" using assms(1) by (auto simp: score_def)
  have "\<not> int (length (frs_recent s3)) + 1 < frp_window p"
    using assms c s3 slide_length(2) [OF s3] by (auto simp: score_def Let_def)
  then show ?thesis using assms(1) c s3 by (auto simp: score_def Let_def)
qed

lemma Observe_stamp:
  assumes "Observe s policy obs cpu now = Some s'" "\<not> (cpu < 0 \<or> is_zero obs \<or> after obs now)"
  shows "s' = s \<and> \<not> is_zero (parse_or_zero (frs_lastObservationTime s)) \<and> \<not> after obs (parse_or_zero (frs_lastObservationTime s)) \<or>
    frs_lastObservationTime s' = format_time (t_utc obs)"
  using assms score_keeps
  by (fastforce simp: Observe_def evaluateMatch_def Let_def split: if_splits prod.splits option.splits)

section \<open>Properties\<close>

text \<open>
  C29: under an admitted policy every state the monitor can reach passes the check that a reload
  applies to it (bounded lists, errors within one, a reference band within \<open>[0, 1]\<close>, parsable
  stamps), and the next observation never fails on it.
\<close>

theorem monitor_states_valid:
  assumes "monitored policy s" "policy_ok (Effective policy)"
  shows "valid s \<and> Ensure (Some s) (frs_fingerprint s) = s \<and>
    (\<forall>obs cpu now. in_i64 cpu \<and> formattable (t_utc obs) \<longrightarrow> Observe s policy obs cpu now \<noteq> None)"
proof -
  have inv: "reliability_inv (Effective policy) s" using monitored_inv [OF assms] .
  have "Observe s policy obs cpu now \<noteq> None" if "in_i64 cpu" "formattable (t_utc obs)" for obs cpu now
    using Observe_inv [OF inv assms(2) _ that(2), of cpu now] that(1) by (auto simp: in_i64_def)
  then show ?thesis using inv by (simp add: reliability_inv_def Ensure_def)
qed

definition samplePolicyR :: ForecastReliabilityPolicy where
  "samplePolicyR = \<lparr>frp_calibrationSamples = 10, frp_window = 1, frp_breaches = 1, frp_minimumRelativeError = Fin (1 / 4)\<rparr>"

lemma samplePolicyR_effective [simp]: "Effective samplePolicyR = samplePolicyR"
  by (simp add: Effective_def samplePolicyR_def)

theorem monitor_states_valid_witness:
  "valid (Ensure None ''f'') \<and> policy_ok (Effective samplePolicyR)"
proof -
  have "policy_ok (Effective samplePolicyR)" 
    unfolding policy_ok_def samplePolicyR_effective by (intro conjI exI [of _ "1 / 4"]) (simp_all add: samplePolicyR_def)
  with monitor_states_valid [OF monitored.fresh this, of "''f''"] show ?thesis by blast
qed

text \<open>
  An accepted observation is scored once: repeating it, or any observation that is not newer,
  leaves the state as it is.
\<close>

theorem observation_scored_once:
  assumes "Observe s policy obs cpu now = Some s'" "0 \<le> cpu" "\<not> is_zero obs" "\<not> after obs now"
    and "formattable (t_utc obs)" "ns obs' \<le> ns obs"
  shows "Observe s' policy obs' cpu' now' = Some s'"
proof -
  have "parse_or_zero (format_time (t_utc obs)) = t_utc obs"
    using parse_format_time [OF assms(5)] by (simp add: parse_or_zero_def opt_default_def)
  then have "ns (parse_or_zero (frs_lastObservationTime s')) \<noteq> 0 \<and> ns obs \<le> ns (parse_or_zero (frs_lastObservationTime s'))"
    using Observe_stamp [OF assms(1)] assms(2-4) by auto
  then show ?thesis using assms(6) by (simp add: Observe_def Let_def)
qed

definition sampleVerification :: ForecastVerification where
  "sampleVerification =
     \<lparr>fv_at = ''2024-01-01T00:01:00Z'', fv_until = ''2024-01-01T00:02:00Z'', fv_issuedAt = ''2024-01-01T00:00:00Z'',
      fv_cpu = 1, fv_leadMilliseconds = 60000\<rparr>"

definition sampleReliability :: ForecastReliabilityState where
  "sampleReliability = (emptyReliability ''f'')
     \<lparr>frs_leadMilliseconds := 60000, frs_pending := [sampleVerification], frs_baseline := replicate 10 (Fin 0),
      frs_errorBound := Fin (1 / 4)\<rparr>"

definition degradedReliability :: ForecastReliabilityState where
  "degradedReliability = sampleReliability
     \<lparr>frs_pending := [], frs_recent := [Fin (1 / 2)], frs_lastObservationTime := ''2024-01-01T00:01:30Z'',
      frs_lastEvaluationTime := ''2024-01-01T00:01:30Z'', frs_lastIntervalEnd := ''2024-01-01T00:02:00Z'',
      frs_degraded := True, frs_adaptationPending := True, frs_adaptation := ''Requested''\<rparr>"

abbreviation sampleObserved :: gotime where
  "sampleObserved \<equiv> parse_or_zero ''2024-01-01T00:01:30Z''"

lemma relativeError_2_1: "relativeError 2 1 = Fin (1 / 2)"
proof -
  have "round64 1 = Fin 1" using representable_of_int [of 1] by (simp add: representable_def)
  moreover have "round64 (1 / 2) = Fin (1 / 2)" using representable_half [of 1] by (simp add: representable_def)
  ultimately show ?thesis by (simp add: relativeError_def Let_def f_sub_def)
qed

lemma sampleObserve:
  "Observe sampleReliability samplePolicyR sampleObserved 2 sampleObserved = Some degradedReliability"
proof -
  have c: "\<not> is_zero sampleObserved" "\<not> after sampleObserved sampleObserved" by code_simp+
  have p: "frs_pending sampleReliability = [sampleVerification]" "frs_lastObservationTime sampleReliability = ''''"
    "frs_lastIntervalEnd sampleReliability = ''''" "parse_or_zero '''' = zero_time"
    by (simp_all add: sampleReliability_def emptyReliability_def parse_or_zero_def parse_time_def parse_fields_def opt_default_def)
  have scan: "scanPending sampleObserved zero_time None [sampleVerification] = (Some sampleVerification, [])" by code_simp
  have fmt: "format_time (t_utc sampleObserved) = ''2024-01-01T00:01:30Z''" by code_simp
  show ?thesis using c
    by (simp add: Observe_def p scan fmt evaluateMatch_def Let_def del: scanPending.simps)
      (simp add: sampleReliability_def emptyReliability_def degradedReliability_def sampleVerification_def p(4)
        relativeError_2_1 score_def slide_def judge_def samplePolicyR_def underCount_def Let_def)
qed

theorem observation_scored_once_witness:
  "Observe degradedReliability samplePolicyR sampleObserved 7 sampleObserved = Some degradedReliability"
proof -
  have "\<not> is_zero sampleObserved" "\<not> after sampleObserved sampleObserved" "formattable (t_utc sampleObserved)" by code_simp+
  then show ?thesis using observation_scored_once [OF sampleObserve, of sampleObserved 7 sampleObserved] by simp
qed

text \<open>
  C8: the verdict follows the evidence. The monitor turns degraded only when, after calibration, a
  full window of errors has at least the configured number of breaches on one side of the
  reference band, and then requests an adaptation; it recovers only after that adaptation has been
  carried out, and starts with an empty window.
\<close>

theorem degraded_needs_breaches:
  assumes "Observe s policy obs cpu now = Some s'" "1 \<le> frp_window (Effective policy)"
    and "int (length (frs_recent s)) \<le> frp_window (Effective policy)"
  shows "(\<not> frs_degraded s \<and> frs_degraded s' \<longrightarrow>
      frs_adaptationPending s' \<and> int (length (frs_recent s')) = frp_window (Effective policy) \<and>
      frp_calibrationSamples (Effective policy) \<le> int (length (frs_baseline s')) \<and>
      (frp_breaches (Effective policy) \<le> underCount (frs_errorBound s') (frs_recent s') \<or>
       frp_breaches (Effective policy) \<le> overCount (frs_errorBound s') (frs_recent s'))) \<and>
    (frs_degraded s \<and> \<not> frs_degraded s' \<longrightarrow> \<not> frs_adaptationPending s \<and> frs_recent s' = [])"
proof (cases "frs_degraded s' = frs_degraded s")
  case False
  then have ni: "\<not> ignored s obs cpu now" using assms(1) Observe_ignored by fastforce
  obtain mo rest where scan: "scanPending obs (parse_or_zero (frs_lastIntervalEnd s)) None (frs_pending s) = (mo, rest)"
    by (cases "scanPending obs (parse_or_zero (frs_lastIntervalEnd s)) None (frs_pending s)")
  let ?s1 = "s\<lparr>frs_lastObservationTime := format_time (t_utc obs), frs_pending := rest\<rparr>"
  note eq = Observe_accepted [OF ni scan, of policy, unfolded Let_def]
  obtain m where m: "mo = Some m" using assms(1) False eq by (cases mo) auto
  obtain s2 where "evaluateMatch policy ?s1 obs cpu m = score (Effective policy) s2 (relativeError cpu (fv_cpu m))"
    "frs_degraded s2 = frs_degraded ?s1" "frs_adaptationPending s2 = frs_adaptationPending ?s1"
    "length (frs_recent s2) \<le> length (frs_recent ?s1)" by (rule evaluateMatch_score)
  then have sc: "score (Effective policy) s2 (relativeError cpu (fv_cpu m)) = Some s'"
    and s2: "frs_degraded s2 = frs_degraded s" "frs_adaptationPending s2 = frs_adaptationPending s"
      "int (length (frs_recent s2)) \<le> frp_window (Effective policy)"
    using assms(1,3) eq m by simp_all
  let ?p = "Effective policy" and ?e = "relativeError cpu (fv_cpu m)"
  obtain s3 where cal: "frp_calibrationSamples ?p \<le> int (length (frs_baseline s2))" and s3: "slide ?p s2 = Some s3"
    and s': "s' = judge ?p (s3\<lparr>frs_recent := frs_recent s3 @ [?e]\<rparr>)" and full: "\<not> int (length (frs_recent s3)) + 1 < frp_window ?p"
    using score_judged [OF sc] False s2(1) by blast
  have len: "int (length (frs_recent s3)) < frp_window ?p"
    using s3 s2(3) assms(2) by (auto simp: slide_def Let_def split: if_splits)
  note sl = slide_length [OF s3]
  show ?thesis
    using False s2 sl cal full len judge_degraded [of "s3\<lparr>frs_recent := frs_recent s3 @ [?e]\<rparr>" ?p]
      judge_recovers [of "s3\<lparr>frs_recent := frs_recent s3 @ [?e]\<rparr>" ?p]
    unfolding s' by auto
qed simp

theorem degraded_needs_breaches_witness:
  "frs_degraded degradedReliability \<and> \<not> frs_degraded sampleReliability \<and>
   (1 \<le> underCount (Fin (1 / 4)) [Fin (1 / 2)] \<or> 1 \<le> overCount (Fin (1 / 4)) [Fin (1 / 2)])"
proof -
  have "frs_degraded degradedReliability" "\<not> frs_degraded sampleReliability" "frs_recent sampleReliability = []"
    "frs_errorBound degradedReliability = Fin (1 / 4)" "frs_recent degradedReliability = [Fin (1 / 2)]"
    by (simp_all add: degradedReliability_def sampleReliability_def emptyReliability_def)
  moreover have "frp_window samplePolicyR = 1" "frp_breaches samplePolicyR = 1" by (simp_all add: samplePolicyR_def)
  ultimately show ?thesis using degraded_needs_breaches [OF sampleObserve] by auto
qed

end
