(* ===== verification/HistoryWindow.thy ===== *)
theory HistoryWindow
  imports Demand
begin

text \<open>
  The training window a model keeps: \<open>ValidateWindow\<close> and \<open>ResetWindow\<close> of
  \<open>src/internal/history/validation.go\<close>, the retention rules of
  \<open>src/internal/controllers/history_retention.go\<close> and the completion fence of
  \<open>src/internal/controllers/model_completion.go\<close>. \<open>window_ok\<close> and \<open>window_stamps\<close> state declaratively what
  the validation accepts: a structure that does not depend on the clock, and the instants that must
  not lie ahead of it.
\<close>

section \<open>Hexadecimal markers\<close>

text \<open>\<open>hex.DecodeString\<close>: pairs of hexadecimal digits in either case; an odd tail or another character is an error.\<close>

definition hex_digit :: "char \<Rightarrow> nat option" where
  "hex_digit c = (let n = (of_char c :: nat) in
     if 48 \<le> n \<and> n \<le> 57 then Some (n - 48)
     else if 97 \<le> n \<and> n \<le> 102 then Some (n - 87)
     else if 65 \<le> n \<and> n \<le> 70 then Some (n - 55)
     else None)"

fun hex_decode :: "string \<Rightarrow> nat list option" where
  "hex_decode [] = Some []"
| "hex_decode [c] = None"
| "hex_decode (c # d # s) =
     (case (hex_digit c, hex_digit d, hex_decode s) of
        (Some h, Some l, Some r) \<Rightarrow> Some ((16 * h + l) # r)
      | _ \<Rightarrow> None)"

section \<open>Validation\<close>

abbreviation ErrFutureWindow :: error where
  "ErrFutureWindow \<equiv> ''history timestamps are ahead of the current clock''"

text \<open>The source marker: \<open>Some future\<close> when it is absent or well formed.\<close>

definition checkMarker :: "ModelHistory \<Rightarrow> gotime \<Rightarrow> bool option" where
  "checkMarker h now =
     (if mh_lastObservationID h \<noteq> '''' \<or> mh_lastObservationTime h \<noteq> '''' then
        (case (hex_decode (mh_lastObservationID h), parse_time (mh_lastObservationTime h)) of
           (Some bytes, Some stamp) \<Rightarrow>
             (if length bytes \<noteq> 32 \<or> is_zero stamp then None else Some (after stamp now))
         | _ \<Rightarrow> None)
      else Some False)"

definition invalidCapacity :: "TimestampedSample \<Rightarrow> bool" where
  "invalidCapacity s \<longleftrightarrow> ts_replicas s < 0 \<or>
     (case ts_requestPerPodMillicores s of None \<Rightarrow> False | Some r \<Rightarrow> r \<le> 0) \<or>
     (case ts_targetCPUUtilizationPercentage s of None \<Rightarrow> False | Some u \<Rightarrow> u \<le> 0)"

definition invalidMetric :: "TimestampedSample \<Rightarrow> bool" where
  "invalidMetric s \<longleftrightarrow> (case ts_metric s of None \<Rightarrow> False
     | Some v \<Rightarrow> f_is_nan v \<or> f_is_inf v \<or> f_lt v (f_of_int 0))"

text \<open>The loop over the rows, with the previous CPU row's time and whether a stamp is ahead of the clock.\<close>

fun windowLoop :: "gotime \<Rightarrow> gotime option \<Rightarrow> bool \<Rightarrow> TimestampedSample list \<Rightarrow> (gotime option \<times> bool) result" where
  "windowLoop now previous future [] = Inr (previous, future)"
| "windowLoop now previous future (s # rows) =
     (case ts_totalCPUUsageMillicores s of
        None \<Rightarrow> windowLoop now previous future rows
      | Some usage \<Rightarrow>
          (case ts_time s of
             None \<Rightarrow> Inl ''sample has a missing or zero timestamp''
           | Some t \<Rightarrow>
               if is_zero t then Inl ''sample has a missing or zero timestamp''
               else if (case previous of None \<Rightarrow> False | Some p \<Rightarrow> \<not> after t p)
                 then Inl ''sample is not strictly chronological''
               else if usage < 0 then Inl ''sample has negative CPU usage''
               else if invalidCapacity s then Inl ''sample has invalid replica or capacity metadata''
               else if invalidMetric s then Inl ''sample has invalid CPU utilization''
               else windowLoop now (Some t) (future \<or> after t now) rows))"

definition ValidateWindow :: "ModelHistory \<Rightarrow> gotime \<Rightarrow> error option" where
  "ValidateWindow h now =
     (case checkMarker h now of
        None \<Rightarrow> Some ''invalid source observation marker''
      | Some future \<Rightarrow>
          if mh_historyEpoch h < 0 then Some ''history epoch is negative''
          else if mh_syncPeriodsPassed h < 0 then Some ''sample progress is negative''
          else if \<not> UsesCPUHistory (mh_type h) then (if future then Some ErrFutureWindow else None)
          else (case windowLoop now None future (mh_replicaHistory h) of
              Inl e \<Rightarrow> Some e
            | Inr (previous, future1) \<Rightarrow>
                if (case mh_lastSampleTime h of None \<Rightarrow> False | Some t \<Rightarrow> is_zero t)
                then Some ''last sample timestamp is zero''
                else let future2 = (case mh_lastSampleTime h of None \<Rightarrow> future1 | Some t \<Rightarrow> future1 \<or> after t now) in
                  if (case mh_lastModelRunTime h of None \<Rightarrow> False
                      | Some r \<Rightarrow> is_zero r \<or> (case previous of None \<Rightarrow> True | Some p \<Rightarrow> after r p))
                  then Some ''consumed timestamp is outside retained history''
                  else if future2 then Some ErrFutureWindow
                  else None))"

definition ResetWindow :: "ModelHistory \<Rightarrow> ModelHistory result" where
  "ResetWindow h =
     (if mh_historyEpoch h < 0 then Inl ''invalid history epoch; preserve state for repair''
      else if mh_historyEpoch h = max_int64 then Inl ''history epoch exhausted''
      else Inr (h\<lparr>mh_replicaHistory := [], mh_historyEpoch := wrap64 (mh_historyEpoch h + 1),
        mh_syncPeriodsPassed := 0, mh_lastModelRunTime := None, mh_lastSampleTime := None,
        mh_lastObservationID := '''', mh_lastObservationTime := '''', mh_reliability := None,
        mh_cachedPrediction := None, mh_failureState := None\<rparr>))"

section \<open>Retention\<close>

text \<open>\<open>time.Duration(v) * time.Millisecond\<close>.\<close>

definition millis :: "int64 \<Rightarrow> duration" where "millis v = wrap64 (v * millisecond)"

text \<open>The earliest timestamp of the rows with CPU usage.\<close>

definition firstTraining :: "TimestampedSample list \<Rightarrow> gotime option" where
  "firstTraining rows = foldl (\<lambda>first row.
     if ts_totalCPUUsageMillicores row \<noteq> None then
       (case ts_time row of
          None \<Rightarrow> first
        | Some t \<Rightarrow> (case first of None \<Rightarrow> Some t | Some f \<Rightarrow> if before t f then Some t else first))
     else first) None rows"

definition historyInputDeadline :: "Model \<Rightarrow> TimestampedSample list \<Rightarrow> gotime option" where
  "historyInputDeadline model rows =
     (case m_historyMaxAge model of
        None \<Rightarrow> None
      | Some age \<Rightarrow> map_option (\<lambda>t. t_add t (millis age)) (firstTraining rows))"

definition hasExpiredTraining :: "Model \<Rightarrow> ModelHistory \<Rightarrow> gotime \<Rightarrow> bool" where
  "hasExpiredTraining model h now =
     (case historyInputDeadline model (mh_replicaHistory h) of
        None \<Rightarrow> False
      | Some deadline \<Rightarrow> \<not> before now deadline)"

definition pruneAgedHistory :: "Model \<Rightarrow> ModelHistory \<Rightarrow> gotime \<Rightarrow> (bool \<times> ModelHistory) result" where
  "pruneAgedHistory model h now =
     (case m_historyMaxAge model of
        None \<Rightarrow> Inr (False, h)
      | Some age \<Rightarrow>
          let cutoff = t_add now (millis (wrap64 (- age)));
              kept = filter (\<lambda>row. case ts_time row of None \<Rightarrow> False | Some t \<Rightarrow> after t cutoff) (mh_replicaHistory h)
          in if length kept = length (mh_replicaHistory h) then Inr (False, h)
             else if mh_historyEpoch h = max_int64 then Inl ''history epoch exhausted''
             else Inr (True, h\<lparr>mh_replicaHistory := kept, mh_historyEpoch := wrap64 (mh_historyEpoch h + 1),
               mh_cachedPrediction := None, mh_failureState := None, mh_reliability := None,
               mh_lastModelRunTime := None, mh_syncPeriodsPassed := 0\<rparr>))"

text \<open>
  The mutation of \<open>retainModelHistory\<close> on the stored data, with its two readings of the clock: whether to
  write, the data, and the retained history (\<open>None\<close> for the zero history of an unknown model).
\<close>

definition retainMutation ::
  "Model \<Rightarrow> string \<Rightarrow> gotime \<Rightarrow> gotime \<Rightarrow> HPAPlusData \<Rightarrow> (bool \<times> HPAPlusData \<times> ModelHistory option) result" where
  "retainMutation model target now1 now2 d =
     (if d_targetIdentity d \<noteq> target then Inl ''scale target changed while retaining history''
      else case d_modelHistories d (m_name model) of
          None \<Rightarrow> Inr (False, d, None)
        | Some h \<Rightarrow>
            if mh_type h \<noteq> m_type model \<or> ValidateWindow h now1 \<noteq> None then Inr (False, d, Some h)
            else rbind (pruneAgedHistory model h now2) (\<lambda>(changed, h').
              Inr (changed,
                   if changed then d\<lparr>d_modelHistories := (d_modelHistories d)(m_name model \<mapsto> h')\<rparr> else d,
                   Some h')))"

text \<open>Only the fields a forecast owns fence its completion.\<close>

definition sameCompletionState :: "ModelHistory \<Rightarrow> ModelHistory option list \<Rightarrow> bool" where
  "sameCompletionState current expected =
     (case expected of
        [] \<Rightarrow> True
      | [Some prior] \<Rightarrow> mh_reliability current = mh_reliability prior \<and>
          mh_lastModelRunTime current = mh_lastModelRunTime prior \<and>
          mh_cachedPrediction current = mh_cachedPrediction prior \<and>
          mh_failureState current = mh_failureState prior
      | _ \<Rightarrow> False)"

section \<open>What validation accepts\<close>

definition training_times :: "TimestampedSample list \<Rightarrow> gotime list" where
  "training_times rows = map (\<lambda>r. the (ts_time r)) (FilterCPUHistory rows)"

definition row_ok :: "TimestampedSample \<Rightarrow> bool" where
  "row_ok r \<longleftrightarrow> (\<exists>t. ts_time r = Some t \<and> ns t \<noteq> 0) \<and> (\<exists>u. ts_totalCPUUsageMillicores r = Some u \<and> 0 \<le> u) \<and>
     \<not> invalidCapacity r \<and> \<not> invalidMetric r"

definition chronological :: "TimestampedSample list \<Rightarrow> bool" where
  "chronological rows \<longleftrightarrow> sorted_wrt (<) (map ns (training_times rows))"

definition marker_stamp :: "ModelHistory \<Rightarrow> gotime option" where
  "marker_stamp h = (if mh_lastObservationID h \<noteq> '''' \<or> mh_lastObservationTime h \<noteq> ''''
     then parse_time (mh_lastObservationTime h) else None)"

definition marker_ok :: "ModelHistory \<Rightarrow> bool" where
  "marker_ok h \<longleftrightarrow> mh_lastObservationID h = '''' \<and> mh_lastObservationTime h = '''' \<or>
     (\<exists>bytes t. hex_decode (mh_lastObservationID h) = Some bytes \<and> length bytes = 32 \<and>
        parse_time (mh_lastObservationTime h) = Some t \<and> ns t \<noteq> 0)"

text \<open>The structure a window must have, whatever the clock says.\<close>

definition window_ok :: "ModelHistory \<Rightarrow> bool" where
  "window_ok h \<longleftrightarrow> marker_ok h \<and> 0 \<le> mh_historyEpoch h \<and> 0 \<le> mh_syncPeriodsPassed h \<and>
     (UsesCPUHistory (mh_type h) \<longrightarrow>
        (\<forall>r \<in> set (FilterCPUHistory (mh_replicaHistory h)). row_ok r) \<and>
        chronological (mh_replicaHistory h) \<and>
        (\<forall>t. mh_lastSampleTime h = Some t \<longrightarrow> ns t \<noteq> 0) \<and>
        (\<forall>t. mh_lastModelRunTime h = Some t \<longrightarrow> ns t \<noteq> 0 \<and>
           training_times (mh_replicaHistory h) \<noteq> [] \<and> \<not> after t (last (training_times (mh_replicaHistory h)))))"

text \<open>The instants that must not be ahead of the clock.\<close>

definition window_stamps :: "ModelHistory \<Rightarrow> gotime list" where
  "window_stamps h = (case marker_stamp h of None \<Rightarrow> [] | Some t \<Rightarrow> [t]) @
     (if UsesCPUHistory (mh_type h) then training_times (mh_replicaHistory h) @
        (case mh_lastSampleTime h of None \<Rightarrow> [] | Some t \<Rightarrow> [t]) else [])"

lemma training_times_Cons:
  "training_times (r # rows) = (if hasCPU r then the (ts_time r) # training_times rows else training_times rows)"
  by (simp add: training_times_def FilterCPUHistory_def)

lemma windowLoop_iff:
  "windowLoop now prev future rows = Inr (p, f) \<longleftrightarrow>
     (\<forall>r \<in> set (FilterCPUHistory rows). row_ok r) \<and>
     sorted_wrt (<) (map ns ((case prev of None \<Rightarrow> [] | Some q \<Rightarrow> [q]) @ training_times rows)) \<and>
     p = (if training_times rows = [] then prev else Some (last (training_times rows))) \<and>
     f = (future \<or> (\<exists>t \<in> set (training_times rows). after t now))"
proof (induction rows arbitrary: prev future)
  case Nil
  show ?case by (auto simp: training_times_def FilterCPUHistory_def split: option.split)
next
  case (Cons r rows)
  show ?case
  proof (cases "hasCPU r")
    case False
    then show ?thesis using Cons.IH by (simp add: training_times_Cons hasCPU_def FilterCPUHistory_def)
  next
    case True
    then obtain u where u: "ts_totalCPUUsageMillicores r = Some u" by (auto simp: hasCPU_def)
    have F: "FilterCPUHistory (r # rows) = r # FilterCPUHistory rows" using True by (simp add: FilterCPUHistory_def)
    show ?thesis
    proof (cases "row_ok r")
      case False
      then have "\<forall>v. windowLoop now prev future (r # rows) \<noteq> Inr v"
        using u by (auto simp: row_ok_def split: option.splits if_splits)
      then show ?thesis using False F by auto
    next
      case ok: True
      then obtain t where t: "ts_time r = Some t" "ns t \<noteq> 0" by (auto simp: row_ok_def)
      have step: "windowLoop now prev future (r # rows) =
          (if (case prev of None \<Rightarrow> False | Some q \<Rightarrow> \<not> after t q) then Inl ''sample is not strictly chronological''
           else windowLoop now (Some t) (future \<or> after t now) rows)"
        using ok t u by (auto simp: row_ok_def)
      have tt: "training_times (r # rows) = t # training_times rows" using True t by (simp add: training_times_Cons)
      have srt: "sorted_wrt (<) (map ns ((case prev of None \<Rightarrow> [] | Some q \<Rightarrow> [q]) @ t # training_times rows)) \<longleftrightarrow>
          \<not> (case prev of None \<Rightarrow> False | Some q \<Rightarrow> \<not> after t q) \<and> sorted_wrt (<) (map ns (t # training_times rows))"
        by (cases prev) auto
      show ?thesis unfolding step tt srt F using ok
        by (auto simp: Cons.IH simp del: sorted_wrt.simps(2))
    qed
  qed
qed

lemma checkMarker_iff: "checkMarker h now = Some f \<longleftrightarrow>
    marker_ok h \<and> f = (case marker_stamp h of None \<Rightarrow> False | Some t \<Rightarrow> after t now)"
  by (auto simp: checkMarker_def marker_ok_def marker_stamp_def split: option.splits)

lemma windowLoop_error: "windowLoop now p f rows = Inl e \<Longrightarrow> e \<noteq> ErrFutureWindow"
  by (induction rows arbitrary: p f) (auto split: option.splits if_splits)

lemma checkMarker_error: "\<not> marker_ok h \<Longrightarrow> checkMarker h now = None"
  using checkMarker_iff [of h now] by (cases "checkMarker h now") auto

lemma ValidateWindow_ok:
  assumes "window_ok h"
  shows "ValidateWindow h now = (if \<exists>t \<in> set (window_stamps h). after t now then Some ErrFutureWindow else None)"
proof -
  let ?m = "case marker_stamp h of None \<Rightarrow> False | Some t \<Rightarrow> after t now"
  let ?ts = "training_times (mh_replicaHistory h)"
  have m: "checkMarker h now = Some ?m" using assms checkMarker_iff by (simp add: window_ok_def)
  show ?thesis
  proof (cases "UsesCPUHistory (mh_type h)")
    case False
    then show ?thesis using assms m
      by (cases "marker_stamp h") (simp_all add: ValidateWindow_def window_ok_def window_stamps_def)
  next
    case True
    have "windowLoop now None ?m (mh_replicaHistory h) =
        Inr (if ?ts = [] then None else Some (last ?ts), ?m \<or> (\<exists>t \<in> set ?ts. after t now))"
      unfolding windowLoop_iff using assms True by (simp add: window_ok_def chronological_def)
    then show ?thesis using assms m True
      by (cases "marker_stamp h"; cases "mh_lastSampleTime h"; cases "mh_lastModelRunTime h")
        (auto simp: ValidateWindow_def window_ok_def window_stamps_def)
  qed
qed

lemma ValidateWindow_not_ok:
  assumes "\<not> window_ok h"
  shows "ValidateWindow h now \<noteq> None" "ValidateWindow h now \<noteq> Some ErrFutureWindow"
proof -
  have "ValidateWindow h now \<noteq> None \<and> ValidateWindow h now \<noteq> Some ErrFutureWindow"
  proof (cases "checkMarker h now")
    case None
    then show ?thesis by (simp add: ValidateWindow_def)
  next
    case (Some f)
    then have "marker_ok h" using checkMarker_iff by blast
    show ?thesis
    proof (cases "windowLoop now None f (mh_replicaHistory h)")
      case (Inl e)
      then show ?thesis using Some windowLoop_error [OF Inl] assms \<open>marker_ok h\<close>
        by (auto simp: ValidateWindow_def window_ok_def)
    next
      case (Inr v)
      then obtain p g where pg: "windowLoop now None f (mh_replicaHistory h) = Inr (p, g)" by (cases v) auto
      note w = pg [unfolded windowLoop_iff]
      show ?thesis using Some pg w assms \<open>marker_ok h\<close>
        by (auto simp: ValidateWindow_def window_ok_def chronological_def split: option.splits if_splits)
    qed
  qed
  then show "ValidateWindow h now \<noteq> None" "ValidateWindow h now \<noteq> Some ErrFutureWindow" by auto
qed

lemma ValidateWindow_iff:
  "ValidateWindow h now = None \<longleftrightarrow> window_ok h \<and> (\<forall>t \<in> set (window_stamps h). \<not> after t now)"
  using ValidateWindow_ok [of h now] ValidateWindow_not_ok [of h now] by (cases "window_ok h") auto

lemma ResetWindow_valid:
  assumes "in_i64 (mh_historyEpoch h)" "ResetWindow h = Inr h'"
  shows "ValidateWindow h' now = None" "mh_historyEpoch h' = mh_historyEpoch h + 1"
proof -
  have r: "0 \<le> mh_historyEpoch h" "mh_historyEpoch h \<noteq> max_int64"
    and h': "h' = h\<lparr>mh_replicaHistory := [], mh_historyEpoch := wrap64 (mh_historyEpoch h + 1),
        mh_syncPeriodsPassed := 0, mh_lastModelRunTime := None, mh_lastSampleTime := None,
        mh_lastObservationID := '''', mh_lastObservationTime := '''', mh_reliability := None,
        mh_cachedPrediction := None, mh_failureState := None\<rparr>"
    using assms(2) by (auto simp: ResetWindow_def split: if_splits)
  have e: "wrap64 (mh_historyEpoch h + 1) = mh_historyEpoch h + 1"
    using r assms(1) by (intro wrap64_id) (simp add: in_i64_def)
  show "mh_historyEpoch h' = mh_historyEpoch h + 1" by (simp add: h' e)
  show "ValidateWindow h' now = None"
    unfolding ValidateWindow_iff using r
    by (simp add: h' e window_ok_def window_stamps_def marker_ok_def marker_stamp_def training_times_def
        FilterCPUHistory_def chronological_def)
qed

section \<open>Facts on retention\<close>

text \<open>A loop that keeps the earliest of the optional instants it meets.\<close>

definition earliest_step :: "('a \<Rightarrow> gotime option) \<Rightarrow> gotime option \<Rightarrow> 'a \<Rightarrow> gotime option" where
  "earliest_step key acc x = (case key x of None \<Rightarrow> acc
     | Some t \<Rightarrow> (case acc of None \<Rightarrow> Some t | Some u \<Rightarrow> if before t u then Some t else acc))"

lemma earliest_step_None: "earliest_step key a x = None \<longleftrightarrow> a = None \<and> key x = None"
  by (simp add: earliest_step_def split: option.split)

lemma foldl_earliest:
  "foldl (earliest_step key) a xs = Some f \<Longrightarrow>
      (\<forall>b. a = Some b \<longrightarrow> ns f \<le> ns b) \<and> (\<forall>x \<in> set xs. \<forall>t. key x = Some t \<longrightarrow> ns f \<le> ns t) \<and>
      (a = Some f \<or> (\<exists>x \<in> set xs. key x = Some f))"
  "foldl (earliest_step key) a xs = None \<Longrightarrow> a = None \<and> (\<forall>x \<in> set xs. key x = None)"
proof (induction xs arbitrary: a)
  case (Cons x xs)
  {
    case 1
    then show ?case using Cons.IH(1) [of "earliest_step key a x"]
      by (auto simp: earliest_step_def split: if_splits option.splits)
  next
    case 2
    then show ?case using Cons.IH(2) [of "earliest_step key a x"] unfolding earliest_step_None by simp
  }
qed simp_all

abbreviation training_time :: "TimestampedSample \<Rightarrow> gotime option" where
  "training_time r \<equiv> (if hasCPU r then ts_time r else None)"

lemma firstTraining_earliest: "firstTraining rows = foldl (earliest_step training_time) None rows"
  unfolding firstTraining_def
  by (rule arg_cong [of _ _ "\<lambda>f. foldl f None rows"]) (auto simp: fun_eq_iff earliest_step_def hasCPU_def split: option.split)

lemma firstTraining_Some:
  assumes "firstTraining rows = Some f"
  shows "\<exists>r \<in> set rows. hasCPU r \<and> ts_time r = Some f"
    and "r \<in> set rows \<Longrightarrow> hasCPU r \<Longrightarrow> ts_time r = Some t \<Longrightarrow> ns f \<le> ns t"
  using foldl_earliest(1) [of training_time None rows f] assms unfolding firstTraining_earliest
  by (auto split: if_splits)

lemma firstTraining_None: "firstTraining rows = None \<Longrightarrow> r \<in> set rows \<Longrightarrow> hasCPU r \<Longrightarrow> ts_time r = None"
  using foldl_earliest(2) [of training_time None rows] unfolding firstTraining_earliest by (auto split: if_splits)

lemma hasExpiredTraining_iff:
  "hasExpiredTraining model h now \<longleftrightarrow> (\<exists>age. m_historyMaxAge model = Some age \<and>
     (\<exists>r \<in> set (mh_replicaHistory h). \<exists>t. hasCPU r \<and> ts_time r = Some t \<and> ns t + millis age \<le> ns now))"
proof (cases "m_historyMaxAge model")
  case None
  then show ?thesis by (simp add: hasExpiredTraining_def historyInputDeadline_def)
next
  case (Some age)
  show ?thesis
  proof (cases "firstTraining (mh_replicaHistory h)")
    case None
    then show ?thesis using firstTraining_None [OF None] Some
      by (auto simp: hasExpiredTraining_def historyInputDeadline_def)
  next
    case (Some f)
    have "ns f + millis age \<le> ns now \<longleftrightarrow>
        (\<exists>r \<in> set (mh_replicaHistory h). \<exists>t. hasCPU r \<and> ts_time r = Some t \<and> ns t + millis age \<le> ns now)"
      using firstTraining_Some [OF Some] by force
    then show ?thesis using Some \<open>m_historyMaxAge model = Some age\<close>
      by (auto simp: hasExpiredTraining_def historyInputDeadline_def)
  qed
qed

lemma millis_exact [simp]: "0 \<le> v \<Longrightarrow> v \<le> 9223372036854 \<Longrightarrow> millis v = v * millisecond"
  by (simp add: millis_def wrap64_id in_i64_def)

lemma millis_neg [simp]: "0 \<le> v \<Longrightarrow> v \<le> 9223372036854 \<Longrightarrow> millis (wrap64 (- v)) = - (v * millisecond)"
  by (simp add: millis_def wrap64_id in_i64_def)

lemma filter_sorted_suffix:
  fixes c :: "'b::linorder"
  assumes "sorted_wrt (<) (map f xs)"
  shows "filter (\<lambda>x. c < f x) xs = dropWhile (\<lambda>x. f x \<le> c) xs"
  using assms
proof (induction xs)
  case (Cons x xs)
  show ?case
  proof (cases "c < f x")
    case True
    then have "filter (\<lambda>x. c < f x) xs = xs" using Cons.prems by (auto simp: filter_id_conv)
    then show ?thesis using True by simp
  next
    case False
    then show ?thesis using Cons by auto
  qed
qed simp

text \<open>Dropping rows keeps the structure of a window whose consumed marker is cleared.\<close>

lemma window_ok_filter:
  assumes "window_ok h" "mh_historyEpoch h < max_int64" "in_i64 (mh_historyEpoch h)"
  shows "window_ok (h\<lparr>mh_replicaHistory := filter P (mh_replicaHistory h), mh_historyEpoch := wrap64 (mh_historyEpoch h + 1),
      mh_cachedPrediction := None, mh_failureState := None, mh_reliability := None,
      mh_lastModelRunTime := None, mh_syncPeriodsPassed := 0\<rparr>)"
proof -
  have e: "wrap64 (mh_historyEpoch h + 1) = mh_historyEpoch h + 1"
    using assms(2,3) by (intro wrap64_id) (simp add: in_i64_def)
  have f: "FilterCPUHistory (filter P rows) = filter P (FilterCPUHistory rows)" for rows
    by (simp add: FilterCPUHistory_def conj_commute)
  have "sorted_wrt (<) (map g xs) \<Longrightarrow> sorted_wrt (<) (map g (filter P xs))" for xs and g :: "TimestampedSample \<Rightarrow> int"
    by (simp add: sorted_wrt_map sorted_wrt_filter)
  then have c: "chronological rows \<Longrightarrow> chronological (filter P rows)" for rows
    by (simp add: chronological_def training_times_def f comp_def)
  show ?thesis using assms(1) c by (auto simp: window_ok_def marker_ok_def e f)
qed

lemma window_stamps_filter:
  "set (window_stamps (h\<lparr>mh_replicaHistory := filter P (mh_replicaHistory h), mh_historyEpoch := e,
      mh_cachedPrediction := None, mh_failureState := None, mh_reliability := None,
      mh_lastModelRunTime := None, mh_syncPeriodsPassed := 0\<rparr>)) \<subseteq> set (window_stamps h)"
  by (auto simp: window_stamps_def marker_stamp_def training_times_def FilterCPUHistory_def split: option.splits)

lemma pruneAged_cases:
  assumes "pruneAgedHistory model h now = Inr (changed, h')" "m_historyMaxAge model = Some age" "0 < age" "age \<le> 9223372036854"
  defines "P \<equiv> \<lambda>row. case ts_time row of None \<Rightarrow> False | Some t \<Rightarrow> ns now < ns t + age * millisecond"
  shows "changed \<longleftrightarrow> (\<exists>r \<in> set (mh_replicaHistory h). \<not> P r)" "mh_replicaHistory h' = filter P (mh_replicaHistory h)"
    "\<not> changed \<Longrightarrow> h' = h"
    "changed \<Longrightarrow> mh_historyEpoch h < max_int64 \<or> max_int64 < mh_historyEpoch h"
    "changed \<Longrightarrow> h' = h\<lparr>mh_replicaHistory := filter P (mh_replicaHistory h), mh_historyEpoch := wrap64 (mh_historyEpoch h + 1),
        mh_cachedPrediction := None, mh_failureState := None, mh_reliability := None,
        mh_lastModelRunTime := None, mh_syncPeriodsPassed := 0\<rparr>"
proof -
  let ?cut = "t_add now (millis (wrap64 (- age)))"
  have P: "(\<lambda>row. case ts_time row of None \<Rightarrow> False | Some t \<Rightarrow> after t ?cut) = P"
    using assms(3,4) by (auto simp: P_def fun_eq_iff algebra_simps split: option.split)
  have all: "length (filter P (mh_replicaHistory h)) = length (mh_replicaHistory h) \<longleftrightarrow> (\<forall>r \<in> set (mh_replicaHistory h). P r)"
    by (metis filter_True length_filter_less less_irrefl)
  note u = assms(1) [unfolded pruneAgedHistory_def assms(2) option.case Let_def P]
  show "changed \<longleftrightarrow> (\<exists>r \<in> set (mh_replicaHistory h). \<not> P r)" "\<not> changed \<Longrightarrow> h' = h"
      "changed \<Longrightarrow> mh_historyEpoch h < max_int64 \<or> max_int64 < mh_historyEpoch h"
    using u all by (auto split: if_splits)
  show "mh_replicaHistory h' = filter P (mh_replicaHistory h)"
    using u all by (auto split: if_splits)
  show "changed \<Longrightarrow> h' = h\<lparr>mh_replicaHistory := filter P (mh_replicaHistory h), mh_historyEpoch := wrap64 (mh_historyEpoch h + 1),
        mh_cachedPrediction := None, mh_failureState := None, mh_reliability := None,
        mh_lastModelRunTime := None, mh_syncPeriodsPassed := 0\<rparr>"
    using u by (auto split: if_splits)
qed

lemma pruned_suffix:
  fixes c d :: int
  assumes "\<forall>r \<in> set (FilterCPUHistory rows). row_ok r" "chronological rows"
  defines "P \<equiv> \<lambda>row. case ts_time row of None \<Rightarrow> False | Some t \<Rightarrow> c < ns t + d"
  shows "\<exists>aged. FilterCPUHistory rows = aged @ FilterCPUHistory (filter P rows) \<and> (\<forall>r \<in> set aged. \<not> P r)"
proof -
  let ?f = "\<lambda>r. ns (the (ts_time r))" and ?xs = "FilterCPUHistory rows"
  have P: "r \<in> set ?xs \<Longrightarrow> P r \<longleftrightarrow> c - d < ?f r" for r using assms(1) by (auto simp: P_def row_ok_def)
  have "FilterCPUHistory (filter P rows) = filter P ?xs" by (simp add: FilterCPUHistory_def conj_commute)
  also have "\<dots> = filter (\<lambda>r. c - d < ?f r) ?xs" using P by (auto intro: filter_cong)
  also have "\<dots> = dropWhile (\<lambda>r. ?f r \<le> c - d) ?xs"
    using assms(2) by (intro filter_sorted_suffix) (simp add: chronological_def training_times_def comp_def)
  finally have "?xs = takeWhile (\<lambda>r. ?f r \<le> c - d) ?xs @ FilterCPUHistory (filter P rows)"
    by (simp add: takeWhile_dropWhile_id)
  moreover have "\<forall>r \<in> set (takeWhile (\<lambda>r. ?f r \<le> c - d) ?xs). \<not> P r"
    using P by (auto dest!: set_takeWhileD)
  ultimately show ?thesis by blast
qed

section \<open>Properties\<close>

text \<open>
  Retention leaves a fresh and valid training window. From a window that validates now, pruning
  by the model's maximum age yields a window that still validates and holds no training sample at or
  past its age limit; what it removes from the training samples are exactly their oldest ones (the
  rest has no gap); and every forecast artefact derived from the old window is dropped, under a new
  epoch, if and only if a row was removed.
\<close>

theorem retention_leaves_fresh_valid_window:
  assumes "m_historyMaxAge model = Some age" "0 < age" "age \<le> 9223372036854"
    and "ValidateWindow h now = None" "UsesCPUHistory (mh_type h)" "in_i64 (mh_historyEpoch h)"
    and "pruneAgedHistory model h now = Inr (changed, h')"
  shows "ValidateWindow h' now = None \<and> \<not> hasExpiredTraining model h' now \<and>
     (\<exists>aged. FilterCPUHistory (mh_replicaHistory h) = aged @ FilterCPUHistory (mh_replicaHistory h') \<and>
        (\<forall>r \<in> set aged. \<exists>t. ts_time r = Some t \<and> ns t + age * millisecond \<le> ns now)) \<and>
     (if changed then mh_historyEpoch h' = mh_historyEpoch h + 1 \<and> mh_cachedPrediction h' = None \<and>
         mh_failureState h' = None \<and> mh_reliability h' = None \<and> mh_lastModelRunTime h' = None \<and>
         mh_lastSampleTime h' = mh_lastSampleTime h \<and> mh_startTime h' = mh_startTime h
      else h' = h)"
proof -
  note p = pruneAged_cases [OF assms(7,1-3)]
  note w = assms(4) [unfolded ValidateWindow_iff]
  have epoch: "mh_historyEpoch h < max_int64" if changed using p(4) [OF that] assms(6) by (auto simp: in_i64_def)
  have "ValidateWindow h' now = None"
  proof (cases changed)
    case True
    show ?thesis
      unfolding ValidateWindow_iff p(5) [OF True]
      using window_ok_filter [OF conjunct1 [OF w] epoch [OF True] assms(6)] window_stamps_filter w by blast
  qed (use assms(4) p(3) in simp)
  moreover have "\<not> hasExpiredTraining model h' now"
    unfolding hasExpiredTraining_iff p(2) using assms(1-3) by (auto split: option.splits)
  moreover have "\<exists>aged. FilterCPUHistory (mh_replicaHistory h) = aged @ FilterCPUHistory (mh_replicaHistory h') \<and>
        (\<forall>r \<in> set aged. \<exists>t. ts_time r = Some t \<and> ns t + age * millisecond \<le> ns now)"
  proof -
    have ok: "\<forall>r \<in> set (FilterCPUHistory (mh_replicaHistory h)). row_ok r" "chronological (mh_replicaHistory h)"
      using w assms(5) by (auto simp: window_ok_def)
    obtain aged where a: "FilterCPUHistory (mh_replicaHistory h) = aged @ FilterCPUHistory (mh_replicaHistory h')"
        "\<forall>r \<in> set aged. \<not> (case ts_time r of None \<Rightarrow> False | Some t \<Rightarrow> ns now < ns t + age * millisecond)"
      using pruned_suffix [OF ok, of "ns now" "age * millisecond"] unfolding p(2) by blast
    moreover have "\<exists>t. ts_time r = Some t" if "r \<in> set aged" for r
      using ok(1) a(1) that by (auto simp: row_ok_def)
    ultimately show ?thesis by fastforce
  qed
  moreover have "if changed then mh_historyEpoch h' = mh_historyEpoch h + 1 \<and> mh_cachedPrediction h' = None \<and>
         mh_failureState h' = None \<and> mh_reliability h' = None \<and> mh_lastModelRunTime h' = None \<and>
         mh_lastSampleTime h' = mh_lastSampleTime h \<and> mh_startTime h' = mh_startTime h
      else h' = h"
    using p(3) p(5) epoch assms(6) by (auto simp: wrap64_id in_i64_def)
  ultimately show ?thesis by blast
qed

text \<open>A model with an hour of retention and a window of two samples, the first of them too old.\<close>

definition agedModel :: Model where
  "agedModel = \<lparr>m_requestDemand = None, m_forecastReliability = None, m_predictivePolicy = None,
     m_type = TypeLinear, m_name = ''m'', m_sessionID = '''', m_cpuRequestPerPodMillicores = 1000,
     m_targetCPUUtilizationPercentage = 50, m_startInterval = None, m_resetDuration = None,
     m_calculationTimeout = None, m_perSyncPeriod = None, m_predictionMaxAge = Some 60000,
     m_historyMaxAge = Some 3600000, m_linear = Some \<lparr>lin_historySize = 1, lin_lookAhead = 60000\<rparr>,
     m_holtWinters = None, m_arima = None, m_xgboost = None, m_lightgbm = None\<rparr>"

definition trainingRow :: "int \<Rightarrow> TimestampedSample" where
  "trainingRow t = \<lparr>ts_time = Some (GoTime t 0), ts_replicas = 2, ts_metric = None,
     ts_totalCPUUsageMillicores = Some 700, ts_requestPerPodMillicores = Some 1000,
     ts_targetCPUUtilizationPercentage = Some 50\<rparr>"

definition agedHistory :: ModelHistory where
  "agedHistory = \<lparr>mh_reliability = None, mh_lastObservationID = '''', mh_lastObservationTime = '''',
     mh_historyEpoch = 3, mh_lastSampleTime = Some (GoTime (2 * hour) 0), mh_type = TypeLinear,
     mh_syncPeriodsPassed = 1, mh_replicaHistory = [trainingRow second, trainingRow (2 * hour)],
     mh_startTime = None, mh_lastModelRunTime = Some (GoTime second 0), mh_cachedPrediction = None,
     mh_failureState = None\<rparr>"

definition prunedHistory :: ModelHistory where
  "prunedHistory = agedHistory\<lparr>mh_replicaHistory := [trainingRow (2 * hour)], mh_historyEpoch := 4,
     mh_lastModelRunTime := None, mh_syncPeriodsPassed := 0\<rparr>"

lemma agedHistory_valid: "ValidateWindow agedHistory (GoTime (2 * hour) 0) = None"
  by (simp add: ValidateWindow_def checkMarker_def agedHistory_def trainingRow_def UsesCPUHistory_def
      invalidCapacity_def invalidMetric_def)

lemma agedHistory_pruned: "pruneAgedHistory agedModel agedHistory (GoTime (2 * hour) 0) = Inr (True, prunedHistory)"
  by (simp add: pruneAgedHistory_def agedModel_def agedHistory_def trainingRow_def prunedHistory_def millis_def Let_def wrap64_def)

theorem retention_leaves_fresh_valid_window_witness:
  "ValidateWindow prunedHistory (GoTime (2 * hour) 0) = None \<and>
   \<not> hasExpiredTraining agedModel prunedHistory (GoTime (2 * hour) 0)"
proof -
  have "m_historyMaxAge agedModel = Some 3600000" "UsesCPUHistory (mh_type agedHistory)"
      "in_i64 (mh_historyEpoch agedHistory)"
    by (simp_all add: agedModel_def agedHistory_def UsesCPUHistory_def in_i64_def)
  then show ?thesis
    using retention_leaves_fresh_valid_window [OF _ _ _ agedHistory_valid _ _ agedHistory_pruned] by simp
qed

text \<open>
  A window's verdict over time. A window accepted once is accepted ever after; one rejected only
  because its timestamps are ahead of the clock is accepted from a definite instant on, and rejected
  for that reason alone until then; any other rejection is structural and no passing of time turns it
  into an acceptance (nor into the retryable verdict). Callers may thus wait out the first kind and
  must repair the second.
\<close>

theorem window_verdict_over_time:
  assumes "ValidateWindow h now = verdict"
  shows "(verdict = None \<longrightarrow> (\<forall>later. ns now \<le> ns later \<longrightarrow> ValidateWindow h later = None)) \<and>
     (verdict = Some ErrFutureWindow \<longrightarrow>
        (\<exists>t. ns now < t \<and> (\<forall>later. ValidateWindow h later = (if ns later < t then Some ErrFutureWindow else None)))) \<and>
     (verdict \<noteq> None \<and> verdict \<noteq> Some ErrFutureWindow \<longrightarrow>
        (\<forall>later. ValidateWindow h later \<noteq> None \<and> ValidateWindow h later \<noteq> Some ErrFutureWindow))"
proof (intro conjI impI)
  assume "verdict = None"
  then have "ValidateWindow h now = None" using assms by simp
  then show "\<forall>later. ns now \<le> ns later \<longrightarrow> ValidateWindow h later = None"
    unfolding ValidateWindow_iff by (auto simp: not_less intro: order_trans)
next
  assume "verdict = Some ErrFutureWindow"
  then have ok: "window_ok h" using assms ValidateWindow_not_ok(2) by blast
  let ?S = "ns ` set (window_stamps h)"
  obtain t where t: "t \<in> set (window_stamps h)" "ns now < ns t"
    using ValidateWindow_ok [OF ok, of now] assms \<open>verdict = Some ErrFutureWindow\<close> by (auto split: if_splits)
  then have ne: "finite ?S" "?S \<noteq> {}" by auto
  have "ns now < Max ?S" using t ne by (meson Max_ge image_eqI less_le_trans)
  moreover have "ValidateWindow h later = (if ns later < Max ?S then Some ErrFutureWindow else None)" for later
    unfolding ValidateWindow_ok [OF ok] using Max_gr_iff [OF ne] by auto
  ultimately show "\<exists>t. ns now < t \<and> (\<forall>later. ValidateWindow h later = (if ns later < t then Some ErrFutureWindow else None))"
    by blast
next
  assume v: "verdict \<noteq> None \<and> verdict \<noteq> Some ErrFutureWindow"
  have "\<not> window_ok h" using ValidateWindow_ok [of h now] assms v by (auto split: if_splits)
  then show "\<forall>later. ValidateWindow h later \<noteq> None \<and> ValidateWindow h later \<noteq> Some ErrFutureWindow"
    using ValidateWindow_not_ok by blast
qed

theorem window_verdict_over_time_witness:
  "ValidateWindow agedHistory (GoTime (3 * hour) 0) = None \<and>
   (\<exists>t. hour < t \<and> (\<forall>later. ValidateWindow agedHistory later = (if ns later < t then Some ErrFutureWindow else None)))"
proof -
  have "ValidateWindow agedHistory (GoTime hour 0) = Some ErrFutureWindow"
    by (simp add: ValidateWindow_def checkMarker_def agedHistory_def trainingRow_def UsesCPUHistory_def
        invalidCapacity_def invalidMetric_def)
  from window_verdict_over_time [OF this, THEN conjunct2, THEN conjunct1]
  have "\<exists>t. hour < t \<and> (\<forall>later. ValidateWindow agedHistory later = (if ns later < t then Some ErrFutureWindow else None))"
    by (simp only: gotime.sel simp_thms)
  moreover from window_verdict_over_time [OF agedHistory_valid, THEN conjunct1]
  have "ValidateWindow agedHistory (GoTime (3 * hour) 0) = None" by simp
  ultimately show ?thesis by blast
qed

end
