(* ===== verification/ModelBackoff.thy ===== *)
theory ModelBackoff
  imports HistoryWindow
begin

text \<open>
  The failure back-off of \<open>src/internal/controllers/model_backoff.go\<close>: a failed fit opens the circuit
  for a delay that doubles with each consecutive failure, and the failure is persisted so that a
  restart does not shorten it. \<open>failureMutation\<close> is the mutation \<open>persistModelFailure\<close> hands to the
  history store, with the clock it was read at.
\<close>

section \<open>The retry policy\<close>

record RetryPolicy =
  rp_initial :: duration
  rp_maximum :: duration

abbreviation (input) maximumModelBackoff :: duration where "maximumModelBackoff \<equiv> 5 * minute"
abbreviation (input) maximumRetryPolicyDelay :: duration where "maximumRetryPolicyDelay \<equiv> 24 * hour"

definition zeroPolicy :: RetryPolicy where "zeroPolicy = \<lparr>rp_initial = 0, rp_maximum = 0\<rparr>"

definition maximumOf :: "RetryPolicy \<Rightarrow> duration" where
  "maximumOf p = (if rp_maximum p = 0 then maximumModelBackoff else rp_maximum p)"

definition ValidateRetry :: "RetryPolicy \<Rightarrow> error option" where
  "ValidateRetry p =
     (if rp_initial p < 0 \<or> (rp_initial p > 0 \<and> rp_initial p < second) \<or> maximumOf p < second \<or>
         maximumOf p > maximumRetryPolicyDelay \<or> rp_initial p > maximumOf p
      then Some ''retry policy requires initial=0 or >=1s and initial <= maximum <=24h'' else None)"

definition syncPeriodForInstance :: "HPAPlus \<Rightarrow> duration" where
  "syncPeriodForInstance inst =
     (case s_syncPeriod (h_spec inst) of
        None \<Rightarrow> DefaultSyncPeriodMillis * millisecond
      | Some p \<Rightarrow> millis p)"

text \<open>The doubling loop, at most \<open>failures - 1\<close> rounds.\<close>

fun delayLoop :: "nat \<Rightarrow> duration \<Rightarrow> duration \<Rightarrow> duration" where
  "delayLoop 0 maximum d = d"
| "delayLoop (Suc n) maximum d =
     (if d < maximum then (if d > go_div maximum 2 then maximum else delayLoop n maximum (wrap64 (d * 2))) else d)"

text \<open>Where the doubling starts: the initial delay or the sync period, between a second and the maximum.\<close>

definition baseDelay :: "RetryPolicy \<Rightarrow> HPAPlus \<Rightarrow> duration" where
  "baseDelay p inst =
     (let d = (if rp_initial p = 0 then syncPeriodForInstance inst else rp_initial p);
          d1 = (if d < second then second else d)
      in if d1 > maximumOf p then maximumOf p else d1)"

definition delay :: "RetryPolicy \<Rightarrow> HPAPlus \<Rightarrow> int32 \<Rightarrow> duration" where
  "delay p inst failures =
     (let q = (if ValidateRetry p \<noteq> None then zeroPolicy else p)
      in delayLoop (nat (failures - 1)) (maximumOf q) (baseDelay q inst))"

definition modelRetryDelay :: "HPAPlus \<Rightarrow> int32 \<Rightarrow> duration" where
  "modelRetryDelay inst failures = delay zeroPolicy inst failures"

section \<open>Persisted failures\<close>

definition validFailureState :: "RetryPolicy \<Rightarrow> ModelFailureState option \<Rightarrow> string \<Rightarrow> gotime \<Rightarrow> bool" where
  "validFailureState p state fingerprint now =
     (case state of
        None \<Rightarrow> False
      | Some s \<Rightarrow> fingerprint \<noteq> '''' \<and> mf_fingerprint s = fingerprint \<and> mf_consecutiveFailures s > 0 \<and>
          \<not> is_zero (mf_failedAt s) \<and> \<not> after (mf_failedAt s) now \<and> after (mf_retryAfter s) (mf_failedAt s) \<and>
          \<not> after (mf_retryAfter s) (t_add (mf_failedAt s) (wrap64 (maximumOf p + second))))"

definition inBackoff :: "RetryPolicy \<Rightarrow> ModelHistory \<Rightarrow> string \<Rightarrow> gotime \<Rightarrow> bool" where
  "inBackoff p h fingerprint now \<longleftrightarrow>
     validFailureState p (mh_failureState h) fingerprint now \<and>
     (case mh_failureState h of None \<Rightarrow> False | Some s \<Rightarrow> before now (mf_retryAfter s))"

definition modelInBackoff :: "ModelHistory \<Rightarrow> string \<Rightarrow> gotime \<Rightarrow> bool" where
  "modelInBackoff h fingerprint now = inBackoff zeroPolicy h fingerprint now"

definition nextFailures :: "RetryPolicy \<Rightarrow> ModelHistory \<Rightarrow> string \<Rightarrow> gotime \<Rightarrow> int32" where
  "nextFailures p h fingerprint now =
     (case mh_failureState h of
        None \<Rightarrow> 1
      | Some s \<Rightarrow> if validFailureState p (Some s) fingerprint now
                  then (if mf_consecutiveFailures s < max_int32 then mf_consecutiveFailures s + 1 else mf_consecutiveFailures s)
                  else 1)"

text \<open>The retry time, rounded up to a whole second.\<close>

definition retryTime :: "gotime \<Rightarrow> duration \<Rightarrow> gotime" where
  "retryTime now d =
     (let retry = t_add now d
      in if t_nanosecond retry \<noteq> 0 then t_add (t_truncate retry second) second else retry)"

definition failureState :: "RetryPolicy \<Rightarrow> HPAPlus \<Rightarrow> ModelHistory \<Rightarrow> string \<Rightarrow> gotime \<Rightarrow> ModelFailureState" where
  "failureState p inst h fingerprint now =
     (let failures = nextFailures p h fingerprint now
      in \<lparr>mf_fingerprint = fingerprint, mf_consecutiveFailures = failures,
          mf_failedAt = t_truncate (t_utc now) second,
          mf_retryAfter = t_utc (retryTime now (delay p inst failures))\<rparr>)"

text \<open>
  The mutation of \<open>persistModelFailure\<close>: \<open>now\<close> is read before the first attempt, \<open>attempt\<close> at each
  attempt. The expected history is the list of at most one that the caller passes.
\<close>

definition failureMutation ::
  "RetryPolicy \<Rightarrow> HPAPlus \<Rightarrow> string \<Rightarrow> int64 \<Rightarrow> string \<Rightarrow> string \<Rightarrow> gotime option \<Rightarrow> ModelHistory option list \<Rightarrow>
   gotime \<Rightarrow> gotime \<Rightarrow> HPAPlusData \<Rightarrow> (bool \<times> HPAPlusData) result" where
  "failureMutation p inst name epoch targetIdentity fingerprint trainingDeadline expected now attempt d =
     (if (case trainingDeadline of None \<Rightarrow> False | Some t \<Rightarrow> \<not> before attempt t) then Inl ''prediction inputs expired before write; evaluate again''
      else case d_modelHistories d name of
          None \<Rightarrow> Inr (False, d)
        | Some h \<Rightarrow>
            if d_targetIdentity d \<noteq> targetIdentity \<or> mh_historyEpoch h \<noteq> epoch \<or> ValidateWindow h now \<noteq> None
            then Inr (False, d)
            else if \<not> sameCompletionState h expected then Inr (False, d)
            else Inr (True, d\<lparr>d_modelHistories := (d_modelHistories d)
                (name \<mapsto> h\<lparr>mh_failureState := Some (failureState p inst h fingerprint now)\<rparr>)\<rparr>))"

section \<open>Facts\<close>

lemma ValidateRetry_ok:
  assumes "ValidateRetry p = None"
  shows "second \<le> maximumOf p" "maximumOf p \<le> maximumRetryPolicyDelay" "0 \<le> rp_initial p" "rp_initial p \<le> maximumOf p"
  using assms by (auto simp: ValidateRetry_def split: if_splits)

lemma ValidateRetry_zeroPolicy [simp]: "ValidateRetry zeroPolicy = None"
  by (simp add: ValidateRetry_def zeroPolicy_def maximumOf_def)

lemma baseDelay_bounds:
  assumes "ValidateRetry p = None"
  shows "second \<le> baseDelay p inst" "baseDelay p inst \<le> maximumOf p"
  using ValidateRetry_ok(1) [OF assms] by (auto simp: baseDelay_def Let_def)

text \<open>The loop computes the capped power without overflow.\<close>

lemma delayLoop_eq:
  assumes "0 < d" "d \<le> maximum" "maximum \<le> maximumRetryPolicyDelay"
  shows "delayLoop n maximum d = min maximum (d * 2 ^ n)"
  using assms
proof (induction n arbitrary: d)
  case (Suc n)
  have pow: "(1::int) \<le> 2 ^ n" by simp
  then have grow: "d \<le> d * 2 ^ n" using Suc.prems(1) mult_left_mono [OF pow, of d] by simp
  show ?case
  proof (cases "d < maximum \<and> d \<le> maximum div 2")
    case True
    then have "wrap64 (d * 2) = d * 2" "d * 2 \<le> maximum" using Suc.prems by (auto intro!: wrap64_id simp: in_i64_def)
    then show ?thesis using Suc.IH [of "d * 2"] Suc.prems True
      by (simp add: go_div_nonneg mult.assoc mult.commute mult.left_commute)
  next
    case False
    then have "maximum \<le> 2 * d" using Suc.prems by auto
    also have "\<dots> \<le> d * 2 ^ Suc n" using grow by simp
    finally have "maximum \<le> d * 2 ^ Suc n" .
    then show ?thesis using False Suc.prems by (auto simp: go_div_nonneg min_absorb1)
  qed
qed simp

lemma delay_eq:
  assumes "ValidateRetry p = None"
  shows "delay p inst failures = min (maximumOf p) (baseDelay p inst * 2 ^ nat (failures - 1))"
  using baseDelay_bounds [OF assms, of inst] ValidateRetry_ok(2) [OF assms] assms
  by (simp add: delay_def delayLoop_eq)

lemma delay_bounds:
  assumes "ValidateRetry p = None"
  shows "second \<le> delay p inst failures" "delay p inst failures \<le> maximumOf p"
proof -
  have "(1::int) \<le> 2 ^ nat (failures - 1)" by simp
  from mult_mono [OF baseDelay_bounds(1) [OF assms, of inst] this]
  show "second \<le> delay p inst failures" "delay p inst failures \<le> maximumOf p"
    unfolding delay_eq [OF assms] using ValidateRetry_ok(1) [OF assms] baseDelay_bounds(1) [OF assms, of inst] by auto
qed

lemma retryTime_bounds: "ns now + d \<le> ns (retryTime now d)" "ns (retryTime now d) < ns now + d + second"
  "ns (retryTime now d) mod second = 0"
proof -
  let ?r = "ns now + d"
  have "0 \<le> ?r mod second" "?r mod second < second" by simp_all
  moreover have "(?r - ?r mod second) mod second = 0" by (simp add: minus_mod_eq_mult_div)
  then have "(?r - ?r mod second + second) mod second = 0" by (simp only: mod_add_self2)
  ultimately show "ns now + d \<le> ns (retryTime now d)" "ns (retryTime now d) < ns now + d + second"
      "ns (retryTime now d) mod second = 0"
    by (auto simp: retryTime_def Let_def t_nanosecond_def t_truncate_def)
qed

lemma nextFailures_pos: "0 < nextFailures p h fp now"
  by (auto simp: nextFailures_def validFailureState_def split: option.split)

section \<open>Properties\<close>

text \<open>
  The back-off delay is the capped exponential: for a valid retry policy the doubling loop, which
  never overflows, returns the minimum of the policy's maximum and the base delay times two to the
  number of earlier failures; it lies between a second and the maximum and never decreases as
  failures accumulate. An invalid policy is replaced by the default one.
\<close>

theorem retry_delay_capped_exponential:
  "(ValidateRetry p = None \<longrightarrow>
      delay p inst failures = min (maximumOf p) (baseDelay p inst * 2 ^ nat (failures - 1)) \<and>
      second \<le> delay p inst failures \<and> delay p inst failures \<le> maximumOf p \<and>
      (\<forall>more \<ge> failures. delay p inst failures \<le> delay p inst more)) \<and>
   (ValidateRetry p \<noteq> None \<longrightarrow> delay p inst failures = modelRetryDelay inst failures)"
proof (intro conjI impI)
  assume v: "ValidateRetry p = None"
  show "delay p inst failures = min (maximumOf p) (baseDelay p inst * 2 ^ nat (failures - 1))" by (rule delay_eq [OF v])
  show "second \<le> delay p inst failures" "delay p inst failures \<le> maximumOf p" by (rule delay_bounds [OF v])+
  show "\<forall>more \<ge> failures. delay p inst failures \<le> delay p inst more"
  proof (intro allI impI)
    fix more assume "failures \<le> more"
    then have "(2::int) ^ nat (failures - 1) \<le> 2 ^ nat (more - 1)" by (intro power_increasing) auto
    then have "baseDelay p inst * 2 ^ nat (failures - 1) \<le> baseDelay p inst * 2 ^ nat (more - 1)"
      using baseDelay_bounds(1) [OF v, of inst] by (intro mult_left_mono) auto
    then show "delay p inst failures \<le> delay p inst more" unfolding delay_eq [OF v] by linarith
  qed
next
  assume "ValidateRetry p \<noteq> None"
  then show "delay p inst failures = modelRetryDelay inst failures" by (simp add: delay_def modelRetryDelay_def)
qed

theorem retry_delay_capped_exponential_witness:
  "delay zeroPolicy sampleInstance 3 = 80 * second"
proof -
  have "baseDelay zeroPolicy sampleInstance = 20 * second"
    by (simp add: baseDelay_def zeroPolicy_def maximumOf_def syncPeriodForInstance_def sampleInstance_def exampleSpec_def)
  then show ?thesis
    using retry_delay_capped_exponential [of zeroPolicy sampleInstance 3, THEN conjunct1]
    by (simp add: maximumOf_def zeroPolicy_def ValidateRetry_def)
qed

text \<open>
  A persisted failure backs the model off exactly as long as the delay asks, across restarts. When
  the maximum is a whole number of seconds (as the default is), what \<open>persistModelFailure\<close> stores is
  kept in whole seconds, so that serialization loses nothing; the retry time is not before the delay
  has passed and less than a second after; at every later clock reading the model is in back-off
  exactly until that time; and the mutation changes nothing but the failure state of that model.
\<close>

theorem persisted_failure_backs_off:
  assumes "ValidateRetry p = None" "maximumOf p mod second = 0" "second \<le> ns now" "fingerprint \<noteq> ''''"
    and "failureMutation p inst name epoch target fingerprint deadline expected now attempt d = Inr (True, d')"
  shows "\<exists>h s. d_modelHistories d name = Some h \<and> mh_historyEpoch h = epoch \<and>
     d' = d\<lparr>d_modelHistories := (d_modelHistories d)(name \<mapsto> h\<lparr>mh_failureState := Some s\<rparr>)\<rparr> \<and>
     mf_consecutiveFailures s = nextFailures p h fingerprint now \<and>
     ns (mf_failedAt s) mod second = 0 \<and> ns (mf_retryAfter s) mod second = 0 \<and>
     ns now + delay p inst (mf_consecutiveFailures s) \<le> ns (mf_retryAfter s) \<and>
     ns (mf_retryAfter s) < ns now + delay p inst (mf_consecutiveFailures s) + second \<and>
     (\<forall>later. ns now \<le> ns later \<longrightarrow>
        validFailureState p (Some s) fingerprint later \<and>
        inBackoff p (h\<lparr>mh_failureState := Some s\<rparr>) fingerprint later = (ns later < ns (mf_retryAfter s)))"
proof -
  obtain h where h: "d_modelHistories d name = Some h" "mh_historyEpoch h = epoch"
      "d' = d\<lparr>d_modelHistories := (d_modelHistories d)
          (name \<mapsto> h\<lparr>mh_failureState := Some (failureState p inst h fingerprint now)\<rparr>)\<rparr>"
    using assms(5) by (auto simp: failureMutation_def split: option.splits if_splits)
  define f where "f = nextFailures p h fingerprint now"
  define s where "s = failureState p inst h fingerprint now"
  define r where "r = ns (retryTime now (delay p inst f))"
  define failed where "failed = ns now - ns now mod second"
  have sel: "mf_fingerprint s = fingerprint" "mf_consecutiveFailures s = f"
      "ns (mf_failedAt s) = failed" "ns (mf_retryAfter s) = r"
    by (simp_all add: s_def failureState_def f_def r_def failed_def Let_def t_truncate_def)
  note rb = retryTime_bounds [of now "delay p inst f", folded r_def]
  note db = delay_bounds [OF assms(1), of inst f] and vb = ValidateRetry_ok(1,2) [OF assms(1)]
  have wm: "wrap64 (maximumOf p + second) = maximumOf p + second" using vb by (intro wrap64_id) (simp add: in_i64_def)
  have pos: "0 < f" "second \<le> failed" "failed \<le> ns now"
    using nextFailures_pos assms(3) div_between(1) [of second 1 "ns now" "ns now"]
    by (auto simp: f_def failed_def minus_mod_eq_mult_div)
  have upper: "r \<le> failed + (maximumOf p + second)"
  proof -
    obtain k b where k: "r = second * k" and b: "maximumOf p = second * b"
      using rb(3) assms(2) by (metis mod_eq_0_iff_dvd dvdE)
    define a m where "a = ns now div second" and "m = ns now mod second"
    have n: "ns now = second * a + m" "0 \<le> m" "m < second" by (simp_all add: a_def m_def)
    have "second * k < second * (a + b + 2)" using rb(2) db(2) k b n by simp
    then have "k \<le> a + b + 1" by simp
    then have "second * k \<le> second * (a + b + 1)" by simp
    then show ?thesis using k b n by (simp add: failed_def flip: m_def)
  qed
  have valid: "validFailureState p (Some s) fingerprint later" if "ns now \<le> ns later" for later
    using that assms(4) sel pos rb(1) db(1) upper by (simp add: validFailureState_def wm)
  show ?thesis
  proof (intro exI conjI allI impI)
    show "ns (mf_failedAt s) mod second = 0" unfolding sel failed_def by (simp add: minus_mod_eq_mult_div)
    show "inBackoff p (h\<lparr>mh_failureState := Some s\<rparr>) fingerprint later = (ns later < ns (mf_retryAfter s))"
      if "ns now \<le> ns later" for later using valid [OF that] by (simp add: inBackoff_def)
  qed (use h valid rb sel in \<open>simp_all add: f_def s_def\<close>)
qed

definition failingData :: HPAPlusData where
  "failingData = \<lparr>d_cpuHistorySource = '''', d_schemaVersion = 1, d_targetIdentity = ''t'',
     d_modelHistories = [''m'' \<mapsto> agedHistory], d_pendingScale = None\<rparr>"

theorem persisted_failure_backs_off_witness:
  "\<exists>h s. d_modelHistories failingData ''m'' = Some h \<and>
     2 * hour + 20 * second \<le> ns (mf_retryAfter s) \<and>
     inBackoff zeroPolicy (h\<lparr>mh_failureState := Some s\<rparr>) ''fp'' (GoTime (2 * hour) 0)"
proof -
  let ?now = "GoTime (2 * hour) 0"
  let ?s = "failureState zeroPolicy sampleInstance agedHistory ''fp'' ?now"
  have m: "failureMutation zeroPolicy sampleInstance ''m'' 3 ''t'' ''fp'' None [] ?now ?now failingData =
      Inr (True, failingData\<lparr>d_modelHistories := (d_modelHistories failingData)
        (''m'' \<mapsto> agedHistory\<lparr>mh_failureState := Some ?s\<rparr>)\<rparr>)"
    using agedHistory_valid
    by (simp add: failureMutation_def failingData_def sameCompletionState_def agedHistory_def)
  have w: "maximumOf zeroPolicy mod second = 0" by (simp add: zeroPolicy_def maximumOf_def)
  obtain h s where hs: "d_modelHistories failingData ''m'' = Some h"
      "mf_consecutiveFailures s = nextFailures zeroPolicy h ''fp'' ?now"
      "2 * hour + delay zeroPolicy sampleInstance (mf_consecutiveFailures s) \<le> ns (mf_retryAfter s)"
      "inBackoff zeroPolicy (h\<lparr>mh_failureState := Some s\<rparr>) ''fp'' ?now = (2 * hour < ns (mf_retryAfter s))"
    using persisted_failure_backs_off [OF ValidateRetry_zeroPolicy w _ _ m] by auto
  have "h = agedHistory" using hs(1) by (simp add: failingData_def)
  then have "mf_consecutiveFailures s = 1" using hs(2) by (simp add: nextFailures_def agedHistory_def)
  then have "delay zeroPolicy sampleInstance (mf_consecutiveFailures s) = 20 * second"
    by (simp add: delay_def baseDelay_def maximumOf_def zeroPolicy_def ValidateRetry_def
        syncPeriodForInstance_def sampleInstance_def exampleSpec_def)
  then have "2 * hour + 20 * second \<le> ns (mf_retryAfter s)" using hs(3) by simp
  then show ?thesis using hs(1,4) by force
qed

text \<open>
  C30: a maximum with a fraction of a second loses the back-off. The policy with a maximum of 1.5
  seconds is accepted, yet the state persisted for a failure at 1.9 seconds past a minute (retry time
  rounded up, failure time rounded down) is not a valid failure state at any time: the model is never in
  back-off, and its consecutive failures are counted from one again.
\<close>

theorem fractional_maximum_loses_backoff:
  "let p = \<lparr>rp_initial = 0, rp_maximum = 1500 * millisecond\<rparr>; now = GoTime (minute + 1900 * millisecond) 0;
       h = agedHistory\<lparr>mh_failureState := Some (failureState p sampleInstance agedHistory fingerprint now)\<rparr>
   in ValidateRetry p = None \<and> \<not> inBackoff p h fingerprint later \<and> nextFailures p h fingerprint later = 1"
proof -
  let ?p = "\<lparr>rp_initial = 0, rp_maximum = 1500 * millisecond\<rparr>" and ?now = "GoTime (minute + 1900 * millisecond) 0"
  have f: "nextFailures ?p agedHistory fingerprint ?now = 1" by (simp add: nextFailures_def agedHistory_def)
  have "delay ?p sampleInstance 1 = 1500 * millisecond"
    by (simp add: delay_def ValidateRetry_def maximumOf_def baseDelay_def syncPeriodForInstance_def
        sampleInstance_def exampleSpec_def)
  then have "ns (mf_retryAfter (failureState ?p sampleInstance agedHistory fingerprint ?now)) = minute + 4 * second"
      "ns (mf_failedAt (failureState ?p sampleInstance agedHistory fingerprint ?now)) = minute + second"
    by (simp_all add: failureState_def f [simplified] retryTime_def Let_def t_nanosecond_def t_truncate_def)
  then have "\<not> validFailureState ?p (Some (failureState ?p sampleInstance agedHistory fingerprint ?now)) fingerprint later"
    by (simp add: validFailureState_def maximumOf_def wrap64_def)
  then show ?thesis by (simp add: Let_def ValidateRetry_def maximumOf_def inBackoff_def nextFailures_def)
qed

end
