(* ===== verification/PredictionCache.thy ===== *)
theory PredictionCache
  imports ModelBackoff Trajectory
begin

text \<open>
  Reuse of forecasts, \<open>src/internal/controllers/prediction_cache.go\<close>: how long a fresh forecast may be
  acted on, what is cached of it, when a cached one is usable, and when the next reconciliation is due.
  \<open>predictionFingerprint\<close> (a SHA-256 of JSON) is not modelled: fingerprints are opaque strings here, as
  they are to all the functions below.
\<close>

section \<open>Lifetimes\<close>

text \<open>\<open>prediction.Result\<close> with the fields beside the conversion's.\<close>

record ModelResult = PredictionResult +
  pr_adaptation :: string
  pr_verification :: "ForecastVerification option"
  pr_diagnostics :: "ForecastDiagnostics option"

definition predictionHorizon :: "HPAPlus \<Rightarrow> Model \<Rightarrow> duration" where
  "predictionHorizon inst model =
     (if m_type model = TypeLinear then (case m_linear model of Some l \<Rightarrow> millis (lin_lookAhead l) | None \<Rightarrow> 0)
      else if m_type model = TypeArima then (case m_arima model of Some a \<Rightarrow> millis (ar_lookAhead a) | None \<Rightarrow> 0)
      else if m_type model = TypeXGBoost then (case m_xgboost model of Some x \<Rightarrow> millis (xgb_lookAhead x) | None \<Rightarrow> 0)
      else if m_type model = TypeLightGBM then (case m_lightgbm model of Some x \<Rightarrow> millis (lgb_lookAhead x) | None \<Rightarrow> 0)
      else if m_type model = TypeHoltWinters then
        (case m_holtWinters model of
           None \<Rightarrow> syncPeriodForInstance inst
         | Some hw \<Rightarrow> (case hw_lookAhead hw of None \<Rightarrow> syncPeriodForInstance inst | Some l \<Rightarrow> millis l))
      else 0)"

definition predictionLifetime :: "HPAPlus \<Rightarrow> Model \<Rightarrow> duration" where
  "predictionLifetime inst model =
     (case m_predictionMaxAge model of
        None \<Rightarrow> 0
      | Some v \<Rightarrow>
          let age = millis v; horizon = predictionHorizon inst model
          in if m_predictivePolicy model \<noteq> None then age
             else if horizon < age then horizon else age)"

definition usesExtendedTimedInterval :: "HPAPlus \<Rightarrow> Model \<Rightarrow> bool" where
  "usesExtendedTimedInterval inst model \<longleftrightarrow> m_predictivePolicy model \<noteq> None \<and> m_predictionMaxAge model \<noteq> None"

definition earlier :: "gotime \<Rightarrow> gotime \<Rightarrow> gotime" where
  "earlier a b = (if before a b then a else b)"

text \<open>The end of the fresh trajectory, cut at the maximum age; \<open>None\<close> for models without timed policy.\<close>

definition freshIntervalEnd :: "HPAPlus \<Rightarrow> Model \<Rightarrow> ModelResult \<Rightarrow> gotime option result" where
  "freshIntervalEnd inst model r =
     (if usesExtendedTimedInterval inst model then
        (case pr_consumedUntil r of
           None \<Rightarrow> Inl ''timed forecast lacks consumed timestamp''
         | Some consumed \<Rightarrow>
             (case ModelTrajectoryExpiry model (pr_trajectory r) consumed of
                Inl e \<Rightarrow> Inl e
              | Inr stop \<Rightarrow> Inr (Some (earlier (t_add consumed (millis (the (m_predictionMaxAge model)))) stop))))
      else Inr None)"

definition implicitHolt :: "Model \<Rightarrow> bool" where
  "implicitHolt model \<longleftrightarrow> m_type model = TypeHoltWinters \<and>
     (case m_holtWinters model of None \<Rightarrow> False | Some hw \<Rightarrow> hw_lookAhead hw = None)"

definition freshForecastDeadline :: "HPAPlus \<Rightarrow> Model \<Rightarrow> ModelResult \<Rightarrow> gotime option result" where
  "freshForecastDeadline inst model r =
     rbind (freshIntervalEnd inst model r) (\<lambda>intervalEnd.
       case pr_diagnostics r of
         None \<Rightarrow> Inr intervalEnd
       | Some d \<Rightarrow>
           (case ValidateDiagnostics (Some d) of
              Some e \<Rightarrow> Inl e
            | None \<Rightarrow>
                (case (fd_model d = m_type model, pr_consumedUntil r) of
                   (True, Some consumed) \<Rightarrow>
                     (case parse_time (fd_historyEnd d) of
                        None \<Rightarrow> Inl ''forecast consumed timestamp mismatch''
                      | Some stop \<Rightarrow>
                          if \<not> same_instant stop consumed then Inl ''forecast consumed timestamp mismatch''
                          else (case parse_time (fd_forecastAt d) of
                              None \<Rightarrow> Inl ''parsing time''
                            | Some target \<Rightarrow>
                                let horizon = predictionHorizon inst model;
                                    aged = (\<lambda>t. case m_predictionMaxAge model of
                                        None \<Rightarrow> t | Some v \<Rightarrow> earlier (t_add consumed (millis v)) t)
                                in (case intervalEnd of
                                      Some iend \<Rightarrow>
                                        (if \<not> same_instant (point_at (last (pr_trajectory r))) target
                                         then Inl ''trajectory provenance target mismatch''
                                         else Inr (Some (aged iend)))
                                    | None \<Rightarrow>
                                        Inr (Some (aged (if horizon > 0 \<and> \<not> implicitHolt model
                                                         then earlier (t_add consumed horizon) target else target))))))
                 | _ \<Rightarrow> Inl ''forecast identity mismatch'')))"

section \<open>Cached predictions\<close>

datatype cacheAvailability = cacheUnavailable | cacheExpired | cacheUsable

definition modelHasSufficientHistory :: "Model \<Rightarrow> TimestampedSample list \<Rightarrow> bool" where
  "modelHasSufficientHistory model rows =
     (let required = RequiredHistorySize model
      in if required \<le> 0 then True
         else if UsesCPUHistory (m_type model) then CountCPUHistory rows \<ge> required
         else int (length rows) \<ge> required)"

definition cachedTrajectoryDeadline :: "Model \<Rightarrow> CachedPrediction \<Rightarrow> gotime result" where
  "cachedTrajectoryDeadline model c =
     (let points = cp_trajectory c in
      case ValidateForecastTrajectory points of
        Some e \<Rightarrow> Inl e
      | None \<Rightarrow>
          (case ModelTrajectoryExpiry model points (cp_consumedUntil c) of
             Inr stop \<Rightarrow> Inr stop
           | Inl e \<Rightarrow>
               if length points < 2 then Inl e
               else let start = point_at (points ! 0); until = point_until (points ! 0); firstFresh = point_at (points ! 1)
                 in if \<not> before start (t_add (cp_completedAt c) second) \<or> \<not> after until (cp_completedAt c) \<or> after until firstFresh
                    then Inl ''invalid preserved current interval''
                    else ModelTrajectoryExpiry model (tl points) (cp_consumedUntil c)))"

text \<open>The identity and ordering checks of \<open>assessCachedPrediction\<close>, up to the reset rule.\<close>

definition cacheAdmissible :: "Model \<Rightarrow> ModelHistory \<Rightarrow> CachedPrediction \<Rightarrow> string \<Rightarrow> gotime \<Rightarrow> bool" where
  "cacheAdmissible model h c fingerprint now \<longleftrightarrow>
     m_predictionMaxAge model \<noteq> None \<and> \<not> cp_replicas c < 0 \<and> cp_fingerprint c = fingerprint \<and> fingerprint \<noteq> '''' \<and>
     modelHasSufficientHistory model (mh_replicaHistory h) \<and> \<not> is_zero (cp_completedAt c) \<and>
     \<not> is_zero (cp_consumedUntil c) \<and> \<not> is_zero (cp_expiresAt c) \<and> \<not> after (cp_completedAt c) now \<and>
     \<not> after (cp_consumedUntil c) (cp_completedAt c) \<and> after (cp_expiresAt c) (cp_consumedUntil c) \<and>
     (case LatestTimestamp (mh_replicaHistory h) of
        None \<Rightarrow> False
      | Some latest \<Rightarrow>
          \<not> (case m_resetDuration model of None \<Rightarrow> False | Some reset \<Rightarrow> t_sub now latest > reset) \<and>
          \<not> before latest (cp_consumedUntil c))"

text \<open>The deadline by the policy: lifetime, trajectory, persisted expiry and training age; \<open>None\<close> when one of them is unusable.\<close>

definition cacheDeadline :: "HPAPlus \<Rightarrow> Model \<Rightarrow> CachedPrediction \<Rightarrow> gotime option" where
  "cacheDeadline inst model c =
     (let lifetime = predictionLifetime inst model in
      if lifetime \<le> 0 then None
      else let e0 = t_add (cp_consumedUntil c) lifetime in
        Option.bind (if usesExtendedTimedInterval inst model
                     then (case cachedTrajectoryDeadline model c of Inl _ \<Rightarrow> None | Inr stop \<Rightarrow> Some (earlier stop e0))
                     else Some e0) (\<lambda>e1.
          let e2 = earlier (cp_expiresAt c) e1 in
          case m_historyMaxAge model of
            None \<Rightarrow> Some e2
          | Some age \<Rightarrow>
              (case cp_historyStart c of
                 None \<Rightarrow> None
               | Some start \<Rightarrow>
                   if is_zero start \<or> after start (cp_consumedUntil c) then None
                   else Some (earlier (t_add start (millis age)) e2))))"

definition assessCachedPrediction ::
  "HPAPlus \<Rightarrow> Model \<Rightarrow> ModelHistory \<Rightarrow> string \<Rightarrow> gotime \<Rightarrow> cacheAvailability \<times> gotime" where
  "assessCachedPrediction inst model h fingerprint now =
     (case mh_cachedPrediction h of
        None \<Rightarrow> (cacheUnavailable, zero_time)
      | Some c \<Rightarrow>
          if \<not> cacheAdmissible model h c fingerprint now then (cacheUnavailable, zero_time)
          else (case cacheDeadline inst model c of
              None \<Rightarrow> (cacheUnavailable, zero_time)
            | Some expires \<Rightarrow>
                if \<not> before now expires then (cacheExpired, expires)
                else if hasExpiredTraining model h now then (cacheUnavailable, zero_time)
                else (cacheUsable, expires)))"

definition makeCachedPrediction ::
  "HPAPlus \<Rightarrow> Model \<Rightarrow> ModelResult \<Rightarrow> string \<Rightarrow> gotime \<Rightarrow> TimestampedSample list \<Rightarrow> CachedPrediction option" where
  "makeCachedPrediction inst model r fingerprint completed rows =
     (case (m_predictionMaxAge model, pr_consumedUntil r) of
        (Some _, Some consumed) \<Rightarrow>
          let e0 = t_add consumed (predictionLifetime inst model);
              e1 = (case freshForecastDeadline inst model r of
                      Inr (Some deadline) \<Rightarrow> earlier deadline e0
                    | _ \<Rightarrow> e0);
              base = \<lparr>cp_trajectory = pr_trajectory r, cp_replicas = pr_replicas r, cp_fingerprint = fingerprint,
                      cp_consumedUntil = consumed, cp_completedAt = completed, cp_expiresAt = e1, cp_historyStart = None\<rparr>
          in Some (case historyInputDeadline model rows of
               None \<Rightarrow> base
             | Some deadline \<Rightarrow>
                 base\<lparr>cp_historyStart := Some (t_add deadline (millis (wrap64 (- the (m_historyMaxAge model))))),
                      cp_expiresAt := earlier deadline e1\<rparr>)
      | _ \<Rightarrow> None)"

section \<open>Reports and wake-ups\<close>

definition predictionInputsDeadline :: "ModelStatus list \<Rightarrow> gotime option" where
  "predictionInputsDeadline reports = foldl (\<lambda>earliest report.
     case (mst_forecastReplicas report, mst_expiresAt report) of
       (Some _, Some e) \<Rightarrow>
         (case earliest of None \<Rightarrow> Some e | Some t \<Rightarrow> if before e t then Some e else earliest)
     | _ \<Rightarrow> earliest) None reports"

definition expireReport :: "gotime \<Rightarrow> ModelStatus \<Rightarrow> ModelStatus" where
  "expireReport now report =
     (if mst_forecastReplicas report = None then report
      else if (case mst_expiresAt report of None \<Rightarrow> False | Some e \<Rightarrow> \<not> before now e)
      then report\<lparr>mst_state := ''Expired'', mst_forecastReplicas := None\<rparr>
      else report)"

text \<open>The updated reports and whether a forecast is still available.\<close>

definition expirePredictionReports :: "ModelStatus list \<Rightarrow> gotime \<Rightarrow> ModelStatus list \<times> bool" where
  "expirePredictionReports reports now =
     (map (expireReport now) reports, \<exists>r \<in> set reports. mst_forecastReplicas (expireReport now r) \<noteq> None)"

definition timedDecisionRequeue :: "HPAPlus \<Rightarrow> ModelStatus list \<Rightarrow> gotime \<Rightarrow> duration \<Rightarrow> duration" where
  "timedDecisionRequeue inst reports now regular =
     (let names = map m_name (filter (\<lambda>m. m_predictivePolicy m \<noteq> None) (s_models (h_spec inst))) in
      foldl (\<lambda>regular report.
        case (mst_forecastReplicas report, mst_expiresAt report) of
          (Some _, Some e) \<Rightarrow>
            (if mst_name report \<notin> set names then regular
             else let d = t_sub e now; d1 = (if d < second then second else d)
                  in if d1 < regular then d1 else regular)
        | _ \<Rightarrow> regular) regular reports)"

section \<open>Facts\<close>

lemma ns_earlier [simp]: "ns (earlier a b) = min (ns a) (ns b)"
  by (simp add: earlier_def min_def)

lemma t_sub_mono: "ns a \<le> ns b \<Longrightarrow> t_sub a u \<le> t_sub b u"
  by (simp add: t_sub_def Let_def)

lemma hasExpiredTraining_mono: "hasExpiredTraining model h now \<Longrightarrow> ns now \<le> ns later \<Longrightarrow> hasExpiredTraining model h later"
  unfolding hasExpiredTraining_iff by (meson order_trans)

lemma cacheAdmissible_earlier:
  assumes "cacheAdmissible model h c fp now" "ns (cp_completedAt c) \<le> ns t" "ns t \<le> ns now"
  shows "cacheAdmissible model h c fp t"
  using assms t_sub_mono [OF assms(3)]
  by (auto simp: cacheAdmissible_def not_less split: option.splits) (meson order_trans)

lemma assess_usableE:
  assumes "assessCachedPrediction inst model h fp now = (cacheUsable, e)"
  obtains c where "mh_cachedPrediction h = Some c" "cacheAdmissible model h c fp now"
    "cacheDeadline inst model c = Some e" "ns now < ns e" "\<not> hasExpiredTraining model h now"
  using assms by (auto simp: assessCachedPrediction_def split: option.splits if_splits)

lemma cacheDeadline_bounds:
  assumes "cacheDeadline inst model c = Some e"
  shows "0 < predictionLifetime inst model" "ns e \<le> ns (cp_consumedUntil c) + predictionLifetime inst model"
    "ns e \<le> ns (cp_expiresAt c)"
    "usesExtendedTimedInterval inst model \<Longrightarrow> \<exists>stop. cachedTrajectoryDeadline model c = Inr stop \<and> ns e \<le> ns stop"
    "m_historyMaxAge model = Some age \<Longrightarrow>
       \<exists>start. cp_historyStart c = Some start \<and> ns start \<le> ns (cp_consumedUntil c) \<and> ns e \<le> ns start + millis age"
  using assms
  by (cases "cachedTrajectoryDeadline model c"; cases "usesExtendedTimedInterval inst model";
      cases "m_historyMaxAge model"; cases "cp_historyStart c"; auto simp: cacheDeadline_def Let_def split: if_splits)+

lemma LatestTimestamp_spec:
  assumes "LatestTimestamp rows = Some l"
  shows "\<exists>row \<in> set rows. ts_time row = Some l" "row \<in> set rows \<Longrightarrow> ts_time row = Some t \<Longrightarrow> ns t \<le> ns l"
proof -
  have "(\<exists>row \<in> set rows. ts_time row = Some l) \<and> (\<forall>row \<in> set rows. \<forall>t. ts_time row = Some t \<longrightarrow> ns t \<le> ns l)"
    using assms
  proof (induction rows)
    case (Cons row rows)
    show ?case
    proof (cases "ts_time row")
      case None
      then show ?thesis using Cons by (simp add: LatestTimestamp_def)
    next
      case (Some t)
      then show ?thesis using Cons.prems LatestTimestamp_step [of t rows l] by (force simp: LatestTimestamp_def)
    qed
  qed (simp add: LatestTimestamp_def)
  then show "\<exists>row \<in> set rows. ts_time row = Some l" "row \<in> set rows \<Longrightarrow> ts_time row = Some t \<Longrightarrow> ns t \<le> ns l" by blast+
qed

lemma ModelTrajectoryExpiry_valid: "ModelTrajectoryExpiry m ps t = Inr e \<Longrightarrow> ValidateForecastTrajectory ps = None"
  by (auto simp: ModelTrajectoryExpiry_def TrajectoryExpiry_def Let_def split: if_splits option.splits)

text \<open>For a timed model the deadline of a fresh forecast is within its trajectory.\<close>

lemma freshForecastDeadline_timed:
  assumes "freshForecastDeadline inst model r = Inr dl" "usesExtendedTimedInterval inst model" "pr_consumedUntil r = Some consumed"
  shows "\<exists>stop d. ModelTrajectoryExpiry model (pr_trajectory r) consumed = Inr stop \<and> dl = Some d \<and> ns d \<le> ns stop"
proof -
  obtain iend where iend: "freshIntervalEnd inst model r = Inr iend"
    using assms(1) by (auto simp: freshForecastDeadline_def rbind_eq_Inr_iff)
  then obtain stop where stop: "ModelTrajectoryExpiry model (pr_trajectory r) consumed = Inr stop"
      "iend = Some (earlier (t_add consumed (millis (the (m_predictionMaxAge model)))) stop)"
    using assms(2,3) by (auto simp: freshIntervalEnd_def split: sum.splits)
  have "\<exists>d. dl = Some d \<and> ns d \<le> ns stop"
    using assms(1,3) iend stop(2)
    by (auto simp: freshForecastDeadline_def Let_def split: option.splits if_splits bool.splits)
  then show ?thesis using stop(1) by blast
qed

section \<open>Properties\<close>

text \<open>
  C10: a cached prediction is usable only within bounds that persisted metadata can shorten but never
  extend. When an assessment says usable until \<open>e\<close>: the fingerprint is the current one, consumption,
  completion, now and \<open>e\<close> are in order, \<open>e\<close> exceeds neither the persisted expiry, nor the consumed time
  plus the configured lifetime, nor the end of the forecast trajectory, nor the age limit of the
  training data; it was usable, with the same deadline, ever since its completion, and from \<open>e\<close> on it
  is never usable again.
\<close>

theorem cached_prediction_usable_interval:
  assumes "assessCachedPrediction inst model h fp now = (cacheUsable, e)"
  shows "\<exists>c. mh_cachedPrediction h = Some c \<and> cp_fingerprint c = fp \<and>
     ns (cp_consumedUntil c) \<le> ns (cp_completedAt c) \<and> ns (cp_completedAt c) \<le> ns now \<and> ns now < ns e \<and>
     ns e \<le> ns (cp_expiresAt c) \<and> ns e \<le> ns (cp_consumedUntil c) + predictionLifetime inst model \<and>
     (usesExtendedTimedInterval inst model \<longrightarrow>
        (\<exists>stop. cachedTrajectoryDeadline model c = Inr stop \<and> ns e \<le> ns stop)) \<and>
     (\<forall>age. m_historyMaxAge model = Some age \<longrightarrow>
        (\<exists>start. cp_historyStart c = Some start \<and> ns start \<le> ns (cp_consumedUntil c) \<and> ns e \<le> ns start + millis age)) \<and>
     (\<forall>t. ns (cp_completedAt c) \<le> ns t \<and> ns t \<le> ns now \<longrightarrow> assessCachedPrediction inst model h fp t = (cacheUsable, e)) \<and>
     (\<forall>t. ns e \<le> ns t \<longrightarrow> fst (assessCachedPrediction inst model h fp t) \<noteq> cacheUsable)"
proof -
  obtain c where c: "mh_cachedPrediction h = Some c" "cacheAdmissible model h c fp now"
    "cacheDeadline inst model c = Some e" "ns now < ns e" "\<not> hasExpiredTraining model h now"
    using assms by (rule assess_usableE)
  note b = cacheDeadline_bounds [OF c(3)]
  have order: "cp_fingerprint c = fp" "ns (cp_consumedUntil c) \<le> ns (cp_completedAt c)" "ns (cp_completedAt c) \<le> ns now"
    using c(2) by (auto simp: cacheAdmissible_def)
  have "assessCachedPrediction inst model h fp t = (cacheUsable, e)"
    if t: "ns (cp_completedAt c) \<le> ns t" "ns t \<le> ns now" for t
    using cacheAdmissible_earlier [OF c(2) t] hasExpiredTraining_mono [OF _ t(2)] c t
    by (auto simp: assessCachedPrediction_def)
  moreover have "fst (assessCachedPrediction inst model h fp t) \<noteq> cacheUsable" if "ns e \<le> ns t" for t
    using c(1,3) that by (simp add: assessCachedPrediction_def)
  ultimately show ?thesis using c b order by blast
qed

lemma makeCached_fields:
  assumes "makeCachedPrediction inst model r fp completed rows = Some c" "freshForecastDeadline inst model r = Inr dl"
  obtains consumed where "pr_consumedUntil r = Some consumed" "m_predictionMaxAge model \<noteq> None"
    "cp_trajectory c = pr_trajectory r" "cp_replicas c = pr_replicas r" "cp_fingerprint c = fp"
    "cp_consumedUntil c = consumed" "cp_completedAt c = completed"
    "ns (cp_expiresAt c) \<le> ns consumed + predictionLifetime inst model"
    "\<forall>d. dl = Some d \<longrightarrow> ns (cp_expiresAt c) \<le> ns d"
    "\<forall>d. historyInputDeadline model rows = Some d \<longrightarrow> ns (cp_expiresAt c) \<le> ns d \<and>
       cp_historyStart c = Some (t_add d (millis (wrap64 (- the (m_historyMaxAge model)))))"
  using assms
  by (cases "m_predictionMaxAge model"; cases "pr_consumedUntil r"; cases dl; cases "historyInputDeadline model rows")
    (auto simp: makeCachedPrediction_def Let_def)

lemma cacheDeadline_expiry:
  assumes "m_predictionMaxAge model \<noteq> None" "0 < predictionLifetime inst model"
    and "ns (cp_expiresAt c) \<le> ns (cp_consumedUntil c) + predictionLifetime inst model"
    and "usesExtendedTimedInterval inst model \<Longrightarrow>
       \<exists>stop. cachedTrajectoryDeadline model c = Inr stop \<and> ns (cp_expiresAt c) \<le> ns stop"
    and "\<And>age. m_historyMaxAge model = Some age \<Longrightarrow> \<exists>start. cp_historyStart c = Some start \<and> ns start \<noteq> 0 \<and>
       ns start \<le> ns (cp_consumedUntil c) \<and> ns (cp_expiresAt c) \<le> ns start + millis age"
  shows "\<exists>e. cacheDeadline inst model c = Some e \<and> ns e = ns (cp_expiresAt c)"
proof -
  define e0 where "e0 = t_add (cp_consumedUntil c) (predictionLifetime inst model)"
  define timed where "timed = (if usesExtendedTimedInterval inst model
      then (case cachedTrajectoryDeadline model c of Inl _ \<Rightarrow> None | Inr stop \<Rightarrow> Some (earlier stop e0)) else Some e0)"
  obtain e1 where e1: "timed = Some e1" "ns (cp_expiresAt c) \<le> ns e1"
    using assms(3,4) by (cases "usesExtendedTimedInterval inst model") (auto simp: timed_def e0_def)
  have "ns (earlier (cp_expiresAt c) e1) = ns (cp_expiresAt c)" using e1(2) by simp
  then show ?thesis
    using assms(2,5) e1(1) unfolding timed_def e0_def
    by (cases "m_historyMaxAge model") (force simp: cacheDeadline_def Let_def)+
qed

text \<open>
  Caching and assessing a forecast round-trip. A prediction cached from a forecast whose own
  deadline could be established, consumed up to the newest row of a sufficient history, is found usable
  by every assessment from its completion until exactly the expiry it was stored with, and expired
  from then on (as long as the model's reset rule does not discard it first).
\<close>

theorem cached_prediction_roundtrip:
  assumes made: "makeCachedPrediction inst model r fp completed rows = Some c" "freshForecastDeadline inst model r = Inr dl"
    and stored: "mh_replicaHistory h = rows" "mh_cachedPrediction h = Some c"
    and model: "fp \<noteq> ''''" "0 \<le> pr_replicas r" "modelHasSufficientHistory model rows"
    and times: "pr_consumedUntil r = LatestTimestamp rows" "\<forall>row \<in> set rows. \<forall>t. ts_time row = Some t \<longrightarrow> 0 < ns t"
      "ns (cp_consumedUntil c) \<le> ns completed" "ns (cp_consumedUntil c) < ns (cp_expiresAt c)" "ns completed \<le> ns now"
    and aged: "\<forall>age. m_historyMaxAge model = Some age \<longrightarrow> 0 < age \<and> age \<le> 9223372036854 \<and> firstTraining rows \<noteq> None"
    and reset: "\<forall>d. m_resetDuration model = Some d \<longrightarrow> t_sub now (cp_consumedUntil c) \<le> d"
  shows "\<exists>e. ns e = ns (cp_expiresAt c) \<and>
     assessCachedPrediction inst model h fp now = (if ns now < ns (cp_expiresAt c) then cacheUsable else cacheExpired, e)"
proof -
  obtain consumed where f: "pr_consumedUntil r = Some consumed" "m_predictionMaxAge model \<noteq> None"
      "cp_trajectory c = pr_trajectory r" "cp_replicas c = pr_replicas r" "cp_fingerprint c = fp"
      "cp_consumedUntil c = consumed" "cp_completedAt c = completed"
      "ns (cp_expiresAt c) \<le> ns consumed + predictionLifetime inst model"
      "\<forall>d. dl = Some d \<longrightarrow> ns (cp_expiresAt c) \<le> ns d"
      "\<forall>d. historyInputDeadline model rows = Some d \<longrightarrow> ns (cp_expiresAt c) \<le> ns d \<and>
         cp_historyStart c = Some (t_add d (millis (wrap64 (- the (m_historyMaxAge model)))))"
    using made by (rule makeCached_fields)
  have latest: "LatestTimestamp rows = Some consumed" using f(1) times(1) by simp
  note ls = LatestTimestamp_spec [OF latest]
  have pos: "0 < ns consumed" using ls(1) times(2) by blast
  have first: "\<exists>s. firstTraining rows = Some s \<and> 0 < ns s \<and> ns s \<le> ns consumed" if age: "m_historyMaxAge model = Some age" for age
  proof -
    obtain s where s: "firstTraining rows = Some s" using aged age by blast
    then obtain row where "row \<in> set rows" "ts_time row = Some s"
      using firstTraining_Some(1) [OF s] by blast
    then show ?thesis using s times(2) ls(2) by blast
  qed
  have "\<exists>e. cacheDeadline inst model c = Some e \<and> ns e = ns (cp_expiresAt c)"
  proof (rule cacheDeadline_expiry)
    show "0 < predictionLifetime inst model" using f(6,8) times(4) by simp
    show "\<exists>stop. cachedTrajectoryDeadline model c = Inr stop \<and> ns (cp_expiresAt c) \<le> ns stop"
      if ext: "usesExtendedTimedInterval inst model"
    proof -
      obtain stop d where sd: "ModelTrajectoryExpiry model (pr_trajectory r) consumed = Inr stop" "dl = Some d" "ns d \<le> ns stop"
        using freshForecastDeadline_timed [OF made(2) ext f(1)] by blast
      then show ?thesis using f(3,6) f(9) sd(2) ModelTrajectoryExpiry_valid [OF sd(1)]
        by (simp add: cachedTrajectoryDeadline_def Let_def)
    qed
    show "\<exists>start. cp_historyStart c = Some start \<and> ns start \<noteq> 0 \<and> ns start \<le> ns (cp_consumedUntil c) \<and>
        ns (cp_expiresAt c) \<le> ns start + millis age" if age: "m_historyMaxAge model = Some age" for age
      using first [OF age] f(10) aged f(6) by (auto simp: historyInputDeadline_def age)
  qed (use f in simp_all)
  then obtain e where e: "cacheDeadline inst model c = Some e" "ns e = ns (cp_expiresAt c)" by blast
  have adm: "cacheAdmissible model h c fp now"
    using f model times pos latest reset stored(1) by (auto simp: cacheAdmissible_def not_less split: option.split)
  have fresh: "\<not> hasExpiredTraining model h now" if "ns now < ns (cp_expiresAt c)"
    using f(10) that stored(1) by (cases "historyInputDeadline model rows") (auto simp: hasExpiredTraining_def)
  show ?thesis using e adm fresh stored(2) by (auto simp: assessCachedPrediction_def)
qed

definition sampleResult :: ModelResult where
  "sampleResult = \<lparr>pr_trajectory = [], pr_replicas = 4, pr_consumedUntil = Some (GoTime (2 * hour) 0),
     pr_adaptation = '''', pr_verification = None, pr_diagnostics = None\<rparr>"

definition cachedSample :: CachedPrediction where
  "cachedSample = \<lparr>cp_trajectory = [], cp_replicas = 4, cp_fingerprint = ''fp'', cp_consumedUntil = GoTime (2 * hour) 0,
     cp_completedAt = GoTime (2 * hour + second) 0, cp_expiresAt = GoTime (2 * hour + minute) 0,
     cp_historyStart = Some (GoTime (2 * hour) 0)\<rparr>"

definition cachedHistory :: ModelHistory where
  "cachedHistory = prunedHistory\<lparr>mh_cachedPrediction := Some cachedSample\<rparr>"

lemma sample_lifetime: "predictionLifetime sampleInstance agedModel = minute"
  by (simp add: predictionLifetime_def predictionHorizon_def agedModel_def)

lemma sample_fresh: "freshForecastDeadline sampleInstance agedModel sampleResult = Inr None"
  by (simp add: freshForecastDeadline_def freshIntervalEnd_def usesExtendedTimedInterval_def agedModel_def sampleResult_def)

lemma sample_deadline: "historyInputDeadline agedModel [trainingRow (2 * hour)] = Some (GoTime (3 * hour) 0)"
  by (simp add: historyInputDeadline_def firstTraining_def agedModel_def trainingRow_def t_add_def)

lemma sample_made:
  "makeCachedPrediction sampleInstance agedModel sampleResult ''fp'' (GoTime (2 * hour + second) 0) [trainingRow (2 * hour)] = Some cachedSample"
proof -
  have "m_predictionMaxAge agedModel = Some 60000" "m_historyMaxAge agedModel = Some 3600000"
      "pr_consumedUntil sampleResult = Some (GoTime (2 * hour) 0)"
    by (simp_all add: agedModel_def sampleResult_def)
  then show ?thesis
    unfolding makeCachedPrediction_def sample_fresh sample_deadline sample_lifetime cachedSample_def
    by (simp add: Let_def sampleResult_def t_add_def earlier_def)
qed

theorem cached_prediction_roundtrip_witness:
  "\<exists>e. ns e = 2 * hour + minute \<and>
     assessCachedPrediction sampleInstance agedModel cachedHistory ''fp'' (GoTime (2 * hour + 2 * second) 0) = (cacheUsable, e)"
proof -
  have rows: "mh_replicaHistory cachedHistory = [trainingRow (2 * hour)]" "mh_cachedPrediction cachedHistory = Some cachedSample"
    by (simp_all add: cachedHistory_def prunedHistory_def)
  have suff: "modelHasSufficientHistory agedModel [trainingRow (2 * hour)]"
    by (simp add: modelHasSufficientHistory_def RequiredHistorySize_def agedModel_def UsesCPUHistory_def
        CountCPUHistory_def hasCPU_def trainingRow_def)
  have latest: "pr_consumedUntil sampleResult = LatestTimestamp [trainingRow (2 * hour)]"
    by (simp add: sampleResult_def LatestTimestamp_def trainingRow_def)
  have "0 \<le> pr_replicas sampleResult" "m_resetDuration agedModel = None" "m_historyMaxAge agedModel = Some 3600000"
      "firstTraining [trainingRow (2 * hour)] \<noteq> None" "\<forall>t. ts_time (trainingRow (2 * hour)) = Some t \<longrightarrow> 0 < ns t"
      "cp_consumedUntil cachedSample = GoTime (2 * hour) 0" "cp_expiresAt cachedSample = GoTime (2 * hour + minute) 0"
    by (auto simp: sampleResult_def agedModel_def firstTraining_def trainingRow_def cachedSample_def)
  then show ?thesis
    using cached_prediction_roundtrip [OF sample_made sample_fresh rows _ _ suff latest, of "GoTime (2 * hour + 2 * second) 0"]
    by simp
qed

theorem cached_prediction_usable_interval_witness:
  "\<exists>e c. assessCachedPrediction sampleInstance agedModel cachedHistory ''fp'' (GoTime (2 * hour + 2 * second) 0) = (cacheUsable, e) \<and>
     mh_cachedPrediction cachedHistory = Some c \<and> ns e \<le> ns (cp_expiresAt c)"
proof -
  have suff: "modelHasSufficientHistory agedModel (mh_replicaHistory cachedHistory)"
    by (simp add: modelHasSufficientHistory_def RequiredHistorySize_def agedModel_def UsesCPUHistory_def
        CountCPUHistory_def hasCPU_def trainingRow_def cachedHistory_def prunedHistory_def)
  have adm: "cacheAdmissible agedModel cachedHistory cachedSample ''fp'' (GoTime (2 * hour + 2 * second) 0)"
    using suff by (simp add: cacheAdmissible_def cachedSample_def cachedHistory_def prunedHistory_def LatestTimestamp_def
        trainingRow_def agedModel_def)
  have dl: "cacheDeadline sampleInstance agedModel cachedSample = Some (GoTime (2 * hour + minute) 0)"
    unfolding cacheDeadline_def sample_lifetime
    by (simp add: Let_def usesExtendedTimedInterval_def agedModel_def cachedSample_def earlier_def t_add_def)
  have "\<not> hasExpiredTraining agedModel cachedHistory (GoTime (2 * hour + 2 * second) 0)"
    using sample_deadline by (simp add: hasExpiredTraining_def cachedHistory_def prunedHistory_def)
  then have "assessCachedPrediction sampleInstance agedModel cachedHistory ''fp'' (GoTime (2 * hour + 2 * second) 0)
      = (cacheUsable, GoTime (2 * hour + minute) 0)"
    using adm dl by (simp add: assessCachedPrediction_def cachedHistory_def)
  from cached_prediction_usable_interval [OF this] this show ?thesis by blast
qed

definition report_deadline :: "ModelStatus \<Rightarrow> gotime option" where
  "report_deadline r = (if mst_forecastReplicas r = None then None else mst_expiresAt r)"

lemma inputs_earliest: "predictionInputsDeadline rs = foldl (earliest_step report_deadline) None rs"
  unfolding predictionInputsDeadline_def
  by (rule arg_cong [of _ _ "\<lambda>f. foldl f None rs"]) (auto simp: fun_eq_iff earliest_step_def report_deadline_def split: option.split)

lemma expireReport_id:
  "expireReport now r = r \<longleftrightarrow> (\<forall>t. report_deadline r = Some t \<longrightarrow> ns now < ns t)"
proof (cases "mst_forecastReplicas r")
  case (Some v)
  then have "r\<lparr>mst_state := ''Expired'', mst_forecastReplicas := None\<rparr> \<noteq> r" by (metis ModelStatus.select_convs(11)
    ModelStatus.update_convs(11) ModelStatus.surjective option.distinct(1))
  then show ?thesis using Some by (simp add: expireReport_def report_deadline_def split: option.split)
qed (simp add: expireReport_def report_deadline_def)

lemma expireReport_deadline: "report_deadline (expireReport now r) = Some t \<Longrightarrow> ns now < ns t"
  by (simp add: expireReport_def report_deadline_def split: if_splits option.splits)

lemma inputs_guard: "(case predictionInputsDeadline rs of None \<Rightarrow> True | Some e \<Rightarrow> ns now < ns e) \<longleftrightarrow>
    (\<forall>r \<in> set rs. \<forall>t. report_deadline r = Some t \<longrightarrow> ns now < ns t)"
proof (cases "predictionInputsDeadline rs")
  case None
  then show ?thesis using foldl_earliest(2) [of report_deadline None rs] by (simp add: inputs_earliest)
next
  case (Some e)
  from foldl_earliest(1) [of report_deadline None rs e] Some
  have "\<forall>r \<in> set rs. \<forall>t. report_deadline r = Some t \<longrightarrow> ns e \<le> ns t" "\<exists>r \<in> set rs. report_deadline r = Some e"
    unfolding inputs_earliest by blast+
  then show ?thesis using Some by (simp, meson less_le_trans)
qed

text \<open>
  The inputs deadline guards the reports. Expiring the reports at a time changes none of them
  exactly while that time is before the earliest deadline of the reported forecasts; once expired,
  every forecast still reported has its deadline ahead, so the next inputs deadline is in the future;
  and the answer that a forecast is available means that one remains reported.
\<close>

theorem inputs_deadline_guards_reports:
  "(fst (expirePredictionReports reports now) = reports \<longleftrightarrow>
      (case predictionInputsDeadline reports of None \<Rightarrow> True | Some e \<Rightarrow> ns now < ns e)) \<and>
   (case predictionInputsDeadline (fst (expirePredictionReports reports now)) of None \<Rightarrow> True | Some e \<Rightarrow> ns now < ns e) \<and>
   (snd (expirePredictionReports reports now) \<longleftrightarrow>
      (\<exists>r \<in> set (fst (expirePredictionReports reports now)). mst_forecastReplicas r \<noteq> None))"
proof -
  have "fst (expirePredictionReports reports now) = reports \<longleftrightarrow> (\<forall>r \<in> set reports. expireReport now r = r)"
    using map_eq_conv [of "expireReport now" reports "\<lambda>r. r"] by (simp add: expirePredictionReports_def)
  moreover note inputs_guard [where rs = reports and now = now]
  moreover have "case predictionInputsDeadline (map (expireReport now) reports) of None \<Rightarrow> True | Some e \<Rightarrow> ns now < ns e"
    unfolding inputs_guard using expireReport_deadline by auto
  ultimately show ?thesis by (simp add: expirePredictionReports_def expireReport_id)
qed

end
