(* ===== verification/Effects.thy ===== *)
theory Effects
  imports ApiTypes
begin

text \<open>
  Effectful controller code. A reconciliation interacts with its surroundings through a few calls: it
  reads the HPAPlus object and the Scale subresource, writes the Scale, loads and commits the history,
  patches the status, reads the clock and its context. A program is a tree of such calls, each
  continued by the reply the surroundings give (\<open>io\<close>): nothing is assumed of the API server, of other
  writers or of time, since every reply is possible at every call. \<open>step\<close> and \<open>steps\<close> give the traces of
  a program; a trace that stops before \<open>Return\<close> is a crash at that point. A monitor is a partial
  transition function on events that specifies a protocol; \<open>wp\<close> computes when a program keeps to it,
  whatever the replies, and \<open>wp_sound\<close> carries that to all traces.
\<close>

section \<open>Calls and replies\<close>

text \<open>The API errors the code distinguishes; any other error is \<open>Failure\<close> with its text.\<close>

datatype ioerror = Conflict | NotFound | Invalid | Forbidden | Failure string

record Scale =
  sc_uid :: string
  sc_resourceVersion :: string
  sc_specReplicas :: int32
  sc_statusReplicas :: int32

datatype 'a io =
    Return 'a
  | GetOwner "ioerror + HPAPlus \<Rightarrow> 'a io"
  | GetScale "ioerror + Scale \<Rightarrow> 'a io"
  | UpdateScale Scale "ioerror + unit \<Rightarrow> 'a io"
  | LoadHistory "ioerror + HPAPlusData \<Rightarrow> 'a io"
  | CommitHistory HPAPlusData "ioerror + unit \<Rightarrow> 'a io"
  | PatchStatus HPAPlusStatus "ioerror + unit \<Rightarrow> 'a io"
  | ReadClock "gotime \<Rightarrow> 'a io"
  | CheckContext "ioerror option \<Rightarrow> 'a io"

type_synonym 'a action = "(ioerror + 'a) io"

primrec io_bind :: "'a io \<Rightarrow> ('a \<Rightarrow> 'b io) \<Rightarrow> 'b io" where
  "io_bind (Return a) f = f a"
| "io_bind (GetOwner k) f = GetOwner (\<lambda>r. io_bind (k r) f)"
| "io_bind (GetScale k) f = GetScale (\<lambda>r. io_bind (k r) f)"
| "io_bind (UpdateScale s k) f = UpdateScale s (\<lambda>r. io_bind (k r) f)"
| "io_bind (LoadHistory k) f = LoadHistory (\<lambda>r. io_bind (k r) f)"
| "io_bind (CommitHistory d k) f = CommitHistory d (\<lambda>r. io_bind (k r) f)"
| "io_bind (PatchStatus s k) f = PatchStatus s (\<lambda>r. io_bind (k r) f)"
| "io_bind (ReadClock k) f = ReadClock (\<lambda>t. io_bind (k t) f)"
| "io_bind (CheckContext k) f = CheckContext (\<lambda>e. io_bind (k e) f)"

text \<open>\<open>if err != nil { return err }\<close>.\<close>

definition attempt :: "'a action \<Rightarrow> ('a \<Rightarrow> 'b action) \<Rightarrow> 'b action" where
  "attempt p f = io_bind p (\<lambda>r. case r of Inl e \<Rightarrow> Return (Inl e) | Inr a \<Rightarrow> f a)"

abbreviation fail :: "ioerror \<Rightarrow> 'a action" where "fail e \<equiv> Return (Inl e)"
abbreviation ok :: "'a \<Rightarrow> 'a action" where "ok a \<equiv> Return (Inr a)"

text \<open>The calls as actions.\<close>

abbreviation getOwner :: "HPAPlus action" where "getOwner \<equiv> GetOwner Return"
abbreviation getScale :: "Scale action" where "getScale \<equiv> GetScale Return"
abbreviation updateScale :: "Scale \<Rightarrow> unit action" where "updateScale s \<equiv> UpdateScale s Return"
abbreviation loadHistory :: "HPAPlusData action" where "loadHistory \<equiv> LoadHistory Return"
abbreviation commitHistory :: "HPAPlusData \<Rightarrow> unit action" where "commitHistory d \<equiv> CommitHistory d Return"
abbreviation patchStatus :: "HPAPlusStatus \<Rightarrow> unit action" where "patchStatus s \<equiv> PatchStatus s Return"
abbreviation readClock :: "gotime io" where "readClock \<equiv> ReadClock Return"
abbreviation checkContext :: "ioerror option io" where "checkContext \<equiv> CheckContext Return"

section \<open>Traces\<close>

datatype event =
    OwnerRead "ioerror + HPAPlus"
  | ScaleRead "ioerror + Scale"
  | ScaleWrite Scale "ioerror + unit"
  | HistoryRead "ioerror + HPAPlusData"
  | HistoryWrite HPAPlusData "ioerror + unit"
  | StatusWrite HPAPlusStatus "ioerror + unit"
  | ClockRead gotime
  | ContextRead "ioerror option"

inductive step :: "'a io \<Rightarrow> event \<Rightarrow> 'a io \<Rightarrow> bool" where
  "step (GetOwner k) (OwnerRead r) (k r)"
| "step (GetScale k) (ScaleRead r) (k r)"
| "step (UpdateScale s k) (ScaleWrite s r) (k r)"
| "step (LoadHistory k) (HistoryRead r) (k r)"
| "step (CommitHistory d k) (HistoryWrite d r) (k r)"
| "step (PatchStatus s k) (StatusWrite s r) (k r)"
| "step (ReadClock k) (ClockRead t) (k t)"
| "step (CheckContext k) (ContextRead e) (k e)"

inductive_simps step_simps [simp]:
  "step (Return a) e q" "step (GetOwner k) e q" "step (GetScale k) e q" "step (UpdateScale s k) e q"
  "step (LoadHistory k) e q" "step (CommitHistory d k) e q" "step (PatchStatus s k) e q"
  "step (ReadClock k) e q" "step (CheckContext k) e q"

inductive steps :: "'a io \<Rightarrow> event list \<Rightarrow> 'a io \<Rightarrow> bool" where
  steps_Nil: "steps p [] p"
| steps_Cons: "step p e q \<Longrightarrow> steps q t r \<Longrightarrow> steps p (e # t) r"

inductive_cases steps_NilE [elim!]: "steps p [] q"
inductive_cases steps_ConsE [elim!]: "steps p (e # t) q"

text \<open>Following a given trace is computable.\<close>

primrec advance :: "'a io \<Rightarrow> event \<Rightarrow> 'a io option" where
  "advance (Return a) e = None"
| "advance (GetOwner k) e = (case e of OwnerRead r \<Rightarrow> Some (k r) | _ \<Rightarrow> None)"
| "advance (GetScale k) e = (case e of ScaleRead r \<Rightarrow> Some (k r) | _ \<Rightarrow> None)"
| "advance (UpdateScale s k) e = (case e of ScaleWrite s' r \<Rightarrow> if s' = s then Some (k r) else None | _ \<Rightarrow> None)"
| "advance (LoadHistory k) e = (case e of HistoryRead r \<Rightarrow> Some (k r) | _ \<Rightarrow> None)"
| "advance (CommitHistory d k) e = (case e of HistoryWrite d' r \<Rightarrow> if d' = d then Some (k r) else None | _ \<Rightarrow> None)"
| "advance (PatchStatus s k) e = (case e of StatusWrite s' r \<Rightarrow> if s' = s then Some (k r) else None | _ \<Rightarrow> None)"
| "advance (ReadClock k) e = (case e of ClockRead t \<Rightarrow> Some (k t) | _ \<Rightarrow> None)"
| "advance (CheckContext k) e = (case e of ContextRead c \<Rightarrow> Some (k c) | _ \<Rightarrow> None)"

fun resume :: "'a io \<Rightarrow> event list \<Rightarrow> 'a io option" where
  "resume p [] = Some p"
| "resume p (e # t) = (case advance p e of None \<Rightarrow> None | Some q \<Rightarrow> resume q t)"

lemma step_advance: "step p e q \<longleftrightarrow> advance p e = Some q"
  by (cases p) (auto split: event.split)

lemma steps_Cons_iff: "steps p (e # t) r \<longleftrightarrow> (\<exists>q. step p e q \<and> steps q t r)"
  by (blast intro: steps_Cons)

lemma steps_resume: "steps p t q \<longleftrightarrow> resume p t = Some q"
proof (induction t arbitrary: p)
  case Nil
  then show ?case by (auto intro: steps_Nil)
next
  case (Cons e t)
  then show ?case by (simp add: steps_Cons_iff step_advance split: option.split)
qed

lemma resume_bind: "resume p t = Some (Return a) \<Longrightarrow> resume (io_bind p f) (t @ u) = resume (f a) u"
proof (induction t arbitrary: p)
  case (Cons e t)
  then obtain q where "advance p e = Some q" "resume q t = Some (Return a)" by (auto split: option.splits)
  moreover from this have "advance (io_bind p f) e = Some (io_bind q f)"
    by (cases p) (auto split: event.splits if_splits)
  ultimately show ?case using Cons.IH by simp
qed simp

section \<open>Monitors and weakest preconditions\<close>

type_synonym 's monitor = "'s \<Rightarrow> event \<Rightarrow> 's option"

fun observe :: "'s monitor \<Rightarrow> 's \<Rightarrow> event list \<Rightarrow> 's option" where
  "observe mon s [] = Some s"
| "observe mon s (e # t) = (case mon s e of None \<Rightarrow> None | Some s' \<Rightarrow> observe mon s' t)"

lemma observe_append: "observe mon s (t @ u) = Option.bind (observe mon s t) (\<lambda>s'. observe mon s' u)"
  by (induction t arbitrary: s) (auto split: option.split)

definition allowed :: "'s monitor \<Rightarrow> 's \<Rightarrow> event \<Rightarrow> ('s \<Rightarrow> bool) \<Rightarrow> bool" where
  "allowed mon s e P = (case mon s e of None \<Rightarrow> False | Some s' \<Rightarrow> P s')"

primrec wp :: "'s monitor \<Rightarrow> 'a io \<Rightarrow> ('a \<Rightarrow> 's \<Rightarrow> bool) \<Rightarrow> 's \<Rightarrow> bool" where
  "wp mon (Return a) Q = Q a"
| "wp mon (GetOwner k) Q = (\<lambda>s. \<forall>r. allowed mon s (OwnerRead r) (wp mon (k r) Q))"
| "wp mon (GetScale k) Q = (\<lambda>s. \<forall>r. allowed mon s (ScaleRead r) (wp mon (k r) Q))"
| "wp mon (UpdateScale c k) Q = (\<lambda>s. \<forall>r. allowed mon s (ScaleWrite c r) (wp mon (k r) Q))"
| "wp mon (LoadHistory k) Q = (\<lambda>s. \<forall>r. allowed mon s (HistoryRead r) (wp mon (k r) Q))"
| "wp mon (CommitHistory d k) Q = (\<lambda>s. \<forall>r. allowed mon s (HistoryWrite d r) (wp mon (k r) Q))"
| "wp mon (PatchStatus st k) Q = (\<lambda>s. \<forall>r. allowed mon s (StatusWrite st r) (wp mon (k r) Q))"
| "wp mon (ReadClock k) Q = (\<lambda>s. \<forall>t. allowed mon s (ClockRead t) (wp mon (k t) Q))"
| "wp mon (CheckContext k) Q = (\<lambda>s. \<forall>e. allowed mon s (ContextRead e) (wp mon (k e) Q))"

lemma allowed_mono: "allowed mon s e P \<Longrightarrow> (\<And>s'. P s' \<Longrightarrow> R s') \<Longrightarrow> allowed mon s e R"
  by (auto simp: allowed_def split: option.splits)

lemma allowed_conj: "allowed mon s e P \<Longrightarrow> allowed mon s e R \<Longrightarrow> allowed mon s e (\<lambda>s'. P s' \<and> R s')"
  by (auto simp: allowed_def split: option.splits)

lemma wp_mono: "wp mon p Q s \<Longrightarrow> (\<And>a s'. Q a s' \<Longrightarrow> R a s') \<Longrightarrow> wp mon p R s"
  by (induction p arbitrary: s) (simp_all, (rule allI, drule spec, erule allowed_mono, simp)+)

lemma wp_bind: "wp mon (io_bind p f) Q = wp mon p (\<lambda>a. wp mon (f a) Q)"
  by (induction p) simp_all

lemma wp_attempt:
  "wp mon (attempt p f) Q = wp mon p (\<lambda>r s. case r of Inl e \<Rightarrow> Q (Inl e) s | Inr a \<Rightarrow> wp mon (f a) Q s)"
  unfolding attempt_def wp_bind by (rule arg_cong [of _ _ "wp mon p"]) (auto simp: fun_eq_iff split: sum.split)

lemma wp_step: "wp mon p Q s \<Longrightarrow> step p e q \<Longrightarrow> allowed mon s e (wp mon q Q)"
  by (cases p) auto

text \<open>A program whose weakest precondition holds keeps to the monitor on every trace, crashes included.\<close>

lemma wp_sound:
  assumes "steps p t q" "wp mon p Q s"
  shows "\<exists>s'. observe mon s t = Some s' \<and> wp mon q Q s'"
  using assms
proof (induction arbitrary: s rule: steps.induct)
  case (steps_Cons p e q t r)
  then show ?case using wp_step [OF steps_Cons.prems steps_Cons.hyps(1)]
    by (auto simp: allowed_def split: option.splits)
qed simp

lemma wp_complete:
  assumes "steps p t (Return a)" "wp mon p Q s"
  shows "\<exists>s'. observe mon s t = Some s' \<and> Q a s'"
  using wp_sound [OF assms] by simp

end
