(* ===== verification/ScaleJournal.thy ===== *)
theory ScaleJournal
  imports Effects Decision
begin

text \<open>
  The scale decision and its write-ahead journal: \<open>scale_decision.go\<close>, the mutation loops of
  \<open>history_store.go\<close> and \<open>status.go\<close> and the status budget of \<open>status_budget.go\<close> (all under
  \<open>src/internal/controllers\<close>) with the decision checks of \<open>src/internal/history/decision.go\<close>, as programs
  over the calls of theory \<open>Effects\<close>. \<open>protocol\<close> specifies how journal, Scale and status may be written:
  intent before the Scale write, charge before clearing. \<open>CommitHistory\<close> is the publication inside the
  store's \<open>Commit\<close>, \<open>GetScale\<close> is \<open>getScaleTarget\<close>, a cancelled context is an error of \<open>CheckContext\<close>.
  What the code uses of Kubernetes libraries and of JSON is the record \<open>Library\<close>, a parameter.
\<close>

section \<open>Library functions\<close>

record Library =
  lib_statusBytes :: "HPAPlusStatus \<Rightarrow> ioerror + int"
  lib_pathSegment :: "string \<Rightarrow> bool"
  lib_groupVersion :: "string \<Rightarrow> bool"
  lib_retries :: nat

text \<open>
  \<open>lib_statusBytes\<close> is the length of \<open>json.Marshal\<close>, \<open>lib_pathSegment\<close> is \<open>IsValidPathSegmentName\<close>,
  \<open>lib_groupVersion\<close> says that \<open>ParseGroupVersion\<close> succeeds with a DNS-1035 version and an empty or
  DNS-1123 group, and \<open>lib_retries\<close> is the number of further attempts of \<open>RetryOnConflict\<close>.
\<close>

section \<open>Validity and budgets\<close>

record decisionValidity =
  dv_metricsUntil :: "gotime option"
  dv_predictionsUntil :: "gotime option"

abbreviation errMetricsExpired :: ioerror where
  "errMetricsExpired \<equiv> Failure ''metrics expired before write; gather again''"
abbreviation errPredictionsExpired :: ioerror where
  "errPredictionsExpired \<equiv> Failure ''prediction inputs expired before write; evaluate again''"

definition validityCheck :: "decisionValidity \<Rightarrow> gotime \<Rightarrow> ioerror option" where
  "validityCheck v now =
     (if (case dv_metricsUntil v of None \<Rightarrow> False | Some t \<Rightarrow> after now t) then Some errMetricsExpired
      else if (case dv_predictionsUntil v of None \<Rightarrow> False | Some t \<Rightarrow> \<not> before now t) then Some errPredictionsExpired
      else None)"

abbreviation (input) maxStatusBytes :: int where "maxStatusBytes \<equiv> 256 * 1024"
abbreviation (input) maxAccountingStatusBytes :: int where "maxAccountingStatusBytes \<equiv> maxStatusBytes - 64 * 1024"

abbreviation errStatusCapacity :: ioerror where
  "errStatusCapacity \<equiv> Failure ''status capacity exceeded; preserve scaling history and reduce configured retention''"

definition checkStatusBudget :: "Library \<Rightarrow> HPAPlusStatus \<Rightarrow> HPAPlusStatus \<Rightarrow> int \<Rightarrow> ioerror option" where
  "checkStatusBudget lib base proposed limit =
     (case lib_statusBytes lib proposed of
        Inl e \<Rightarrow> Some e
      | Inr bytes \<Rightarrow>
          if bytes \<le> limit then None
          else (case lib_statusBytes lib base of
                  Inl e \<Rightarrow> Some e
                | Inr previous \<Rightarrow> if previous > limit \<and> bytes \<le> previous then None else Some errStatusCapacity))"

definition accountingStatus :: "HPAPlusStatus \<Rightarrow> HPAPlusStatus" where
  "accountingStatus s = s\<lparr>st_modelStatuses := [], st_currentMetrics := [], st_modelStatusesOmitted := 0,
     st_currentMetricsOmitted := 0\<rparr>"

definition checkAccountingBudget :: "Library \<Rightarrow> HPAPlusStatus \<Rightarrow> HPAPlusStatus \<Rightarrow> ioerror option" where
  "checkAccountingBudget lib base proposed =
     checkStatusBudget lib (accountingStatus base) (accountingStatus proposed) maxAccountingStatusBytes"

section \<open>Mutation loops\<close>

definition ownerChanged :: "HPAPlus \<Rightarrow> HPAPlus \<Rightarrow> bool" where
  "ownerChanged inst latest \<longleftrightarrow>
     h_uid latest \<noteq> h_uid inst \<or> h_generation latest \<noteq> h_generation inst \<or> h_deletionTimestamp latest \<noteq> None"

text \<open>\<open>ctx.Err()\<close> as the last step of a check.\<close>

definition contextErr :: "unit action" where
  "contextErr = io_bind checkContext (\<lambda>c. case c of Some e \<Rightarrow> fail e | None \<Rightarrow> ok ())"

text \<open>Persisting a mutated status: nothing when it did not change, else within the budget.\<close>

definition saveStatus :: "Library \<Rightarrow> HPAPlus \<Rightarrow> HPAPlusStatus \<Rightarrow> HPAPlus action" where
  "saveStatus lib latest st =
     (if st = h_status latest then ok latest
      else case checkStatusBudget lib (h_status latest) st maxStatusBytes of
          Some e \<Rightarrow> fail e
        | None \<Rightarrow> attempt (patchStatus st) (\<lambda>_. ok (latest\<lparr>h_status := st\<rparr>)))"

text \<open>One attempt of \<open>mutateStatusChecked\<close>; it yields the object that replaces the caller's instance.\<close>

definition statusAttempt :: "Library \<Rightarrow> HPAPlus \<Rightarrow> (HPAPlusStatus \<Rightarrow> HPAPlusStatus action) \<Rightarrow> HPAPlus action" where
  "statusAttempt lib inst mutate =
     attempt contextErr (\<lambda>_.
     attempt getOwner (\<lambda>latest.
       if ownerChanged inst latest then fail (Failure ''HPAPlus changed while evaluating decision'')
       else attempt (mutate (h_status latest)) (saveStatus lib latest)))"

fun retryOnConflict :: "nat \<Rightarrow> 'a action \<Rightarrow> 'a action" where
  "retryOnConflict 0 p = p"
| "retryOnConflict (Suc n) p =
     io_bind p (\<lambda>r. case r of Inl Conflict \<Rightarrow> retryOnConflict n p | _ \<Rightarrow> Return r)"

definition mutateStatusChecked :: "Library \<Rightarrow> HPAPlus \<Rightarrow> (HPAPlusStatus \<Rightarrow> HPAPlusStatus action) \<Rightarrow> HPAPlus action" where
  "mutateStatusChecked lib inst mutate = retryOnConflict (lib_retries lib) (statusAttempt lib inst mutate)"

type_synonym mutation = "HPAPlusData \<Rightarrow> (bool \<times> HPAPlusData) action"

text \<open>\<open>snapshot.Validate\<close>, which the store calls right before publishing.\<close>

definition publishCheck :: "HPAPlus \<Rightarrow> (HPAPlusData \<Rightarrow> unit action) option \<Rightarrow> HPAPlusData \<Rightarrow> unit action" where
  "publishCheck inst validate d =
     attempt getOwner (\<lambda>current.
       if ownerChanged inst current then fail (Failure ''HPAPlus changed before publishing history'')
       else case validate of Some v \<Rightarrow> v d | None \<Rightarrow> contextErr)"

fun mutateLoop :: "nat \<Rightarrow> HPAPlus \<Rightarrow> mutation \<Rightarrow> (HPAPlusData \<Rightarrow> unit action) option \<Rightarrow> ioerror option \<Rightarrow> unit action" where
  "mutateLoop 0 inst mutate validate lastErr = (case lastErr of Some e \<Rightarrow> fail e | None \<Rightarrow> ok ())"
| "mutateLoop (Suc n) inst mutate validate lastErr =
     attempt getOwner (\<lambda>latest.
       if ownerChanged inst latest then fail (Failure ''HPAPlus changed while updating history'')
       else attempt loadHistory (\<lambda>data.
         attempt (mutate data) (\<lambda>(changed, data').
           if \<not> changed then ok ()
           else io_bind (attempt (publishCheck inst validate data') (\<lambda>_. commitHistory data')) (\<lambda>r.
             case r of
               Inr _ \<Rightarrow> ok ()
             | Inl Conflict \<Rightarrow> mutateLoop n inst mutate validate (Some Conflict)
             | Inl e \<Rightarrow> fail e))))"

definition mutateHistoryChecked :: "HPAPlus \<Rightarrow> mutation \<Rightarrow> (HPAPlusData \<Rightarrow> unit action) option \<Rightarrow> unit action" where
  "mutateHistoryChecked inst mutate validate = mutateLoop 5 inst mutate validate None"

definition mutateConfigMapData :: "HPAPlus \<Rightarrow> mutation \<Rightarrow> unit action" where
  "mutateConfigMapData inst mutate = mutateHistoryChecked inst mutate None"

section \<open>Accounting\<close>

text \<open>\<open>projectScaleDecision\<close> with its two clock readings.\<close>

definition projectAt ::
  "HPAPlus \<Rightarrow> HPAPlusStatus \<Rightarrow> ScaleDecision \<Rightarrow> int32 \<Rightarrow> int32 \<Rightarrow> gotime \<Rightarrow> gotime \<Rightarrow> HPAPlusStatus" where
  "projectAt inst st d desired observed nowUp nowDown =
     (let behavior = BehaviorDefaults (s_behavior (h_spec inst));
          evt = (\<lambda>n. \<lparr>ts_time = Some (sd_time d), ts_replicas = n, ts_metric = None, ts_totalCPUUsageMillicores = None,
                      ts_requestPerPodMillicores = None, ts_targetCPUUtilizationPercentage = None\<rparr>);
          st1 = st\<lparr>st_lastScaleDecisionID := sd_id d, st_lastScaleTime := Some (sd_time d),
                   st_currentReplicas := observed, st_desiredReplicas := desired,
                   st_scaleUpReplicaHistory := sd_scaleUpRecommendations d,
                   st_scaleDownReplicaHistory := sd_scaleDownRecommendations d\<rparr>;
          st2 = (if sd_desired d > sd_previousDesired d
                 then st1\<lparr>st_scaleUpEventHistory := st_scaleUpEventHistory st1 @ [evt (wrap32 (sd_desired d - sd_previousDesired d))]\<rparr>
                 else st1\<lparr>st_scaleDownEventHistory := st_scaleDownEventHistory st1 @ [evt (wrap32 (sd_previousDesired d - sd_desired d))]\<rparr>)
      in st2\<lparr>st_scaleUpEventHistory :=
               PruneTimestampedReplicasToWindow (st_scaleUpEventHistory st2) (GetLongestPolicyPeriod (b_scaleUp behavior)) nowUp,
             st_scaleDownEventHistory :=
               PruneTimestampedReplicasToWindow (st_scaleDownEventHistory st2) (GetLongestPolicyPeriod (b_scaleDown behavior)) nowDown\<rparr>)"

definition projectScaleDecision ::
  "HPAPlus \<Rightarrow> ScaleDecision \<Rightarrow> int32 \<Rightarrow> int32 \<Rightarrow> HPAPlusStatus \<Rightarrow> HPAPlusStatus io" where
  "projectScaleDecision inst d desired observed st =
     (if st_lastScaleDecisionID st = sd_id d then Return st
      else io_bind readClock (\<lambda>nowUp. io_bind readClock (\<lambda>nowDown.
        Return (projectAt inst st d desired observed nowUp nowDown))))"

definition recordScaleDecision :: "Library \<Rightarrow> HPAPlus \<Rightarrow> ScaleDecision \<Rightarrow> int32 \<Rightarrow> int32 \<Rightarrow> HPAPlus action" where
  "recordScaleDecision lib inst d desired observed =
     mutateStatusChecked lib inst (\<lambda>st. io_bind (projectScaleDecision inst d desired observed st) ok)"

definition checkDecisionStatusBudget :: "Library \<Rightarrow> HPAPlus \<Rightarrow> ScaleDecision \<Rightarrow> int32 \<Rightarrow> int32 \<Rightarrow> unit action" where
  "checkDecisionStatusBudget lib inst d desired observed =
     io_bind (projectScaleDecision inst d desired observed (h_status inst)) (\<lambda>proposed.
       case checkAccountingBudget lib (h_status inst) proposed of Some e \<Rightarrow> fail e | None \<Rightarrow> ok ())"

section \<open>The journal\<close>

definition clearMutation :: "string \<Rightarrow> mutation" where
  "clearMutation ident data =
     (case d_pendingScale data of
        None \<Rightarrow> ok (False, data)
      | Some d \<Rightarrow> if sd_id d \<noteq> ident then ok (False, data) else ok (True, data\<lparr>d_pendingScale := None\<rparr>))"

definition clearScaleDecision :: "HPAPlus \<Rightarrow> string \<Rightarrow> unit action" where
  "clearScaleDecision inst ident = mutateConfigMapData inst (clearMutation ident)"

definition journalMutation :: "decisionValidity \<Rightarrow> ScaleDecision \<Rightarrow> mutation" where
  "journalMutation validity d data =
     io_bind readClock (\<lambda>t.
       case validityCheck validity t of
         Some e \<Rightarrow> fail e
       | None \<Rightarrow> if d_pendingScale data \<noteq> None then fail (Failure ''unresolved scale decision'')
                 else ok (True, data\<lparr>d_pendingScale := Some d\<rparr>))"

text \<open>A failing step after the intent is durable: clear it and return the failure.\<close>

definition abandon :: "HPAPlus \<Rightarrow> string \<Rightarrow> ioerror \<Rightarrow> unit action" where
  "abandon inst ident e = io_bind (clearScaleDecision inst ident) (\<lambda>_. fail e)"

text \<open>The checks between the durable intent and the Scale write.\<close>

definition recheckOwner :: "Library \<Rightarrow> HPAPlus \<Rightarrow> ScaleDecision \<Rightarrow> unit action" where
  "recheckOwner lib inst d =
     attempt getOwner (\<lambda>current.
       if ownerChanged inst current then
         (if h_uid current = h_uid inst \<and> h_deletionTimestamp current = None
          then abandon current (sd_id d) (Failure ''HPAPlus changed before Scale write'')
          else fail (Failure ''HPAPlus changed before Scale write''))
       else io_bind (checkDecisionStatusBudget lib current d (sd_desired d) (sd_observed d)) (\<lambda>b.
         case b of Inl e \<Rightarrow> abandon inst (sd_id d) e | Inr _ \<Rightarrow> ok ()))"

definition recheckDecision :: "Library \<Rightarrow> HPAPlus \<Rightarrow> ScaleDecision \<Rightarrow> decisionValidity \<Rightarrow> unit action" where
  "recheckDecision lib inst d validity =
     io_bind readClock (\<lambda>t.
       case validityCheck validity t of
         Some e \<Rightarrow> abandon inst (sd_id d) e
       | None \<Rightarrow> recheckOwner lib inst d)"

definition prepareDecision ::
  "Library \<Rightarrow> HPAPlus \<Rightarrow> HPAPlus \<Rightarrow> ScaleDecision \<Rightarrow> decisionValidity \<Rightarrow> unit action" where
  "prepareDecision lib inst latest d validity =
     attempt (checkDecisionStatusBudget lib latest d (sd_desired d) (sd_observed d)) (\<lambda>_.
     attempt (mutateConfigMapData inst (journalMutation validity d)) (\<lambda>_.
     recheckDecision lib inst d validity))"

definition rejected :: "ioerror \<Rightarrow> bool" where
  "rejected e \<longleftrightarrow> e \<in> {Conflict, NotFound, Invalid, Forbidden}"

text \<open>The conditional Scale write and its accounting; the first component is the reported outcome of the write.\<close>

definition writeDecision :: "Library \<Rightarrow> HPAPlus \<Rightarrow> Scale \<Rightarrow> ScaleDecision \<Rightarrow> (string \<times> (ioerror + HPAPlus)) io" where
  "writeDecision lib inst scale d =
     io_bind (updateScale (scale\<lparr>sc_specReplicas := sd_desired d\<rparr>)) (\<lambda>r.
       case r of
         Inl e \<Rightarrow>
           if rejected e
           then io_bind (clearScaleDecision inst (sd_id d)) (\<lambda>c.
                  Return (''rejected'', case c of Inl ce \<Rightarrow> Inl ce | Inr _ \<Rightarrow> Inl e))
           else Return (''unknown'', Inl e)
       | Inr _ \<Rightarrow>
           io_bind (recordScaleDecision lib inst d (sd_desired d) (sd_observed d)) (\<lambda>r.
             case r of
               Inl e \<Rightarrow> Return (''accepted'', Inl e)
             | Inr inst' \<Rightarrow> io_bind (clearScaleDecision inst' (sd_id d)) (\<lambda>c.
                 Return (''accepted'', case c of Inl ce \<Rightarrow> Inl ce | Inr _ \<Rightarrow> Inr inst'))))"

definition unchangedStatus ::
  "Library \<Rightarrow> HPAPlus \<Rightarrow> Scale \<Rightarrow> int32 \<Rightarrow> TimestampedSample list \<Rightarrow> TimestampedSample list \<Rightarrow> decisionValidity \<Rightarrow> HPAPlus action" where
  "unchangedStatus lib inst scale desired up down validity =
     mutateStatusChecked lib inst (\<lambda>st. io_bind readClock (\<lambda>t.
       case validityCheck validity t of
         Some e \<Rightarrow> fail e
       | None \<Rightarrow>
           let st' = st\<lparr>st_desiredReplicas := desired, st_currentReplicas := sc_statusReplicas scale,
                        st_scaleUpReplicaHistory := up, st_scaleDownReplicaHistory := down\<rparr>
           in (case checkAccountingBudget lib st st' of Some e \<Rightarrow> fail e | None \<Rightarrow> ok st')))"

definition applyScaleDecision ::
  "Library \<Rightarrow> HPAPlus \<Rightarrow> Scale \<Rightarrow> int32 \<Rightarrow> TimestampedSample list \<Rightarrow> TimestampedSample list \<Rightarrow> decisionValidity \<Rightarrow>
   string \<Rightarrow> (string \<times> (ioerror + HPAPlus)) io" where
  "applyScaleDecision lib inst scale desired up down validity ident =
     (if EffectiveMode (h_spec inst) = ModeObserve
      then Return (''not_attempted'', Inl (Failure ''Scale writes are disabled in observe mode''))
      else io_bind getOwner (\<lambda>r. case r of
          Inl e \<Rightarrow> Return (''not_attempted'', Inl e)
        | Inr latest \<Rightarrow>
            if ownerChanged inst latest
            then Return (''not_attempted'', Inl (Failure ''HPAPlus changed while evaluating decision''))
            else io_bind readClock (\<lambda>t. case validityCheck validity t of
                Some e \<Rightarrow> Return (''not_attempted'', Inl e)
              | None \<Rightarrow>
                  if sc_specReplicas scale = desired
                  then io_bind (unchangedStatus lib inst scale desired up down validity) (\<lambda>r. Return (''unchanged'', r))
                  else io_bind readClock (\<lambda>t2.
                    let d = \<lparr>sd_id = ident, sd_ownerUID = h_uid inst, sd_target = s_scaleTargetRef (h_spec inst),
                             sd_targetUID = sc_uid scale, sd_resourceVersion = sc_resourceVersion scale,
                             sd_previousDesired = sc_specReplicas scale, sd_desired = desired,
                             sd_observed = sc_statusReplicas scale, sd_time = t2,
                             sd_scaleUpRecommendations = up, sd_scaleDownRecommendations = down\<rparr>
                    in io_bind (prepareDecision lib inst latest d validity) (\<lambda>r. case r of
                         Inl e \<Rightarrow> Return (''not_attempted'', Inl e)
                       | Inr _ \<Rightarrow> writeDecision lib inst scale d)))))"

section \<open>Recovery and observation\<close>

text \<open>\<open>strings.TrimSpace(s) == ""\<close> on UTF-8 text: only Unicode white space.\<close>

fun blank :: "nat list \<Rightarrow> bool" where
  "blank [] = True"
| "blank (a # s) =
     (if a \<in> {9, 10, 11, 12, 13, 32} then blank s
      else case s of
        [] \<Rightarrow> False
      | b # s' \<Rightarrow>
          if a = 0xC2 \<and> b \<in> {0x85, 0xA0} then blank s'
          else (case s' of
              [] \<Rightarrow> False
            | c # r \<Rightarrow>
                (a = 0xE1 \<and> b = 0x9A \<and> c = 0x80 \<or>
                 a = 0xE2 \<and> b = 0x80 \<and> (0x80 \<le> c \<and> c \<le> 0x8A \<or> c \<in> {0xA8, 0xA9, 0xAF}) \<or>
                 a = 0xE2 \<and> b = 0x81 \<and> c = 0x9F \<or>
                 a = 0xE3 \<and> b = 0x80 \<and> c = 0x80) \<and> blank r))"

definition blankString :: "string \<Rightarrow> bool" where
  "blankString s = blank (map of_char s)"

definition badRecommendation :: "gotime \<Rightarrow> TimestampedSample \<Rightarrow> bool" where
  "badRecommendation t r = (case ts_time r of None \<Rightarrow> True
     | Some u \<Rightarrow> is_zero u \<or> after u t \<or> ts_replicas r < 0)"

definition ValidateDecision :: "Library \<Rightarrow> ScaleDecision \<Rightarrow> error option" where
  "ValidateDecision lib d =
     (if \<exists>v \<in> set [sd_id d, sd_ownerUID d, sd_targetUID d, sd_resourceVersion d, ref_kind (sd_target d), ref_name (sd_target d)].
           blankString v
      then Some ''missing decision or resource identity''
      else if sd_previousDesired d < 0 \<or> sd_desired d < 0 \<or> sd_observed d < 0 \<or> sd_desired d = sd_previousDesired d
      then Some ''invalid replica counts''
      else if \<not> lib_pathSegment lib (ref_name (sd_target d)) \<or> \<not> lib_pathSegment lib (ref_kind (sd_target d))
      then Some ''invalid target reference''
      else if ref_apiVersion (sd_target d) \<noteq> '''' \<and> \<not> lib_groupVersion lib (ref_apiVersion (sd_target d))
      then Some ''invalid target apiVersion''
      else if is_zero (sd_time d) then Some ''missing decision timestamp''
      else if \<exists>r \<in> set (sd_scaleUpRecommendations d @ sd_scaleDownRecommendations d). badRecommendation (sd_time d) r
      then Some ''invalid stabilization recommendation''
      else None)"

definition ValidateDecisionAt :: "Library \<Rightarrow> ScaleDecision \<Rightarrow> gotime \<Rightarrow> error option" where
  "ValidateDecisionAt lib d now =
     (case ValidateDecision lib d of
        Some e \<Rightarrow> Some e
      | None \<Rightarrow> if after (sd_time d) now then Some ''pending decision timestamp is in the future'' else None)"

definition recoverScaleDecision :: "Library \<Rightarrow> HPAPlus \<Rightarrow> ScaleDecision \<Rightarrow> unit action" where
  "recoverScaleDecision lib inst d =
     io_bind readClock (\<lambda>t.
       case ValidateDecisionAt lib d t of
         Some e \<Rightarrow> fail (Failure ''invalid pending scale decision; preserve journal for repair'')
       | None \<Rightarrow>
           if sd_ownerUID d \<noteq> h_uid inst \<or> sd_target d \<noteq> s_scaleTargetRef (h_spec inst) \<or>
              st_lastScaleDecisionID (h_status inst) = sd_id d
           then clearScaleDecision inst (sd_id d)
           else io_bind getScale (\<lambda>r. case r of
               Inl e \<Rightarrow> if e = NotFound then clearScaleDecision inst (sd_id d) else fail e
             | Inr scale \<Rightarrow>
                 if sc_uid scale \<noteq> sd_targetUID d \<or> sc_resourceVersion scale = sd_resourceVersion d
                 then clearScaleDecision inst (sd_id d)
                 else attempt (recordScaleDecision lib inst d (sc_specReplicas scale) (sc_statusReplicas scale)) (\<lambda>inst'.
                   clearScaleDecision inst' (sd_id d))))"

definition observedStatus :: "Scale \<Rightarrow> HPAPlusStatus \<Rightarrow> HPAPlusStatus" where
  "observedStatus scale st =
     st\<lparr>st_currentReplicas := sc_statusReplicas scale, st_desiredReplicas := sc_specReplicas scale\<rparr>"

definition observeScaleDecision :: "Library \<Rightarrow> HPAPlus \<Rightarrow> Scale \<Rightarrow> decisionValidity \<Rightarrow> HPAPlus action" where
  "observeScaleDecision lib inst scale validity =
     mutateStatusChecked lib inst (\<lambda>st. io_bind readClock (\<lambda>t.
       case validityCheck validity t of
         Some e \<Rightarrow> fail e
       | None \<Rightarrow> ok (observedStatus scale st)))"

end
