(* ===== verification/JournalProtocol.thy ===== *)
theory JournalProtocol
  imports ScaleJournal
begin

text \<open>
  The write-ahead protocol of scale decisions and its refinement by the code of theory \<open>ScaleJournal\<close>.
  A phase is what the controller may rely on: no intent of its own, an intent that is durable in the
  journal (with whether a valid clock reading and an unchanged owner were seen since), a Scale write
  that may have taken effect, or a decision whose accounting is settled. \<open>protocol\<close> allows a Scale
  write only from a checked intent and with exactly the intended count and version, and forbids
  clearing the journal while a write that may have taken effect is not accounted for. The weakest
  preconditions of \<open>Effects\<close> show that every run of the controller keeps to it, whatever the API
  server replies and wherever the run is cut off.
\<close>

section \<open>The protocol\<close>

datatype phase = NoIntent | Intent ScaleDecision bool bool | Written ScaleDecision | Settled ScaleDecision

definition writes :: "ScaleDecision \<Rightarrow> Scale \<Rightarrow> bool" where
  "writes d s \<longleftrightarrow> sc_specReplicas s = sd_desired d \<and> sc_uid s = sd_targetUID d \<and>
     sc_resourceVersion s = sd_resourceVersion d"

definition nothingToCharge :: "ScaleDecision \<Rightarrow> ioerror + Scale \<Rightarrow> bool" where
  "nothingToCharge d r = (case r of Inl e \<Rightarrow> e = NotFound
     | Inr s \<Rightarrow> sc_uid s \<noteq> sd_targetUID d \<or> sc_resourceVersion s = sd_resourceVersion d)"

fun protocol :: "HPAPlus \<Rightarrow> decisionValidity \<Rightarrow> phase monitor" where
  "protocol inst v p (OwnerRead r) = Some
     (case r of
        Inl _ \<Rightarrow> p
      | Inr current \<Rightarrow>
          (case p of
             Intent d c _ \<Rightarrow> Intent d c (\<not> ownerChanged inst current)
           | Written d \<Rightarrow> if st_lastScaleDecisionID (h_status current) = sd_id d then Settled d else Written d
           | _ \<Rightarrow> p))"
| "protocol inst v p (ClockRead t) = Some
     (case p of Intent d c w \<Rightarrow> Intent d (c \<or> validityCheck v t = None) w | _ \<Rightarrow> p)"
| "protocol inst v p (ContextRead _) = Some p"
| "protocol inst v p (HistoryRead _) = Some p"
| "protocol inst v p (ScaleRead r) = Some
     (case p of Written d \<Rightarrow> if nothingToCharge d r then Settled d else Written d | _ \<Rightarrow> p)"
| "protocol inst v p (ScaleWrite s r) =
     (case p of
        Intent d True True \<Rightarrow>
          if writes d s then Some (case r of Inl e \<Rightarrow> if rejected e then Intent d False False else Written d | Inr _ \<Rightarrow> Written d)
          else None
      | _ \<Rightarrow> None)"
| "protocol inst v p (HistoryWrite data r) =
     (case d_pendingScale data of
        Some d \<Rightarrow> (if p \<noteq> NoIntent then None else Some (case r of Inl _ \<Rightarrow> NoIntent | Inr _ \<Rightarrow> Intent d False False))
      | None \<Rightarrow> (case p of Written _ \<Rightarrow> None | _ \<Rightarrow> Some (case r of Inl _ \<Rightarrow> p | Inr _ \<Rightarrow> NoIntent)))"
| "protocol inst v p (StatusWrite st r) = Some
     (case (p, r) of
        (Written d, Inr _) \<Rightarrow> if st_lastScaleDecisionID st = sd_id d then Settled d else Written d
      | _ \<Rightarrow> p)"

section \<open>Rules for the mutation loops\<close>

lemmas wp_rules = wp_bind wp_attempt split_sum_all split_option_all

text \<open>
  A mutation loop over the history keeps an invariant that reads preserve, and establishes what its
  mutation and its write establish.
\<close>

lemma wp_mutateLoop:
  assumes reads: "\<And>q r. I q \<Longrightarrow> allowed mon q (OwnerRead r) I" "\<And>q c. I q \<Longrightarrow> allowed mon q (ContextRead c) I"
      "\<And>q r. I q \<Longrightarrow> allowed mon q (HistoryRead r) (\<lambda>q'. I q' \<and> (\<forall>data. r = Inr data \<longrightarrow> J data q'))"
    and mutate: "\<And>q data. I q \<Longrightarrow> J data q \<Longrightarrow> wp mon (mutate data) (\<lambda>r q'. case r of Inl e \<Rightarrow> Q (Inl e) q'
        | Inr (c, data') \<Rightarrow> if c then I q' \<and> W data' q' else Q (Inr ()) q') q"
    and staged: "\<And>q data r. I q \<Longrightarrow> W data q \<Longrightarrow> allowed mon q (OwnerRead r) (W data)"
      "\<And>q data c. I q \<Longrightarrow> W data q \<Longrightarrow> allowed mon q (ContextRead c) (W data)"
    and wrote: "\<And>q data r. I q \<Longrightarrow> W data q \<Longrightarrow>
        allowed mon q (HistoryWrite data r) (\<lambda>q'. case r of Inl e \<Rightarrow> I q' | Inr _ \<Rightarrow> Q (Inr ()) q')"
    and fails: "\<And>q e. I q \<Longrightarrow> Q (Inl e) q"
  shows "I q \<Longrightarrow> e \<noteq> None \<or> 0 < n \<Longrightarrow> wp mon (mutateLoop n inst mutate None e) Q q"
proof (induction n arbitrary: q e)
  case 0
  then show ?case using fails by (cases e) auto
next
  case (Suc n)
  let ?next = "\<lambda>r. case r of Inr _ \<Rightarrow> ok () | Inl Conflict \<Rightarrow> mutateLoop n inst mutate None (Some Conflict) | Inl e \<Rightarrow> fail e"
  have rest: "I s \<Longrightarrow> wp mon (?next (Inl err)) Q s" for s and err :: ioerror
    using Suc.IH [of s "Some Conflict"] fails by (cases err) auto
  have publish: "wp mon (io_bind (attempt (publishCheck inst None data) (\<lambda>_. commitHistory data)) ?next) Q q'"
    if "I q'" "W data q'" for q' data
  proof -
    have w: "I s \<Longrightarrow> W data s \<Longrightarrow> allowed mon s (HistoryWrite data r) (wp mon (?next r) Q)" for s r
      using wrote [of s data r] rest by (cases r) (auto elim!: allowed_mono)
    have c: "I s \<Longrightarrow> W data s \<Longrightarrow> wp mon contextErr (\<lambda>r s'. I s' \<and> W data s') s" for s
      unfolding contextErr_def wp_bind wp.simps
      by (intro allI allowed_mono [OF allowed_conj [OF reads(2) staged(2)]]) (auto split: option.split)
    have "wp mon (publishCheck inst None data) (\<lambda>r s. I s \<and> W data s) q'"
      unfolding publishCheck_def wp_attempt wp.simps
      by (intro allI allowed_mono [OF allowed_conj [OF reads(1) staged(1)]]) (auto simp: that c split: sum.split)
    then have "wp mon (publishCheck inst None data) (\<lambda>r s. wp mon (io_bind (case r of Inl e \<Rightarrow> fail e | Inr _ \<Rightarrow> commitHistory data)
        ?next) Q s) q'"
      by (rule wp_mono) (auto simp: w rest [simplified] split: sum.split)
    then show ?thesis unfolding attempt_def wp_bind .
  qed
  have mutated: "wp mon (attempt (mutate data) (\<lambda>(changed, data'). if \<not> changed then ok ()
      else io_bind (attempt (publishCheck inst None data') (\<lambda>_. commitHistory data')) ?next)) Q s" if "I s" "J data s" for s data
    unfolding wp_attempt
    by (rule wp_mono [OF mutate [OF that]]) (auto simp: publish split: sum.splits if_splits)
  have load: "wp mon (attempt loadHistory (\<lambda>data. attempt (mutate data) (\<lambda>(changed, data'). if \<not> changed then ok ()
      else io_bind (attempt (publishCheck inst None data') (\<lambda>_. commitHistory data')) ?next))) Q s" if "I s" for s
    unfolding wp_attempt [of _ loadHistory] wp.simps
    by (intro allI allowed_mono [OF reads(3) [OF that]]) (auto simp: fails mutated split: sum.split)
  show ?case unfolding mutateLoop.simps wp_attempt [of _ getOwner] wp.simps
    by (intro allI allowed_mono [OF reads(1) [OF Suc.prems(1)]]) (auto simp: fails load split: sum.split)
qed

text \<open>The same for the status: \<open>J\<close> is what a fresh read of the status tells, \<open>K\<close> what the mutation makes of it.\<close>

lemma wp_mutateStatusChecked:
  assumes ctx: "\<And>q c. I q \<Longrightarrow> allowed mon q (ContextRead c) I"
    and owner: "\<And>q r. I q \<Longrightarrow> allowed mon q (OwnerRead r) (\<lambda>q'. I q' \<and> (\<forall>current. r = Inr current \<longrightarrow> J (h_status current) q'))"
    and mutate: "\<And>q st. I q \<Longrightarrow> J st q \<Longrightarrow>
        wp mon (mutate st) (\<lambda>r q'. I q' \<and> (\<forall>st'. r = Inr st' \<longrightarrow> K st st' q')) q"
    and same: "\<And>q st current. I q \<Longrightarrow> K st st q \<Longrightarrow> Q (Inr current) q"
    and wrote: "\<And>q st st' r. I q \<Longrightarrow> K st st' q \<Longrightarrow>
        allowed mon q (StatusWrite st' r) (\<lambda>q'. case r of Inl e \<Rightarrow> I q' | Inr _ \<Rightarrow> \<forall>current. Q (Inr current) q')"
    and fails: "\<And>q e. I q \<Longrightarrow> Q (Inl e) q"
  shows "I q \<Longrightarrow> wp mon (mutateStatusChecked lib inst mutate) Q q"
proof -
  let ?R = "\<lambda>r q. Q r q \<and> (case r of Inl _ \<Rightarrow> I q | Inr _ \<Rightarrow> True)"
  have save: "wp mon (saveStatus lib latest st) ?R q" if "I q" "K (h_status latest) st q" for q latest st
  proof -
    have "wp mon (attempt (patchStatus st) (\<lambda>_. ok (latest\<lparr>h_status := st\<rparr>))) ?R q"
      unfolding wp_attempt wp.simps
      by (intro allI allowed_mono [OF wrote [OF that]]) (auto simp: fails split: sum.splits)
    then show ?thesis using that same fails by (auto simp: saveStatus_def split: option.split)
  qed
  have mutated: "wp mon (attempt (mutate (h_status latest)) (saveStatus lib latest)) ?R q"
    if "I q" "J (h_status latest) q" for q latest
    unfolding wp_attempt by (rule wp_mono [OF mutate [OF that]]) (auto simp: save fails split: sum.split)
  have read: "wp mon (attempt getOwner (\<lambda>latest. if ownerChanged inst latest then fail (Failure ''HPAPlus changed while evaluating decision'')
      else attempt (mutate (h_status latest)) (saveStatus lib latest))) ?R q" if "I q" for q
    unfolding wp_attempt [of _ getOwner] wp.simps
    by (intro allI allowed_mono [OF owner [OF that]]) (auto simp: mutated fails split: sum.split)
  have one: "wp mon (statusAttempt lib inst mutate) ?R q" if "I q" for q
    unfolding statusAttempt_def contextErr_def wp_attempt [of _ "io_bind _ _"] wp_bind wp.simps
    by (intro allI allowed_mono [OF ctx [OF that]]) (auto simp: read fails split: option.split)
  have "wp mon (retryOnConflict n (statusAttempt lib inst mutate)) Q q" if "I q" for n q
    using that
  proof (induction n arbitrary: q)
    case 0
    then show ?case using wp_mono [OF one] by (auto simp del: wp.simps)
  next
    case (Suc n)
    show ?case unfolding retryOnConflict.simps wp_bind
      by (rule wp_mono [OF one [OF Suc.prems]]) (auto simp: Suc.IH split: sum.split ioerror.split)
  qed
  then show "I q \<Longrightarrow> wp mon (mutateStatusChecked lib inst mutate) Q q" by (simp add: mutateStatusChecked_def)
qed

section \<open>Clearing and journaling\<close>

text \<open>The phases a clearing run may pass through from a given one.\<close>

definition clearable :: "phase \<Rightarrow> phase \<Rightarrow> bool" where
  "clearable p q \<longleftrightarrow> (case p of
      NoIntent \<Rightarrow> q = NoIntent
    | Intent d _ _ \<Rightarrow> q = NoIntent \<or> (\<exists>c w. q = Intent d c w)
    | Settled d \<Rightarrow> q = NoIntent \<or> q = Settled d
    | Written d \<Rightarrow> False)"

lemma clearable_refl: "(\<And>d. p \<noteq> Written d) \<Longrightarrow> clearable p p"
  by (cases p) (auto simp: clearable_def)

lemma wp_clear:
  assumes "clearable p q"
  shows "wp (protocol inst v) (clearScaleDecision who i) (\<lambda>_. clearable p) q"
  unfolding clearScaleDecision_def mutateConfigMapData_def mutateHistoryChecked_def
proof (rule wp_mutateLoop [where I = "clearable p" and J = "\<lambda>_ _. True" and W = "\<lambda>data _. d_pendingScale data = None"])
  fix q and data :: HPAPlusData assume "clearable p q"
  then show "wp (protocol inst v) (clearMutation i data) (\<lambda>r q'. case r of Inl e \<Rightarrow> clearable p q'
      | Inr (c, data') \<Rightarrow> if c then clearable p q' \<and> d_pendingScale data' = None else clearable p q') q"
    by (auto simp: clearMutation_def split: option.split)
next
  fix q and data :: HPAPlusData and r :: "ioerror + unit" assume "clearable p q" "d_pendingScale data = None"
  then show "allowed (protocol inst v) q (HistoryWrite data r) (\<lambda>q'. case r of Inl e \<Rightarrow> clearable p q' | Inr _ \<Rightarrow> clearable p q')"
    by (cases p; cases r) (auto simp: clearable_def allowed_def)
qed (use assms in \<open>cases p; auto simp: clearable_def allowed_def split: sum.split\<close>)+

lemma wp_journal:
  "wp (protocol inst v) (mutateConfigMapData who (journalMutation v' d))
     (\<lambda>r q. case r of Inl _ \<Rightarrow> q = NoIntent | Inr _ \<Rightarrow> q = Intent d False False) NoIntent"
  unfolding mutateConfigMapData_def mutateHistoryChecked_def
proof (rule wp_mutateLoop [where I = "\<lambda>q. q = NoIntent" and J = "\<lambda>_ _. True" and W = "\<lambda>data _. d_pendingScale data = Some d"])
  fix q and data :: HPAPlusData assume "q = NoIntent"
  then show "wp (protocol inst v) (journalMutation v' d data) (\<lambda>r q'. case r of
      Inl e \<Rightarrow> (case Inl e of Inl _ \<Rightarrow> q' = NoIntent | Inr _ \<Rightarrow> q' = Intent d False False)
      | Inr (c, data') \<Rightarrow> if c then q' = NoIntent \<and> d_pendingScale data' = Some d
          else (case Inr () of Inl _ \<Rightarrow> q' = NoIntent | Inr _ \<Rightarrow> q' = Intent d False False)) q"
    by (auto simp: journalMutation_def wp_bind allowed_def split: option.split)
qed (auto simp: allowed_def split: sum.split)

section \<open>Accounting\<close>

text \<open>Reading the clock can only record that the decision is still valid.\<close>

definition ticks :: "phase \<Rightarrow> phase \<Rightarrow> bool" where
  "ticks p q \<longleftrightarrow> p = q \<or> (\<exists>d w. p = Intent d False w \<and> q = Intent d True w)"

lemma ticks_refl [simp]: "ticks p p" by (simp add: ticks_def)

lemma ticks_trans: "ticks p q \<Longrightarrow> ticks q r \<Longrightarrow> ticks p r" by (auto simp: ticks_def)

lemma allowed_clock: "(\<And>q'. ticks q q' \<Longrightarrow> P q') \<Longrightarrow> allowed (protocol inst v) q (ClockRead t) P"
  by (cases q; cases "validityCheck v t") (auto simp: allowed_def ticks_def)

lemma projectAt_id [simp]: "st_lastScaleDecisionID (projectAt inst st d x y t u) = sd_id d"
  by (simp add: projectAt_def Let_def)

lemma wp_project:
  assumes "\<And>st' q'. ticks q q' \<Longrightarrow> st_lastScaleDecisionID st' = sd_id d \<Longrightarrow>
      (st_lastScaleDecisionID st = sd_id d \<longrightarrow> st' = st) \<Longrightarrow> Q st' q'"
  shows "wp (protocol inst v) (projectScaleDecision who d x y st) Q q"
proof (cases "st_lastScaleDecisionID st = sd_id d")
  case True
  then show ?thesis using assms [of q st] by (simp add: projectScaleDecision_def)
next
  case False
  then show ?thesis
    by (auto simp: projectScaleDecision_def wp_bind intro!: allowed_clock assms intro: ticks_trans)
qed

lemma wp_budget: "wp (protocol inst v) (checkDecisionStatusBudget lib who d x y) (\<lambda>_. ticks q) q"
  unfolding checkDecisionStatusBudget_def wp_bind by (rule wp_project) (auto split: option.split)

lemma wp_record:
  assumes "q = Written d \<or> q = Settled d"
  shows "wp (protocol inst v) (recordScaleDecision lib who d x y)
    (\<lambda>r q. case r of Inl _ \<Rightarrow> q = Written d \<or> q = Settled d | Inr _ \<Rightarrow> q = Settled d) q"
  unfolding recordScaleDecision_def
proof (rule wp_mutateStatusChecked [where I = "\<lambda>q. q = Written d \<or> q = Settled d"
      and J = "\<lambda>st q. q = Settled d \<or> st_lastScaleDecisionID st \<noteq> sd_id d"
      and K = "\<lambda>st st' q. st_lastScaleDecisionID st' = sd_id d \<and> (st' = st \<longrightarrow> q = Settled d)"])
  fix q and st :: HPAPlusStatus assume "q = Written d \<or> q = Settled d" "q = Settled d \<or> st_lastScaleDecisionID st \<noteq> sd_id d"
  then show "wp (protocol inst v) (io_bind (projectScaleDecision who d x y st) ok)
      (\<lambda>r q'. (q' = Written d \<or> q' = Settled d) \<and> (\<forall>st'. r = Inr st' \<longrightarrow>
        st_lastScaleDecisionID st' = sd_id d \<and> (st' = st \<longrightarrow> q' = Settled d))) q"
    unfolding wp_bind by (intro wp_project) (auto simp: ticks_def)
qed (use assms in \<open>auto simp: allowed_def split: sum.split\<close>)

section \<open>Decisions\<close>

text \<open>The phases in which a run that gives up may leave an intent \<open>d\<close>.\<close>

definition pendingIntent :: "ScaleDecision \<Rightarrow> phase \<Rightarrow> bool" where
  "pendingIntent d q \<longleftrightarrow> q = NoIntent \<or> (\<exists>c w. q = Intent d c w)"

lemma wp_abandon: "wp (protocol inst v) (abandon who i e) (\<lambda>r q. pendingIntent d q \<and> r = Inl e) (Intent d c w)"
  unfolding abandon_def wp_bind
  by (rule wp_mono [OF wp_clear [of "Intent d c w"]]) (auto simp: clearable_def pendingIntent_def)

definition prepared :: "ScaleDecision \<Rightarrow> ioerror + unit \<Rightarrow> phase \<Rightarrow> bool" where
  "prepared d r q \<longleftrightarrow> (case r of Inl _ \<Rightarrow> pendingIntent d q | Inr _ \<Rightarrow> q = Intent d True True)"

lemma prepared_simps [simp]: "prepared d (Inl e) q \<longleftrightarrow> pendingIntent d q" "prepared d (Inr u) q \<longleftrightarrow> q = Intent d True True"
  by (simp_all add: prepared_def)

lemma wp_prepare: "wp (protocol inst v) (prepareDecision lib inst latest d v) (prepared d) NoIntent"
proof -
  let ?Q = "prepared d"
  have give_up: "wp (protocol inst v) (abandon who i e) ?Q (Intent d c w)" for who i e c w
    by (rule wp_mono [OF wp_abandon]) simp
  have budget: "wp (protocol inst v) (io_bind (checkDecisionStatusBudget lib who d x y) (\<lambda>b. case b of
      Inl e \<Rightarrow> abandon inst (sd_id d) e | Inr _ \<Rightarrow> ok ())) ?Q (Intent d True True)" for who x y
    unfolding wp_bind by (rule wp_mono [OF wp_budget]) (auto simp: ticks_def give_up split: sum.split)
  have owner: "wp (protocol inst v) (recheckOwner lib inst d) ?Q (Intent d True w)" for w
    unfolding recheckOwner_def wp_attempt wp.simps
    by (auto simp: allowed_def give_up budget pendingIntent_def split: sum.split)
  have recheck: "wp (protocol inst v) (recheckDecision lib inst d v) ?Q (Intent d c w)" for c w
    unfolding recheckDecision_def wp_bind wp.simps
    by (auto simp: allowed_def give_up owner split: option.split)
  have journal: "wp (protocol inst v) (attempt (mutateConfigMapData inst (journalMutation v d)) (\<lambda>_. recheckDecision lib inst d v)) ?Q NoIntent"
    unfolding wp_attempt by (rule wp_mono [OF wp_journal]) (auto simp: recheck pendingIntent_def split: sum.splits)
  show ?thesis
    unfolding prepareDecision_def wp_attempt [of _ "checkDecisionStatusBudget _ _ _ _ _"]
    by (rule wp_mono [OF wp_budget]) (auto simp: ticks_def pendingIntent_def journal split: sum.split)
qed

text \<open>What holds when a decision ends: on success no intent is left that is not settled.\<close>

definition concluded :: "(string \<times> (ioerror + HPAPlus)) \<Rightarrow> phase \<Rightarrow> bool" where
  "concluded r q \<longleftrightarrow> (case snd r of Inl _ \<Rightarrow> True | Inr _ \<Rightarrow> q = NoIntent \<or> (\<exists>d. q = Settled d))"

lemma wp_write:
  assumes "writes d (scale\<lparr>sc_specReplicas := sd_desired d\<rparr>)"
  shows "wp (protocol inst v) (writeDecision lib inst scale d) concluded (Intent d True True)"
proof -
  have cleared: "wp (protocol inst v) (io_bind (clearScaleDecision who i) (\<lambda>c. Return (w, f c))) concluded q"
    if "\<And>c q'. clearable q q' \<Longrightarrow> concluded (w, f c) q'" "\<And>d. q \<noteq> Written d" for who i q w f
    unfolding wp_bind using that by (intro wp_mono [OF wp_clear [OF clearable_refl]]) auto
  have reject: "wp (protocol inst v) (io_bind (clearScaleDecision inst (sd_id d)) (\<lambda>c.
      Return (''rejected'', case c of Inl ce \<Rightarrow> Inl ce | Inr _ \<Rightarrow> Inl e))) concluded (Intent d False False)" for e
    by (rule cleared) (auto simp: concluded_def split: sum.split)
  have settle: "wp (protocol inst v) (io_bind (clearScaleDecision inst' (sd_id d)) (\<lambda>c.
      Return (''accepted'', case c of Inl ce \<Rightarrow> Inl ce | Inr _ \<Rightarrow> Inr inst'))) concluded (Settled d)" for inst'
    by (rule cleared) (auto simp: concluded_def clearable_def split: sum.split)
  have account: "wp (protocol inst v) (io_bind (recordScaleDecision lib inst d (sd_desired d) (sd_observed d)) (\<lambda>r. case r of
      Inl e \<Rightarrow> Return (''accepted'', Inl e)
    | Inr inst' \<Rightarrow> io_bind (clearScaleDecision inst' (sd_id d)) (\<lambda>c.
        Return (''accepted'', case c of Inl ce \<Rightarrow> Inl ce | Inr _ \<Rightarrow> Inr inst')))) concluded (Written d)"
    unfolding wp_bind [of _ "recordScaleDecision _ _ _ _ _"]
    by (rule wp_mono [OF wp_record]) (auto simp: settle concluded_def split: sum.splits)
  show ?thesis
    unfolding writeDecision_def wp_bind [of _ "updateScale _"] wp.simps
    using assms by (auto simp: allowed_def reject account concluded_def split: sum.split)
qed

lemma wp_unchanged: "wp (protocol inst v) (unchangedStatus lib who scale n up down v') (\<lambda>_ q. q = NoIntent) NoIntent"
  unfolding unchangedStatus_def
  by (rule wp_mutateStatusChecked [where I = "\<lambda>q. q = NoIntent" and J = "\<lambda>_ _. True" and K = "\<lambda>_ _ _. True"])
    (auto simp: wp_bind allowed_def Let_def split: sum.split option.split)

lemma wp_apply: "wp (protocol inst v) (applyScaleDecision lib inst scale desired up down v i) concluded NoIntent"
proof -
  have unchanged: "wp (protocol inst v) (io_bind (unchangedStatus lib inst scale desired up down v) (\<lambda>r. Return (''unchanged'', r))) concluded NoIntent"
    unfolding wp_bind by (rule wp_mono [OF wp_unchanged]) (auto simp: concluded_def split: sum.split)
  have decide: "wp (protocol inst v) (io_bind (prepareDecision lib inst latest d v) (\<lambda>r. case r of
      Inl e \<Rightarrow> Return (''not_attempted'', Inl e) | Inr _ \<Rightarrow> writeDecision lib inst scale d)) concluded NoIntent"
    if "writes d (scale\<lparr>sc_specReplicas := sd_desired d\<rparr>)" for latest d
    unfolding wp_bind by (rule wp_mono [OF wp_prepare]) (auto simp: wp_write [OF that] concluded_def split: sum.splits)
  show ?thesis
    unfolding applyScaleDecision_def
    by (auto simp: wp_bind [of _ getOwner] wp_bind [of _ readClock] allowed_def Let_def concluded_def unchanged decide writes_def
        split: sum.split option.split)
qed

section \<open>Recovery and observation\<close>

text \<open>What a restarted controller may assume of the journaled decision it finds.\<close>

definition recovered :: "HPAPlus \<Rightarrow> ScaleDecision \<Rightarrow> phase" where
  "recovered inst d =
     (if sd_ownerUID d \<noteq> h_uid inst \<or> sd_target d \<noteq> s_scaleTargetRef (h_spec inst) \<or>
         st_lastScaleDecisionID (h_status inst) = sd_id d
      then Settled d else Written d)"

lemma wp_clear_settled:
  "wp (protocol inst v) (clearScaleDecision who i) (\<lambda>_ q. q = NoIntent \<or> q = Settled d) (Settled d)"
  by (rule wp_mono [OF wp_clear [of "Settled d"]]) (auto simp: clearable_def)

lemma wp_recover:
  "wp (protocol inst v) (recoverScaleDecision lib inst d)
     (\<lambda>r q. r = Inr () \<longrightarrow> q = NoIntent \<or> q = Settled d) (recovered inst d)"
proof -
  let ?Q = "\<lambda>r q. r = Inr () \<longrightarrow> q = NoIntent \<or> q = Settled d"
  have clear: "wp (protocol inst v) (clearScaleDecision who i) ?Q (Settled d)" for who i
    by (rule wp_mono [OF wp_clear_settled]) simp
  have charge: "wp (protocol inst v) (attempt (recordScaleDecision lib inst d x y) (\<lambda>inst'. clearScaleDecision inst' i)) ?Q (Written d)" for x y i
    unfolding wp_attempt by (rule wp_mono [OF wp_record]) (auto simp: clear split: sum.splits)
  show ?thesis
    unfolding recoverScaleDecision_def recovered_def
    by (auto simp: wp_bind [of _ readClock] wp_bind [of _ getScale] allowed_def clear charge nothingToCharge_def
        split: option.split sum.split)
qed

text \<open>A monitor without state: only events that satisfy \<open>P\<close>.\<close>

definition only :: "(event \<Rightarrow> bool) \<Rightarrow> unit monitor" where
  "only P u e = (if P e then Some () else None)"

lemma observe_only: "observe (only P) u t = Some q \<longleftrightarrow> list_all P t"
  by (induction t) (auto simp: only_def)

fun scaleWrite :: "event \<Rightarrow> bool" where
  "scaleWrite (ScaleWrite _ _) = True" | "scaleWrite _ = False"

fun statusWrite :: "event \<Rightarrow> bool" where
  "statusWrite (StatusWrite _ _) = True" | "statusWrite _ = False"

fun historyWrite :: "event \<Rightarrow> bool" where
  "historyWrite (HistoryWrite _ _) = True" | "historyWrite _ = False"

lemma wp_only_history:
  assumes "\<And>data. wp (only (\<lambda>e. \<not> scaleWrite e)) (mutate data) (\<lambda>_ _. True) ()"
  shows "wp (only (\<lambda>e. \<not> scaleWrite e)) (mutateConfigMapData who mutate) (\<lambda>_ _. True) ()"
  unfolding mutateConfigMapData_def mutateHistoryChecked_def
  by (rule wp_mutateLoop [where I = "\<lambda>_. True" and J = "\<lambda>_ _. True" and W = "\<lambda>_ _. True"])
    (auto simp: allowed_def only_def split: sum.split intro: wp_mono [OF assms])

lemma wp_only_record: "wp (only (\<lambda>e. \<not> scaleWrite e)) (recordScaleDecision lib who d x y) (\<lambda>_ _. True) ()"
  unfolding recordScaleDecision_def
  by (rule wp_mutateStatusChecked [where I = "\<lambda>_. True" and J = "\<lambda>_ _. True" and K = "\<lambda>_ _ _. True"])
    (auto simp: allowed_def only_def projectScaleDecision_def wp_bind split: sum.split)

lemma wp_only_recover: "wp (only (\<lambda>e. \<not> scaleWrite e)) (recoverScaleDecision lib inst d) (\<lambda>_ _. True) ()"
proof -
  have clear: "wp (only (\<lambda>e. \<not> scaleWrite e)) (clearScaleDecision who i) (\<lambda>_ _. True) ()" for who i
    unfolding clearScaleDecision_def
    by (rule wp_only_history) (auto simp: clearMutation_def split: option.split)
  have charge: "wp (only (\<lambda>e. \<not> scaleWrite e)) (attempt (recordScaleDecision lib inst d x y) (\<lambda>inst'. clearScaleDecision inst' i)) (\<lambda>_ _. True) ()" for x y i
    unfolding wp_attempt by (rule wp_mono [OF wp_only_record]) (auto simp: clear split: sum.split)
  show ?thesis
    unfolding recoverScaleDecision_def
    by (auto simp: wp_bind [of _ readClock] wp_bind [of _ getScale] allowed_def only_def clear charge
        split: option.split sum.split)
qed

text \<open>Observation: only status writes, and those change nothing but the replica counts of the status just read.\<close>

fun observing :: "Scale \<Rightarrow> HPAPlusStatus option monitor" where
  "observing scale s (OwnerRead r) = Some (case r of Inl _ \<Rightarrow> s | Inr current \<Rightarrow> Some (h_status current))"
| "observing scale s (StatusWrite st r) =
     (case s of
        None \<Rightarrow> None
      | Some base \<Rightarrow>
          if st = observedStatus scale base then Some s else None)"
| "observing scale s (ScaleWrite _ _) = None"
| "observing scale s (HistoryWrite _ _) = None"
| "observing scale s (ScaleRead _) = Some s"
| "observing scale s (HistoryRead _) = Some s"
| "observing scale s (ClockRead _) = Some s"
| "observing scale s (ContextRead _) = Some s"

lemma wp_observe: "wp (observing scale) (observeScaleDecision lib inst scale v) (\<lambda>_ _. True) s"
  unfolding observeScaleDecision_def
  by (rule wp_mutateStatusChecked [where I = "\<lambda>_. True" and J = "\<lambda>st q. q = Some st"
      and K = "\<lambda>st st' q. q = Some st \<and> st' = observedStatus scale st"])
    (auto simp: wp_bind allowed_def split: sum.split option.split)

section \<open>Intents in traces\<close>

text \<open>Where an intent comes from in one step.\<close>

lemma intent_step:
  assumes "protocol inst v q e = Some (Intent d c w)"
  shows "(\<exists>data. e = HistoryWrite data (Inr ()) \<and> d_pendingScale data = Some d \<and> \<not> c \<and> \<not> w) \<or>
    (\<exists>c' w'. q = Intent d c' w' \<and> (\<forall>data'. e \<noteq> HistoryWrite data' (Inr ())) \<and>
        (c \<longrightarrow> c' \<or> (\<exists>u. e = ClockRead u \<and> validityCheck v u = None)) \<and>
        (w \<longrightarrow> w' \<or> (\<exists>current. e = OwnerRead (Inr current) \<and> \<not> ownerChanged inst current)))"
proof (cases e)
  case (OwnerRead r)
  then show ?thesis using assms by (cases r; cases q) (auto split: if_splits)
next
  case (ScaleWrite s r)
  then show ?thesis using assms by (cases q) (auto split: if_splits bool.splits sum.splits)
next
  case (HistoryWrite data r)
  then show ?thesis using assms by (cases "d_pendingScale data"; cases q; cases r) auto
qed (use assms in \<open>cases q; simp split: if_splits sum.splits\<close>)+

lemma intent_origin:
  assumes "observe (protocol inst v) NoIntent t = Some (Intent d c w)"
  shows "\<exists>pre data mid. t = pre @ HistoryWrite data (Inr ()) # mid \<and> d_pendingScale data = Some d \<and>
     (\<forall>data'. HistoryWrite data' (Inr ()) \<notin> set mid) \<and>
     (c \<longrightarrow> (\<exists>u. ClockRead u \<in> set mid \<and> validityCheck v u = None)) \<and>
     (w \<longrightarrow> (\<exists>current. OwnerRead (Inr current) \<in> set mid \<and> \<not> ownerChanged inst current))"
  using assms
proof (induction t arbitrary: c w rule: rev_induct)
  case (snoc e t)
  obtain q where q: "observe (protocol inst v) NoIntent t = Some q" "protocol inst v q e = Some (Intent d c w)"
    using snoc.prems by (auto simp: observe_append bind_eq_Some_conv split: option.splits)
  from intent_step [OF q(2)] show ?case
  proof (elim disjE exE conjE)
    fix data assume "e = HistoryWrite data (Inr ())" "d_pendingScale data = Some d" "\<not> c" "\<not> w"
    then show ?thesis by (intro exI [of _ t] exI [of _ data] exI [of _ "[]"]) simp
  next
    fix c' w' assume q': "q = Intent d c' w'" "\<forall>data'. e \<noteq> HistoryWrite data' (Inr ())"
        "c \<longrightarrow> c' \<or> (\<exists>u. e = ClockRead u \<and> validityCheck v u = None)"
        "w \<longrightarrow> w' \<or> (\<exists>current. e = OwnerRead (Inr current) \<and> \<not> ownerChanged inst current)"
    obtain pre data mid where "t = pre @ HistoryWrite data (Inr ()) # mid" "d_pendingScale data = Some d"
        "\<forall>data'. HistoryWrite data' (Inr ()) \<notin> set mid"
        "c' \<longrightarrow> (\<exists>u. ClockRead u \<in> set mid \<and> validityCheck v u = None)"
        "w' \<longrightarrow> (\<exists>current. OwnerRead (Inr current) \<in> set mid \<and> \<not> ownerChanged inst current)"
      using snoc.IH [OF q(1) [unfolded q'(1)]] by blast
    then show ?thesis using q'(2-4) by (intro exI [of _ pre] exI [of _ data] exI [of _ "mid @ [e]"]) auto
  qed
qed simp

section \<open>One write per run\<close>

text \<open>At most one Scale write, and the Scale is not read.\<close>

fun writesOnce :: "bool monitor" where
  "writesOnce w (ScaleWrite _ _) = (if w then None else Some True)"
| "writesOnce w (ScaleRead _) = None"
| "writesOnce w _ = Some w"

lemma wp_once_history:
  assumes "\<And>data. wp writesOnce (mutate data) (\<lambda>_ w'. w' = w) w"
  shows "wp writesOnce (mutateConfigMapData who mutate) (\<lambda>_ w'. w' = w) w"
  unfolding mutateConfigMapData_def mutateHistoryChecked_def
  by (rule wp_mutateLoop [where I = "\<lambda>w'. w' = w" and J = "\<lambda>_ _. True" and W = "\<lambda>_ w'. w' = w"])
    (auto simp: allowed_def split: sum.split intro: wp_mono [OF assms])

lemma wp_once_status:
  assumes "\<And>st. wp writesOnce (mutate st) (\<lambda>_ w'. w' = w) w"
  shows "wp writesOnce (mutateStatusChecked lib who mutate) (\<lambda>_ w'. w' = w) w"
  by (rule wp_mutateStatusChecked [where I = "\<lambda>w'. w' = w" and J = "\<lambda>_ _. True" and K = "\<lambda>_ _ _. True"])
    (auto simp: allowed_def split: sum.split intro: wp_mono [OF assms])

lemma wp_once_clear: "wp writesOnce (clearScaleDecision who i) (\<lambda>_ w'. w' = w) w"
  unfolding clearScaleDecision_def by (rule wp_once_history) (auto simp: clearMutation_def split: option.split)

lemma wp_once_abandon: "wp writesOnce (abandon who i e) (\<lambda>_ w'. w' = w) w"
  unfolding abandon_def wp_bind by (rule wp_mono [OF wp_once_clear]) simp

lemma wp_once_project: "wp writesOnce (projectScaleDecision who d x y st) (\<lambda>_ w'. w' = w) w"
  by (simp add: projectScaleDecision_def wp_bind allowed_def)

lemma wp_once_budget: "wp writesOnce (checkDecisionStatusBudget lib who d x y) (\<lambda>_ w'. w' = w) w"
  unfolding checkDecisionStatusBudget_def wp_bind by (rule wp_mono [OF wp_once_project]) (auto split: option.split)

lemma wp_once_record: "wp writesOnce (recordScaleDecision lib who d x y) (\<lambda>_ w'. w' = w) w"
  unfolding recordScaleDecision_def
  by (rule wp_once_status) (simp add: wp_bind, rule wp_mono [OF wp_once_project], simp)

lemma wp_once_unchanged: "wp writesOnce (unchangedStatus lib who scale n up down v) (\<lambda>_ w'. w' = w) w"
  unfolding unchangedStatus_def by (rule wp_once_status) (auto simp: wp_bind allowed_def Let_def split: option.split)

lemma wp_once_prepare: "wp writesOnce (prepareDecision lib inst latest d v) (\<lambda>_ w'. w' = w) w"
proof -
  have budget: "wp writesOnce (io_bind (checkDecisionStatusBudget lib who d x y) (\<lambda>b. case b of
      Inl e \<Rightarrow> abandon inst (sd_id d) e | Inr _ \<Rightarrow> ok ())) (\<lambda>_ w'. w' = w) w" for who x y
    unfolding wp_bind by (rule wp_mono [OF wp_once_budget]) (auto simp: wp_once_abandon split: sum.split)
  have owner: "wp writesOnce (recheckOwner lib inst d) (\<lambda>_ w'. w' = w) w"
    unfolding recheckOwner_def wp_attempt by (auto simp: allowed_def wp_once_abandon budget split: sum.split)
  have recheck: "wp writesOnce (recheckDecision lib inst d v) (\<lambda>_ w'. w' = w) w"
    unfolding recheckDecision_def wp_bind by (auto simp: allowed_def wp_once_abandon owner split: option.split)
  have journal: "wp writesOnce (attempt (mutateConfigMapData inst (journalMutation v d)) (\<lambda>_. recheckDecision lib inst d v)) (\<lambda>_ w'. w' = w) w"
    unfolding wp_attempt
    by (rule wp_mono [OF wp_once_history]) (auto simp: journalMutation_def wp_bind allowed_def recheck split: option.split sum.split)
  show ?thesis
    unfolding prepareDecision_def wp_attempt [of _ "checkDecisionStatusBudget _ _ _ _ _"]
    by (rule wp_mono [OF wp_once_budget]) (auto simp: journal split: sum.split)
qed

lemma wp_once_apply: "wp writesOnce (applyScaleDecision lib inst scale desired up down v i) (\<lambda>_ _. True) False"
proof -
  have clear: "wp writesOnce (io_bind (clearScaleDecision who j) (\<lambda>c. Return (f c))) (\<lambda>_ _. True) w" for who j w and f :: "_ \<Rightarrow> string \<times> _"
    unfolding wp_bind by (rule wp_mono [OF wp_once_clear]) simp
  have account: "wp writesOnce (io_bind (recordScaleDecision lib inst d x y) (\<lambda>r. case r of
      Inl e \<Rightarrow> Return (''accepted'', Inl e)
    | Inr inst' \<Rightarrow> io_bind (clearScaleDecision inst' (sd_id d)) (\<lambda>c.
        Return (''accepted'', case c of Inl ce \<Rightarrow> Inl ce | Inr _ \<Rightarrow> Inr inst')))) (\<lambda>_ _. True) True" for d x y
    unfolding wp_bind [of _ "recordScaleDecision _ _ _ _ _"]
    by (rule wp_mono [OF wp_once_record]) (auto simp: clear split: sum.split)
  have "wp writesOnce (writeDecision lib inst scale d) (\<lambda>_ _. True) False" for d
    unfolding writeDecision_def wp_bind [of _ "updateScale _"] wp.simps
    by (auto simp: allowed_def clear account split: sum.split)
  then have decide: "wp writesOnce (io_bind (prepareDecision lib inst latest d v) (\<lambda>r. case r of
      Inl e \<Rightarrow> Return (''not_attempted'', Inl e) | Inr _ \<Rightarrow> writeDecision lib inst scale d)) (\<lambda>_ _. True) False" for latest d
    unfolding wp_bind by (intro wp_mono [OF wp_once_prepare]) (auto split: sum.split)
  have unchanged: "wp writesOnce (io_bind (unchangedStatus lib inst scale desired up down v) (\<lambda>r. Return (''unchanged'', r))) (\<lambda>_ _. True) False"
    unfolding wp_bind by (rule wp_mono [OF wp_once_unchanged]) simp
  show ?thesis
    unfolding applyScaleDecision_def
    by (auto simp: wp_bind [of _ getOwner] wp_bind [of _ readClock] allowed_def Let_def unchanged decide split: sum.split option.split)
qed

fun scaleRead :: "event \<Rightarrow> bool" where
  "scaleRead (ScaleRead _) = True" | "scaleRead _ = False"

lemma writesOnce_step: "writesOnce w e = Some w' \<Longrightarrow> \<not> scaleRead e \<and> (scaleWrite e \<longrightarrow> \<not> w) \<and> (w \<longrightarrow> w')"
  by (cases e) (auto split: if_splits)

lemma writesOnce_written: "observe writesOnce True t = Some w \<Longrightarrow> list_all (\<lambda>e. \<not> scaleWrite e \<and> \<not> scaleRead e) t"
proof (induction t)
  case (Cons e t)
  then obtain w' where "writesOnce True e = Some w'" "observe writesOnce w' t = Some w" by (auto split: option.splits)
  then show ?case using Cons.IH writesOnce_step by fastforce
qed simp

lemma writesOnce_sole:
  assumes "observe writesOnce w (pre @ ScaleWrite s r # post) = Some w'"
  shows "list_all (\<lambda>e. \<not> scaleWrite e) pre \<and> list_all (\<lambda>e. \<not> scaleWrite e \<and> \<not> scaleRead e) post"
  using assms
proof (induction pre arbitrary: w)
  case Nil
  then show ?case using writesOnce_written by (auto split: if_splits)
next
  case (Cons e pre)
  then obtain u where u: "writesOnce w e = Some u" "observe writesOnce u (pre @ ScaleWrite s r # post) = Some w'"
    by (auto split: option.splits)
  have "\<not> scaleWrite e"
  proof
    assume "scaleWrite e"
    then have "u" using u(1) by (cases e) (auto split: if_splits)
    then show False using writesOnce_written u(2) by fastforce
  qed
  then show ?case using Cons.IH [OF u(2)] by simp
qed

text \<open>How a written decision is found to be charged: its status is written, or read back.\<close>

fun charges :: "ScaleDecision \<Rightarrow> event \<Rightarrow> bool" where
  "charges d (StatusWrite st r) \<longleftrightarrow> r = Inr () \<and> st_lastScaleDecisionID st = sd_id d"
| "charges d (OwnerRead r) \<longleftrightarrow> (\<exists>current. r = Inr current \<and> st_lastScaleDecisionID (h_status current) = sd_id d)"
| "charges d _ \<longleftrightarrow> False"

lemma written_step:
  "protocol inst v (Written d) e = Some q \<Longrightarrow> \<not> scaleRead e \<Longrightarrow> q = Written d \<or> charges d e"
  by (cases e) (auto split: if_splits sum.splits option.splits)

lemma written_until_charged:
  "observe (protocol inst v) (Written d) t = Some q \<Longrightarrow> list_all (\<lambda>e. \<not> scaleRead e) t \<Longrightarrow>
    q = Written d \<or> (\<exists>e \<in> set t. charges d e)"
proof (induction t)
  case (Cons e t)
  then obtain q1 where "protocol inst v (Written d) e = Some q1" "observe (protocol inst v) q1 t = Some q"
    by (auto split: option.splits)
  then show ?case using written_step [of inst v d e q1] Cons by auto
qed simp

section \<open>Properties\<close>

text \<open>
  C2: safety. Every Scale write has its durable intent. Wherever a run of \<open>applyScaleDecision\<close> is cut off and
  whatever the API server replied, a Scale write in its trace is the only one, and follows a successful commit
  of the history whose journal holds a decision with exactly the count, target UID and resource version
  being written; no other commit succeeded in between, and since that commit the clock was read at a
  time at which metrics and predictions were still valid, and the owner was read unchanged and not
  being deleted. After the write the run touches the journal again only when the API server definitely
  rejected the write, or after the status that charges the decision was written or read back.
\<close>

theorem scale_write_ahead:
  assumes "steps (applyScaleDecision lib inst scale desired up down v ident) (pre @ ScaleWrite s r # post) p"
  shows "\<exists>prior data mid d. pre = prior @ HistoryWrite data (Inr ()) # mid \<and> d_pendingScale data = Some d \<and>
     sc_specReplicas s = sd_desired d \<and> sc_uid s = sd_targetUID d \<and> sc_resourceVersion s = sd_resourceVersion d \<and>
     (\<forall>data'. HistoryWrite data' (Inr ()) \<notin> set mid) \<and>
     (\<exists>u. ClockRead u \<in> set mid \<and> validityCheck v u = None) \<and>
     (\<exists>current. OwnerRead (Inr current) \<in> set mid \<and> \<not> ownerChanged inst current) \<and>
     list_all (\<lambda>e. \<not> scaleWrite e) (pre @ post) \<and>
     (\<forall>before data' r' rest. post = before @ HistoryWrite data' r' # rest \<longrightarrow>
        (\<exists>e. r = Inl e \<and> rejected e) \<or> (\<exists>e \<in> set before. charges d e))"
proof -
  obtain q where "observe (protocol inst v) NoIntent (pre @ ScaleWrite s r # post) = Some q"
    using wp_sound [OF assms wp_apply] by blast
  then obtain p' p'' where p': "observe (protocol inst v) NoIntent pre = Some p'" "protocol inst v p' (ScaleWrite s r) = Some p''"
      "observe (protocol inst v) p'' post = Some q"
    by (auto simp: observe_append bind_eq_Some_conv simp del: protocol.simps split: option.splits)
  then obtain d where d: "p' = Intent d True True" "writes d s"
    by (auto split: phase.splits bool.splits if_splits)
  obtain w where "observe writesOnce False (pre @ ScaleWrite s r # post) = Some w"
    using wp_sound [OF assms wp_once_apply] by blast
  note once = writesOnce_sole [OF this]
  have charged: "\<exists>e \<in> set before. charges d e"
    if post: "post = before @ HistoryWrite data' r' # rest" and r: "\<nexists>e. r = Inl e \<and> rejected e" for before data' r' rest
  proof -
    have "p'' = Written d" using p'(2) d r by (cases r) auto
    then obtain q1 where q1: "observe (protocol inst v) (Written d) before = Some q1" "protocol inst v q1 (HistoryWrite data' r') \<noteq> None"
      using p'(3) post by (auto simp: observe_append bind_eq_Some_conv simp del: protocol.simps split: option.splits)
    have "q1 \<noteq> Written d" using q1(2) by (auto split: option.splits)
    moreover have "list_all (\<lambda>e. \<not> scaleRead e) before" using once post by (auto simp: list_all_iff)
    ultimately show ?thesis using written_until_charged [OF q1(1)] by blast
  qed
  have "list_all (\<lambda>e. \<not> scaleWrite e) (pre @ post)" using once by (auto simp: list_all_iff)
  then show ?thesis
    using intent_origin [of inst v pre d True True] p'(1) d charged unfolding writes_def by blast
qed

text \<open>
  C4: decisions refine the journal protocol. Every trace of \<open>applyScaleDecision\<close>, complete or cut off, is
  one the protocol allows: no Scale write without a checked intent, and no attempt to clear the journal
  after a Scale write that may have taken effect (accepted, timed out or failed without a definite
  rejection) until the status that charges it has been written or read back. A run that reports success
  leaves no intent behind that is not settled.
\<close>

theorem apply_refines_protocol:
  assumes "steps (applyScaleDecision lib inst scale desired up down v ident) t p"
  shows "\<exists>q. observe (protocol inst v) NoIntent t = Some q \<and>
     (\<forall>outcome inst'. p = Return (outcome, Inr inst') \<longrightarrow> q = NoIntent \<or> (\<exists>d. q = Settled d))"
  using wp_sound [OF assms wp_apply] by (auto simp: concluded_def)

text \<open>
  C7: recovery refines the journal protocol. A restarted controller that finds a journaled decision of
  this owner and target, not yet charged, must assume that its Scale write took effect. Every trace of
  \<open>recoverScaleDecision\<close> then follows the protocol: it clears the journal only after charging the decision,
  after reading back that it was charged, or after reading that there is nothing to charge (the target
  is gone or replaced, or its version shows that no write happened); it never writes the Scale, and
  when it succeeds the decision is settled.
\<close>

theorem recover_refines_protocol:
  assumes "steps (recoverScaleDecision lib inst d) t p"
  shows "\<exists>q. observe (protocol inst v) (recovered inst d) t = Some q \<and>
     (p = Return (Inr ()) \<longrightarrow> q = NoIntent \<or> q = Settled d) \<and> list_all (\<lambda>e. \<not> scaleWrite e) t"
proof -
  have "list_all (\<lambda>e. \<not> scaleWrite e) t" using wp_sound [OF assms wp_only_recover] by (auto simp: observe_only)
  then show ?thesis using wp_sound [OF assms wp_recover [of inst v]] by auto
qed

text \<open>
  Observe mode only reports. In observe mode \<open>applyScaleDecision\<close> makes no call at all; every trace of
  \<open>observeScaleDecision\<close> writes neither Scale nor history, and each status it writes is the status it
  just read with nothing but the current and desired replica counts of the Scale filled in.
\<close>

theorem observe_mode_only_reports:
  "(EffectiveMode (h_spec inst) = ModeObserve \<longrightarrow> steps (applyScaleDecision lib inst scale desired up down v ident) t p \<longrightarrow> t = []) \<and>
   (steps (observeScaleDecision lib inst scale v) t q \<longrightarrow> observe (observing scale) None t \<noteq> None)"
proof (intro conjI impI)
  assume "EffectiveMode (h_spec inst) = ModeObserve" "steps (applyScaleDecision lib inst scale desired up down v ident) t p"
  then show "t = []" by (cases t) (auto simp: applyScaleDecision_def)
next
  assume "steps (observeScaleDecision lib inst scale v) t q"
  then show "observe (observing scale) None t \<noteq> None" using wp_sound [OF _ wp_observe] by blast
qed

section \<open>A run\<close>

definition sampleLibrary :: Library where
  "sampleLibrary = \<lparr>lib_statusBytes = (\<lambda>_. Inr 1000), lib_pathSegment = (\<lambda>_. True), lib_groupVersion = (\<lambda>_. True),
     lib_retries = 3\<rparr>"

definition sampleScale :: Scale where
  "sampleScale = \<lparr>sc_uid = ''s1'', sc_resourceVersion = ''7'', sc_specReplicas = 2, sc_statusReplicas = 2\<rparr>"

definition alwaysValid :: decisionValidity where
  "alwaysValid = \<lparr>dv_metricsUntil = None, dv_predictionsUntil = None\<rparr>"

definition emptyData :: HPAPlusData where
  "emptyData = \<lparr>d_cpuHistorySource = '''', d_schemaVersion = 1, d_targetIdentity = '''', d_modelHistories = Map.empty,
     d_pendingScale = None\<rparr>"

definition sampleDecision :: ScaleDecision where
  "sampleDecision = \<lparr>sd_id = ''d1'', sd_ownerUID = ''u1'',
     sd_target = \<lparr>ref_kind = ''Deployment'', ref_name = ''web'', ref_apiVersion = ''apps/v1''\<rparr>, sd_targetUID = ''s1'',
     sd_resourceVersion = ''7'', sd_previousDesired = 2, sd_desired = 3, sd_observed = 2, sd_time = GoTime second 0,
     sd_scaleUpRecommendations = [], sd_scaleDownRecommendations = []\<rparr>"

definition journaledData :: HPAPlusData where
  "journaledData = emptyData\<lparr>d_pendingScale := Some sampleDecision\<rparr>"

text \<open>A run up to the Scale write, which the process does not survive.\<close>

definition runPrefix :: "event list" where
  "runPrefix =
     [OwnerRead (Inr sampleInstance), ClockRead (GoTime second 0), ClockRead (GoTime second 0),
      ClockRead (GoTime second 0), ClockRead (GoTime second 0),
      OwnerRead (Inr sampleInstance), HistoryRead (Inr emptyData), ClockRead (GoTime second 0),
      OwnerRead (Inr sampleInstance), ContextRead None, HistoryWrite journaledData (Inr ()),
      ClockRead (GoTime second 0), OwnerRead (Inr sampleInstance), ClockRead (GoTime second 0), ClockRead (GoTime second 0)]"

lemma sample_not_changed [simp]: "\<not> ownerChanged sampleInstance sampleInstance"
  by (simp add: ownerChanged_def sampleInstance_def)

lemma sample_budget [simp]:
  "checkAccountingBudget sampleLibrary a b = None" "checkStatusBudget sampleLibrary a b maxStatusBytes = None"
  by (simp_all add: checkAccountingBudget_def checkStatusBudget_def sampleLibrary_def)

lemma alwaysValid [simp]: "validityCheck alwaysValid t = None"
  by (simp add: validityCheck_def alwaysValid_def)

lemma sample_journal [simp]: "d_pendingScale emptyData = None" "emptyData\<lparr>d_pendingScale := Some sampleDecision\<rparr> = journaledData"
  by (simp_all add: emptyData_def journaledData_def)

lemma sample_status [simp]: "st_lastScaleDecisionID (h_status sampleInstance) \<noteq> sd_id sampleDecision"
  by (simp add: sampleInstance_def emptyStatus_def sampleDecision_def)

lemmas mutateLoop_5 = mutateLoop.simps(2) [of 4, unfolded Suc_numeral add_num_simps]

lemma sample_budget_run:
  "resume (checkDecisionStatusBudget sampleLibrary sampleInstance sampleDecision x y) [ClockRead t, ClockRead u] = Some (ok ())"
  by (simp add: checkDecisionStatusBudget_def projectScaleDecision_def)

lemma sample_journal_run:
  "resume (mutateConfigMapData sampleInstance (journalMutation alwaysValid sampleDecision))
     [OwnerRead (Inr sampleInstance), HistoryRead (Inr emptyData), ClockRead t, OwnerRead (Inr sampleInstance), ContextRead None,
      HistoryWrite journaledData (Inr ())] = Some (ok ())"
  by (simp add: mutateConfigMapData_def mutateHistoryChecked_def mutateLoop_5 attempt_def journalMutation_def
      publishCheck_def contextErr_def)

lemma sample_recheck_run:
  "resume (recheckDecision sampleLibrary sampleInstance sampleDecision alwaysValid)
     [ClockRead t, OwnerRead (Inr sampleInstance), ClockRead u, ClockRead w] = Some (ok ())"
  by (simp add: recheckDecision_def recheckOwner_def attempt_def checkDecisionStatusBudget_def projectScaleDecision_def)

lemma sample_prepare_run:
  "resume (prepareDecision sampleLibrary sampleInstance sampleInstance sampleDecision alwaysValid) (drop 3 runPrefix) = Some (ok ())"
proof -
  have split: "drop 3 runPrefix = [ClockRead (GoTime second 0), ClockRead (GoTime second 0)] @
      [OwnerRead (Inr sampleInstance), HistoryRead (Inr emptyData), ClockRead (GoTime second 0),
       OwnerRead (Inr sampleInstance), ContextRead None, HistoryWrite journaledData (Inr ())] @
      [ClockRead (GoTime second 0), OwnerRead (Inr sampleInstance), ClockRead (GoTime second 0), ClockRead (GoTime second 0)]"
    by (simp add: runPrefix_def)
  show ?thesis
    unfolding split prepareDecision_def attempt_def
    by (subst resume_bind [OF sample_budget_run], unfold sum.case, subst resume_bind [OF sample_journal_run], unfold sum.case,
        rule sample_recheck_run)
qed

lemma sample_apply_run:
  "resume (applyScaleDecision sampleLibrary sampleInstance sampleScale 3 [] [] alwaysValid ''d1'') runPrefix =
     Some (writeDecision sampleLibrary sampleInstance sampleScale sampleDecision)"
proof -
  have split: "runPrefix = OwnerRead (Inr sampleInstance) # ClockRead (GoTime second 0) # ClockRead (GoTime second 0) # drop 3 runPrefix @ []"
    by (simp add: runPrefix_def)
  have decision: "\<lparr>sd_id = ''d1'', sd_ownerUID = h_uid sampleInstance, sd_target = s_scaleTargetRef (h_spec sampleInstance),
      sd_targetUID = sc_uid sampleScale, sd_resourceVersion = sc_resourceVersion sampleScale,
      sd_previousDesired = sc_specReplicas sampleScale, sd_desired = 3, sd_observed = sc_statusReplicas sampleScale,
      sd_time = GoTime second 0, sd_scaleUpRecommendations = [], sd_scaleDownRecommendations = []\<rparr> = sampleDecision"
    by (simp add: sampleInstance_def exampleSpec_def sampleScale_def sampleDecision_def)
  have mode: "EffectiveMode (h_spec sampleInstance) \<noteq> ModeObserve" "sc_specReplicas sampleScale \<noteq> 3"
    by (simp_all add: sampleInstance_def exampleSpec_def EffectiveMode_def sampleScale_def)
  show ?thesis
    by (subst split) (simp add: applyScaleDecision_def mode decision resume_bind [OF sample_prepare_run] del: append_Nil2)
qed

abbreviation writtenScale :: Scale where "writtenScale \<equiv> sampleScale\<lparr>sc_specReplicas := 3\<rparr>"

lemma sample_crash:
  "\<exists>p. steps (applyScaleDecision sampleLibrary sampleInstance sampleScale 3 [] [] alwaysValid ''d1'')
     (runPrefix @ [ScaleWrite writtenScale (Inl (Failure ''timeout''))]) p"
proof -
  have "resume p t = Some q \<Longrightarrow> advance q e = Some r \<Longrightarrow> resume p (t @ [e]) = Some r" for p q r :: "'a io" and t e
    by (induction t arbitrary: p) (auto split: option.splits)
  moreover have "advance (writeDecision sampleLibrary sampleInstance sampleScale sampleDecision)
      (ScaleWrite writtenScale (Inl (Failure ''timeout''))) \<noteq> None"
    by (simp add: writeDecision_def sampleDecision_def)
  ultimately show ?thesis unfolding steps_resume using sample_apply_run by blast
qed

theorem scale_write_ahead_witness:
  "\<exists>p prior data mid d. steps (applyScaleDecision sampleLibrary sampleInstance sampleScale 3 [] [] alwaysValid ''d1'')
       (runPrefix @ [ScaleWrite writtenScale (Inl (Failure ''timeout''))]) p \<and>
     runPrefix = prior @ HistoryWrite data (Inr ()) # mid \<and> d_pendingScale data = Some d \<and> sc_specReplicas writtenScale = sd_desired d"
  using sample_crash scale_write_ahead by meson

theorem apply_refines_protocol_witness:
  "\<exists>p q. steps (applyScaleDecision sampleLibrary sampleInstance sampleScale 3 [] [] alwaysValid ''d1'')
       (runPrefix @ [ScaleWrite writtenScale (Inl (Failure ''timeout''))]) p \<and>
     observe (protocol sampleInstance alwaysValid) NoIntent (runPrefix @ [ScaleWrite writtenScale (Inl (Failure ''timeout''))]) = Some q"
  using sample_crash apply_refines_protocol by meson

text \<open>A recovery that finds the target gone.\<close>

definition recoverRun :: "event list" where
  "recoverRun = [ClockRead (GoTime minute 0), ScaleRead (Inl NotFound), OwnerRead (Inr sampleInstance),
     HistoryRead (Inr journaledData), OwnerRead (Inr sampleInstance), ContextRead None, HistoryWrite emptyData (Inr ())]"

lemma sample_recover: "steps (recoverScaleDecision sampleLibrary sampleInstance sampleDecision) recoverRun (ok ())"
proof -
  have valid: "ValidateDecisionAt sampleLibrary sampleDecision (GoTime minute 0) = None"
    by (simp add: ValidateDecisionAt_def ValidateDecision_def sampleDecision_def sampleLibrary_def blankString_def)
  have same: "sd_ownerUID sampleDecision = h_uid sampleInstance" "sd_target sampleDecision = s_scaleTargetRef (h_spec sampleInstance)"
    by (simp_all add: sampleDecision_def sampleInstance_def exampleSpec_def)
  have data: "d_pendingScale journaledData = Some sampleDecision" "journaledData\<lparr>d_pendingScale := None\<rparr> = emptyData"
    by (simp_all add: journaledData_def emptyData_def)
  show ?thesis
    unfolding steps_resume recoverRun_def
    by (simp add: recoverScaleDecision_def valid [simplified] same clearScaleDecision_def mutateConfigMapData_def mutateHistoryChecked_def
        mutateLoop_5 attempt_def clearMutation_def data publishCheck_def contextErr_def)
qed

theorem recover_refines_protocol_witness:
  "\<exists>q. observe (protocol sampleInstance alwaysValid) (Written sampleDecision) recoverRun = Some q \<and>
     (q = NoIntent \<or> q = Settled sampleDecision) \<and> list_all (\<lambda>e. \<not> scaleWrite e) recoverRun"
proof -
  have "recovered sampleInstance sampleDecision = Written sampleDecision"
    by (simp add: recovered_def sampleDecision_def sampleInstance_def exampleSpec_def emptyStatus_def)
  then show ?thesis using recover_refines_protocol [OF sample_recover, of alwaysValid] by auto
qed

theorem observe_mode_only_reports_witness:
  "observe (observing sampleScale) None
     [ContextRead None, OwnerRead (Inr sampleInstance), ClockRead (GoTime second 0),
      StatusWrite (observedStatus sampleScale (h_status sampleInstance)) (Inr ())] \<noteq> None"
proof -
  have "observedStatus sampleScale (h_status sampleInstance) \<noteq> h_status sampleInstance"
    by (simp add: observedStatus_def sampleInstance_def emptyStatus_def sampleScale_def)
  then have "steps (observeScaleDecision sampleLibrary sampleInstance sampleScale alwaysValid)
     [ContextRead None, OwnerRead (Inr sampleInstance), ClockRead (GoTime second 0),
      StatusWrite (observedStatus sampleScale (h_status sampleInstance)) (Inr ())]
     (ok (sampleInstance\<lparr>h_status := observedStatus sampleScale (h_status sampleInstance)\<rparr>))"
    unfolding steps_resume
    by (simp add: observeScaleDecision_def mutateStatusChecked_def sampleLibrary_def numeral_3_eq_3 statusAttempt_def attempt_def
        contextErr_def saveStatus_def checkStatusBudget_def)
  then show ?thesis by (rule observe_mode_only_reports [THEN conjunct2, THEN mp])
qed

end
