(* ===== verification/HistoryWriters.thy ===== *)
theory HistoryWriters
  imports JournalProtocol ModelBackoff ForecastQuality
begin

text \<open>
  The other writers of the history, as programs over the calls of \<open>Effects\<close>: retention, model
  completions and failures, reliability evaluation and the binding to a target (all under
  \<open>src/internal/controllers\<close>), and the status side of that binding. Their mutations share a contract,
  the locale \<open>journal_keeping\<close>: they read nothing but the clock and leave the scale journal as they found
  it. What the contract gives is proved once in the locale and holds for every writer by interpretation.
\<close>

section \<open>Mutations\<close>

text \<open>A pure mutation as an action; its error is a failure.\<close>

definition pureMutation :: "(bool \<times> HPAPlusData) result \<Rightarrow> (bool \<times> HPAPlusData) action" where
  "pureMutation r = Return (case r of Inl e \<Rightarrow> Inl (Failure e) | Inr v \<Rightarrow> Inr v)"

definition retainAction :: "Model \<Rightarrow> string \<Rightarrow> mutation" where
  "retainAction model target data =
     io_bind readClock (\<lambda>t1. io_bind readClock (\<lambda>t2.
       pureMutation (rbind (retainMutation model target t1 t2 data) (\<lambda>(changed, data', retained). Inr (changed, data')))))"

definition retainModelHistory :: "HPAPlus \<Rightarrow> Model \<Rightarrow> string \<Rightarrow> unit action" where
  "retainModelHistory inst model target = mutateConfigMapData inst (retainAction model target)"

text \<open>\<open>persistModelFailure\<close> reads the clock once before its attempts and, with a training deadline, once in each.\<close>

definition failureAction ::
  "RetryPolicy \<Rightarrow> HPAPlus \<Rightarrow> string \<Rightarrow> int64 \<Rightarrow> string \<Rightarrow> string \<Rightarrow> gotime option \<Rightarrow> ModelHistory option list \<Rightarrow> gotime \<Rightarrow> mutation" where
  "failureAction p inst name epoch target fingerprint deadline expected now data =
     io_bind (if deadline = None then Return now else readClock) (\<lambda>t.
       pureMutation (failureMutation p inst name epoch target fingerprint deadline expected now t data))"

definition persistModelFailure ::
  "RetryPolicy \<Rightarrow> HPAPlus \<Rightarrow> string \<Rightarrow> int64 \<Rightarrow> string \<Rightarrow> string \<Rightarrow> gotime option \<Rightarrow> ModelHistory option list \<Rightarrow> unit action" where
  "persistModelFailure p inst name epoch target fingerprint deadline expected =
     attempt contextErr (\<lambda>_. io_bind readClock (\<lambda>now.
       mutateConfigMapData inst (failureAction p inst name epoch target fingerprint deadline expected now)))"

text \<open>The reliability state a completed forecast leaves; \<open>issued\<close> is the clock reading for a verification target.\<close>

definition completedReliability ::
  "HPAPlus \<Rightarrow> string \<Rightarrow> ForecastVerification option \<Rightarrow> string \<Rightarrow> gotime \<Rightarrow> ForecastReliabilityState option \<Rightarrow> ForecastReliabilityState option" where
  "completedReliability inst name verification adaptation issued state =
     (if \<exists>m \<in> set (s_models (h_spec inst)). m_name m = name \<and> m_forecastReliability m = None then None
      else map_option (\<lambda>s.
        let s1 = (if adaptation \<noteq> '''' then Adapted s adaptation else s)
        in case verification of
             Some v \<Rightarrow> Record s1 (Some (v\<lparr>fv_issuedAt := format_time (t_utc issued)\<rparr>))
           | None \<Rightarrow> s1\<lparr>frs_adaptation := ''Unsupported'', frs_adaptationPending := False\<rparr>) state)"

text \<open>The mutation of \<open>persistModelResultWithReliability\<close>, with the clock readings of an attempt.\<close>

definition resultMutation ::
  "HPAPlus \<Rightarrow> string \<Rightarrow> int64 \<Rightarrow> string \<Rightarrow> gotime \<Rightarrow> CachedPrediction option \<Rightarrow> gotime option \<Rightarrow> ForecastVerification option \<Rightarrow>
   string \<Rightarrow> ModelHistory option list \<Rightarrow> gotime \<Rightarrow> gotime \<Rightarrow> gotime \<Rightarrow> HPAPlusData \<Rightarrow> (bool \<times> HPAPlusData) result" where
  "resultMutation inst name epoch target latestSample cached deadline verification adaptation expected now1 now2 issued d =
     (if (case deadline of None \<Rightarrow> False | Some t \<Rightarrow> \<not> before now1 t) then Inl ''prediction inputs expired before write; evaluate again''
      else if d_targetIdentity d \<noteq> target then Inr (False, d)
      else case d_modelHistories d name of
          None \<Rightarrow> Inr (False, d)
        | Some h \<Rightarrow>
            if mh_historyEpoch h \<noteq> epoch \<or> ValidateWindow h now2 \<noteq> None then Inr (False, d)
            else if \<not> sameCompletionState h expected then Inr (False, d)
            else if cached = None \<and> mh_failureState h = None \<and>
                (case mh_lastModelRunTime h of None \<Rightarrow> False | Some t \<Rightarrow> same_instant t latestSample) then Inr (False, d)
            else if (case mh_lastModelRunTime h of None \<Rightarrow> False | Some t \<Rightarrow> after t latestSample) then Inr (False, d)
            else (case LatestTimestamp (mh_replicaHistory h) of
                None \<Rightarrow> Inr (False, d)
              | Some latest \<Rightarrow>
                  if before latest latestSample then Inr (False, d)
                  else Inr (True, d\<lparr>d_modelHistories := (d_modelHistories d)(name \<mapsto>
                    h\<lparr>mh_reliability := completedReliability inst name verification adaptation issued (mh_reliability h),
                      mh_lastModelRunTime := Some latestSample, mh_cachedPrediction := cached, mh_failureState := None\<rparr>)\<rparr>)))"

definition resultAction ::
  "HPAPlus \<Rightarrow> string \<Rightarrow> int64 \<Rightarrow> string \<Rightarrow> gotime \<Rightarrow> CachedPrediction option \<Rightarrow> gotime option \<Rightarrow> ForecastVerification option \<Rightarrow>
   string \<Rightarrow> ModelHistory option list \<Rightarrow> mutation" where
  "resultAction inst name epoch target latestSample cached deadline verification adaptation expected data =
     io_bind readClock (\<lambda>t1. io_bind readClock (\<lambda>t2. io_bind readClock (\<lambda>t3.
       pureMutation (resultMutation inst name epoch target latestSample cached deadline verification adaptation expected t1 t2 t3 data))))"

definition persistModelResult ::
  "HPAPlus \<Rightarrow> string \<Rightarrow> int64 \<Rightarrow> string \<Rightarrow> gotime option \<Rightarrow> CachedPrediction option \<Rightarrow> gotime option \<Rightarrow> ForecastVerification option \<Rightarrow>
   string \<Rightarrow> ModelHistory option list \<Rightarrow> unit action" where
  "persistModelResult inst name epoch target latestSample cached deadline verification adaptation expected =
     (case latestSample of
        None \<Rightarrow> ok ()
      | Some t \<Rightarrow> mutateConfigMapData inst (resultAction inst name epoch target t cached deadline verification adaptation expected))"

text \<open>The observation as \<open>internal/metrics/observation.go\<close> has it, without the reported metric status.\<close>

record CPUObservationSnapshot =
  co_metricsValidUntil :: "gotime option"
  co_metricsIncomplete :: bool
  co_targetIdentity :: string
  co_sourceID :: string
  co_sourceTime :: gotime
  co_utilization :: "float64 option"
  co_totalUsageMillicores :: "int64 option"
  co_requestPerPodMillicores :: "int64 option"
  co_targetUtilizationPercentage :: "int32 option"

definition usableObservation :: "CPUObservationSnapshot \<Rightarrow> gotime \<Rightarrow> int64 option" where
  "usableObservation ob now =
     (if \<not> co_metricsIncomplete ob \<and> co_sourceID ob \<noteq> '''' \<and>
         (case co_metricsValidUntil ob of None \<Rightarrow> False | Some t \<Rightarrow> before now t)
      then co_totalUsageMillicores ob else None)"

text \<open>
  The mutation of \<open>evaluateForecastReliability\<close>. \<open>Observe\<close> yields \<open>None\<close> where the code would panic; the
  evaluated history is kept by the caller and not part of the mutation.
\<close>

definition reliabilityMutation ::
  "Model \<Rightarrow> ForecastReliabilityPolicy \<Rightarrow> int64 \<Rightarrow> CPUObservationSnapshot \<Rightarrow> string \<Rightarrow> gotime \<Rightarrow> HPAPlusData \<Rightarrow> (bool \<times> HPAPlusData) result" where
  "reliabilityMutation model policy epoch ob fingerprint now d =
     (case d_modelHistories d (m_name model) of
        None \<Rightarrow> Inl ''forecast reliability identity changed''
      | Some h \<Rightarrow>
          if mh_type h \<noteq> m_type model \<or> mh_historyEpoch h \<noteq> epoch \<or> d_targetIdentity d \<noteq> co_targetIdentity ob
          then Inl ''forecast reliability identity changed''
          else
            let s0 = Ensure (mh_reliability h) fingerprint;
                s1 = (case usableObservation ob now of
                        None \<Rightarrow> Some s0
                      | Some usage \<Rightarrow> Observe s0 policy (co_sourceTime ob) usage now)
            in (case s1 of
                  None \<Rightarrow> Inl ''panic''
                | Some s \<Rightarrow>
                    if mh_reliability h = Some s then Inr (False, d)
                    else Inr (True, d\<lparr>d_modelHistories := (d_modelHistories d)(m_name model \<mapsto> h\<lparr>mh_reliability := Some s\<rparr>)\<rparr>)))"

definition reliabilityAction ::
  "Model \<Rightarrow> ForecastReliabilityPolicy \<Rightarrow> int64 \<Rightarrow> CPUObservationSnapshot \<Rightarrow> string \<Rightarrow> mutation" where
  "reliabilityAction model policy epoch ob fingerprint data =
     io_bind readClock (\<lambda>now. pureMutation (reliabilityMutation model policy epoch ob fingerprint now data))"

definition evaluateForecastReliability ::
  "HPAPlus \<Rightarrow> Model \<Rightarrow> ForecastReliabilityPolicy \<Rightarrow> int64 \<Rightarrow> CPUObservationSnapshot \<Rightarrow> string \<Rightarrow> unit action" where
  "evaluateForecastReliability inst model policy epoch ob fingerprint =
     mutateConfigMapData inst (reliabilityAction model policy epoch ob fingerprint)"

text \<open>
  Binding to a target. The identity is a SHA-256 of reference and UID, a parameter here; \<open>source\<close> is the
  provider's name or \<open>legacy-injected\<close>.
\<close>

definition targetMutation :: "string \<Rightarrow> string \<Rightarrow> mutation" where
  "targetMutation identity source data =
     (if d_targetIdentity data = identity \<and> d_cpuHistorySource data = source then ok (False, data)
      else ok (True, data\<lparr>d_targetIdentity := identity, d_cpuHistorySource := source, d_modelHistories := Map.empty\<rparr>))"

definition ensureTargetHistory :: "(ObjectReference \<Rightarrow> string \<Rightarrow> string) \<Rightarrow> HPAPlus \<Rightarrow> Scale \<Rightarrow> string \<Rightarrow> unit action" where
  "ensureTargetHistory targetIdentity inst scale source =
     (if sc_uid scale = '''' then fail (Failure ''scale target has no workload UID'')
      else mutateConfigMapData inst (targetMutation (targetIdentity (s_scaleTargetRef (h_spec inst)) (sc_uid scale)) source))"

definition boundStatus :: "string \<Rightarrow> Scale \<Rightarrow> HPAPlusStatus \<Rightarrow> HPAPlusStatus" where
  "boundStatus identity scale st =
     (let st1 = (if st_targetIdentity st \<noteq> '''' \<and> st_targetIdentity st \<noteq> identity
                 then st\<lparr>st_scaleUpEventHistory := [], st_scaleDownEventHistory := [], st_scaleUpReplicaHistory := [],
                         st_scaleDownReplicaHistory := [], st_lastScaleTime := None, st_lastScaleDecisionID := ''''\<rparr>
                 else st)
      in st1\<lparr>st_targetIdentity := identity, st_desiredReplicas := sc_specReplicas scale, st_currentReplicas := sc_statusReplicas scale\<rparr>)"

definition syncTargetStatus :: "Library \<Rightarrow> HPAPlus \<Rightarrow> Scale \<Rightarrow> string \<Rightarrow> HPAPlus action" where
  "syncTargetStatus lib inst scale identity =
     (if st_targetIdentity (h_status inst) = identity then ok inst
      else mutateStatusChecked lib inst (\<lambda>st. ok (boundStatus identity scale st)))"

section \<open>The contract of a history writer\<close>

fun clockOnly :: "event \<Rightarrow> bool" where
  "clockOnly (ClockRead _) = True" | "clockOnly _ = False"

definition keepsJournal :: "HPAPlusData \<Rightarrow> ioerror + (bool \<times> HPAPlusData) \<Rightarrow> bool" where
  "keepsJournal data r = (case r of Inl _ \<Rightarrow> True | Inr (c, data') \<Rightarrow> d_pendingScale data' = d_pendingScale data)"

text \<open>
  What a trace of a writer must look like: neither Scale nor status is written, and every history written
  holds the journal of the history read last.
\<close>

fun journalKept :: "ScaleDecision option option monitor" where
  "journalKept s (HistoryRead r) = Some (case r of Inl _ \<Rightarrow> s | Inr data \<Rightarrow> Some (d_pendingScale data))"
| "journalKept s (HistoryWrite data r) = (if s = Some (d_pendingScale data) then Some s else None)"
| "journalKept s (ScaleWrite _ _) = None"
| "journalKept s (StatusWrite _ _) = None"
| "journalKept s (ScaleRead _) = Some s"
| "journalKept s (OwnerRead _) = Some s"
| "journalKept s (ClockRead _) = Some s"
| "journalKept s (ContextRead _) = Some s"

text \<open>A program restricted to events a monitor ignores leaves its state alone.\<close>

lemma wp_ignored:
  assumes "\<And>e s. P e \<Longrightarrow> mon s e = Some s"
  shows "wp (only P) p (\<lambda>r _. Q r) () \<Longrightarrow> wp mon p (\<lambda>r s'. s' = s \<and> Q r) s"
  by (induction p) (simp_all add: allowed_def only_def assms split: if_splits)

locale journal_keeping =
  fixes mutate :: mutation
  assumes keeps: "wp (only clockOnly) (mutate data) (\<lambda>r _. keepsJournal data r) ()"
begin

lemma wp_mutate: "wp journalKept (mutate data) (\<lambda>r s'. s' = s \<and> keepsJournal data r) s"
proof (rule wp_ignored [OF _ keeps])
  show "journalKept s e = Some s" if "clockOnly e" for e s using that by (cases e) simp_all
qed

lemma wp_kept: "wp journalKept (mutateConfigMapData inst mutate) (\<lambda>_ _. True) s"
  unfolding mutateConfigMapData_def mutateHistoryChecked_def
proof (rule wp_mutateLoop [where I = "\<lambda>_. True" and J = "\<lambda>data q. q = Some (d_pendingScale data)"
      and W = "\<lambda>data q. q = Some (d_pendingScale data)"])
  fix q and data :: HPAPlusData assume "q = Some (d_pendingScale data)"
  then show "wp journalKept (mutate data) (\<lambda>r q'. case r of Inl e \<Rightarrow> True
      | Inr (c, data') \<Rightarrow> if c then True \<and> q' = Some (d_pendingScale data') else True) q"
    by (intro wp_mono [OF wp_mutate]) (auto simp: keepsJournal_def split: sum.splits)
qed (auto simp: allowed_def split: sum.split)

lemma kept: "steps (mutateConfigMapData inst mutate) t p \<Longrightarrow> observe journalKept None t \<noteq> None"
  using wp_sound [OF _ wp_kept] by blast

end

section \<open>The writers keep the contract\<close>

definition resultKeeps :: "HPAPlusData \<Rightarrow> (bool \<times> HPAPlusData) result \<Rightarrow> bool" where
  "resultKeeps data r = (case r of Inl _ \<Rightarrow> True | Inr v \<Rightarrow> d_pendingScale (snd v) = d_pendingScale data)"

lemma resultKeeps_simps [simp]: "resultKeeps data (Inl e)" "resultKeeps data (Inr v) \<longleftrightarrow> d_pendingScale (snd v) = d_pendingScale data"
  by (simp_all add: resultKeeps_def)

lemma keepsJournal_pure: "resultKeeps data r \<Longrightarrow> wp (only clockOnly) (pureMutation r) (\<lambda>r _. keepsJournal data r) ()"
  by (cases r) (auto simp: pureMutation_def keepsJournal_def)

lemma allowed_clockOnly [simp]: "allowed (only clockOnly) u (ClockRead t) P = P ()"
  by (simp add: allowed_def only_def)

lemma retainMutation_keeps:
  "resultKeeps data (rbind (retainMutation model target t u data) (\<lambda>(changed, data', retained). Inr (changed, data')))"
  by (cases "d_modelHistories data (m_name model)")
    (auto simp: retainMutation_def rbind_def split: sum.split)

lemma failureMutation_keeps: "resultKeeps data (failureMutation p inst name epoch target fp dl expected now t data)"
  by (simp add: failureMutation_def split: option.split)

lemma resultMutation_keeps: "resultKeeps data (resultMutation inst name epoch target s cached dl ver ad expected t u w data)"
  by (cases "d_modelHistories data name"; cases dl) (simp_all add: resultMutation_def split: option.split)

lemma reliabilityMutation_keeps: "resultKeeps data (reliabilityMutation model policy epoch ob fp now data)"
  by (simp add: reliabilityMutation_def Let_def split: option.split)

interpretation retain: journal_keeping "retainAction model target" for model target
  by unfold_locales (simp add: retainAction_def keepsJournal_pure retainMutation_keeps)

interpretation failure: journal_keeping "failureAction p inst name epoch target fp dl expected now"
  for p inst name epoch target fp dl expected now
  by unfold_locales (simp add: failureAction_def keepsJournal_pure failureMutation_keeps)

interpretation completion: journal_keeping "resultAction inst name epoch target s cached dl ver ad expected"
  for inst name epoch target s cached dl ver ad expected
  by unfold_locales (simp add: resultAction_def keepsJournal_pure resultMutation_keeps)

interpretation reliability: journal_keeping "reliabilityAction model policy epoch ob fp" for model policy epoch ob fp
  by unfold_locales (simp add: reliabilityAction_def keepsJournal_pure reliabilityMutation_keeps)

interpretation binding: journal_keeping "targetMutation identity source" for identity source
  by unfold_locales (simp add: targetMutation_def keepsJournal_def)

section \<open>Properties\<close>

text \<open>
  C31: the background writers of the history never touch the scale journal. In every trace, complete or
  cut off, of retention, of a persisted forecast result or failure, of the reliability evaluation and
  of the binding to a (new) target, the Scale and the status are not written, and each history that is
  written carries exactly the pending decision of the history read last, so with the store's
  compare-and-swap an intent is neither lost nor invented by them.
\<close>

theorem history_writers_keep_journal:
  assumes "steps (retainModelHistory inst model target) t p \<or>
     steps (persistModelFailure policy inst name epoch target fp deadline expected) t p \<or>
     steps (persistModelResult inst name epoch target sample cached deadline verification adaptation expected) t p \<or>
     steps (evaluateForecastReliability inst model rpolicy epoch ob fp) t p \<or>
     steps (ensureTargetHistory identityOf inst scale source) t p"
  shows "observe journalKept None t \<noteq> None"
proof -
  have failure: "wp journalKept (persistModelFailure policy inst name epoch target fp deadline expected) (\<lambda>_ _. True) None"
    unfolding persistModelFailure_def contextErr_def
    by (auto simp: wp_attempt wp_bind allowed_def failure.wp_kept split: option.split)
  have result: "wp journalKept (persistModelResult inst name epoch target sample cached deadline verification adaptation expected) (\<lambda>_ _. True) None"
    by (cases sample) (auto simp: persistModelResult_def completion.wp_kept)
  have target: "wp journalKept (ensureTargetHistory identityOf inst scale source) (\<lambda>_ _. True) None"
    by (auto simp: ensureTargetHistory_def binding.wp_kept)
  show ?thesis
    using assms
  proof (elim disjE)
    assume "steps (retainModelHistory inst model target) t p"
    then show ?thesis unfolding retainModelHistory_def by (rule retain.kept)
  next
    assume "steps (evaluateForecastReliability inst model rpolicy epoch ob fp) t p"
    then show ?thesis unfolding evaluateForecastReliability_def by (rule reliability.kept)
  qed (use wp_sound [OF _ failure] wp_sound [OF _ result] wp_sound [OF _ target] in fastforce)+
qed

definition bindRun :: "event list" where
  "bindRun = [OwnerRead (Inr sampleInstance), HistoryRead (Inr journaledData), OwnerRead (Inr sampleInstance), ContextRead None,
     HistoryWrite (journaledData\<lparr>d_targetIdentity := ''t'', d_cpuHistorySource := ''kubelet''\<rparr>) (Inr ())]"

theorem history_writers_keep_journal_witness:
  "steps (ensureTargetHistory (\<lambda>_ _. ''t'') sampleInstance sampleScale ''kubelet'') bindRun (ok ()) \<and>
   observe journalKept None bindRun \<noteq> None"
proof -
  have "steps (ensureTargetHistory (\<lambda>_ _. ''t'') sampleInstance sampleScale ''kubelet'') bindRun (ok ())"
    unfolding steps_resume bindRun_def
    by (simp add: ensureTargetHistory_def sampleScale_def targetMutation_def mutateConfigMapData_def mutateHistoryChecked_def
        mutateLoop_5 attempt_def publishCheck_def contextErr_def journaledData_def emptyData_def)
  then show ?thesis
    using history_writers_keep_journal [where identityOf = "\<lambda>_ _. ''t''" and inst = sampleInstance and scale = sampleScale
        and source = "''kubelet''" and t = bindRun and p = "ok ()"] by blast
qed

text \<open>A persisted failure always changes the failure state, short of the largest count.\<close>

lemma failureState_differs:
  assumes "ValidateRetry policy = None" "maximumOf policy mod second = 0" "second \<le> ns now" "fp \<noteq> ''''"
    and "failureMutation policy inst name epoch target fp deadline expected now tried d = Inr (True, d')"
    and "d_modelHistories d name = Some h" "\<forall>s. mh_failureState h = Some s \<longrightarrow> mf_consecutiveFailures s < max_int32"
    and "d_modelHistories d' name = Some h'"
  shows "mh_failureState h' \<noteq> mh_failureState h \<and> sameCompletionState h expected"
proof -
  obtain s where s: "d' = d\<lparr>d_modelHistories := (d_modelHistories d)(name \<mapsto> h\<lparr>mh_failureState := Some s\<rparr>)\<rparr>"
      "mf_consecutiveFailures s = nextFailures policy h fp now" "validFailureState policy (Some s) fp now"
    using persisted_failure_backs_off [OF assms(1-5)] assms(6) by auto
  have "mh_failureState h \<noteq> Some s"
  proof
    assume "mh_failureState h = Some s"
    then show False using s(2,3) assms(7) by (auto simp: nextFailures_def)
  qed
  moreover have "sameCompletionState h expected"
    using assms(5,6) by (auto simp: failureMutation_def split: if_splits)
  ultimately show ?thesis using s(1) assms(8) by auto
qed

text \<open>A completion with another prediction than the one cached, or with none, changes the completion state.\<close>

lemma completion_differs:
  assumes "resultMutation inst name epoch target sample cached deadline verification adaptation [Some seen] now1 now2 issued d = Inr (True, d')"
    and "cached = None \<or> cached \<noteq> mh_cachedPrediction seen" "d_modelHistories d' name = Some h'"
  shows "\<not> sameCompletionState h' [Some seen]"
proof
  obtain h where h: "sameCompletionState h [Some seen]"
      "\<not> (cached = None \<and> mh_failureState h = None \<and> (case mh_lastModelRunTime h of None \<Rightarrow> False | Some t \<Rightarrow> same_instant t sample))"
      "h' = h\<lparr>mh_reliability := completedReliability inst name verification adaptation issued (mh_reliability h),
         mh_lastModelRunTime := Some sample, mh_cachedPrediction := cached, mh_failureState := None\<rparr>"
    using assms(1,3) by (auto simp: resultMutation_def split: if_splits option.splits)
  assume "sameCompletionState h' [Some seen]"
  then have "mh_lastModelRunTime seen = Some sample" "mh_cachedPrediction seen = cached" "mh_failureState seen = None"
    by (auto simp: sameCompletionState_def h(3))
  then show False using h(1,2) assms(2) by (auto simp: sameCompletionState_def)
qed

text \<open>
  C11: safety. A model run publishes at most one outcome. Once an outcome computed from the history \<open>seen\<close> has
  been persisted, be it a result (with a prediction other than the one already cached, or none) or a failure
  (under a retry policy that validation accepts and whose maximum is a whole number of seconds, and short of
  the largest failure count), no second result or failure computed from the same \<open>seen\<close> is written to any
  later data in which the model's completion state is unchanged, whatever samples were appended meanwhile.
\<close>

theorem completion_published_once:
  assumes "outcome = resultMutation inst name epoch target sample cached deadline verification adaptation [Some seen] now1 now2 issued d \<and>
        (cached = None \<or> cached \<noteq> mh_cachedPrediction seen) \<or>
      outcome = failureMutation policy inst name epoch target fp deadline [Some seen] now1 now2 d \<and>
        ValidateRetry policy = None \<and> maximumOf policy mod second = 0 \<and> second \<le> ns now1 \<and> fp \<noteq> '''' \<and>
        (\<forall>s. mh_failureState seen = Some s \<longrightarrow> mf_consecutiveFailures s < max_int32)"
    and "outcome = Inr (True, d')"
    and "d_modelHistories d' name = Some h'" "d_modelHistories later name = Some h''" "sameCompletionState h'' [Some h']"
  shows "(resultMutation inst2 name epoch2 target2 sample2 cached2 deadline2 verification2 adaptation2 [Some seen] t u w later = Inr r
          \<longrightarrow> r = (False, later)) \<and>
     (failureMutation policy2 inst2 name epoch2 target2 fp2 deadline2 [Some seen] t u later = Inr r \<longrightarrow> r = (False, later))"
proof -
  have "\<not> sameCompletionState h' [Some seen]" using assms(1)
  proof (elim disjE conjE)
    assume "outcome = failureMutation policy inst name epoch target fp deadline [Some seen] now1 now2 d"
      and policy: "ValidateRetry policy = None" "maximumOf policy mod second = 0" "second \<le> ns now1" "fp \<noteq> ''''"
      and few: "\<forall>s. mh_failureState seen = Some s \<longrightarrow> mf_consecutiveFailures s < max_int32"
    then have f: "failureMutation policy inst name epoch target fp deadline [Some seen] now1 now2 d = Inr (True, d')"
      using assms(2) by simp
    then obtain h where h: "d_modelHistories d name = Some h" "sameCompletionState h [Some seen]"
      by (auto simp: failureMutation_def split: if_splits option.splits)
    then have "\<forall>s. mh_failureState h = Some s \<longrightarrow> mf_consecutiveFailures s < max_int32"
      using few by (auto simp: sameCompletionState_def)
    from failureState_differs [OF policy f h(1) this assms(3)] h(2)
    show ?thesis by (auto simp: sameCompletionState_def)
  qed (use completion_differs assms(2,3) in \<open>blast+\<close>)
  then have "\<not> sameCompletionState h'' [Some seen]" using assms(5) by (auto simp: sameCompletionState_def)
  then show ?thesis
    using assms(4) by (auto simp: resultMutation_def failureMutation_def split: if_splits option.splits)
qed

definition completedHistory :: ModelHistory where
  "completedHistory = agedHistory\<lparr>mh_lastModelRunTime := Some (GoTime (2 * hour) 0)\<rparr>"

definition completedData :: HPAPlusData where
  "completedData = failingData\<lparr>d_modelHistories := [''m'' \<mapsto> completedHistory]\<rparr>"

lemma sample_completion:
  "resultMutation sampleInstance ''m'' 3 ''t'' (GoTime (2 * hour) 0) None None None '''' [Some agedHistory]
     (GoTime (2 * hour) 0) (GoTime (2 * hour) 0) (GoTime (2 * hour) 0) failingData = Inr (True, completedData)"
proof -
  have sel: "mh_historyEpoch agedHistory = 3" "mh_failureState agedHistory = None" "mh_lastModelRunTime agedHistory = Some (GoTime second 0)"
      "mh_reliability agedHistory = None" "mh_cachedPrediction agedHistory = None"
      "LatestTimestamp (mh_replicaHistory agedHistory) = Some (GoTime (2 * hour) 0)"
    by (simp_all add: agedHistory_def LatestTimestamp_def trainingRow_def)
  have data: "d_targetIdentity failingData = ''t''" "d_modelHistories failingData = [''m'' \<mapsto> agedHistory]"
    by (simp_all add: failingData_def)
  have eq: "agedHistory\<lparr>mh_reliability := None, mh_lastModelRunTime := Some (GoTime (2 * hour) 0), mh_cachedPrediction := None,
      mh_failureState := None\<rparr> = completedHistory"
    by (simp add: completedHistory_def agedHistory_def)
  show ?thesis using agedHistory_valid
    by (simp add: resultMutation_def data sel sameCompletionState_def completedReliability_def eq [simplified] completedData_def)
qed

lemma resultMutation_succeeds: "is_ok (resultMutation inst name epoch target s cached None ver ad expected t u w data)"
  by (cases "d_modelHistories data name") (simp_all add: resultMutation_def split: option.split)

definition failedHistory :: ModelHistory where
  "failedHistory = agedHistory\<lparr>mh_failureState := Some (failureState zeroPolicy sampleInstance agedHistory ''fp'' (GoTime (2 * hour) 0))\<rparr>"

definition failedData :: HPAPlusData where
  "failedData = failingData\<lparr>d_modelHistories := (d_modelHistories failingData)(''m'' \<mapsto> failedHistory)\<rparr>"

lemma sample_failure:
  "failureMutation zeroPolicy sampleInstance ''m'' 3 ''t'' ''fp'' None [Some agedHistory] (GoTime (2 * hour) 0) (GoTime (2 * hour) 0)
     failingData = Inr (True, failedData)"
proof -
  have "mh_historyEpoch agedHistory = 3" "d_targetIdentity failingData = ''t''" "d_modelHistories failingData = [''m'' \<mapsto> agedHistory]"
    by (simp_all add: agedHistory_def failingData_def)
  then show ?thesis using agedHistory_valid
    by (simp add: failureMutation_def sameCompletionState_def failedData_def failedHistory_def)
qed

text \<open>After a result, and after a failure, the same run publishes nothing more.\<close>

theorem completion_published_once_witness:
  "resultMutation sampleInstance ''m'' 3 ''t'' (GoTime (2 * hour) 0) None None None '''' [Some agedHistory]
     (GoTime (2 * hour) 0) (GoTime (2 * hour) 0) (GoTime (2 * hour) 0) completedData = Inr (False, completedData) \<and>
   resultMutation sampleInstance ''m'' 3 ''t'' (GoTime (2 * hour) 0) None None None '''' [Some agedHistory]
     (GoTime (2 * hour) 0) (GoTime (2 * hour) 0) (GoTime (2 * hour) 0) failedData = Inr (False, failedData)"
proof -
  let ?now = "GoTime (2 * hour) 0"
  have h: "d_modelHistories completedData ''m'' = Some completedHistory" "sameCompletionState completedHistory [Some completedHistory]"
      "d_modelHistories failedData ''m'' = Some failedHistory" "sameCompletionState failedHistory [Some failedHistory]"
    by (simp_all add: completedData_def failedData_def sameCompletionState_def)
  have again: "\<exists>r. resultMutation sampleInstance ''m'' 3 ''t'' ?now None None None '''' [Some agedHistory] ?now ?now ?now data = Inr r" for data
    using resultMutation_succeeds unfolding is_ok_iff by blast
  have policy: "ValidateRetry zeroPolicy = None" "maximumOf zeroPolicy mod second = 0" "mh_failureState agedHistory = None" "''fp'' \<noteq> ''''"
    by (simp_all add: zeroPolicy_def maximumOf_def agedHistory_def ValidateRetry_def)
  obtain r where r: "resultMutation sampleInstance ''m'' 3 ''t'' ?now None None None '''' [Some agedHistory] ?now ?now ?now completedData = Inr r"
    using again by blast
  have "r = (False, completedData)"
    using completion_published_once [OF disjI1 [OF conjI [OF refl disjI1 [OF refl]]] sample_completion h(1,1,2)] r by blast
  moreover obtain r' where r': "resultMutation sampleInstance ''m'' 3 ''t'' ?now None None None '''' [Some agedHistory] ?now ?now ?now failedData = Inr r'"
    using again by blast
  have "r' = (False, failedData)"
    by (rule completion_published_once [THEN conjunct1, THEN mp, OF disjI2 sample_failure h(3,3,4) r']) (use policy in auto)
  ultimately show ?thesis using r r' by simp
qed

end
