(* ===== verification/Validation.thy ===== *)
theory Validation
  imports ScaleJournal Demand
begin

text \<open>
  The admission of a resource: \<open>src/internal/validation\<close> (\<open>validation.go\<close>, \<open>nested.go\<close>,
  \<open>request_demand.go\<close>) with \<open>ValidateConfig\<close> of \<open>src/internal/workloaddemand/traffic.go\<close>. Every check is
  a branch in the order of the source; an error is its text without the operands, and the wrappers
  that only add the model's name or the metric's index are left out. Properties of a validated
  resource, which hold in the components that rely on them, are in the theories that import this one.
\<close>

section \<open>Library functions\<close>

text \<open>
  What the checks use of other libraries: \<open>url.Parse\<close>, the header checks of \<open>httpguts\<close>,
  \<open>IsQualifiedName\<close> and \<open>LabelSelectorAsSelector\<close>, beside \<open>Library\<close>.
\<close>

record parsedURL =
  url_scheme :: string
  url_hostname :: string
  url_fragment :: string
  url_hasUser :: bool

record ValidationLibrary =
  vl_base :: Library
  vl_parseURL :: "string \<Rightarrow> parsedURL option"
  vl_headerName :: "string \<Rightarrow> bool"
  vl_headerValue :: "string \<Rightarrow> bool"
  vl_qualifiedName :: "string \<Rightarrow> bool"
  vl_selector :: "string \<Rightarrow> bool"

section \<open>Scalar checks\<close>

definition validDuration :: "int64 \<Rightarrow> duration \<Rightarrow> int64 \<Rightarrow> bool" where
  "validDuration value unt minimum \<longleftrightarrow> value \<ge> minimum \<and> value \<le> go_div max_int64 unt"

definition notFinite :: "float64 \<Rightarrow> bool" where
  "notFinite v \<longleftrightarrow> f_is_nan v \<or> f_is_inf v"

definition finiteNonnegative :: "float64 \<Rightarrow> bool" where
  "finiteNonnegative v \<longleftrightarrow> \<not> f_is_nan v \<and> \<not> f_is_inf v \<and> f_le (f_of_int 0) v"

definition oneOf :: "string \<Rightarrow> string list \<Rightarrow> bool" where
  "oneOf value choices \<longleftrightarrow> value \<in> set choices"

text \<open>\<open>value < lo || value > hi\<close> on \<open>float64\<close>, the bounds being constants rounded to \<open>float64\<close>.\<close>

definition outside :: "rat \<Rightarrow> rat \<Rightarrow> float64 \<Rightarrow> bool" where
  "outside lo hi v \<longleftrightarrow> f_lt v (round64 lo) \<or> f_lt (round64 hi) v"

section \<open>Request demand\<close>

text \<open>The regular expressions \<open>metricName\<close> and \<open>labelName\<close>.\<close>

definition letter :: "char \<Rightarrow> bool" where
  "letter c \<longleftrightarrow> (65 \<le> (of_char c :: nat) \<and> (of_char c :: nat) \<le> 90) \<or> (97 \<le> (of_char c :: nat) \<and> (of_char c :: nat) \<le> 122) \<or> c = CHR ''_''"

definition digit :: "char \<Rightarrow> bool" where
  "digit c \<longleftrightarrow> 48 \<le> (of_char c :: nat) \<and> (of_char c :: nat) \<le> 57"

definition metricName :: "string \<Rightarrow> bool" where
  "metricName s = (case s of [] \<Rightarrow> False | c # cs \<Rightarrow>
     (letter c \<or> c = CHR '':'') \<and> list_all (\<lambda>d. letter d \<or> digit d \<or> d = CHR '':'') cs)"

definition labelName :: "string \<Rightarrow> bool" where
  "labelName s = (case s of [] \<Rightarrow> False | c # cs \<Rightarrow> letter c \<and> list_all (\<lambda>d. letter d \<or> digit d) cs)"

definition labels :: "TrafficProviderConfig \<Rightarrow> string \<times> string \<times> string" where
  "labels t =
     (if tp_namespaceLabel t = '''' then ''namespace'' else tp_namespaceLabel t,
      if tp_podLabel t = '''' then ''pod'' else tp_podLabel t,
      if tp_podUIDLabel t = '''' then ''pod_uid'' else tp_podUIDLabel t)"

definition reservedMetrics :: "string list" where
  "reservedMetrics = [''cpu_usage'', ''memory_usage'', ''cpu_throttled'', ''cpu_pressure'', ''requested_replicas'',
     ''ready_replicas'', ''running_replicas'', ''cpu_request_per_pod'']"

fun extraMetricsLoop :: "string list \<Rightarrow> DemandExtraMetric list \<Rightarrow> error option" where
  "extraMetricsLoop names [] = None"
| "extraMetricsLoop names (m # ms) =
     andThen (firstError
       [(\<not> labelName (dx_name m) \<or> dx_name m \<in> set names \<or> take 8 (dx_name m) = ''traffic_'',
         ''extra metric names must be unique valid names outside reserved traffic_ prefix''),
        (\<not> metricName (dx_metric m) \<or> dx_unit m = '''' \<or> length (dx_unit m) > 64 \<or>
         \<not> oneOf (dx_kind m) [''gauge'', ''counter''] \<or> dx_maxAgeSeconds m < 0 \<or> dx_maxAgeSeconds m > 120,
         ''extra metrics require a metric name, unit, gauge/counter kind and at most 120 seconds age'')])
     (extraMetricsLoop (dx_name m # names) ms)"

definition validateTraffic :: "TrafficProviderConfig \<Rightarrow> error option" where
  "validateTraffic t =
     (case labels t of (nsl, pod, uid) \<Rightarrow>
        andThen (firstError
          [(tp_provider t \<noteq> ''prometheus'' \<or> tp_arrivalSemantics t \<noteq> ''started'' \<or> tp_completionSemantics t \<noteq> ''finished'' \<or>
            \<not> oneOf (tp_retrySemantics t) [''attempts'', ''original''],
            ''requestDemand requires prometheus, explicit started/finished counters and attempts/original retry semantics''),
           (tp_arrivalsMetric t = tp_completionsMetric t, ''arrival and completion counters must be distinct''),
           (\<not> metricName (tp_arrivalsMetric t) \<or> \<not> metricName (tp_completionsMetric t), ''invalid required counter name''),
           (\<exists>m \<in> set [tp_errorsMetric t, tp_outcomesMetric t, tp_latencyBucketMetric t]. m \<noteq> '''' \<and> \<not> metricName m,
            ''invalid metric name''),
           (\<not> labelName nsl \<or> \<not> labelName pod \<or> \<not> labelName uid \<or> nsl = pod \<or> nsl = uid \<or> pod = uid,
            ''namespace, pod and pod UID labels must be distinct valid label names''),
           (length (tp_additionalLabels t) > 16, ''at most sixteen additional labels are supported'')])
        (andThen (eachError (\<lambda>(k, v). firstError
            [(length v > 256, ''additional label values must be at most 256 bytes''),
             (\<not> labelName k \<or> k = nsl \<or> k = pod \<or> k = uid \<or> k = ''le'',
              ''additional labels cannot override workload scope or histogram boundary'')]) (tp_additionalLabels t))
          (firstError [(tp_maxAgeSeconds t < 0 \<or> tp_maxAgeSeconds t > 30,
            ''traffic maxAgeSeconds must be between 1 and 30, or omitted'')])))"

definition ValidateConfig :: "RequestDemandConfig \<Rightarrow> error option" where
  "ValidateConfig c =
     andThen (firstError
       [(rd_forecastIntervalSeconds c \<notin> {0, 5, 10, 15, 30}, ''request forecast interval must be 5, 10, 15 or 30 seconds''),
        (rd_forecastTarget c = ''reconstructedCPU'' \<and> rd_forecastIntervalSeconds c \<noteq> 0 \<and> rd_forecastIntervalSeconds c \<noteq> 30,
         ''reconstructedCPU forecasts use the thirty-second grid''),
        (\<not> oneOf (rd_forecastTarget c) ['''', ''arrivals'', ''reconstructedCPU''],
         ''request forecast target must be arrivals or reconstructedCPU'')])
     (andThen (validateTraffic (rd_traffic c))
       (andThen (firstError [(length (rd_extraMetrics c) > 16, ''at most sixteen optional metrics are supported'')])
         (extraMetricsLoop reservedMetrics (rd_extraMetrics c))))"

definition validateDemandModel :: "HPAPlusSpec \<Rightarrow> Model \<Rightarrow> error option" where
  "validateDemandModel spec model =
     (case m_requestDemand model of
        None \<Rightarrow> None
      | Some config \<Rightarrow>
          andThen (firstError
            [(s_syncPeriod spec \<noteq> Some 30000, ''requestDemand requires an explicit 30000 millisecond syncPeriod''),
             (m_type model \<noteq> TypeXGBoost \<or> m_xgboost model = None, ''requestDemand is supported only by XGBoost''),
             (\<not> present (\<lambda>x. xgb_forecastStrategy x = ''direct'') (m_xgboost model),
              ''requestDemand requires XGBoost direct forecast strategy''),
             (m_predictivePolicy model = None \<or> m_predictionMaxAge model = None,
              ''requestDemand requires predictivePolicy and predictionMaxAge''),
             (s_predictionFailurePolicy spec \<noteq> PredictionFailureHoldCurrent,
              ''requestDemand requires predictionFailurePolicy HoldCurrent''),
             (s_includeHPA spec \<noteq> Some False \<or> EffectiveMode spec = ModeAssist,
              ''requestDemand requires explicit includeHPA false and control or observe mode'')])
          (ValidateConfig config))"

definition validateRequestDemand :: "HPAPlusSpec \<Rightarrow> error option" where
  "validateRequestDemand spec =
     andThen (firstError [(\<not> oneOf (s_predictionFailurePolicy spec) ['''', PredictionFailureHoldCurrent, PredictionFailureReactive],
         ''predictionFailurePolicy must be HoldCurrent or Reactive'')])
       (eachError (validateDemandModel spec) (s_models spec))"

section \<open>Specification\<close>

definition validateSpec :: "HPAPlusSpec \<Rightarrow> error option" where
  "validateSpec spec =
     andThen (validateRequestDemand spec) (firstError
       [(\<not> oneOf (EffectiveMode spec) [ModeObserve, ModeAssist, ModeControl], ''spec.mode must be observe, assist or control''),
        (s_maxReplicas spec < 1 \<or> present (\<lambda>m. m < 0) (s_minReplicas spec), ''maxReplicas must be >= 1 and minReplicas must be >= 0''),
        (present (\<lambda>t. \<not> finiteNonnegative t) (s_tolerance spec), ''tolerance must be finite and >= 0''),
        (present (\<lambda>v. \<not> validDuration v millisecond 1) (s_syncPeriod spec),
         ''syncPeriod must be a positive representable duration in milliseconds''),
        (present (\<lambda>v. \<not> validDuration v millisecond 1) (s_metricMaxAge spec),
         ''metricMaxAge must be a positive representable duration in milliseconds''),
        (present (\<lambda>v. \<not> validDuration v second 0) (s_cpuInitializationPeriod spec) \<or>
         present (\<lambda>v. \<not> validDuration v second 0) (s_initialReadinessDelay spec),
         ''CPU initialization and readiness delays must be non-negative representable durations in seconds''),
        (present (\<lambda>d. \<not> oneOf d [''maximum'', ''minimum'', ''mean'', ''median'']) (s_decisionType spec),
         ''decisionType must be maximum, minimum, mean, or median'')])"

definition validateMinMax :: "HPAPlusSpec \<Rightarrow> error option" where
  "validateMinMax spec =
     firstError
       [(present (\<lambda>m. s_maxReplicas spec < m) (s_minReplicas spec), ''spec.maxReplicas cannot be less than spec.minReplicas''),
        (s_minReplicas spec = Some 0 \<and> \<not> list_ex (\<lambda>m. oneOf (ms_type m) [''Object'', ''External'']) (s_metrics spec),
         ''spec.minReplicas can only be 0 if you have at least 1 object or external metric configured'')]"

section \<open>Models\<close>

definition validateReliability :: "ForecastReliabilityPolicy \<Rightarrow> error option" where
  "validateReliability policy =
     (let p = Effective policy in firstError
        [(frp_calibrationSamples p < 10 \<or> frp_calibrationSamples p > 100 \<or> frp_window p < 2 \<or> frp_window p > 20 \<or>
          frp_breaches p < 2 \<or> frp_breaches p > frp_window p \<or> wrap64 (frp_breaches p * 2) \<le> frp_window p \<or>
          notFinite (frp_minimumRelativeError p) \<or> outside (1 / 1000) 1 (frp_minimumRelativeError p),
          ''forecastReliability requires 10..100 calibration samples, a 2..20 window, a strict majority of at least two breaches, and minimumRelativeError in [0.001, 1]'')])"

definition validatePredictivePolicy :: "Model \<Rightarrow> PredictivePolicy \<Rightarrow> error option" where
  "validatePredictivePolicy model p =
     firstError
       [(\<not> UsesCPUHistory (m_type model) \<or> m_predictionMaxAge model = None,
         ''predictivePolicy requires a supported CPU forecasting model and predictionMaxAge''),
        (pp_scaleUpLeadSeconds p < 0 \<or> pp_scaleUpLeadSeconds p > 3600 \<or> notFinite (EffectiveTolerance p) \<or>
         outside 0 (1 / 5) (EffectiveTolerance p),
         ''predictivePolicy requires lead time 0..3600 seconds and finite tolerance 0..0.2''),
        (pp_scaleUpLeadFromStartup p \<and> m_requestDemand model = None,
         ''predictivePolicy.scaleUpLeadFromStartup requires requestDemand'')]"

definition configCount :: "Model \<Rightarrow> nat" where
  "configCount m = length (filter (\<lambda>b. b) [m_linear m \<noteq> None, m_holtWinters m \<noteq> None, m_arima m \<noteq> None, m_xgboost m \<noteq> None, m_lightgbm m \<noteq> None])"

definition xgboostObjectives :: "string list" where
  "xgboostObjectives = [''reg:squarederror'', ''reg:squaredlogerror'', ''reg:absoluteerror'', ''reg:pseudohubererror'',
     ''count:poisson'', ''reg:gamma'', ''reg:tweedie'', ''reg:quantileerror'', ''survival:aft'']"

definition lightgbmObjectives :: "string list" where
  "lightgbmObjectives = [''regression'', ''regression_l2'', ''l2'', ''mean_squared_error'', ''mse'', ''regression_l1'', ''l1'',
     ''mean_absolute_error'', ''mae'', ''huber'', ''fair'', ''poisson'', ''quantile'', ''mape'',
     ''mean_absolute_percentage_error'', ''gamma'', ''tweedie'']"

definition validateXGBoostObjective :: "XGBoost \<Rightarrow> error option" where
  "validateXGBoostObjective x =
     (let quantile = (xgb_objective x = Some ''reg:quantileerror''); aft = (xgb_objective x = Some ''survival:aft'') in
      firstError (
        [(present (\<lambda>v. notFinite v \<or> outside 0 2 v) (xgb_cpuDemandWeightExponent x),
          ''cpuDemandWeightExponent must be finite and in [0, 2]''),
         (\<not> oneOf (xgb_forecastStrategy x) ['''', ''recursive'', ''direct''], ''XGBoost forecastStrategy must be recursive or direct''),
         (\<not> oneOf (xgb_forecastAggregation x) ['''', ''last'', ''maximum''], ''XGBoost forecastAggregation must be last or maximum''),
         (present (\<lambda>v. \<not> oneOf v xgboostObjectives) (xgb_objective x),
          ''XGBoost objective must predict CPU demand using a supported regression objective'')] @
        (if aft then
           [(present (\<lambda>b. \<not> b) (xgb_useUtilizationFeatures x), ''survival:aft requires utilization features''),
            (xgb_forecastStrategy x \<noteq> ''direct'' \<or> xgb_aftLossDistributionScale x = None \<or> xgb_cpuCensoringUtilizationThreshold x = None,
             ''survival:aft requires direct forecasting, aftLossDistributionScale and cpuCensoringUtilizationThreshold''),
            (present (\<lambda>v. notFinite v \<or> outside (1 / 20) 2 v) (xgb_aftLossDistributionScale x),
             ''aftLossDistributionScale must be finite and in [0.05, 2]''),
            (present (\<lambda>v. notFinite v \<or> outside 90 10000 v) (xgb_cpuCensoringUtilizationThreshold x),
             ''cpuCensoringUtilizationThreshold must be finite and in [90, 10000]'')]
         else
           [(xgb_aftLossDistributionScale x \<noteq> None \<or> xgb_cpuCensoringUtilizationThreshold x \<noteq> None,
             ''AFT parameters require objective survival:aft'')]) @
        [(quantile \<noteq> (xgb_quantileAlpha x \<noteq> None) \<or>
          present (\<lambda>v. notFinite v \<or> f_le v (f_of_int 0) \<or> f_le (f_of_int 1) v) (xgb_quantileAlpha x),
          ''XGBoost reg:quantileerror requires one finite quantileAlpha strictly between zero and one; other objectives must omit it'')]))"

definition numericParameters :: "Model \<Rightarrow> float64 option list" where
  "numericParameters model =
     (case m_lightgbm model of
        Some x \<Rightarrow> [lgb_learningRate x, lgb_subsample x, lgb_colsampleBytree x, lgb_regLambda x, lgb_regAlpha x]
      | None \<Rightarrow> (case m_xgboost model of
          Some x \<Rightarrow> [xgb_learningRate x, xgb_subsample x, xgb_colsampleBytree x, xgb_minChildWeight x, xgb_gamma x, xgb_regLambda x, xgb_regAlpha x]
        | None \<Rightarrow> []))"

text \<open>\<open>andOpt f x\<close>: the check \<open>f\<close> of a configuration block that is present.\<close>

definition andOpt :: "('a \<Rightarrow> error option) \<Rightarrow> 'a option \<Rightarrow> error option" where
  "andOpt f x = (case x of None \<Rightarrow> None | Some v \<Rightarrow> f v)"

lemma andOpt_simps [simp]: "andOpt f None = None" "andOpt f (Some v) = f v"
  by (simp_all add: andOpt_def)

definition validateModelBasics :: "Model \<Rightarrow> error option" where
  "validateModelBasics model =
     andThen (andOpt validateReliability (m_forecastReliability model))
     (andThen (andOpt (validatePredictivePolicy model) (m_predictivePolicy model))
     (andThen (firstError
       [(\<not> UsesCPUHistory (m_type model), ''unknown model type''),
        (configCount model > 1, ''only one model configuration block is allowed''),
        (present (\<lambda>v. \<not> validDuration v millisecond 1) (m_calculationTimeout model),
         ''calculationTimeout must be a positive representable duration in milliseconds''),
        (present (\<lambda>v. v < 1) (m_perSyncPeriod model), ''perSyncPeriod must be >= 1''),
        (present (\<lambda>v. \<not> validDuration v millisecond 1) (m_predictionMaxAge model),
         ''predictionMaxAge must be a positive representable duration in milliseconds''),
        (present (\<lambda>v. \<not> validDuration v millisecond 1) (m_historyMaxAge model),
         ''historyMaxAge must be a positive representable duration in milliseconds''),
        (present (\<lambda>v. v \<le> 0) (m_startInterval model), ''startInterval must be positive''),
        (present (\<lambda>v. v \<le> 0) (m_resetDuration model), ''resetDuration must be positive'')])
     (andThen (andOpt validateXGBoostObjective (m_xgboost model))
     (andThen (andOpt (\<lambda>x. firstError [(present (\<lambda>v. \<not> oneOf v lightgbmObjectives) (lgb_objective x),
         ''LightGBM objective must predict CPU demand using a supported regression objective'')]) (m_lightgbm model))
     (firstError
       [(list_ex (present notFinite) (numericParameters model), ''model numeric parameters must be finite''),
        (present (\<lambda>x. present (\<lambda>v. f_lt v (f_of_int 0)) (xgb_minChildWeight x) \<or> present (\<lambda>v. f_lt v (f_of_int 0)) (xgb_gamma x))
           (m_xgboost model),
         ''XGBoost minChildWeight and gamma must be >= 0'')])))))"

text \<open>
  \<open>validateModelHistory\<close>. The number of samples it takes as retained dereferences the block of the
  model's type: \<open>Inl\<close> is that panic or an error of the Holt-Winters block.
\<close>

definition nilPointer :: error where "nilPointer = ''nil pointer dereference''"

definition holtWintersRetained :: "HoltWinters \<Rightarrow> int64 result" where
  "holtWintersRetained hw =
     (if hw_seasonalPeriods hw < 2 \<or> hw_storedSeasons hw < 1 \<or> hw_seasonalPeriods hw > go_div max_int64 2 - 10 \<or>
         hw_storedSeasons hw > go_div max_int64 (hw_seasonalPeriods hw)
      then Inl ''Holt-Winters requires seasonalPeriods >= 2 and positive, non-overflowing storedSeasons''
      else
        let retained = wrap64 (hw_seasonalPeriods hw * hw_storedSeasons hw);
            minimum = wrap64 (2 * hw_seasonalPeriods hw);
            heuristic = wrap64 (10 + wrap64 (2 * go_div (hw_seasonalPeriods hw) 2));
            least = (if heuristic > minimum then heuristic else minimum);
            forms = [''add'', ''additive'', ''mul'', ''multiplicative'']
        in if retained < least then Inl ''Holt-Winters retained history must be >= initialization minimum''
           else if \<not> oneOf (hw_trend hw) forms \<or> \<not> oneOf (hw_seasonal hw) forms
           then Inl ''Holt-Winters trend and seasonal must be add/additive or mul/multiplicative''
           else (case eachError (\<lambda>v. case v of
                     None \<Rightarrow> if hw_runtimeTuningFetchHook hw = None
                             then Some ''Holt-Winters requires alpha, beta, and gamma or a runtime tuning hook'' else None
                   | Some x \<Rightarrow> if \<not> finiteNonnegative x \<or> f_lt (f_of_int 1) x
                               then Some ''Holt-Winters alpha, beta, and gamma must be finite and in [0, 1]'' else None)
                   [hw_alpha hw, hw_beta hw, hw_gamma hw] of
               Some e \<Rightarrow> Inl e
             | None \<Rightarrow> Inr retained))"

definition retainedSize :: "Model \<Rightarrow> int64 result" where
  "retainedSize model =
     (if m_type model = TypeLinear then (case m_linear model of None \<Rightarrow> Inl nilPointer | Some l \<Rightarrow> Inr (lin_historySize l))
      else if m_type model = TypeXGBoost then (case m_xgboost model of None \<Rightarrow> Inl nilPointer | Some x \<Rightarrow> Inr (xgb_historySize x))
      else if m_type model = TypeLightGBM then (case m_lightgbm model of None \<Rightarrow> Inl nilPointer | Some x \<Rightarrow> Inr (lgb_historySize x))
      else if m_type model = TypeArima then
        (case m_arima model of None \<Rightarrow> Inl nilPointer | Some a \<Rightarrow> Inr (opt_default DefaultARIMAHistorySize (ar_historySize a)))
      else if m_type model = TypeHoltWinters then (case m_holtWinters model of None \<Rightarrow> Inl nilPointer | Some hw \<Rightarrow> holtWintersRetained hw)
      else Inr 0)"

text \<open>The nominal sampling interval in milliseconds: at least a second, in whole seconds.\<close>

definition nominalPeriod :: "int64 option \<Rightarrow> int64" where
  "nominalPeriod syncPeriod =
     (let p0 = opt_default DefaultSyncPeriodMillis syncPeriod; p1 = (if p0 < 1000 then 1000 else p0)
      in wrap64 (go_div (wrap64 (p1 + 999)) 1000 * 1000))"

definition validateModelHistory :: "Model \<Rightarrow> int64 option \<Rightarrow> error option" where
  "validateModelHistory model syncPeriod =
     (if m_predictivePolicy model \<noteq> None \<and> present (\<lambda>age. age \<le> opt_default DefaultSyncPeriodMillis syncPeriod) (m_predictionMaxAge model)
      then Some ''timed predictionMaxAge must exceed the sampling cadence so a prediction remains usable at its timestamp''
      else case retainedSize model of
        Inl e \<Rightarrow> Some e
      | Inr retained \<Rightarrow> firstError
          [(present (\<lambda>n. n > retained) (m_perSyncPeriod model), ''perSyncPeriod cannot exceed retained history''),
           (present (\<lambda>age. go_div age (nominalPeriod syncPeriod) < retained) (m_historyMaxAge model),
            ''historyMaxAge must retain samples at a nominal sampling interval'')])"

definition validateHook :: "ValidationLibrary \<Rightarrow> HookDefinition \<Rightarrow> error option" where
  "validateHook vl hook =
     (case hd_http hook of
        None \<Rightarrow> Some ''runtimeTuningFetchHook requires type http and an HTTP configuration''
      | Some h \<Rightarrow> firstError
          [(hd_type hook \<noteq> ''http'', ''runtimeTuningFetchHook requires type http and an HTTP configuration''),
           (\<not> validDuration (hd_timeout hook) millisecond 1, ''hook timeout must be a positive representable millisecond duration''),
           (case vl_parseURL vl (hh_url h) of
              None \<Rightarrow> True
            | Some u \<Rightarrow> url_hostname u = '''' \<or> \<not> oneOf (url_scheme u) [''http'', ''https''] \<or> url_fragment u \<noteq> '''' \<or> url_hasUser u,
            ''hook URL must be an absolute HTTP(S) URL without credentials or a fragment''),
           (\<not> oneOf (hh_method h) [''GET'', ''HEAD'', ''POST'', ''PUT'', ''DELETE'', ''CONNECT'', ''OPTIONS'', ''TRACE'', ''PATCH''],
            ''unsupported hook HTTP method''),
           (\<not> oneOf (hh_parameterMode h) [''query'', ''body''], ''hook parameterMode must be query or body''),
           (hh_successCodes h = [], ''hook successCodes must not be empty''),
           (list_ex (\<lambda>code. code < 100 \<or> code > 599) (hh_successCodes h), ''hook successCodes must be between 100 and 599''),
           (list_ex (\<lambda>(name, value). \<not> vl_headerName vl name \<or> \<not> vl_headerValue vl value) (hh_headers h),
            ''hook headers contain an invalid name or value'')])"

definition validateInitialization :: "HoltWinters \<Rightarrow> error option" where
  "validateInitialization hw =
     (let method = opt_default ''estimated'' (hw_initializationMethod hw) in
      andThen (firstError [(\<not> oneOf method [''estimated'', ''heuristic'', ''known'', ''legacy-heuristic''],
          ''invalid Holt-Winters initializationMethod'')])
        (eachError (\<lambda>value. firstError
           [(method = ''known'' \<and> value = None, ''known initialization requires initialLevel, initialTrend, and initialSeasonal''),
            (method \<noteq> ''known'' \<and> value \<noteq> None, ''initial values require initializationMethod known''),
            (present notFinite value, ''Holt-Winters initial values must be finite'')])
          [hw_initialLevel hw, hw_initialTrend hw, hw_initialSeasonal hw]))"

definition hasCPUUtilization :: "HPAPlusSpec \<Rightarrow> bool" where
  "hasCPUUtilization spec =
     list_ex (\<lambda>m. ms_type m = ''Resource'' \<and>
       present (\<lambda>(name, target). name = ''cpu'' \<and> mt_type target = ''Utilization'' \<and> present (\<lambda>u. u > 0) (mt_averageUtilization target))
         (ms_resource m)) (s_metrics spec)"

definition validateHoltWinters :: "ValidationLibrary \<Rightarrow> bool \<Rightarrow> HoltWinters option \<Rightarrow> error option" where
  "validateHoltWinters vl cpu block =
     (case block of
        None \<Rightarrow> Some ''type is HoltWinters but no Holt Winters configuration provided''
      | Some hw \<Rightarrow>
          andThen (firstError
            [(\<not> cpu, ''Holt-Winters CPU-history prediction requires a CPU resource metric with averageUtilization configured''),
             (present (\<lambda>v. \<not> validDuration v millisecond 1) (hw_lookAhead hw), ''Holt-Winters lookAhead must be a positive millisecond duration'')])
          (andThen (andOpt (validateHook vl) (hw_runtimeTuningFetchHook hw)) (validateInitialization hw)))"

definition validateLinear :: "bool \<Rightarrow> Linear option \<Rightarrow> error option" where
  "validateLinear cpu block =
     (case block of
        None \<Rightarrow> Some ''type is Linear but no Linear Regression configuration provided''
      | Some l \<Rightarrow> firstError
          [(\<not> cpu, ''Linear CPU-history prediction requires a CPU resource metric with averageUtilization configured''),
           (lin_historySize l < 2 \<or> lin_lookAhead l < 1, ''Linear historySize must be >= 2 and lookAhead must be >= 1'')])"

definition arimaSeasonal :: "Arima \<Rightarrow> bool" where
  "arimaSeasonal a \<longleftrightarrow> ar_useSarima a = Some True \<or> ar_seasonalOrder a \<noteq> None \<or> ar_seasonalPeriods a \<noteq> None"

definition validateArima :: "Arima option \<Rightarrow> error option" where
  "validateArima block =
     (case block of
        None \<Rightarrow> Some ''type is ARIMA but no ARIMA configuration provided''
      | Some a \<Rightarrow>
          let seasonal = arimaSeasonal a; auto = (ar_autoArima a = Some True) in firstError
          [(length (ar_order a) \<noteq> 3, ''ARIMA order must have exactly 3 parameters [p, d, q]''),
           (list_ex (\<lambda>p. p < 0) (ar_order a), ''ARIMA order parameter must be non-negative''),
           (present (\<lambda>c. \<not> oneOf c [''aic'', ''bic'']) (ar_informationCriterion a), ''ARIMA information criterion must be aic or bic''),
           (present (\<lambda>s. length s \<noteq> 0 \<and> length s \<noteq> 3) (ar_seasonalOrder a), ''ARIMA seasonal order must have exactly 3 parameters [P, D, Q]''),
           (present (list_ex (\<lambda>p. p < 0)) (ar_seasonalOrder a), ''ARIMA seasonal order parameter must be non-negative''),
           (seasonal \<and> \<not> present (\<lambda>s. length s = 3) (ar_seasonalOrder a), ''SARIMA enabled but seasonalOrder is missing or invalid''),
           (seasonal \<and> \<not> present (\<lambda>n. n \<ge> 2) (ar_seasonalPeriods a), ''SARIMA enabled but seasonalPeriods is missing or invalid''),
           (ar_lookAhead a < 1 \<or> present (\<lambda>n. n < 3) (ar_historySize a), ''ARIMA requires lookAhead >= 1 and historySize >= 3''),
           (present (\<lambda>m. length m \<noteq> 3 \<or> list_ex (\<lambda>v. v < 0) m) (ar_maxOrder a), ''ARIMA maxOrder must contain 3 non-negative parameters''),
           (present (\<lambda>t. \<not> oneOf t [''n'', ''c'', ''t'', ''ct'']) (ar_trend a), ''ARIMA trend must be n, c, t, or ct''),
           (auto \<and> ar_incrementalUpdates a = Some True, ''autoArima is not supported with incrementalUpdates''),
           (auto \<and> seasonal, ''autoArima supports non-seasonal ARIMA only''),
           (auto \<and> present (\<lambda>m. list_ex (\<lambda>(v, limit). v > limit) (zip (ar_order a) m)) (ar_maxOrder a),
            ''ARIMA order must not exceed explicit maxOrder during auto selection''),
           (\<not> seasonal \<and> \<not> auto \<and> present (\<lambda>t. ar_order a ! 1 > 0 \<and> oneOf t [''c'', ''ct''] \<or> ar_order a ! 1 > 1 \<and> t = ''t'') (ar_trend a),
            ''ARIMA trend degree must be at least the differencing order''),
           (present (\<lambda>n. n \<le> 0) (ar_refitEvery a), ''ARIMA refitEvery must be greater than 0 when provided'')])"

text \<open>The checks shared by the two tree models, on the fields in the order of the source.\<close>

definition notFraction :: "float64 \<Rightarrow> bool" where
  "notFraction v \<longleftrightarrow> f_le v (f_of_int 0) \<or> f_lt (f_of_int 1) v"

definition validateXGBoost :: "XGBoost option \<Rightarrow> error option" where
  "validateXGBoost block =
     (case block of
        None \<Rightarrow> Some ''type is XGBoost but no XGBoost configuration provided''
      | Some x \<Rightarrow> firstError
          [(xgb_historySize x < 1, ''XGBoost historySize must be >= 1''),
           (xgb_lookAhead x < 1, ''XGBoost lookAhead must be >= 1''),
           (xgb_lags x < 1, ''XGBoost lags must be >= 1''),
           (xgb_lags x \<ge> xgb_historySize x, ''XGBoost lags must be less than historySize''),
           (present (\<lambda>n. n < 1) (xgb_windowSize x), ''XGBoost windowSize must be >= 1''),
           (present (\<lambda>n. n > xgb_lags x) (xgb_windowSize x), ''XGBoost windowSize cannot exceed lags''),
           (present (\<lambda>n. n < 1) (xgb_maxDepth x), ''XGBoost maxDepth must be >= 1''),
           (present (\<lambda>n. n < 1) (xgb_nEstimators x), ''XGBoost nEstimators must be >= 1''),
           (present (\<lambda>v. f_le v (f_of_int 0)) (xgb_learningRate x), ''XGBoost learningRate must be > 0''),
           (present notFraction (xgb_subsample x), ''XGBoost subsample must be in (0, 1]''),
           (present notFraction (xgb_colsampleBytree x), ''XGBoost colsampleBytree must be in (0, 1]''),
           (present (\<lambda>v. f_lt v (f_of_int 0)) (xgb_regLambda x), ''XGBoost regLambda must be >= 0''),
           (present (\<lambda>v. f_lt v (f_of_int 0)) (xgb_regAlpha x), ''XGBoost regAlpha must be >= 0'')])"

definition validateLightGBM :: "LightGBM option \<Rightarrow> error option" where
  "validateLightGBM block =
     (case block of
        None \<Rightarrow> Some ''type is LightGBM but no LightGBM configuration provided''
      | Some x \<Rightarrow> firstError
          [(lgb_historySize x < 1, ''LightGBM historySize must be >= 1''),
           (lgb_lookAhead x < 1, ''LightGBM lookAhead must be >= 1''),
           (lgb_lags x < 1, ''LightGBM lags must be >= 1''),
           (lgb_lags x \<ge> lgb_historySize x, ''LightGBM lags must be less than historySize''),
           (present (\<lambda>n. n < 1) (lgb_windowSize x), ''LightGBM windowSize must be >= 1''),
           (present (\<lambda>n. n > lgb_lags x) (lgb_windowSize x), ''LightGBM windowSize cannot exceed lags''),
           (present (\<lambda>n. n \<noteq> -1 \<and> n < 1) (lgb_maxDepth x), ''LightGBM maxDepth must be -1 or >= 1''),
           (present (\<lambda>n. n < 1) (lgb_nEstimators x), ''LightGBM nEstimators must be >= 1''),
           (present (\<lambda>v. f_le v (f_of_int 0)) (lgb_learningRate x), ''LightGBM learningRate must be > 0''),
           (present notFraction (lgb_subsample x), ''LightGBM subsample must be in (0, 1]''),
           (present notFraction (lgb_colsampleBytree x), ''LightGBM colsampleBytree must be in (0, 1]''),
           (present (\<lambda>n. n < 2) (lgb_numLeaves x), ''LightGBM numLeaves must be >= 2''),
           (present (\<lambda>n. n < 1) (lgb_minChildSamples x), ''LightGBM minChildSamples must be >= 1''),
           (present (\<lambda>v. f_lt v (f_of_int 0)) (lgb_regLambda x), ''LightGBM regLambda must be >= 0''),
           (present (\<lambda>v. f_lt v (f_of_int 0)) (lgb_regAlpha x), ''LightGBM regAlpha must be >= 0'')])"

definition validateBlock :: "ValidationLibrary \<Rightarrow> bool \<Rightarrow> Model \<Rightarrow> error option" where
  "validateBlock vl cpu model =
     (if m_type model = TypeHoltWinters then validateHoltWinters vl cpu (m_holtWinters model)
      else if m_type model = TypeLinear then validateLinear cpu (m_linear model)
      else if m_type model = TypeArima then validateArima (m_arima model)
      else if m_type model = TypeXGBoost then validateXGBoost (m_xgboost model)
      else if m_type model = TypeLightGBM then validateLightGBM (m_lightgbm model)
      else None)"

definition validateModel :: "ValidationLibrary \<Rightarrow> HPAPlusSpec \<Rightarrow> Model \<Rightarrow> error option" where
  "validateModel vl spec model =
     (let cpu = hasCPUUtilization spec in
      andThen (validateModelBasics model)
      (andThen (validateBlock vl cpu model)
      (andThen (firstError [(UsesCPUHistory (m_type model) \<and> \<not> cpu,
          ''CPU-history prediction requires a CPU resource metric with averageUtilization configured'')])
        (validateModelHistory model (s_syncPeriod spec)))))"

fun modelsLoop :: "ValidationLibrary \<Rightarrow> HPAPlusSpec \<Rightarrow> string list \<Rightarrow> Model list \<Rightarrow> error option" where
  "modelsLoop vl spec names [] = None"
| "modelsLoop vl spec names (model # ms) =
     andThen (firstError [(blankString (m_name model) \<or> m_name model \<in> set names, ''model names must be non-empty and unique'')])
     (andThen (validateModel vl spec model) (modelsLoop vl spec (m_name model # names) ms))"

definition validateModels :: "ValidationLibrary \<Rightarrow> HPAPlusSpec \<Rightarrow> error option" where
  "validateModels vl spec = modelsLoop vl spec [] (s_models spec)"

section \<open>Target, metrics and behavior\<close>

definition validateReference :: "ValidationLibrary \<Rightarrow> ObjectReference \<Rightarrow> error option" where
  "validateReference vl ref =
     firstError
       [(blankString (ref_name ref) \<or> blankString (ref_kind ref) \<or> \<not> lib_pathSegment (vl_base vl) (ref_name ref) \<or>
         \<not> lib_pathSegment (vl_base vl) (ref_kind ref),
         ''target reference requires valid non-empty name and kind''),
        (ref_apiVersion ref \<noteq> '''' \<and> \<not> lib_groupVersion (vl_base vl) (ref_apiVersion ref), ''invalid target apiVersion'')]"

definition metricSource ::
  "ValidationLibrary \<Rightarrow> MetricSpec \<Rightarrow> (MetricTarget \<times> MetricIdentifier option \<times> string list) result" where
  "metricSource vl m =
     (if ms_type m = ''Resource'' \<and> ms_resource m \<noteq> None then
        (case ms_resource m of None \<Rightarrow> Inl nilPointer | Some (name, target) \<Rightarrow>
          if \<not> vl_qualifiedName vl name then Inl ''invalid resource metric name''
          else Inr (target, None, [''Utilization'', ''AverageValue'']))
      else if ms_type m = ''Pods'' \<and> ms_pods m \<noteq> None then
        (case ms_pods m of None \<Rightarrow> Inl nilPointer | Some (ident, target) \<Rightarrow> Inr (target, Some ident, [''AverageValue'']))
      else if ms_type m = ''Object'' \<and> ms_object m \<noteq> None then
        (case ms_object m of None \<Rightarrow> Inl nilPointer | Some (ref, ident, target) \<Rightarrow>
          (case validateReference vl ref of Some e \<Rightarrow> Inl e | None \<Rightarrow> Inr (target, Some ident, [''Value'', ''AverageValue''])))
      else if ms_type m = ''External'' \<and> ms_external m \<noteq> None then
        (case ms_external m of None \<Rightarrow> Inl nilPointer | Some (ident, target) \<Rightarrow> Inr (target, Some ident, [''Value'', ''AverageValue'']))
      else Inl ''unsupported or mismatched metric source type'')"

definition positiveTarget :: "MetricTarget \<Rightarrow> string \<Rightarrow> bool" where
  "positiveTarget t kind \<longleftrightarrow>
     (if kind = ''Value'' then present (\<lambda>q. q > 0) (mt_value t)
      else if kind = ''AverageValue'' then present (\<lambda>q. q > 0) (mt_averageValue t)
      else if kind = ''Utilization'' then present (\<lambda>u. u > 0) (mt_averageUtilization t)
      else False)"

definition validateMetric :: "ValidationLibrary \<Rightarrow> MetricSpec \<Rightarrow> error option" where
  "validateMetric vl m =
     (if length (filter (\<lambda>b. b) [ms_resource m \<noteq> None, ms_containerResource m \<noteq> None, ms_pods m \<noteq> None, ms_object m \<noteq> None,
         ms_external m \<noteq> None]) \<noteq> 1
      then Some ''exactly one metric source is required''
      else case metricSource vl m of
        Inl e \<Rightarrow> Some e
      | Inr (target, ident, kinds) \<Rightarrow> firstError
          [(present (\<lambda>i. blankString (mi_name i) \<or> \<not> lib_pathSegment (vl_base vl) (mi_name i)) ident, ''invalid metric name''),
           (present (\<lambda>i. \<not> vl_selector vl (mi_selector i)) ident, ''invalid metric selector''),
           (length (filter (\<lambda>b. b) [mt_value target \<noteq> None, mt_averageValue target \<noteq> None, mt_averageUtilization target \<noteq> None]) \<noteq> 1,
            ''exactly one metric target value is required''),
           (\<not> list_ex (\<lambda>kind. mt_type target = kind \<and> positiveTarget target kind) kinds,
            ''metric target type must match its source and have a positive value'')])"

definition validateRules :: "HPAScalingRules option \<Rightarrow> error option" where
  "validateRules rules =
     andOpt (\<lambda>r. firstError
       [(present (\<lambda>w. w < 0 \<or> w > 3600) (sr_stabilizationWindowSeconds r), ''stabilizationWindowSeconds must be in [0, 3600]''),
        (present (\<lambda>s. \<not> oneOf s [''Max'', ''Min'', ''Disabled'']) (sr_selectPolicy r), ''selectPolicy must be Max, Min, or Disabled''),
        (sr_policies r = Some [], ''policies must be omitted for defaults or contain at least one policy''),
        (list_ex (\<lambda>p. \<not> oneOf (pol_type p) [''Pods'', ''Percent''] \<or> pol_value p \<le> 0 \<or> pol_periodSeconds p < 1 \<or> pol_periodSeconds p > 1800)
           (opt_default [] (sr_policies r)),
         ''scaling policy requires Pods/Percent, positive value, and periodSeconds in [1, 1800]'')]) rules"

definition validateKubernetesSpec :: "ValidationLibrary \<Rightarrow> HPAPlusSpec \<Rightarrow> error option" where
  "validateKubernetesSpec vl spec =
     andThen (validateReference vl (s_scaleTargetRef spec))
     (andThen (firstError [(s_metrics spec = [], ''at least one metric is required; no default metric is injected'')])
     (andThen (eachError (validateMetric vl) (s_metrics spec))
     (andThen (firstError [(length (filter (\<lambda>m. present (\<lambda>(name, target). name = ''cpu'') (ms_resource m)) (s_metrics spec)) > 1,
         ''only one CPU resource metric is allowed to avoid ambiguous forecast capacity'')])
     (andOpt (\<lambda>b. eachError validateRules [b_scaleUp b, b_scaleDown b]) (s_behavior spec)))))"

definition Validate :: "ValidationLibrary \<Rightarrow> HPAPlus option \<Rightarrow> error option" where
  "Validate vl instance' =
     (case instance' of
        None \<Rightarrow> Some ''HPAPlus must not be nil''
      | Some inst \<Rightarrow>
          let spec = h_spec inst in
          andThen (validateSpec spec) (andThen (validateMinMax spec) (andThen (validateModels vl spec) (validateKubernetesSpec vl spec))))"

section \<open>What a validated resource guarantees\<close>

lemmas Validate_parts = Validate_def validateSpec_def validateMinMax_def validateKubernetesSpec_def Let_def

lemma modelsLoop_None:
  "modelsLoop vl spec names ms = None \<Longrightarrow> model \<in> set ms \<Longrightarrow> validateModel vl spec model = None \<and> \<not> blankString (m_name model)"
  by (induction ms arbitrary: names) auto

lemma modelsLoop_distinct:
  "modelsLoop vl spec names ms = None \<Longrightarrow> distinct (map m_name ms) \<and> set (map m_name ms) \<inter> set names = {}"
proof (induction ms arbitrary: names)
  case (Cons m ms)
  then show ?case using Cons.IH [of "m_name m # names"] by auto
qed simp

lemma validated_model:
  assumes "Validate vl (Some inst) = None" "model \<in> set (s_models (h_spec inst))"
  shows "validateModel vl (h_spec inst) model = None"
  using assms modelsLoop_None by (auto simp: Validate_def Let_def validateModels_def)

lemma validated_limits:
  assumes "Validate vl (Some inst) = None"
  shows "EffectiveMode (h_spec inst) \<in> {ModeObserve, ModeAssist, ModeControl}" "1 \<le> s_maxReplicas (h_spec inst)"
    "s_minReplicas (h_spec inst) = Some m \<Longrightarrow> 0 \<le> m \<and> m \<le> s_maxReplicas (h_spec inst)"
    "s_decisionType (h_spec inst) = Some d \<Longrightarrow> d \<in> {DecisionMaximum, DecisionMinimum, DecisionMean, DecisionMedian}"
  using assms by (auto simp: Validate_parts oneOf_def not_present_iff)

text \<open>Rules with the defaults filled in, as the planner sees them.\<close>

definition seconds_ok :: "int32 \<Rightarrow> bool" where
  "seconds_ok w \<longleftrightarrow> 0 \<le> w \<and> w \<le> 3600"

definition select_ok :: "string \<Rightarrow> bool" where
  "select_ok s \<longleftrightarrow> s \<in> {MaxChangePolicySelect, MinChangePolicySelect, DisabledPolicySelect}"

definition policies_ok :: "HPAScalingPolicy list \<Rightarrow> bool" where
  "policies_ok ps \<longleftrightarrow> ps \<noteq> [] \<and>
     (\<forall>p \<in> set ps. known_policy p \<and> 0 < pol_value p \<and> 1 \<le> pol_periodSeconds p \<and> pol_periodSeconds p \<le> 1800)"

definition rules_ok :: "HPAScalingRules \<Rightarrow> bool" where
  "rules_ok r \<longleftrightarrow> present seconds_ok (sr_stabilizationWindowSeconds r) \<and> present select_ok (sr_selectPolicy r) \<and>
     present policies_ok (sr_policies r)"

lemma default_rules_ok: "rules_ok defaultUpscale" "rules_ok defaultDownscale"
  by (simp_all add: rules_ok_def defaultUpscale_def defaultDownscale_def seconds_ok_def select_ok_def policies_ok_def)

lemma copy_rules_fields:
  "sr_stabilizationWindowSeconds (copyHPAScalingRules (Some f) to) =
     (if sr_stabilizationWindowSeconds f = None then sr_stabilizationWindowSeconds to else sr_stabilizationWindowSeconds f)"
  "sr_selectPolicy (copyHPAScalingRules (Some f) to) = (if sr_selectPolicy f = None then sr_selectPolicy to else sr_selectPolicy f)"
  "sr_policies (copyHPAScalingRules (Some f) to) = (if sr_policies f = None then sr_policies to else sr_policies f)"
  by (simp_all add: copyHPAScalingRules_def Let_def)

lemma validateRules_parts:
  assumes "validateRules (Some r) = None"
  shows "sr_stabilizationWindowSeconds r = None \<or> present seconds_ok (sr_stabilizationWindowSeconds r)"
    "sr_selectPolicy r = None \<or> present select_ok (sr_selectPolicy r)"
    "sr_policies r = None \<or> present policies_ok (sr_policies r)"
proof -
  show "sr_stabilizationWindowSeconds r = None \<or> present seconds_ok (sr_stabilizationWindowSeconds r)"
    using assms by (cases "sr_stabilizationWindowSeconds r") (auto simp: validateRules_def seconds_ok_def)
  show "sr_selectPolicy r = None \<or> present select_ok (sr_selectPolicy r)"
    using assms by (cases "sr_selectPolicy r") (auto simp: validateRules_def select_ok_def oneOf_def)
  show "sr_policies r = None \<or> present policies_ok (sr_policies r)"
    using assms by (cases "sr_policies r") (auto simp: validateRules_def policies_ok_def oneOf_def list_ex_iff)
qed

lemma copy_rules_ok:
  assumes "validateRules from = None" "rules_ok to"
  shows "rules_ok (copyHPAScalingRules from to)"
proof (cases "from")
  case (Some r)
  then show ?thesis using validateRules_parts [of r] assms by (auto simp: rules_ok_def copy_rules_fields)
qed (use assms in \<open>simp add: copyHPAScalingRules_def\<close>)

lemma validated_rules:
  assumes "Validate vl (Some inst) = None"
  shows "\<exists>up down. b_scaleUp (BehaviorDefaults (s_behavior (h_spec inst))) = Some up \<and> rules_ok up \<and>
     b_scaleDown (BehaviorDefaults (s_behavior (h_spec inst))) = Some down \<and> rules_ok down"
proof (cases "s_behavior (h_spec inst)")
  case None
  then show ?thesis by (simp add: BehaviorDefaults_def DefaultBehavior_def default_rules_ok)
next
  case (Some b)
  then have "validateRules (b_scaleUp b) = None" "validateRules (b_scaleDown b) = None"
    using assms by (simp_all add: Validate_parts)
  then show ?thesis using Some by (simp add: BehaviorDefaults_def DefaultBehavior_def copy_rules_ok default_rules_ok)
qed

lemma validated_plan_ok:
  assumes "Validate vl (Some inst) = None" "in_spec i = h_spec inst" "\<not> is_zero (in_now i)"
    and "0 \<le> in_requested i" "0 \<le> in_baseline i" "\<forall>p \<in> set (in_predictions i). 0 \<le> p"
  shows "\<exists>r. Plan i = Some (Inr r)"
proof -
  note v = validated_limits [OF assms(1), folded assms(2)]
  have "0 \<le> minReplicasOf i \<and> minReplicasOf i \<le> s_maxReplicas (in_spec i)"
    using v(2,3) by (cases "s_minReplicas (in_spec i)") (auto simp: minReplicasOf_def)
  moreover have "strategyOf i \<in> {DecisionMaximum, DecisionMinimum, DecisionMean, DecisionMedian}"
    using v(4) by (cases "s_decisionType (in_spec i)") (auto simp: strategyOf_def)
  ultimately show ?thesis using v(1) assms(3-)
    unfolding Plan_ok_iff plan_ok_iff invalidInputs_def not_less de_Morgan_disj by auto
qed

end
