(* ===== verification/RateAccounting.thy ===== *)
theory RateAccounting
  imports Validation JournalProtocol
begin

text \<open>
  Rate limits across cycles. The behavior rules (theory \<open>ScaleBehavior\<close>) limit a decision relative to the
  count at the start of a policy's period, which they reconstruct from the events of the status; the
  journal (theory \<open>ScaleJournal\<close>) charges an accepted decision to these events. Shown here: a charge
  keeps the reconstructed count, so that the decisions of one period share one allowance, and the plan
  of a validated resource stays within the allowances of its rules.
\<close>

section \<open>Events within a period\<close>

definition inPeriod :: "int32 \<Rightarrow> gotime \<Rightarrow> TimestampedSample \<Rightarrow> bool" where
  "inPeriod period now e = (case ts_time e of None \<Rightarrow> False | Some t \<Rightarrow> ns now < ns t + period * second)"

lemma wrap64_add: "wrap64 (wrap64 a + b) = wrap64 (a + b)" "wrap64 (a + wrap64 b) = wrap64 (a + b)"
  "wrap64 (wrap64 a - b) = wrap64 (a - b)" "wrap64 (a - wrap64 b) = wrap64 (a - b)"
proof -
  have shift: "wrap64 x = wrap64 y" if "\<exists>k. x = y + 18446744073709551616 * k" for x y
    using that by (auto simp: wrap64_def add.commute add.left_commute add.assoc [symmetric])
  have w: "\<exists>k. wrap64 x = x + 18446744073709551616 * k" for x
    using minus_mult_div_eq_mod [of "x + 9223372036854775808" 18446744073709551616]
    by (intro exI [of _ "- ((x + 9223372036854775808) div 18446744073709551616)"]) (simp add: wrap64_def)
  obtain k where k: "wrap64 a = a + 18446744073709551616 * k" using w by blast
  obtain l where l: "wrap64 b = b + 18446744073709551616 * l" using w by blast
  show "wrap64 (wrap64 a + b) = wrap64 (a + b)" by (rule shift, rule exI [of _ k]) (simp add: k)
  show "wrap64 (a + wrap64 b) = wrap64 (a + b)" by (rule shift, rule exI [of _ l]) (simp add: l)
  show "wrap64 (wrap64 a - b) = wrap64 (a - b)" by (rule shift, rule exI [of _ k]) (simp add: k)
  show "wrap64 (a - wrap64 b) = wrap64 (a - b)" by (rule shift, rule exI [of _ "- l"]) (simp add: l)
qed

lemma foldl_wrap64:
  "foldl (\<lambda>t e. if P e then wrap64 (t + f e) else t) (wrap64 a) es = wrap64 (a + sum_list (map f (filter P es)))"
  by (induction es arbitrary: a) (simp_all add: wrap64_add add.assoc)

lemma getReplicaChanges_sum:
  assumes "0 \<le> period" "period \<le> 1800"
  shows "getReplicaChanges events period now = wrap64 (sum_list (map ts_replicas (filter (inPeriod period now) events)))"
proof -
  have "wrap64 (- wrap64 (second * period)) = - (period * second)"
    using assms by (simp add: wrap64_id in_i64_def mult.commute)
  then have "(case ts_time e of None \<Rightarrow> t
        | Some u \<Rightarrow> if after u (t_add now (wrap64 (- wrap64 (second * period)))) then wrap64 (t + ts_replicas e) else t) =
      (if inPeriod period now e then wrap64 (t + ts_replicas e) else t)" for t e
    by (cases "ts_time e") (auto simp: inPeriod_def t_add_def)
  then show ?thesis using foldl_wrap64 [of "inPeriod period now" ts_replicas 0 events]
    by (simp add: getReplicaChanges_def wrap64_id in_i64_def)
qed

lemma pruned_in_period:
  assumes "0 \<le> period" "period \<le> longest" "longest \<le> 1800" "ns pruned \<le> ns now"
  shows "filter (inPeriod period now) (PruneTimestampedReplicasToWindow events longest pruned) = filter (inPeriod period now) events"
proof -
  have c: "wrap64 (wrap32 (- longest) * second) = - (longest * second)"
    using assms by (simp add: wrap64_id wrap32_id in_i64_def in_i32_def)
  have "period * second \<le> longest * second" using assms by simp
  then have "ns (t_add pruned (- (longest * second))) < ns t" if "ns now < ns t + period * second" for t
    using that assms(4) by (simp add: t_add_def)
  then show ?thesis
    unfolding PruneTimestampedReplicasToWindow_def Let_def filter_filter c
    by (intro filter_cong) (auto simp: inPeriod_def split: option.splits)
qed

lemma periodStart_sum:
  assumes "0 \<le> pol_periodSeconds p" "pol_periodSeconds p \<le> 1800"
  shows "periodStartReplicas n ups downs p now =
     max64 0 (wrap64 (n - sum_list (map ts_replicas (filter (inPeriod (pol_periodSeconds p) now) ups)) +
       sum_list (map ts_replicas (filter (inPeriod (pol_periodSeconds p) now) downs))))"
  unfolding periodStartReplicas_def getReplicaChanges_sum [OF assms] wrap64_add ..

section \<open>Charging a decision\<close>

text \<open>The period is one both event histories keep, and the clocks of the projection precede \<open>now\<close>.\<close>

definition accounted :: "HPAPlus \<Rightarrow> int32 \<Rightarrow> bool" where
  "accounted inst period \<longleftrightarrow> 0 \<le> period \<and>
     (let b = BehaviorDefaults (s_behavior (h_spec inst)) in
        period \<le> GetLongestPolicyPeriod (b_scaleUp b) \<and> GetLongestPolicyPeriod (b_scaleUp b) \<le> 1800 \<and>
        period \<le> GetLongestPolicyPeriod (b_scaleDown b) \<and> GetLongestPolicyPeriod (b_scaleDown b) \<le> 1800)"

lemma projectAt_sums:
  assumes "accounted inst period" "ns nowUp \<le> ns now" "ns nowDown \<le> ns now"
    and "in_i32 (sd_desired d)" "in_i32 (sd_previousDesired d)" "0 \<le> sd_desired d" "0 \<le> sd_previousDesired d"
    and st': "st' = projectAt inst st d desired observed nowUp nowDown"
  defines "charge \<equiv> (if ns now < ns (sd_time d) + period * second then sd_desired d - sd_previousDesired d else 0)"
  shows "sum_list (map ts_replicas (filter (inPeriod period now) (st_scaleUpEventHistory st'))) =
      sum_list (map ts_replicas (filter (inPeriod period now) (st_scaleUpEventHistory st))) + max 0 charge"
    "sum_list (map ts_replicas (filter (inPeriod period now) (st_scaleDownEventHistory st'))) =
      sum_list (map ts_replicas (filter (inPeriod period now) (st_scaleDownEventHistory st))) + max 0 (- charge)"
proof -
  have w: "wrap32 (sd_desired d - sd_previousDesired d) = sd_desired d - sd_previousDesired d"
    "wrap32 (sd_previousDesired d - sd_desired d) = sd_previousDesired d - sd_desired d"
    using assms(4-7) by (simp_all add: wrap32_id in_i32_def)
  have k: "inPeriod period now \<lparr>ts_time = Some (sd_time d), ts_replicas = n, ts_metric = None, ts_totalCPUUsageMillicores = None,
      ts_requestPerPodMillicores = None, ts_targetCPUUtilizationPercentage = None\<rparr> \<longleftrightarrow> ns now < ns (sd_time d) + period * second" for n
    by (simp add: inPeriod_def)
  note prune = pruned_in_period [of period _ _ now]
  show "sum_list (map ts_replicas (filter (inPeriod period now) (st_scaleUpEventHistory st'))) =
      sum_list (map ts_replicas (filter (inPeriod period now) (st_scaleUpEventHistory st))) + max 0 charge"
    "sum_list (map ts_replicas (filter (inPeriod period now) (st_scaleDownEventHistory st'))) =
      sum_list (map ts_replicas (filter (inPeriod period now) (st_scaleDownEventHistory st))) + max 0 (- charge)"
    using assms(1-3) by (auto simp: st' charge_def projectAt_def accounted_def Let_def prune w k max_def)
qed

lemma steps_Return: "steps (Return a) t q \<longleftrightarrow> t = [] \<and> q = Return a"
  by (cases t) (auto simp: steps_Cons_iff intro: steps_Nil)

lemma projectScaleDecision_steps:
  assumes "steps (projectScaleDecision inst d desired observed st) t (Return st')" "st_lastScaleDecisionID st \<noteq> sd_id d"
  shows "\<exists>nowUp nowDown. t = [ClockRead nowUp, ClockRead nowDown] \<and> st' = projectAt inst st d desired observed nowUp nowDown"
  using assms by (cases t; cases "tl t") (auto simp: projectScaleDecision_def steps_Cons_iff steps_Return)

text \<open>
  C32: the decisions of a policy period share one allowance. Charging a decision to the status moves the
  event histories by exactly what it moved the requested count, so as long as the decision lies within
  a policy's period the limiter reconstructs the same count at the start of that period as before the
  decision; once it has left the period it does not count any more. A decision that is already
  charged is not charged again. The hypothesis \<open>accounted\<close> asks for a period that both event histories
  are kept for, the clocks of the charge are those of its trace.
\<close>

theorem charge_keeps_period_start:
  assumes "steps (projectScaleDecision inst d desired observed st) t (Return st')"
    and "\<forall>u. ClockRead u \<in> set t \<longrightarrow> ns u \<le> ns now" "accounted inst (pol_periodSeconds p)"
    and "0 \<le> sd_desired d" "sd_desired d \<le> max_int32" "0 \<le> sd_previousDesired d" "sd_previousDesired d \<le> max_int32"
  shows "st_lastScaleDecisionID st' = sd_id d \<and>
    (if st_lastScaleDecisionID st = sd_id d then st' = st
     else if ns now < ns (sd_time d) + pol_periodSeconds p * second
     then periodStartReplicas (sd_desired d) (st_scaleUpEventHistory st') (st_scaleDownEventHistory st') p now =
          periodStartReplicas (sd_previousDesired d) (st_scaleUpEventHistory st) (st_scaleDownEventHistory st) p now
     else \<forall>n. periodStartReplicas n (st_scaleUpEventHistory st') (st_scaleDownEventHistory st') p now =
              periodStartReplicas n (st_scaleUpEventHistory st) (st_scaleDownEventHistory st) p now)"
proof (cases "st_lastScaleDecisionID st = sd_id d")
  case True
  then show ?thesis using assms(1) by (cases t) (auto simp: projectScaleDecision_def)
next
  case False
  then obtain nowUp nowDown where c: "st' = projectAt inst st d desired observed nowUp nowDown" "t = [ClockRead nowUp, ClockRead nowDown]"
    using projectScaleDecision_steps [OF assms(1)] by metis
  have b: "0 \<le> pol_periodSeconds p" "pol_periodSeconds p \<le> 1800" using assms(3) by (auto simp: accounted_def Let_def)
  have i: "in_i32 (sd_desired d)" "in_i32 (sd_previousDesired d)" using assms(4-) by (simp_all add: in_i32_def)
  have "st_lastScaleDecisionID st' = sd_id d" unfolding c(1) by (simp add: projectAt_def Let_def)
  moreover have "ns nowUp \<le> ns now" "ns nowDown \<le> ns now" using assms(2) c(2) by auto
  note s = projectAt_sums [OF assms(3) this i assms(4,6) c(1)]
  ultimately show ?thesis using False s unfolding periodStart_sum [OF b]
    by (auto simp: max_def algebra_simps split: if_splits)
qed

abbreviation fourPods :: HPAScalingPolicy where
  "fourPods \<equiv> \<lparr>pol_type = PodsScalingPolicy, pol_value = 4, pol_periodSeconds = 15\<rparr>"

theorem charge_keeps_period_start_witness:
  "let st' = projectAt sampleInstance emptyStatus sampleDecision 3 2 (GoTime second 0) (GoTime second 0) in
   st_lastScaleDecisionID st' = ''d1'' \<and>
   periodStartReplicas 3 (st_scaleUpEventHistory st') (st_scaleDownEventHistory st') fourPods (GoTime (2 * second) 0) =
   periodStartReplicas 2 [] [] fourPods (GoTime (2 * second) 0)"
proof -
  let ?t = "[ClockRead (GoTime second 0), ClockRead (GoTime second 0)]"
  have d: "sd_id sampleDecision = ''d1''" "sd_desired sampleDecision = 3" "sd_previousDesired sampleDecision = 2"
    "sd_time sampleDecision = GoTime second 0" and e: "st_lastScaleDecisionID emptyStatus = ''''"
    "st_scaleUpEventHistory emptyStatus = []" "st_scaleDownEventHistory emptyStatus = []"
    by (simp_all add: sampleDecision_def emptyStatus_def)
  have run: "steps (projectScaleDecision sampleInstance sampleDecision 3 2 emptyStatus) ?t
      (Return (projectAt sampleInstance emptyStatus sampleDecision 3 2 (GoTime second 0) (GoTime second 0)))"
    by (simp add: projectScaleDecision_def d e steps_resume)
  have acc: "accounted sampleInstance (pol_periodSeconds fourPods)" by code_simp
  show ?thesis
    using charge_keeps_period_start [OF run _ acc, of "GoTime (2 * second) 0"] by (simp add: Let_def d e)
qed

section \<open>The allowance of a plan\<close>

definition upEvents :: "Input \<Rightarrow> TimestampedSample list" where
  "upEvents i = PruneTimestampedReplicasToWindow (st_scaleUpEventHistory (in_status i)) (GetLongestPolicyPeriod (Some (upRules i))) (in_now i)"

definition downEvents :: "Input \<Rightarrow> TimestampedSample list" where
  "downEvents i = PruneTimestampedReplicasToWindow (st_scaleDownEventHistory (in_status i)) (GetLongestPolicyPeriod (Some (downRules i))) (in_now i)"

text \<open>A change is allowed by all policies where the rules select the smallest change, by some otherwise.\<close>

definition allowed_by :: "(HPAScalingPolicy \<Rightarrow> bool) \<Rightarrow> HPAScalingRules \<Rightarrow> bool" where
  "allowed_by fits rules \<longleftrightarrow> sr_selectPolicy rules \<noteq> Some DisabledPolicySelect \<and>
     (if sr_selectPolicy rules = Some MinChangePolicySelect then \<forall>p \<in> set (opt_default [] (sr_policies rules)). fits p
      else \<exists>p \<in> set (opt_default [] (sr_policies rules)). fits p)"

definition start_of :: "Input \<Rightarrow> HPAScalingPolicy \<Rightarrow> int64" where
  "start_of i p = periodStartReplicas (in_requested i) (upEvents i) (downEvents i) p (in_now i)"

lemma allowed_by_mono: "allowed_by P rules \<Longrightarrow> (\<And>p. P p \<Longrightarrow> Q p) \<Longrightarrow> allowed_by Q rules"
  by (auto simp: allowed_by_def split: if_splits)

lemma rules_ok_known: "rules_ok r \<Longrightarrow> \<forall>p \<in> set (opt_default [] (sr_policies r)). known_policy p"
  by (cases "sr_policies r") (auto simp: rules_ok_def policies_ok_def)

lemma behaviorDetails_rate:
  assumes "behaviorDetails i g = Some d"
  obtains t where "decideTargetReplicasByBehaviorRate (BehaviorDefaults (s_behavior (in_spec i))) (in_requested i) t
      (upEvents i) (downEvents i) (in_now i) = Some (br_rateLimited d)"
  using assms that by (auto simp: behaviorDetails_def upEvents_def downEvents_def DecideTargetReplicasByBehaviorDetails_def Let_def)

lemma rate_limited_up:
  assumes "behaviorDetails i g = Some d" "in_requested i < br_rateLimited d" "in_i32 (in_requested i)" "rules_ok (upRules i)"
    and "b_scaleUp (BehaviorDefaults (s_behavior (in_spec i))) = Some (upRules i)"
  shows "allowed_by (\<lambda>p. br_rateLimited d \<le> upProposal (start_of i p) p 0) (upRules i)"
proof -
  obtain t where l: "decideTargetReplicasByBehaviorRate (BehaviorDefaults (s_behavior (in_spec i))) (in_requested i) t
      (upEvents i) (downEvents i) (in_now i) = Some (br_rateLimited d)"
    by (rule behaviorDetails_rate [OF assms(1)])
  from rate_up_limit [OF l assms(2)] obtain limit where lim: "in_requested i < limit" "br_rateLimited d \<le> limit"
    "calculateScaleUpLimitWithinScalingRules (in_requested i) (upEvents i) (downEvents i) (upRules i) (in_now i) = Some limit"
    using assms(5) by auto
  have "sr_selectPolicy (upRules i) \<noteq> Some DisabledPolicySelect" using lim(1,3) by (auto simp: scaleLimit_defs)
  then show ?thesis using scaleUpLimit_cases [OF rules_ok_known [OF assms(4)] lim(3,1) assms(3) lim(2)]
    unfolding allowed_by_def start_of_def by blast
qed

lemma rate_limited_down:
  assumes "behaviorDetails i g = Some d" "br_rateLimited d < in_requested i" "in_i32 (in_requested i)" "rules_ok (downRules i)"
    and "b_scaleDown (BehaviorDefaults (s_behavior (in_spec i))) = Some (downRules i)"
  shows "allowed_by (\<lambda>p. downProposal (start_of i p) p 0 \<le> br_rateLimited d) (downRules i)"
proof -
  obtain t where l: "decideTargetReplicasByBehaviorRate (BehaviorDefaults (s_behavior (in_spec i))) (in_requested i) t
      (upEvents i) (downEvents i) (in_now i) = Some (br_rateLimited d)"
    by (rule behaviorDetails_rate [OF assms(1)])
  from rate_down_limit [OF l assms(2)] obtain limit where lim: "limit < in_requested i" "limit \<le> br_rateLimited d"
    "calculateScaleDownLimitWithinScalingRules (in_requested i) (upEvents i) (downEvents i) (downRules i) (in_now i) = Some limit"
    using assms(5) by auto
  have "sr_selectPolicy (downRules i) \<noteq> Some DisabledPolicySelect" using lim(1,3) by (auto simp: scaleLimit_defs)
  then show ?thesis using scaleDownLimit_cases [OF rules_ok_known [OF assms(4)] lim(3,1) assms(3) lim(2)]
    unfolding allowed_by_def start_of_def by blast
qed

lemma desired_allowed:
  assumes "\<not> invalidInputs i" "in_i32 (in_requested i)" "rules_ok (upRules i)" "rules_ok (downRules i)"
    and "b_scaleUp (BehaviorDefaults (s_behavior (in_spec i))) = Some (upRules i)"
      "b_scaleDown (BehaviorDefaults (s_behavior (in_spec i))) = Some (downRules i)"
  shows "in_requested i < desiredFrom i g \<Longrightarrow> desiredFrom i g \<noteq> minReplicasOf i \<Longrightarrow>
      allowed_by (\<lambda>p. desiredFrom i g \<le> upProposal (start_of i p) p 0) (upRules i)"
    "desiredFrom i g < in_requested i \<Longrightarrow> desiredFrom i g \<noteq> s_maxReplicas (in_spec i) \<Longrightarrow>
      allowed_by (\<lambda>p. downProposal (start_of i p) p 0 \<le> desiredFrom i g) (downRules i)"
proof -
  obtain d where d: "behaviorDetails i g = Some d"
    "desiredFrom i g = max (minReplicasOf i) (min (s_maxReplicas (in_spec i)) (br_rateLimited d))"
    by (rule desiredFrom_clamp [OF assms(1), of g])
  show "allowed_by (\<lambda>p. desiredFrom i g \<le> upProposal (start_of i p) p 0) (upRules i)"
    if "in_requested i < desiredFrom i g" "desiredFrom i g \<noteq> minReplicasOf i"
  proof -
    have "desiredFrom i g \<le> br_rateLimited d" using that(2) unfolding d(2) by (auto simp: max_def min_def split: if_splits)
    moreover from this have "in_requested i < br_rateLimited d" using that(1) by linarith
    ultimately show ?thesis using rate_limited_up [OF d(1) _ assms(2,3,5)] by (auto elim!: allowed_by_mono)
  qed
  show "allowed_by (\<lambda>p. downProposal (start_of i p) p 0 \<le> desiredFrom i g) (downRules i)"
    if "desiredFrom i g < in_requested i" "desiredFrom i g \<noteq> s_maxReplicas (in_spec i)"
  proof -
    have "br_rateLimited d \<le> desiredFrom i g" using that(2) assms(1) unfolding d(2) invalidInputs_def
      by (auto simp: max_def min_def split: if_splits)
    moreover from this have "br_rateLimited d < in_requested i" using that(1) by linarith
    ultimately show ?thesis using rate_limited_down [OF d(1) _ assms(2,4,6)] by (auto elim!: allowed_by_mono)
  qed
qed

text \<open>
  C33: a validated resource always gets a plan, and the plan keeps to its rate limits. Where \<open>Validate\<close>
  accepts the resource, planning succeeds on every cycle with non-negative counts; outside observe mode
  a count raised above the requested one is within the allowance of the scale-up policies (all of them
  for \<open>Min\<close>, one of them for \<open>Max\<close>, none if disabled) from the count at the start of their period, unless
  it is the configured minimum, and a lowered count is within that of the scale-down policies, unless
  it is the configured maximum.
\<close>

theorem validated_plan_within_allowance:
  assumes "Validate vl (Some inst) = None" "in_spec i = h_spec inst" "\<not> is_zero (in_now i)"
    and "0 \<le> in_requested i" "in_requested i \<le> max_int32" "0 \<le> in_baseline i" "\<forall>p \<in> set (in_predictions i). 0 \<le> p"
  shows "\<exists>r. Plan i = Some (Inr r) \<and> (EffectiveMode (in_spec i) \<noteq> ModeObserve \<longrightarrow>
     (in_requested i < r_desired r \<longrightarrow> r_desired r = minReplicasOf i \<or>
        allowed_by (\<lambda>p. r_desired r \<le> upProposal (start_of i p) p 0) (upRules i)) \<and>
     (r_desired r < in_requested i \<longrightarrow> r_desired r = s_maxReplicas (in_spec i) \<or>
        allowed_by (\<lambda>p. downProposal (start_of i p) p 0 \<le> r_desired r) (downRules i)))"
proof -
  obtain r where r: "Plan i = Some (Inr r)" using validated_plan_ok [OF assms(1-4,6,7)] by blast
  have rules: "b_scaleUp (BehaviorDefaults (s_behavior (in_spec i))) = Some (upRules i)" "rules_ok (upRules i)"
    "b_scaleDown (BehaviorDefaults (s_behavior (in_spec i))) = Some (downRules i)" "rules_ok (downRules i)"
    using validated_rules [OF assms(1)] unfolding upRules_def downRules_def assms(2) by auto
  have n: "in_i32 (in_requested i)" using assms(4,5) by (simp add: in_i32_def)
  have desired: "\<exists>g. r_desired r = desiredFrom i g \<and> \<not> invalidInputs i" if mode: "EffectiveMode (in_spec i) \<noteq> ModeObserve"
  proof -
    obtain a where a: "plan i a = Some (Inr (r\<lparr>r_rolloutMode := '''', r_baselineDesired := 0, r_controlDesired := 0\<rparr>))"
      by (rule Plan_desired_cases [OF r mode])
    then show ?thesis by (cases rule: plan_cases [of i a]) auto
  qed
  show ?thesis
  proof (intro exI [of _ r] conjI impI r)
    assume mode: "EffectiveMode (in_spec i) \<noteq> ModeObserve"
    obtain g where g: "r_desired r = desiredFrom i g" "\<not> invalidInputs i" using desired [OF mode] by blast
    note allowed = desired_allowed [OF g(2) n rules(2,4,1,3), of g, folded g(1)]
    show "r_desired r = minReplicasOf i \<or> allowed_by (\<lambda>p. r_desired r \<le> upProposal (start_of i p) p 0) (upRules i)"
      if "in_requested i < r_desired r" using allowed(1) that by blast
    show "r_desired r = s_maxReplicas (in_spec i) \<or> allowed_by (\<lambda>p. downProposal (start_of i p) p 0 \<le> r_desired r) (downRules i)"
      if "r_desired r < in_requested i" using allowed(2) that by blast
  qed
qed

definition validationLibrary :: ValidationLibrary where
  "validationLibrary = \<lparr>vl_base = sampleLibrary,
     vl_parseURL = (\<lambda>_. Some \<lparr>url_scheme = ''http'', url_hostname = ''tuner'', url_fragment = '''', url_hasUser = False\<rparr>),
     vl_headerName = (\<lambda>_. True), vl_headerValue = (\<lambda>_. True), vl_qualifiedName = (\<lambda>_. True), vl_selector = (\<lambda>_. True)\<rparr>"

definition linearModel :: Model where
  "linearModel = \<lparr>m_requestDemand = None, m_forecastReliability = None, m_predictivePolicy = None, m_type = TypeLinear,
     m_name = ''m'', m_sessionID = '''', m_cpuRequestPerPodMillicores = 0, m_targetCPUUtilizationPercentage = 0,
     m_startInterval = None, m_resetDuration = None, m_calculationTimeout = None, m_perSyncPeriod = Some 2,
     m_predictionMaxAge = None, m_historyMaxAge = Some 200000,
     m_linear = Some \<lparr>lin_historySize = 10, lin_lookAhead = 60000\<rparr>, m_holtWinters = None, m_arima = None,
     m_xgboost = None, m_lightgbm = None\<rparr>"

definition cpuMetric :: MetricSpec where
  "cpuMetric = \<lparr>ms_type = ''Resource'', ms_resource = Some (''cpu'', \<lparr>mt_type = ''Utilization'', mt_value = None,
       mt_averageValue = None, mt_averageUtilization = Some 70\<rparr>),
     ms_containerResource = None, ms_pods = None, ms_object = None, ms_external = None\<rparr>"

definition validInstance :: HPAPlus where
  "validInstance = sampleInstance\<lparr>h_spec := exampleSpec\<lparr>s_metrics := [cpuMetric], s_models := [linearModel]\<rparr>\<rparr>"

lemma linearModel_simps [simp]:
  "m_type linearModel = TypeLinear" "m_name linearModel = ''m''" "m_requestDemand linearModel = None"
  "m_forecastReliability linearModel = None" "m_predictivePolicy linearModel = None" "m_startInterval linearModel = None"
  "m_resetDuration linearModel = None" "m_calculationTimeout linearModel = None" "m_perSyncPeriod linearModel = Some 2"
  "m_predictionMaxAge linearModel = None" "m_historyMaxAge linearModel = Some 200000"
  "m_linear linearModel = Some \<lparr>lin_historySize = 10, lin_lookAhead = 60000\<rparr>" "m_holtWinters linearModel = None"
  "m_arima linearModel = None" "m_xgboost linearModel = None" "m_lightgbm linearModel = None"
  by (simp_all add: linearModel_def)

lemma validInstance_simps [simp]:
  "s_metrics (h_spec validInstance) = [cpuMetric]" "s_models (h_spec validInstance) = [linearModel]"
  "s_syncPeriod (h_spec validInstance) = Some 20000" "s_scaleTargetRef (h_spec validInstance) = s_scaleTargetRef exampleSpec"
  "s_minReplicas (h_spec validInstance) = Some 1" "s_maxReplicas (h_spec validInstance) = 10" "s_behavior (h_spec validInstance) = None"
  by (simp_all add: validInstance_def exampleSpec_def)

lemma linearModel_valid: "validateModel validationLibrary (h_spec validInstance) linearModel = None"
proof -
  have "hasCPUUtilization (h_spec validInstance)" by (simp add: hasCPUUtilization_def cpuMetric_def)
  moreover have "validateModelBasics linearModel = None"
    by (simp add: validateModelBasics_def UsesCPUHistory_def configCount_def numericParameters_def validDuration_def go_div_def)
  moreover have "nominalPeriod (Some 20000) = 20000"
    by (simp add: nominalPeriod_def go_div_def wrap64_id in_i64_def)
  then have "validateModelHistory linearModel (Some 20000) = None"
    by (simp add: validateModelHistory_def retainedSize_def go_div_def)
  ultimately show ?thesis by (simp add: validateModel_def validateBlock_def validateLinear_def)
qed

lemma validInstance_valid: "Validate validationLibrary (Some validInstance) = None"
proof -
  have "validateModels validationLibrary (h_spec validInstance) = None"
    using linearModel_valid by (simp add: validateModels_def blankString_def)
  moreover have "validateSpec (h_spec validInstance) = None"
    by (simp add: validateSpec_def validateRequestDemand_def validateDemandModel_def oneOf_def validInstance_def exampleSpec_def
        EffectiveMode_def validDuration_def go_div_def)
  moreover have "validateMinMax (h_spec validInstance) = None"
    by (simp add: validateMinMax_def)
  moreover have "validateKubernetesSpec validationLibrary (h_spec validInstance) = None"
    by (simp add: validateKubernetesSpec_def validateReference_def validateMetric_def metricSource_def positiveTarget_def
        exampleSpec_def cpuMetric_def validationLibrary_def sampleLibrary_def blankString_def)
  ultimately show ?thesis by (simp add: Validate_def Let_def)
qed

theorem validated_plan_within_allowance_witness:
  "\<exists>r. Plan \<lparr>in_spec = h_spec validInstance, in_status = emptyStatus, in_now = GoTime minute 0, in_requested = 4,
     in_baseline = 9, in_predictions = [12], in_metricsIncomplete = False\<rparr> = Some (Inr r)"
  using validated_plan_within_allowance [OF validInstance_valid, of "\<lparr>in_spec = h_spec validInstance, in_status = emptyStatus,
     in_now = GoTime minute 0, in_requested = 4, in_baseline = 9, in_predictions = [12], in_metricsIncomplete = False\<rparr>"]
  by auto

end
