(* ===== verification/ModelRetention.thy ===== *)
theory ModelRetention
  imports RateAccounting PredictionCache ForecastQuality
begin

text \<open>
  Retention of training samples by the model adapters: \<open>PruneHistory\<close> of \<open>prediction.go\<close> and of the
  packages \<open>linear\<close>, \<open>xgboost\<close>, \<open>lightgbm\<close>, \<open>arima\<close> and \<open>holtwinters\<close> (under \<open>src/internal/prediction\<close>).
  The theorem ties them to the validation and to the controller's readiness test: what an adapter keeps
  of a validated model is enough to run it.

  \<open>sort.Slice\<close> by time is \<open>sort_key\<close> on the optional instant. Training windows hold dated rows with
  distinct times (\<open>ValidateWindow\<close>), on which every sorting by time gives this result.
\<close>

section \<open>Adapters\<close>

text \<open>The code the linear, XGBoost and LightGBM adapters share: without CPU samples the newest rows, newest first.\<close>

definition pruneNewest :: "int64 \<Rightarrow> TimestampedSample list \<Rightarrow> TimestampedSample list result" where
  "pruneNewest historySize h =
     (if historySize < 0 then Inl ''historySize must be nonnegative for pruning''
      else if CountCPUHistory h = 0 then
        Inr (if int (length h) \<le> historySize then h else take (nat historySize) (rev (sort_key timeKey h)))
      else Inr (PruneCPUHistory h historySize))"

definition linearPruneHistory :: "Model \<Rightarrow> TimestampedSample list \<Rightarrow> TimestampedSample list result" where
  "linearPruneHistory model h =
     (case m_linear model of None \<Rightarrow> Inl ''no Linear configuration provided for model'' | Some l \<Rightarrow> pruneNewest (lin_historySize l) h)"

definition xgboostPruneHistory :: "Model \<Rightarrow> TimestampedSample list \<Rightarrow> TimestampedSample list result" where
  "xgboostPruneHistory model h =
     (case m_xgboost model of None \<Rightarrow> Inl ''no XGBoost configuration provided for model'' | Some x \<Rightarrow> pruneNewest (xgb_historySize x) h)"

definition lightgbmPruneHistory :: "Model \<Rightarrow> TimestampedSample list \<Rightarrow> TimestampedSample list result" where
  "lightgbmPruneHistory model h =
     (case m_lightgbm model of None \<Rightarrow> Inl ''no LightGBM configuration provided for model'' | Some x \<Rightarrow> pruneNewest (lgb_historySize x) h)"

definition arimaPruneHistory :: "Model \<Rightarrow> TimestampedSample list \<Rightarrow> TimestampedSample list result" where
  "arimaPruneHistory model h =
     (case m_arima model of
        None \<Rightarrow> Inl ''no ARIMA configuration provided for model''
      | Some a \<Rightarrow>
          let historySize = opt_default DefaultARIMAHistorySize (ar_historySize a) in
          if historySize < 0 then Inl ''historySize must be nonnegative for pruning''
          else if CountCPUHistory h = 0 then
            Inr (if int (length h) \<le> historySize then h else last_n (nat historySize) h)
          else Inr (PruneCPUHistory h historySize))"

definition holtWintersValidate :: "Model \<Rightarrow> HoltWinters result" where
  "holtWintersValidate model =
     (case m_holtWinters model of
        None \<Rightarrow> Inl ''no HoltWinters configuration provided for model''
      | Some hw \<Rightarrow>
          if present (\<lambda>v. v < 1 \<or> v > go_div max_int64 millisecond) (hw_lookAhead hw) then Inl ''invalid Holt-Winters lookAhead duration''
          else if hw_trend hw = '''' then Inl ''no required trend value provided for model''
          else Inr hw)"

definition holtWintersPruneHistory :: "Model \<Rightarrow> TimestampedSample list \<Rightarrow> TimestampedSample list result" where
  "holtWintersPruneHistory model h =
     rbind (holtWintersValidate model) (\<lambda>hw.
       if hw_seasonalPeriods hw \<le> 0 \<or> hw_storedSeasons hw < 0 \<or> hw_storedSeasons hw > go_div max_int64 (hw_seasonalPeriods hw)
       then Inl ''invalid or overflowing seasonal history window''
       else
         let sorted = sort_key timeKey h; cpu = CountCPUHistory h; season = hw_seasonalPeriods hw in
         if cpu = 0 then
           (let surplus = go_div (int (length sorted)) season - hw_storedSeasons hw in
            if surplus \<le> 0 then Inr sorted
            else if surplus * season \<ge> int (length sorted) then Inr []
            else Inr (drop (nat (surplus * season)) sorted))
         else if go_div cpu season - hw_storedSeasons hw \<le> 0 then Inr sorted
         else Inr (PruneCPUHistory sorted (hw_storedSeasons hw * season)))"

definition PruneHistory :: "Model \<Rightarrow> TimestampedSample list \<Rightarrow> TimestampedSample list result" where
  "PruneHistory model h =
     (if m_type model = TypeLinear then linearPruneHistory model h
      else if m_type model = TypeHoltWinters then holtWintersPruneHistory model h
      else if m_type model = TypeArima then arimaPruneHistory model h
      else if m_type model = TypeXGBoost then xgboostPruneHistory model h
      else if m_type model = TypeLightGBM then lightgbmPruneHistory model h
      else Inl ''unknown model type'')"

section \<open>What a validated model retains\<close>

lemma CountCPUHistory_sort [simp]: "CountCPUHistory (sort_key f h) = CountCPUHistory h"
  unfolding CountCPUHistory_length FilterCPUHistory_def by (metis mset_filter mset_sort size_mset)

lemma PruneCPUHistory_count:
  assumes "0 < limit"
  shows "CountCPUHistory (PruneCPUHistory h limit) = min limit (CountCPUHistory h)"
proof (cases "CountCPUHistory h \<le> limit")
  case False
  then have "limit < CountCPUHistory h" by simp
  from PruneCPUHistory_suffix [OF assms this] show ?thesis using False by auto
qed (use assms in \<open>simp add: PruneCPUHistory_def\<close>)

lemma sufficient_iff:
  "UsesCPUHistory (m_type model) \<Longrightarrow> 0 < RequiredHistorySize model \<Longrightarrow>
     modelHasSufficientHistory model h \<longleftrightarrow> RequiredHistorySize model \<le> CountCPUHistory h"
  by (simp add: modelHasSufficientHistory_def)

lemma pruneNewest_keeps:
  assumes "0 < n"
  shows "\<exists>h'. pruneNewest n h = Inr h' \<and> (n \<le> CountCPUHistory h \<longrightarrow> n \<le> CountCPUHistory h')"
  using assms by (auto simp: pruneNewest_def PruneCPUHistory_count)

text \<open>A chain of guards that ends in a value.\<close>

lemma guard_Inr: "(if bad then Inl e else r) = Inr v \<longleftrightarrow> \<not> bad \<and> r = Inr v"
  by simp

lemma check_Inr: "(case c of None \<Rightarrow> r | Some e \<Rightarrow> Inl e) = Inr v \<longleftrightarrow> c = None \<and> r = Inr v"
  by (cases c) simp_all

lemma holtWintersRetained_cases:
  assumes "holtWintersRetained hw = Inr n"
  shows "2 \<le> hw_seasonalPeriods hw" "1 \<le> hw_storedSeasons hw" "hw_storedSeasons hw \<le> go_div max_int64 (hw_seasonalPeriods hw)"
    "n = wrap64 (hw_seasonalPeriods hw * hw_storedSeasons hw)" "wrap64 (2 * hw_seasonalPeriods hw) \<le> n"
    "wrap64 (10 + wrap64 (2 * go_div (hw_seasonalPeriods hw) 2)) \<le> n"
    "oneOf (hw_trend hw) [''add'', ''additive'', ''mul'', ''multiplicative'']"
  using assms unfolding holtWintersRetained_def Let_def
  by (simp_all only: guard_Inr check_Inr Inr_inject) (auto split: if_splits)

lemma holtWinters_retained:
  assumes "holtWintersRetained hw = Inr n"
  shows "n = holtWintersRequired hw" "n = hw_seasonalPeriods hw * hw_storedSeasons hw" "hw_trend hw \<noteq> ''''"
proof -
  note c = holtWintersRetained_cases [OF assms]
  have "hw_storedSeasons hw \<le> max_int64 div hw_seasonalPeriods hw" using c(1,3) by (simp add: go_div_nonneg)
  then have "hw_seasonalPeriods hw * hw_storedSeasons hw \<le> hw_seasonalPeriods hw * (max_int64 div hw_seasonalPeriods hw)"
    using c(1) by simp
  also have "\<dots> \<le> max_int64" using div_bounds(1) [of "hw_seasonalPeriods hw" max_int64] c(1) by simp
  finally have "in_i64 (hw_seasonalPeriods hw * hw_storedSeasons hw)"
    using c(1,2) by (simp add: in_i64_def order_trans [OF _ mult_nonneg_nonneg])
  then show "n = hw_seasonalPeriods hw * hw_storedSeasons hw" using c(4) by (simp add: wrap64_id)
  show "n = holtWintersRequired hw"
    using c(4-6) by (simp add: holtWintersRequired_def Let_def)
  show "hw_trend hw \<noteq> ''''" using c(7) by (auto simp: oneOf_def)
qed

lemma validated_parts:
  assumes "validateModel vl spec model = None"
  shows "validateModelBasics model = None" "validateBlock vl (hasCPUUtilization spec) model = None"
    "validateModelHistory model (s_syncPeriod spec) = None" "UsesCPUHistory (m_type model)"
  using assms unfolding validateModel_def validateModelBasics_def Let_def andThen_None firstError_None by blast+

text \<open>The number of samples the validation reckons with is the one the readiness test asks for.\<close>

lemma retainedSize_Required:
  assumes "validateModel vl spec model = None"
  obtains n where "retainedSize model = Inr n" "n = RequiredHistorySize model" "0 < n"
proof -
  note v = validated_parts [OF assms]
  obtain n where n: "retainedSize model = Inr n"
    using v(3) by (cases "retainedSize model") (auto simp: validateModelHistory_def split: if_splits)
  consider (lin) "m_type model = TypeLinear" | (hw) "m_type model = TypeHoltWinters" | (ar) "m_type model = TypeArima"
    | (xgb) "m_type model = TypeXGBoost" | (lgb) "m_type model = TypeLightGBM"
    using v(4) by (auto simp: UsesCPUHistory_def)
  then have "n = RequiredHistorySize model \<and> 0 < n"
  proof cases
    case lin
    then show ?thesis using n v(2)
      by (cases "m_linear model") (simp_all add: retainedSize_def RequiredHistorySize_def validateBlock_def validateLinear_def)
  next
    case hw
    then obtain b where b: "m_holtWinters model = Some b" "holtWintersRetained b = Inr n"
      using n by (cases "m_holtWinters model") (auto simp: retainedSize_def)
    have "0 < hw_seasonalPeriods b * hw_storedSeasons b" using holtWintersRetained_cases(1,2) [OF b(2)] by simp
    then show ?thesis using holtWinters_retained(1,2) [OF b(2)] b(1) hw by (simp add: RequiredHistorySize_def)
  next
    case ar
    then obtain a where a: "m_arima model = Some a" using v(2) by (cases "m_arima model") (auto simp: validateBlock_def validateArima_def)
    then show ?thesis using ar n v(2)
      by (cases "ar_historySize a") (simp_all add: retainedSize_def RequiredHistorySize_def validateBlock_def validateArima_def Let_def)
  next
    case xgb
    then show ?thesis using n v(2)
      by (cases "m_xgboost model") (simp_all add: retainedSize_def RequiredHistorySize_def validateBlock_def validateXGBoost_def)
  next
    case lgb
    then show ?thesis using n v(2)
      by (cases "m_lightgbm model") (simp_all add: retainedSize_def RequiredHistorySize_def validateBlock_def validateLightGBM_def)
  qed
  then show ?thesis using that n by blast
qed

lemma holtWintersPrune_keeps:
  assumes "m_holtWinters model = Some hw" "holtWintersRetained hw = Inr n"
    and "\<not> present (\<lambda>v. \<not> validDuration v millisecond 1) (hw_lookAhead hw)"
  shows "\<exists>h'. holtWintersPruneHistory model h = Inr h' \<and> (n \<le> CountCPUHistory h \<longrightarrow> n \<le> CountCPUHistory h')"
proof -
  note c = holtWintersRetained_cases [OF assms(2)] and r = holtWinters_retained [OF assms(2)]
  have "holtWintersValidate model = Inr hw"
    using assms(1,3) r(3) by (cases "hw_lookAhead hw") (auto simp: holtWintersValidate_def validDuration_def)
  then have "is_ok (holtWintersPruneHistory model h)" and
    eq: "CountCPUHistory h \<noteq> 0 \<Longrightarrow> holtWintersPruneHistory model h =
      Inr (if go_div (CountCPUHistory h) (hw_seasonalPeriods hw) - hw_storedSeasons hw \<le> 0 then sort_key timeKey h
           else PruneCPUHistory (sort_key timeKey h) n)"
    using c(1-3) r(2) by (simp_all add: holtWintersPruneHistory_def Let_def mult.commute)
  then obtain h' where h': "holtWintersPruneHistory model h = Inr h'" by (auto simp: is_ok_iff)
  have "0 < n" using c(1,2) r(2) by simp
  then have "n \<le> CountCPUHistory h'" if "n \<le> CountCPUHistory h"
    using that eq h' PruneCPUHistory_count [of n "sort_key timeKey h"] by (auto split: if_splits)
  then show ?thesis using h' by blast
qed

lemma PruneHistory_keeps:
  assumes "validateModel vl spec model = None"
  shows "\<exists>h'. PruneHistory model h = Inr h' \<and>
     (RequiredHistorySize model \<le> CountCPUHistory h \<longrightarrow> RequiredHistorySize model \<le> CountCPUHistory h')"
proof -
  note v = validated_parts [OF assms]
  obtain n where n: "retainedSize model = Inr n" "n = RequiredHistorySize model" "0 < n" by (rule retainedSize_Required [OF assms])
  note keeps = pruneNewest_keeps [OF n(3), of h]
  consider (lin) "m_type model = TypeLinear" | (hw) "m_type model = TypeHoltWinters" | (ar) "m_type model = TypeArima"
    | (xgb) "m_type model = TypeXGBoost" | (lgb) "m_type model = TypeLightGBM"
    using v(4) by (auto simp: UsesCPUHistory_def)
  then show ?thesis unfolding n(2) [symmetric]
  proof cases
    case lin
    then show "\<exists>h'. PruneHistory model h = Inr h' \<and> (n \<le> CountCPUHistory h \<longrightarrow> n \<le> CountCPUHistory h')"
      using n(1) keeps by (cases "m_linear model") (simp_all add: retainedSize_def PruneHistory_def linearPruneHistory_def)
  next
    case hw
    then obtain b where b: "m_holtWinters model = Some b" "holtWintersRetained b = Inr n"
      using n(1) by (cases "m_holtWinters model") (auto simp: retainedSize_def)
    have "\<not> present (\<lambda>v. \<not> validDuration v millisecond 1) (hw_lookAhead b)"
      using v(2) hw b(1) by (simp add: validateBlock_def validateHoltWinters_def)
    from holtWintersPrune_keeps [OF b this] show "\<exists>h'. PruneHistory model h = Inr h' \<and> (n \<le> CountCPUHistory h \<longrightarrow> n \<le> CountCPUHistory h')"
      using hw by (simp add: PruneHistory_def)
  next
    case ar
    then show "\<exists>h'. PruneHistory model h = Inr h' \<and> (n \<le> CountCPUHistory h \<longrightarrow> n \<le> CountCPUHistory h')"
      using n(1,3) PruneCPUHistory_count [of n h]
      by (cases "m_arima model") (simp_all add: retainedSize_def PruneHistory_def arimaPruneHistory_def Let_def)
  next
    case xgb
    then show "\<exists>h'. PruneHistory model h = Inr h' \<and> (n \<le> CountCPUHistory h \<longrightarrow> n \<le> CountCPUHistory h')"
      using n(1) keeps by (cases "m_xgboost model") (simp_all add: retainedSize_def PruneHistory_def xgboostPruneHistory_def)
  next
    case lgb
    then show "\<exists>h'. PruneHistory model h = Inr h' \<and> (n \<le> CountCPUHistory h \<longrightarrow> n \<le> CountCPUHistory h')"
      using n(1) keeps by (cases "m_lightgbm model") (simp_all add: retainedSize_def PruneHistory_def lightgbmPruneHistory_def)
  qed
qed

lemma validated_age:
  assumes "validateModel vl spec model = None" "m_historyMaxAge model = Some age" "\<not> present (\<lambda>v. \<not> validDuration v millisecond 1) (s_syncPeriod spec)"
  shows "1 \<le> age" "age \<le> 9223372036854" "RequiredHistorySize model * nominalPeriod (s_syncPeriod spec) \<le> age" "1000 \<le> nominalPeriod (s_syncPeriod spec)"
proof -
  note v = validated_parts [OF assms(1)]
  obtain n where n: "retainedSize model = Inr n" "n = RequiredHistorySize model" by (rule retainedSize_Required [OF assms(1)])
  have a: "validDuration age millisecond 1" using v(1) assms(2) by (simp add: validateModelBasics_def)
  then show b: "1 \<le> age" "age \<le> 9223372036854" by (simp_all add: validDuration_def go_div_nonneg)
  define q where "q = opt_default DefaultSyncPeriodMillis (s_syncPeriod spec)"
  have q: "1 \<le> q" "q \<le> 9223372036854"
    using assms(3) by (cases "s_syncPeriod spec"; simp add: q_def validDuration_def go_div_nonneg)+
  define r where "r = (max q 1000 + 999) div 1000"
  have r: "1 \<le> r" "r * 1000 \<le> q + 1999"
    using div_bounds(1) [of 1000 "max q 1000 + 999"] q(1) div_between(1) [of 1000 1 "max q 1000 + 999" "max q 1000 + 999"]
    by (simp_all add: r_def max_def split: if_splits)
  have m: "(if q < 1000 then 1000 else q) = max q 1000" by simp
  have "wrap64 (max q 1000 + 999) = max q 1000 + 999" "wrap64 (r * 1000) = r * 1000"
    using q r by (simp_all add: wrap64_id in_i64_def max_def)
  then have "nominalPeriod (s_syncPeriod spec) = r * 1000"
    by (simp only: nominalPeriod_def q_def [symmetric] Let_def m) (simp add: go_div_nonneg r_def max_def)
  then show p: "1000 \<le> nominalPeriod (s_syncPeriod spec)" using r(1) by simp
  have "n \<le> go_div age (nominalPeriod (s_syncPeriod spec))"
    using v(3) n(1) assms(2) by (auto simp: validateModelHistory_def split: if_splits)
  also have "\<dots> = age div nominalPeriod (s_syncPeriod spec)" using b p by (simp add: go_div_nonneg)
  finally have "n * nominalPeriod (s_syncPeriod spec) \<le> age div nominalPeriod (s_syncPeriod spec) * nominalPeriod (s_syncPeriod spec)"
    using p by (intro mult_right_mono) simp_all
  also have "\<dots> \<le> age" using div_bounds(1) [of "nominalPeriod (s_syncPeriod spec)" age] p by (simp add: mult.commute)
  finally show "RequiredHistorySize model * nominalPeriod (s_syncPeriod spec) \<le> age" by (simp add: n(2))
qed

lemma validated_reliability:
  assumes "validateReliability p = None"
  shows "policy_ok (Effective p)"
proof -
  have "\<not> f_lt (frp_minimumRelativeError (Effective p)) (round64 (1 / 1000))" "\<not> f_lt (round64 1) (frp_minimumRelativeError (Effective p))"
    "\<not> notFinite (frp_minimumRelativeError (Effective p))"
    and ints: "10 \<le> frp_calibrationSamples (Effective p)" "frp_calibrationSamples (Effective p) \<le> 100"
      "2 \<le> frp_window (Effective p)" "frp_window (Effective p) \<le> 20"
    using assms by (simp_all add: validateReliability_def outside_def Let_def)
  moreover obtain y where "round64 (1 / 1000) = Fin y" "0 \<le> y" 
    using round64_mono [of 0 "1 / 1000"] round64_mono [of "1 / 1000" 1] f_of_int_exact [of 1]
    by (cases "round64 (1 / 1000)") (auto simp: f_of_int_def f_le_def)
  moreover have "round64 1 = Fin 1" using f_of_int_exact [of 1] by (simp add: f_of_int_def)
  ultimately have "\<exists>x. frp_minimumRelativeError (Effective p) = Fin x \<and> 0 \<le> x \<and> x \<le> 1"
    by (cases "frp_minimumRelativeError (Effective p)") (auto simp: notFinite_def f_is_nan_def f_is_inf_def)
  then show ?thesis using ints by (simp add: policy_ok_def)
qed

text \<open>
  C34: a validated model can become ready and stay so. The samples an adapter keeps when it prunes are
  enough for the controller to run the model whenever they were before, pruning never fails, the run
  cadence is reached within the kept samples, and with a maximum age a history of the required length
  does not expire within as many nominal sampling intervals. Its reliability policy satisfies what the
  monitor relies on, and the names of the models are pairwise distinct.
\<close>

theorem validated_models_become_ready:
  assumes "Validate vl (Some inst) = None" "model \<in> set (s_models (h_spec inst))"
  shows "0 < RequiredHistorySize model \<and> \<not> present (\<lambda>n. RequiredHistorySize model < n) (m_perSyncPeriod model) \<and>
    (\<exists>rows'. PruneHistory model rows = Inr rows' \<and> (modelHasSufficientHistory model rows \<longrightarrow> modelHasSufficientHistory model rows')) \<and>
    ((\<forall>r \<in> set (mh_replicaHistory h). \<forall>t. ts_time r = Some t \<longrightarrow>
        ns now < ns t + RequiredHistorySize model * nominalPeriod (s_syncPeriod (h_spec inst)) * millisecond)
       \<longrightarrow> \<not> hasExpiredTraining model h now) \<and>
    (\<forall>p. m_forecastReliability model = Some p \<longrightarrow> policy_ok (Effective p)) \<and> distinct (map m_name (s_models (h_spec inst)))"
proof (intro conjI impI allI)
  have m: "validateModel vl (h_spec inst) model = None" by (rule validated_model [OF assms])
  note v = validated_parts [OF m]
  obtain n where n: "retainedSize model = Inr n" "n = RequiredHistorySize model" "0 < n" by (rule retainedSize_Required [OF m])
  show pos: "0 < RequiredHistorySize model" using n(2,3) by simp
  show "\<not> present (\<lambda>n. RequiredHistorySize model < n) (m_perSyncPeriod model)"
    using v(3) n(1) unfolding n(2) by (auto simp: validateModelHistory_def split: if_splits)
  show "\<exists>rows'. PruneHistory model rows = Inr rows' \<and> (modelHasSufficientHistory model rows \<longrightarrow> modelHasSufficientHistory model rows')"
    using PruneHistory_keeps [OF m, of rows] unfolding sufficient_iff [OF v(4) pos] .
  show "\<not> hasExpiredTraining model h now"
    if fresh: "\<forall>r \<in> set (mh_replicaHistory h). \<forall>t. ts_time r = Some t \<longrightarrow>
      ns now < ns t + RequiredHistorySize model * nominalPeriod (s_syncPeriod (h_spec inst)) * millisecond"
  proof
    assume "hasExpiredTraining model h now"
    then obtain age r t where a: "m_historyMaxAge model = Some age" "r \<in> set (mh_replicaHistory h)" "ts_time r = Some t"
      "ns t + millis age \<le> ns now" unfolding hasExpiredTraining_iff by blast
    have "\<not> present (\<lambda>v. \<not> validDuration v millisecond 1) (s_syncPeriod (h_spec inst))" using assms(1) by (simp add: Validate_parts)
    from validated_age [OF m a(1) this] fresh a(2-4) show False by fastforce
  qed
  show "policy_ok (Effective p)" if "m_forecastReliability model = Some p" for p
    using v(1) that validated_reliability by (simp add: validateModelBasics_def)
  show "distinct (map m_name (s_models (h_spec inst)))"
    using assms(1) modelsLoop_distinct by (auto simp: Validate_def validateModels_def Let_def)
qed

theorem validated_models_become_ready_witness:
  "\<exists>rows'. PruneHistory linearModel [] = Inr rows' \<and> 0 < RequiredHistorySize linearModel"
  using validated_models_become_ready [OF validInstance_valid, of linearModel "[]"] by auto

end
