(* ===== verification/Sampler.thy ===== *)
theory Sampler
  imports HistoryWriters ModelRetention
begin

text \<open>
  \<open>src/internal/controllers/history_sampler.go\<close>: the wall-clock slots of the sampler, the preparation of the
  stored histories (\<open>prepareSamplingState\<close>) and the admission of one CPU observation per slot
  (\<open>applySample\<close>). A loop over the models that may return an error is \<open>foldR\<close>; the blocks the two
  functions share are \<open>openHistory\<close>, \<open>lifecycle\<close> and \<open>latestSample\<close>. Whether the metric source collects CPU
  by itself, beside the reconciliation (\<open>IndependentCPUHistory\<close>) is the argument \<open>separate\<close>.
\<close>

section \<open>Slots\<close>

definition samplingSlot :: "gotime \<Rightarrow> duration \<Rightarrow> gotime" where
  "samplingSlot now period = t_truncate (t_utc (t_truncate now period)) second"

definition nextSamplingDelay :: "gotime \<Rightarrow> duration \<Rightarrow> duration" where
  "nextSamplingDelay now period =
     (let next0 = t_add (t_truncate now period) period;
          earliest = t_add (samplingSlot now period) second;
          next1 = (if before next0 earliest
                   then (let n = t_truncate earliest period in if before n earliest then t_add n period else n)
                   else next0)
      in t_sub next1 now)"

text \<open>\<open>time.Round\<close>: halfway values round up.\<close>

definition t_round :: "gotime \<Rightarrow> duration \<Rightarrow> gotime" where
  "t_round t d =
     (if d \<le> 0 then t
      else let r = ns t mod d in if r + r < d then t_add t (- r) else t_add t (d - r))"

definition nextInterval :: "gotime \<Rightarrow> duration \<Rightarrow> gotime" where
  "nextInterval t d = (let next0 = t_round t d in if before next0 t then t_add next0 d else next0)"

definition cpuRetryDeadline :: "bool \<Rightarrow> HPAPlus \<Rightarrow> gotime \<Rightarrow> gotime \<Rightarrow> gotime \<times> bool" where
  "cpuRetryDeadline separate inst slot now =
     (let period = syncPeriodForInstance inst; deadline = t_add slot (go_div period 3)
      in (deadline, separate \<and> period \<ge> 15 * second \<and> before now deadline))"

definition considerCheck :: "gotime \<Rightarrow> gotime option \<Rightarrow> gotime \<Rightarrow> gotime option" where
  "considerCheck now next0 t =
     (if after t now \<and> (case next0 of None \<Rightarrow> True | Some n \<Rightarrow> before t n) then Some t else next0)"

definition lifecycleTimes :: "Model \<Rightarrow> ModelHistory option \<Rightarrow> gotime list" where
  "lifecycleTimes model stored =
     (case stored of None \<Rightarrow> []
      | Some h \<Rightarrow>
        (if m_startInterval model \<noteq> None then (case mh_startTime h of None \<Rightarrow> [] | Some t \<Rightarrow> [t]) else []) @
        (case (m_resetDuration model, LatestTimestamp (mh_replicaHistory h)) of
           (Some d, Some latest) \<Rightarrow> [t_add (t_add latest d) 1] | _ \<Rightarrow> []) @
        (case m_historyMaxAge model of None \<Rightarrow> []
         | Some age \<Rightarrow> concat (map (\<lambda>r. case ts_time r of None \<Rightarrow> []
               | Some t \<Rightarrow> if ts_totalCPUUsageMillicores r \<noteq> None then [t_add t (millis age)] else []) (mh_replicaHistory h))))"

definition nextHistoryCheck :: "HPAPlus \<Rightarrow> HPAPlusData \<Rightarrow> gotime \<Rightarrow> gotime option" where
  "nextHistoryCheck inst data now =
     foldl (considerCheck now) None
       (concat (map (\<lambda>m. lifecycleTimes m (d_modelHistories data (m_name m))) (s_models (h_spec inst))))"

section \<open>Opening and tidying a stored history\<close>

definition newHistory :: "string \<Rightarrow> ModelHistory" where
  "newHistory ty = \<lparr>mh_reliability = None, mh_lastObservationID = '''', mh_lastObservationTime = '''', mh_historyEpoch = 0,
     mh_lastSampleTime = None, mh_type = ty, mh_syncPeriodsPassed = 0, mh_replicaHistory = [], mh_startTime = None,
     mh_lastModelRunTime = None, mh_cachedPrediction = None, mh_failureState = None\<rparr>"

definition openHistory :: "Model \<Rightarrow> gotime \<Rightarrow> ModelHistory option \<Rightarrow> (bool \<times> ModelHistory) result" where
  "openHistory model now stored =
     (let (changed, h) = (case stored of
            Some h \<Rightarrow> if mh_type h = m_type model then (False, h) else (True, newHistory (m_type model))
          | None \<Rightarrow> (True, newHistory (m_type model)))
      in case ValidateWindow h now of
           None \<Rightarrow> Inr (changed, h)
         | Some e \<Rightarrow> if e = ErrFutureWindow then Inl e else rbind (ResetWindow h) (\<lambda>h'. Inr (True, h')))"

definition tidyHistory :: "Model \<Rightarrow> ModelHistory \<Rightarrow> (bool \<times> ModelHistory) result" where
  "tidyHistory model h =
     (if \<not> UsesCPUHistory (m_type model) then Inr (False, h)
      else
        let usable = FilterCPUHistory (mh_replicaHistory h);
            shorter = (length usable \<noteq> length (mh_replicaHistory h));
            h1 = (if shorter then h\<lparr>mh_replicaHistory := usable\<rparr> else h);
            required = RequiredHistorySize model in
        if required > 0 \<and> int (length (mh_replicaHistory h1)) > required then
          rbind (PruneHistory model (mh_replicaHistory h1)) (\<lambda>pruned.
            if length pruned < length (mh_replicaHistory h1) then Inr (True, h1\<lparr>mh_replicaHistory := pruned\<rparr>)
            else Inr (shorter, h1))
        else Inr (shorter, h1))"

text \<open>
  The start gate and the reset after a silence: whether the history changed, whether the model must wait
  (the loop continues with the next model), and the history.
\<close>

definition expireHistory :: "Model \<Rightarrow> gotime \<Rightarrow> gotime option \<Rightarrow> ModelHistory \<Rightarrow> (bool \<times> bool \<times> ModelHistory) result" where
  "expireHistory model now priorLatest h =
     (case (m_resetDuration model, priorLatest) of
        (Some d, Some latest) \<Rightarrow>
          if t_sub now latest > d then
            rbind (ResetWindow h) (\<lambda>h1.
              case m_startInterval model of
                Some s \<Rightarrow> Inr (True, True, h1\<lparr>mh_startTime := Some (nextInterval now s)\<rparr>)
              | None \<Rightarrow> Inr (True, False, h1))
          else Inr (False, False, h)
      | _ \<Rightarrow> Inr (False, False, h))"

definition lifecycle :: "Model \<Rightarrow> gotime \<Rightarrow> gotime option \<Rightarrow> ModelHistory \<Rightarrow> (bool \<times> bool \<times> ModelHistory) result" where
  "lifecycle model now priorLatest h =
     (case m_startInterval model of
        None \<Rightarrow> expireHistory model now priorLatest h
      | Some d \<Rightarrow>
        (case mh_startTime h of
           None \<Rightarrow> Inr (True, True, h\<lparr>mh_startTime := Some (nextInterval now d)\<rparr>)
         | Some t \<Rightarrow> if before now t then Inr (False, True, h) else expireHistory model now priorLatest h))"

definition latestSample :: "ModelHistory \<Rightarrow> gotime option" where
  "latestSample h =
     (let latest = LatestTimestamp (mh_replicaHistory h) in
      case mh_lastSampleTime h of
        None \<Rightarrow> latest
      | Some s \<Rightarrow> (case latest of None \<Rightarrow> Some s | Some l \<Rightarrow> if after s l then Some s else latest))"

definition slotDue :: "gotime \<Rightarrow> ModelHistory \<Rightarrow> bool" where
  "slotDue slot h = (case latestSample h of None \<Rightarrow> True | Some l \<Rightarrow> after slot l)"

definition dropUnconfigured :: "Model list \<Rightarrow> HPAPlusData \<Rightarrow> bool \<times> HPAPlusData" where
  "dropUnconfigured models data =
     (let names = set (map m_name models)
      in (\<not> dom (d_modelHistories data) \<subseteq> names, data\<lparr>d_modelHistories := d_modelHistories data |` names\<rparr>))"

definition storeHistory :: "Model \<Rightarrow> ModelHistory \<Rightarrow> HPAPlusData \<Rightarrow> HPAPlusData" where
  "storeHistory model h data = data\<lparr>d_modelHistories := (d_modelHistories data)(m_name model \<mapsto> h)\<rparr>"

section \<open>Preparation\<close>

definition prepareModel :: "gotime \<Rightarrow> gotime \<Rightarrow> Model \<Rightarrow> ModelHistory option \<Rightarrow> (bool \<times> bool \<times> ModelHistory) result" where
  "prepareModel now slot model stored =
     rbind (openHistory model now stored) (\<lambda>(c0, h0).
     rbind (tidyHistory model h0) (\<lambda>(c1, h1).
     rbind (pruneAgedHistory model h1 now) (\<lambda>(c2, h2).
     rbind (lifecycle model now (LatestTimestamp (mh_replicaHistory h1)) h2) (\<lambda>(c3, waiting, h3).
       Inr (c0 \<or> c1 \<or> c2 \<or> c3, \<not> waiting \<and> slotDue slot h3, h3)))))"

definition prepareStep :: "gotime \<Rightarrow> gotime \<Rightarrow> bool \<times> bool \<times> HPAPlusData \<Rightarrow> Model \<Rightarrow> (bool \<times> bool \<times> HPAPlusData) result" where
  "prepareStep now slot s model =
     (case s of (changed, due, data) \<Rightarrow>
        rbind (prepareModel now slot model (d_modelHistories data (m_name model))) (\<lambda>(c, d, h).
          Inr (changed \<or> c, due \<or> d, storeHistory model h data)))"

definition prepareSamplingState :: "HPAPlus \<Rightarrow> HPAPlusData \<Rightarrow> gotime \<Rightarrow> gotime \<Rightarrow> (bool \<times> bool \<times> HPAPlusData) result" where
  "prepareSamplingState inst data now slot =
     rbind (foldR (prepareStep now slot) (False, False, data) (s_models (h_spec inst))) (\<lambda>(changed, due, data1).
       case dropUnconfigured (s_models (h_spec inst)) data1 of (dropped, data2) \<Rightarrow> Inr (changed \<or> dropped, due, data2))"

section \<open>Admission of an observation\<close>

definition consumeSlot :: "bool \<Rightarrow> gotime \<Rightarrow> ModelHistory \<Rightarrow> bool \<times> ModelHistory" where
  "consumeSlot retry slot h = (if retry then (False, h) else (True, h\<lparr>mh_lastSampleTime := Some slot\<rparr>))"

definition observedRow :: "gotime \<Rightarrow> int32 \<Rightarrow> CPUObservationSnapshot \<Rightarrow> TimestampedSample" where
  "observedRow t replicas ob =
     \<lparr>ts_time = Some t, ts_replicas = replicas, ts_metric = co_utilization ob,
      ts_totalCPUUsageMillicores = co_totalUsageMillicores ob, ts_requestPerPodMillicores = co_requestPerPodMillicores ob,
      ts_targetCPUUtilizationPercentage = co_targetUtilizationPercentage ob\<rparr>"

definition appendSample :: "Model \<Rightarrow> gotime \<Rightarrow> gotime \<Rightarrow> TimestampedSample \<Rightarrow> ModelHistory \<Rightarrow> (bool \<times> ModelHistory) result" where
  "appendSample model now slot row h =
     (if present (\<lambda>age. \<not> before now (t_add slot (millis age))) (m_historyMaxAge model)
      then Inl ''sampling slot exceeded historyMaxAge for model''
      else rbind (PruneHistory model (mh_replicaHistory h @ [row])) (\<lambda>pruned.
             Inr (True, h\<lparr>mh_lastSampleTime := Some slot, mh_replicaHistory := pruned\<rparr>)))"

definition admitSample :: "bool \<Rightarrow> Model \<Rightarrow> gotime \<Rightarrow> gotime \<Rightarrow> int32 \<Rightarrow> CPUObservationSnapshot \<Rightarrow> gotime option \<Rightarrow>
    ModelHistory \<Rightarrow> (bool \<times> ModelHistory) result" where
  "admitSample retry model now slot replicas ob priorLatest h =
     (if \<not> slotDue slot h then Inr (False, h)
      else if UsesCPUHistory (m_type model) \<and>
        (co_totalUsageMillicores ob = None \<or> mh_lastObservationID h \<noteq> '''' \<and> co_sourceID ob = '''')
      then Inr (consumeSlot retry slot h)
      else if co_sourceID ob \<noteq> '''' then
        let previous = parse_or_zero (mh_lastObservationTime h) in
        if co_sourceID ob = mh_lastObservationID h \<or> \<not> is_zero previous \<and> \<not> after (co_sourceTime ob) previous
        then Inr (consumeSlot retry slot h)
        else
          let observed = t_truncate (t_utc (co_sourceTime ob)) second in
          if is_zero observed \<or> after observed now \<or> present (\<lambda>p. \<not> after observed p) priorLatest
          then Inr (consumeSlot retry slot h)
          else appendSample model now slot (observedRow observed replicas ob)
                 (h\<lparr>mh_lastObservationID := co_sourceID ob, mh_lastObservationTime := format_time (t_utc (co_sourceTime ob))\<rparr>)
      else appendSample model now slot (observedRow slot replicas ob) h)"

definition sampleModel :: "bool \<Rightarrow> gotime \<Rightarrow> gotime \<Rightarrow> int32 \<Rightarrow> CPUObservationSnapshot \<Rightarrow> Model \<Rightarrow> ModelHistory option \<Rightarrow>
    (bool \<times> ModelHistory) result" where
  "sampleModel retry now slot replicas ob model stored =
     rbind (openHistory model now stored) (\<lambda>(c0, h0).
     rbind (pruneAgedHistory model h0 now) (\<lambda>(c1, h1).
     rbind (lifecycle model now (LatestTimestamp (mh_replicaHistory h0)) h1) (\<lambda>(c2, waiting, h2).
       if waiting then Inr (c0 \<or> c1 \<or> c2, h2)
       else rbind (admitSample retry model now slot replicas ob (LatestTimestamp (mh_replicaHistory h0)) h2) (\<lambda>(c3, h3).
         Inr (c0 \<or> c1 \<or> c2 \<or> c3, h3)))))"

definition applyStep :: "bool \<Rightarrow> gotime \<Rightarrow> gotime \<Rightarrow> int32 \<Rightarrow> CPUObservationSnapshot \<Rightarrow> bool \<times> HPAPlusData \<Rightarrow> Model \<Rightarrow>
    (bool \<times> HPAPlusData) result" where
  "applyStep retry now slot replicas ob s model =
     (case s of (changed, data) \<Rightarrow>
        rbind (sampleModel retry now slot replicas ob model (d_modelHistories data (m_name model))) (\<lambda>(c, h).
          Inr (changed \<or> c, storeHistory model h data)))"

definition applySample :: "bool \<Rightarrow> HPAPlus \<Rightarrow> HPAPlusData \<Rightarrow> gotime \<Rightarrow> gotime \<Rightarrow> int32 \<Rightarrow> CPUObservationSnapshot \<Rightarrow>
    (bool \<times> HPAPlusData) result" where
  "applySample separate inst data now slot replicas ob =
     rbind (foldR (applyStep (snd (cpuRetryDeadline separate inst slot now)) now slot replicas ob) (False, data)
              (s_models (h_spec inst))) (\<lambda>(changed, data1).
       case dropUnconfigured (s_models (h_spec inst)) data1 of (dropped, data2) \<Rightarrow> Inr (changed \<or> dropped, data2))"

section \<open>The mutations as programs\<close>

text \<open>Removing the last model reclaims the histories.\<close>

definition reclaimAction :: mutation where
  "reclaimAction data =
     (if dom (d_modelHistories data) = {} then ok (False, data)
      else ok (True, data\<lparr>d_modelHistories := Map.empty\<rparr>))"

definition prepareAction :: "HPAPlus \<Rightarrow> gotime \<Rightarrow> mutation" where
  "prepareAction inst slot data =
     io_bind readClock (\<lambda>now. io_bind readClock (\<lambda>check.
       pureMutation (rbind (prepareSamplingState inst data now slot) (\<lambda>(changed, due, data'). Inr (changed, data')))))"

definition unexpired :: "CPUObservationSnapshot \<Rightarrow> 'a action \<Rightarrow> 'a action" where
  "unexpired ob k =
     (case co_metricsValidUntil ob of None \<Rightarrow> k
      | Some v \<Rightarrow> io_bind readClock (\<lambda>t. if after t v then fail (Failure ''metrics expired'') else k))"

fun unexpiredTraining :: "HPAPlusData \<Rightarrow> Model list \<Rightarrow> 'a action \<Rightarrow> 'a action" where
  "unexpiredTraining data [] k = k"
| "unexpiredTraining data (m # ms) k =
     io_bind readClock (\<lambda>t.
       if present (\<lambda>h. hasExpiredTraining m h t) (d_modelHistories data (m_name m))
       then fail (Failure ''history expired while preparing sample for model; retry'')
       else unexpiredTraining data ms k)"

definition sampleAction :: "bool \<Rightarrow> HPAPlus \<Rightarrow> gotime \<Rightarrow> int32 \<Rightarrow> CPUObservationSnapshot \<Rightarrow> mutation" where
  "sampleAction separate inst slot replicas ob data =
     unexpired ob
       (if d_targetIdentity data \<noteq> co_targetIdentity ob then fail (Failure ''scale target changed while sampling'')
        else io_bind readClock (\<lambda>now.
          case applySample separate inst data now slot replicas ob of
            Inl e \<Rightarrow> fail (Failure e)
          | Inr (changed, data') \<Rightarrow> io_bind readClock (\<lambda>check.
              unexpiredTraining data' (s_models (h_spec inst)) (unexpired ob (ok (changed, data'))))))"

section \<open>When the sampler runs again\<close>

text \<open>The jitter; \<open>hash\<close> is the first eight bytes of a SHA-256, read as a big-endian number.\<close>

definition samplingJitter :: "(string \<Rightarrow> nat) \<Rightarrow> HPAPlus \<Rightarrow> duration" where
  "samplingJitter hash inst =
     (if h_uid inst = '''' then 0
      else let limit0 = go_div (syncPeriodForInstance inst) 10;
               limit = (if limit0 > second then second else limit0)
           in if limit \<le> 0 then 0
              else int (hash (h_namespace inst @ ''/'' @ h_name inst @ ''/'' @ h_uid inst)) mod limit)"

record samplingReport =
  sp_outcome :: string
  sp_nextCheck :: "gotime option"
  sp_sampledSlot :: gotime

definition retryDelay :: "bool \<Rightarrow> HPAPlus \<Rightarrow> samplingReport \<Rightarrow> gotime \<Rightarrow> duration \<Rightarrow> duration" where
  "retryDelay separate inst report now wait =
     (if sp_outcome report = ''missing_cpu'' \<or> sp_outcome report = ''duplicate_source'' then
        (case cpuRetryDeadline separate inst (sp_sampledSlot report) now of
           (deadline, retry) \<Rightarrow>
             if retry then
               let t0 = t_add now (5 * second); t1 = (if after t0 deadline then deadline else t0)
               in if t_sub t1 now < wait then t_sub t1 now else wait
             else wait)
      else wait)"

definition requeueDelay :: "bool \<Rightarrow> (string \<Rightarrow> nat) \<Rightarrow> HPAPlus \<Rightarrow> samplingReport \<Rightarrow> gotime \<Rightarrow> duration" where
  "requeueDelay separate hash inst report now =
     (let period = syncPeriodForInstance inst;
          d0 = wrap64 (nextSamplingDelay now period + samplingJitter hash inst);
          d1 = retryDelay separate inst report now d0;
          d2 = (if after (samplingSlot now period) (sp_sampledSlot report) then millisecond else d1)
      in case sp_nextCheck report of
           None \<Rightarrow> d2
         | Some c \<Rightarrow> if t_sub c now < d2 then (if t_sub c now \<le> 0 then millisecond else t_sub c now) else d2)"

section \<open>Slots are never revisited\<close>

lemma ns_truncate: "0 < d \<Longrightarrow> ns (t_truncate t d) = d * (ns t div d)"
  by (simp add: t_truncate_def minus_mod_eq_mult_div)

lemma samplingSlot_ns: "0 < p \<Longrightarrow> ns (samplingSlot t p) = second * (p * (ns t div p) div second)"
  by (simp add: samplingSlot_def ns_truncate)

text \<open>The wake-up is a multiple of the period, at least a second after the slot, and the first such one.\<close>

lemma next_wakeup:
  fixes now :: gotime
  assumes p: "0 < p" "p \<le> hour * 876000"
  defines "slot \<equiv> ns (samplingSlot now p)"
  obtains k where "ns now < p * k" "slot + second \<le> p * k" "p * (k - 1) < slot + second"
    "nextSamplingDelay now p = p * k - ns now"
proof -
  let ?a = "p * (ns now div p)"
  have slot: "slot \<le> ?a" "?a < slot + second"
    unfolding slot_def samplingSlot_ns [OF p(1)] using div_bounds [of second ?a] by (simp_all add: distrib_left)
  have a: "?a \<le> ns now" "ns now < ?a + p" using div_bounds [OF p(1), of "ns now"] by (simp_all add: distrib_left)
  define e where "e = slot + second"
  have e: "p * (e div p) \<le> e" "e < p * (e div p) + p" using div_bounds [OF p(1), of e] by (simp_all add: distrib_left)
  define k where "k = (if ?a + p < e then (if p * (e div p) < e then e div p + 1 else e div p) else ns now div p + 1)"
  have k: "ns now < p * k" "e \<le> p * k" "p * (k - 1) < e" "p * k < ns now + p + second"
    using a e slot p by (auto simp: k_def e_def distrib_left right_diff_distrib)
  have early: "ns (t_add (samplingSlot now p) second) = e" by (simp add: e_def slot_def)
  have "nextSamplingDelay now p = t_sub (GoTime (p * k) (zone now)) now"
    unfolding nextSamplingDelay_def Let_def using p(1) early
    by (auto simp: k_def ns_truncate distrib_left t_sub_def slot_def [symmetric] e_def)
  also have "\<dots> = p * k - ns now" using k p by (subst t_sub_exact) (auto simp: in_i64_def)
  finally show thesis using that k by (simp add: e_def)
qed

text \<open>Between now and the wake-up the slot does not change.\<close>

lemma slot_until_wakeup:
  assumes "0 < period" "period \<le> hour * 876000" "ns now \<le> ns t" "ns t < ns now + nextSamplingDelay now period"
  shows "ns (samplingSlot t period) = ns (samplingSlot now period)"
proof -
  obtain k where k: "period * (k - 1) < ns (samplingSlot now period) + second" "nextSamplingDelay now period = period * k - ns now"
    using next_wakeup [OF assms(1,2)] by metis
  have d: "ns now div period \<le> ns t div period" using assms(1,3) by (intro zdiv_mono1) auto
  have "ns t < period * (k - 1 + 1)" using assms(4) k(2) by simp
  then have "ns t div period \<le> k - 1" using div_between(2) [of period "ns t div period" "ns t"] div_bounds(1) assms(1) by blast
  then have "period * (ns t div period) \<le> period * (k - 1)" using assms(1) by simp
  then have lt: "period * (ns t div period) < ns (samplingSlot now period) + second" using k(1) by linarith
  have "period * (ns now div period) \<le> period * (ns t div period)" using d assms(1) by simp
  then have "period * (ns now div period) div second \<le> period * (ns t div period) div second" by (intro zdiv_mono1) auto
  moreover have "period * (ns t div period) div second \<le> period * (ns now div period) div second"
    using lt unfolding samplingSlot_ns [OF assms(1)]
    by (intro div_between(2) [of second "period * (ns t div period) div second"]) (simp_all add: distrib_left div_bounds(1))
  ultimately show ?thesis unfolding samplingSlot_ns [OF assms(1)] by simp
qed

text \<open>
  C15: functional. The sampler's schedule neither repeats nor skips a slot it could still take. For any
  positive period up to a century and at any time, the delay to the next wake-up is positive and shorter than
  a period and a second; at the wake-up the slot is later than that of now, and at every time before the
  wake-up it is still that of now. This holds for periods below a second too, although slots are whole seconds.
\<close>

theorem next_sampling_slot:
  assumes "0 < period" "period \<le> hour * 876000"
  shows "0 < nextSamplingDelay now period \<and> nextSamplingDelay now period < period + second \<and>
    ns (samplingSlot now period) < ns (samplingSlot (t_add now (nextSamplingDelay now period)) period) \<and>
    (\<forall>t. ns now \<le> ns t \<and> ns t < ns now + nextSamplingDelay now period \<longrightarrow>
       ns (samplingSlot t period) = ns (samplingSlot now period))"
proof -
  obtain k where k: "ns now < period * k" "ns (samplingSlot now period) + second \<le> period * k"
      "period * (k - 1) < ns (samplingSlot now period) + second" "nextSamplingDelay now period = period * k - ns now"
    using next_wakeup [OF assms] by metis
  have "ns (samplingSlot now period) \<le> period * (ns now div period)"
    unfolding samplingSlot_ns [OF assms(1)] using div_bounds(1) [of second] by simp
  also have "\<dots> \<le> ns now" using div_bounds(1) [OF assms(1)] by simp
  finally have soon: "period * k - ns now < period + second" using k(3) by (simp add: right_diff_distrib)
  have "ns (samplingSlot (t_add now (nextSamplingDelay now period)) period) = second * (period * k div second)"
    using assms(1) k(4) by (simp add: samplingSlot_ns)
  moreover have "period * k < second * (period * k div second) + second"
    using div_bounds(2) [of second "period * k"] by (simp add: distrib_left)
  ultimately have "ns (samplingSlot now period) < ns (samplingSlot (t_add now (nextSamplingDelay now period)) period)"
    using k(2) by linarith
  then show ?thesis using k(1,4) soon slot_until_wakeup [OF assms] by auto
qed

theorem next_sampling_slot_witness:
  "nextSamplingDelay (GoTime 9100000000 0) (300 * millisecond) = 1100000000 \<and>
   ns (samplingSlot (GoTime 10100000000 0) (300 * millisecond)) = ns (samplingSlot (GoTime 9100000000 0) (300 * millisecond)) \<and>
   0 < nextSamplingDelay (GoTime 9000000000 0) (300 * millisecond)"
proof -
  have d: "nextSamplingDelay (GoTime 9100000000 0) (300 * millisecond) = 1100000000"
    by (simp add: nextSamplingDelay_def samplingSlot_def t_truncate_def t_utc_def t_add_def t_sub_def)
  have p: "(0::int) < 300 * millisecond" "300 * millisecond \<le> hour * 876000" by simp_all
  note slot = next_sampling_slot [OF p, of "GoTime 9100000000 0", THEN conjunct2, THEN conjunct2, THEN conjunct2, rule_format, unfolded d]
  have "ns (samplingSlot (GoTime 10100000000 0) (300 * millisecond)) = ns (samplingSlot (GoTime 9100000000 0) (300 * millisecond))"
    by (rule slot) simp
  moreover have "0 < nextSamplingDelay (GoTime 9000000000 0) (300 * millisecond)" using next_sampling_slot [OF p] by blast
  ultimately show ?thesis using d by blast
qed

section \<open>Pruning keeps the newest training samples\<close>

lemma sort_chronological:
  assumes "\<forall>r \<in> set (FilterCPUHistory rows). row_ok r" "chronological rows"
  shows "FilterCPUHistory (sort_key timeKey rows) = FilterCPUHistory rows"
proof -
  let ?xs = "FilterCPUHistory rows"
  have dated: "timeKey r = Some (ns (the (ts_time r)))" if "r \<in> set ?xs" for r
    using assms(1) that by (auto simp: row_ok_def timeKey_def)
  have "sorted_wrt (\<lambda>a b. ns (the (ts_time a)) < ns (the (ts_time b))) ?xs"
    using assms(2) by (simp add: chronological_def training_times_def sorted_wrt_map comp_def)
  then have "sorted_wrt (\<lambda>a b. timeKey a \<le> timeKey b) ?xs"
    by (rule sorted_wrt_mono_rel [rotated]) (simp add: dated)
  then have "sorted (map timeKey ?xs)" by (simp add: sorted_wrt_map)
  then show ?thesis unfolding FilterCPUHistory_def filter_sort by (rule sort_key_id_if_sorted)
qed

lemma chronological_filter_eq: "FilterCPUHistory xs = FilterCPUHistory ys \<Longrightarrow> chronological xs = chronological ys"
  by (simp add: chronological_def training_times_def)

lemma PruneCPUHistory_tail:
  assumes "\<forall>r \<in> set (FilterCPUHistory rows). row_ok r" "chronological rows" "0 < n"
  shows "\<exists>older. FilterCPUHistory rows = older @ FilterCPUHistory (PruneCPUHistory rows n)"
proof (cases "CountCPUHistory rows \<le> n")
  case True
  then show ?thesis using assms(3) by (simp add: PruneCPUHistory_def)
next
  case False
  then have "n < CountCPUHistory rows" by simp
  from PruneCPUHistory_suffix [OF assms(3) this]
  obtain older where "sort_key timeKey rows = older @ PruneCPUHistory rows n" by metis
  then have "FilterCPUHistory (sort_key timeKey rows) = FilterCPUHistory older @ FilterCPUHistory (PruneCPUHistory rows n)"
    by (simp add: FilterCPUHistory_def)
  then show ?thesis using sort_chronological [OF assms(1,2)] by auto
qed

lemma PruneHistory_forms:
  assumes "validateModel vl spec model = None" "PruneHistory model rows = Inr rows'" "CountCPUHistory rows \<noteq> 0"
  shows "\<exists>n > 0. rows' = sort_key timeKey rows \<or> rows' = PruneCPUHistory rows n \<or> rows' = PruneCPUHistory (sort_key timeKey rows) n"
proof -
  obtain n where n: "retainedSize model = Inr n" "0 < n" by (rule retainedSize_Required [OF assms(1)])
  have "m_type model = TypeLinear \<or> m_type model = TypeHoltWinters \<or> m_type model = TypeArima \<or>
      m_type model = TypeXGBoost \<or> m_type model = TypeLightGBM"
    using validated_parts(4) [OF assms(1)] by (auto simp: UsesCPUHistory_def)
  then show ?thesis
  proof (elim disjE)
    assume ty: "m_type model = TypeHoltWinters"
    then obtain b where b: "m_holtWinters model = Some b" "holtWintersRetained b = Inr n"
      using n by (cases "m_holtWinters model") (auto simp: retainedSize_def)
    have "holtWintersPruneHistory model rows = Inr rows'" using ty assms(2) by (simp add: PruneHistory_def)
    then show ?thesis
      using assms(3) b n(2) holtWinters_retained(2) [OF b(2)]
      by (auto simp: holtWintersPruneHistory_def holtWintersValidate_def Let_def rbind_eq_Inr_iff mult.commute split: if_splits)
  qed (use assms(2,3) n in \<open>auto simp: PruneHistory_def linearPruneHistory_def arimaPruneHistory_def xgboostPruneHistory_def
      lightgbmPruneHistory_def pruneNewest_def retainedSize_def Let_def split: option.splits if_splits\<close>)
qed

lemma PruneHistory_tail:
  assumes "validateModel vl spec model = None" "PruneHistory model rows = Inr rows'" "FilterCPUHistory rows \<noteq> []"
    and ok: "\<forall>r \<in> set (FilterCPUHistory rows). row_ok r" "chronological rows"
  shows "\<exists>older. FilterCPUHistory rows = older @ FilterCPUHistory rows' \<and> FilterCPUHistory rows' \<noteq> []"
proof -
  have cnt: "CountCPUHistory rows \<noteq> 0" using assms(3) by (simp add: CountCPUHistory_length)
  let ?s = "sort_key timeKey rows"
  have s: "FilterCPUHistory ?s = FilterCPUHistory rows" by (rule sort_chronological [OF ok])
  obtain n where n: "0 < n" "rows' = ?s \<or> rows' = PruneCPUHistory rows n \<or> rows' = PruneCPUHistory ?s n"
    using PruneHistory_forms [OF assms(1,2) cnt] by blast
  have "\<exists>older. FilterCPUHistory rows = older @ FilterCPUHistory rows'"
    using n(2) PruneCPUHistory_tail [OF ok n(1)] PruneCPUHistory_tail [of ?s n] ok chronological_filter_eq [OF s] n(1) s by auto
  moreover have "CountCPUHistory rows' \<noteq> 0"
    using n cnt PruneCPUHistory_count [OF n(1), of rows] PruneCPUHistory_count [OF n(1), of ?s] by auto
  ultimately show ?thesis by (auto simp: CountCPUHistory_length)
qed

section \<open>Steps of the sampler keep windows valid\<close>

lemma ValidateWindow_startTime [simp]: "ValidateWindow (h\<lparr>mh_startTime := x\<rparr>) now = None \<longleftrightarrow> ValidateWindow h now = None"
  by (simp add: ValidateWindow_iff window_ok_def marker_ok_def window_stamps_def marker_stamp_def)

lemma newHistory_valid: "ValidateWindow (newHistory ty) now = None"
  unfolding ValidateWindow_iff
  by (simp add: newHistory_def window_ok_def marker_ok_def window_stamps_def marker_stamp_def training_times_def
      FilterCPUHistory_def chronological_def)

lemma ResetWindow_frame:
  assumes "ResetWindow h = Inr h'"
  shows "mh_type h' = mh_type h" "mh_replicaHistory h' = []" "in_i64 (mh_historyEpoch h')"
  using assms by (auto simp: ResetWindow_def in_i64_wrap64 split: if_splits)

text \<open>What every step keeps: the window validates now, belongs to the model's type and has a machine epoch.\<close>

definition sound :: "Model \<Rightarrow> gotime \<Rightarrow> ModelHistory \<Rightarrow> bool" where
  "sound model now h \<longleftrightarrow> ValidateWindow h now = None \<and> mh_type h = m_type model \<and> in_i64 (mh_historyEpoch h)"

lemma openHistory_sound:
  assumes "openHistory model now stored = Inr (c, h)" "\<And>h0. stored = Some h0 \<Longrightarrow> in_i64 (mh_historyEpoch h0)"
  shows "sound model now h"
proof -
  define h0 where "h0 = (case stored of Some x \<Rightarrow> if mh_type x = m_type model then x else newHistory (m_type model)
    | None \<Rightarrow> newHistory (m_type model))"
  have h0: "mh_type h0 = m_type model" "in_i64 (mh_historyEpoch h0)"
    using assms(2) by (auto simp: h0_def newHistory_def in_i64_def split: option.split)
  have "ValidateWindow h0 now = None \<and> h = h0 \<or> ResetWindow h0 = Inr h"
    using assms(1) by (auto simp: openHistory_def h0_def rbind_eq_Inr_iff split: option.splits if_splits)
  then show ?thesis
    using h0 ResetWindow_valid(1) [OF h0(2)] ResetWindow_frame [of h0 h] by (auto simp: sound_def)
qed

lemma pruneAged_sound:
  assumes "sound model now h" "pruneAgedHistory model h now = Inr (c, h')"
    and age: "\<And>age. m_historyMaxAge model = Some age \<Longrightarrow> 0 < age \<and> age \<le> 9223372036854"
  shows "sound model now h'" "set (mh_replicaHistory h') \<subseteq> set (mh_replicaHistory h)"
proof -
  have "sound model now h' \<and> set (mh_replicaHistory h') \<subseteq> set (mh_replicaHistory h)"
  proof (cases "m_historyMaxAge model")
    case None
    then show ?thesis using assms(1,2) by (simp add: pruneAgedHistory_def)
  next
    case (Some a)
    note p = pruneAged_cases [OF assms(2) Some conjunct1 [OF age [OF Some]] conjunct2 [OF age [OF Some]]]
    show ?thesis
    proof (cases c)
      case True
      have "mh_historyEpoch h < max_int64" using p(4) [OF True] assms(1) by (auto simp: sound_def in_i64_def)
      then show ?thesis
        using assms(1) window_ok_filter [where h = h] window_stamps_filter [where h = h]
        unfolding sound_def ValidateWindow_iff p(5) [OF True] by (fastforce simp: in_i64_wrap64)
    qed (use assms(1) p(3) in simp)
  qed
  then show "sound model now h'" "set (mh_replicaHistory h') \<subseteq> set (mh_replicaHistory h)" by auto
qed

lemma expireHistory_sound:
  assumes "sound model now h" "expireHistory model now latest h = Inr (c, w, h')"
  shows "sound model now h' \<and> (h' = h \<or> mh_replicaHistory h' = [])"
  using assms(2)
proof (cases "\<exists>h1. ResetWindow h = Inr h1 \<and> (h' = h1 \<or> (\<exists>t. h' = h1\<lparr>mh_startTime := t\<rparr>))")
  case True
  then obtain h1 where "ResetWindow h = Inr h1" "h' = h1 \<or> (\<exists>t. h' = h1\<lparr>mh_startTime := t\<rparr>)" by blast
  then show ?thesis
    using assms(1) ResetWindow_valid(1) [of h h1 now] ResetWindow_frame [of h h1] by (auto simp: sound_def)
next
  case False
  then have "h' = h" using assms(2)
    by (auto simp: expireHistory_def rbind_eq_Inr_iff split: option.splits if_splits)
  then show ?thesis using assms(1) by simp
qed

lemma lifecycle_sound:
  assumes "sound model now h" "lifecycle model now latest h = Inr (c, w, h')"
  shows "sound model now h'" "\<not> w \<Longrightarrow> h' = h \<or> mh_replicaHistory h' = []"
proof -
  have "sound model now h' \<and> (\<not> w \<longrightarrow> h' = h \<or> mh_replicaHistory h' = [])"
  proof (cases "expireHistory model now latest h = Inr (c, w, h')")
    case True
    then show ?thesis using expireHistory_sound [OF assms(1)] by blast
  next
    case False
    then show ?thesis
      using assms by (auto simp: lifecycle_def sound_def split: option.splits if_splits)
  qed
  then show "sound model now h'" "\<not> w \<Longrightarrow> h' = h \<or> mh_replicaHistory h' = []" by auto
qed

lemma consumeSlot_sound:
  assumes "sound model now h" "ns slot \<noteq> 0" "ns slot \<le> ns now" "consumeSlot retry slot h = (c, h')"
  shows "sound model now h'"
proof (cases retry)
  case False
  then have h': "h' = h\<lparr>mh_lastSampleTime := Some slot\<rparr>" using assms(4) by (simp add: consumeSlot_def)
  have w: "window_ok h" "\<forall>t \<in> set (window_stamps h). \<not> after t now" using assms(1) by (auto simp: sound_def ValidateWindow_iff)
  have "window_ok h'" using w(1) assms(2) by (simp add: h' window_ok_def marker_ok_def)
  moreover have "\<forall>t \<in> set (window_stamps h'). \<not> after t now"
    using w(2) assms(3) by (auto simp: h' window_stamps_def marker_stamp_def split: if_splits)
  ultimately show ?thesis using assms(1) unfolding sound_def ValidateWindow_iff by (simp add: h')
qed (use assms in \<open>simp add: consumeSlot_def\<close>)

lemma LatestTimestamp_None:
  assumes "LatestTimestamp rows = None" "r \<in> set rows"
  shows "ts_time r = None"
proof -
  let ?f = "\<lambda>latest r. case ts_time r of None \<Rightarrow> latest
    | Some t \<Rightarrow> (case latest of None \<Rightarrow> Some t | Some l \<Rightarrow> if after t l then Some t else latest)"
  have some: "foldl ?f a xs \<noteq> None" if "a \<noteq> None" for a xs
    using that by (induction xs arbitrary: a) (auto split: option.split)
  have "foldl ?f None xs = None \<Longrightarrow> r \<in> set xs \<Longrightarrow> ts_time r = None" for xs
  proof (induction xs)
    case (Cons x xs)
    then show ?case using some [of "?f None x" xs] by (cases "ts_time x") auto
  qed simp
  then show ?thesis using assms unfolding LatestTimestamp_def by blast
qed

lemma LatestTimestamp_bound:
  assumes "\<not> present (\<lambda>p. \<not> after t p) (LatestTimestamp rows)" "r \<in> set rows" "ts_time r = Some u"
  shows "ns u < ns t"
proof (cases "LatestTimestamp rows")
  case None
  then show ?thesis using LatestTimestamp_None assms(2,3) by fastforce
next
  case (Some l)
  then show ?thesis using LatestTimestamp_spec(2) [OF Some assms(2,3)] assms(1) by simp
qed

lemma slotDue_bound:
  assumes "slotDue slot h" "r \<in> set (mh_replicaHistory h)" "ts_time r = Some u"
  shows "ns u < ns slot"
proof -
  have "\<not> present (\<lambda>p. \<not> after slot p) (LatestTimestamp (mh_replicaHistory h))"
    using assms(1) by (auto simp: slotDue_def latestSample_def Let_def split: option.splits if_splits)
  then show ?thesis using LatestTimestamp_bound assms(2,3) by blast
qed

lemma training_times_append [simp]: "training_times (xs @ ys) = training_times xs @ training_times ys"
  by (simp add: training_times_def FilterCPUHistory_def)

lemma training_times_tail:
  "FilterCPUHistory rows = older @ FilterCPUHistory rows' \<Longrightarrow>
     training_times rows = map (\<lambda>r. the (ts_time r)) older @ training_times rows'"
  by (simp add: training_times_def)

text \<open>Appending a later CPU row and pruning by the adapter leaves a valid window.\<close>

lemma appendSample_sound:
  assumes m: "validateModel vl spec model = None" and h: "sound model now h"
    and row: "row_ok row" "ts_time row = Some t" "ns t \<le> ns now"
    and later: "\<And>r u. r \<in> set (mh_replicaHistory h) \<Longrightarrow> ts_time r = Some u \<Longrightarrow> ns u < ns t"
    and slot: "ns slot \<noteq> 0" "ns slot \<le> ns now"
    and app: "appendSample model now slot row h = Inr (c, h')"
  shows "sound model now h'"
proof -
  let ?rows = "mh_replicaHistory h @ [row]"
  have cpu: "hasCPU row" using row(1) by (auto simp: row_ok_def hasCPU_def)
  have w: "window_ok h" "\<forall>t \<in> set (window_stamps h). \<not> after t now" "mh_type h = m_type model" "UsesCPUHistory (mh_type h)"
    using h validated_parts(4) [OF m] by (auto simp: sound_def ValidateWindow_iff)
  have old: "\<forall>r \<in> set (FilterCPUHistory (mh_replicaHistory h)). row_ok r" "chronological (mh_replicaHistory h)"
    using w(1,4) by (simp_all add: window_ok_def)
  obtain rows' where p: "PruneHistory model ?rows = Inr rows'" "h' = h\<lparr>mh_lastSampleTime := Some slot, mh_replicaHistory := rows'\<rparr>"
    using app by (auto simp: appendSample_def rbind_eq_Inr_iff split: if_splits)
  have F: "FilterCPUHistory ?rows = FilterCPUHistory (mh_replicaHistory h) @ [row]" using cpu by (simp add: FilterCPUHistory_def)
  have T: "training_times ?rows = training_times (mh_replicaHistory h) @ [t]" using cpu row(2) by (simp add: training_times_Cons)
      (simp add: training_times_def FilterCPUHistory_def)
  have before: "ns u < ns t" if "u \<in> set (training_times (mh_replicaHistory h))" for u
    using that old(1) later by (fastforce simp: training_times_def row_ok_def FilterCPUHistory_def)
  have ok: "\<forall>r \<in> set (FilterCPUHistory ?rows). row_ok r" using old(1) row(1) F by auto
  have chron: "chronological ?rows"
    using old(2) before unfolding chronological_def T by (auto simp: sorted_wrt_append)
  obtain older where o: "FilterCPUHistory ?rows = older @ FilterCPUHistory rows'" "FilterCPUHistory rows' \<noteq> []"
    using PruneHistory_tail [OF m p(1) _ ok chron] F by auto
  note T' = training_times_tail [OF o(1)]
  have "training_times rows' \<noteq> []" using o(2) by (simp add: training_times_def)
  then have last: "last (training_times rows') = t" using T T' by (metis last_appendR last_snoc)
  have "chronological rows'" using chron unfolding chronological_def T' by (simp add: sorted_wrt_append)
  moreover have "\<forall>r \<in> set (FilterCPUHistory rows'). row_ok r" using ok o(1) by auto
  moreover have "\<forall>u. mh_lastModelRunTime h = Some u \<longrightarrow> ns u \<noteq> 0 \<and> \<not> ns t < ns u"
  proof (intro allI impI)
    fix u assume "mh_lastModelRunTime h = Some u"
    then have "ns u \<noteq> 0" "training_times (mh_replicaHistory h) \<noteq> []" "\<not> after u (last (training_times (mh_replicaHistory h)))"
      using w(1,4) by (simp_all add: window_ok_def)
    then show "ns u \<noteq> 0 \<and> \<not> ns t < ns u" using before [of "last (training_times (mh_replicaHistory h))"] by simp
  qed
  ultimately have "window_ok h'"
    using w(1,4) slot(1) last \<open>training_times rows' \<noteq> []\<close> by (simp add: p(2) window_ok_def marker_ok_def)
  moreover have "set (training_times rows') \<subseteq> set (training_times (mh_replicaHistory h) @ [t])"
    unfolding T [symmetric] T' by simp
  then have "\<forall>u \<in> set (window_stamps h'). \<not> after u now"
    using w(2,4) row(3) slot(2) by (fastforce simp: p(2) window_stamps_def marker_stamp_def split: if_splits)
  ultimately show ?thesis using h unfolding sound_def ValidateWindow_iff by (simp add: p(2))
qed

text \<open>What the metric source promises of an observation.\<close>

definition observation_ok :: "CPUObservationSnapshot \<Rightarrow> gotime \<Rightarrow> bool" where
  "observation_ok ob now \<longleftrightarrow>
     \<not> present (\<lambda>u. u < 0) (co_totalUsageMillicores ob) \<and> \<not> present (\<lambda>r. r \<le> 0) (co_requestPerPodMillicores ob) \<and>
     \<not> present (\<lambda>p. p \<le> 0) (co_targetUtilizationPercentage ob) \<and>
     \<not> present (\<lambda>v. f_is_nan v \<or> f_is_inf v \<or> f_lt v (Fin 0)) (co_utilization ob) \<and>
     (co_sourceID ob = '''' \<or>
       present (\<lambda>bytes. length bytes = 32) (hex_decode (co_sourceID ob)) \<and> formattable (t_utc (co_sourceTime ob)) \<and>
       ns (co_sourceTime ob) \<noteq> 0 \<and> ns (co_sourceTime ob) \<le> ns now)"

lemma observedRow_ok:
  assumes "observation_ok ob now" "co_totalUsageMillicores ob \<noteq> None" "0 \<le> replicas" "ns t \<noteq> 0"
  shows "row_ok (observedRow t replicas ob)"
  using assms f_of_int_exact [of 0]
  by (auto simp: observation_ok_def row_ok_def observedRow_def invalidCapacity_def invalidMetric_def split: option.splits)

lemma marker_sound:
  assumes "sound model now h" "observation_ok ob now" "co_sourceID ob \<noteq> ''''"
  shows "sound model now (h\<lparr>mh_lastObservationID := co_sourceID ob,
      mh_lastObservationTime := format_time (t_utc (co_sourceTime ob))\<rparr>)"
proof -
  have ob: "present (\<lambda>bytes. length bytes = 32) (hex_decode (co_sourceID ob))"
      "parse_time (format_time (t_utc (co_sourceTime ob))) = Some (t_utc (co_sourceTime ob))"
      "ns (co_sourceTime ob) \<noteq> 0" "ns (co_sourceTime ob) \<le> ns now"
    using assms(2,3) by (simp_all add: observation_ok_def parse_format_time)
  then obtain bytes where "hex_decode (co_sourceID ob) = Some bytes" "length bytes = 32"
    by (cases "hex_decode (co_sourceID ob)") auto
  then show ?thesis
    using assms ob(2-4) unfolding sound_def ValidateWindow_iff
    by (auto simp: window_ok_def marker_ok_def window_stamps_def marker_stamp_def split: if_splits)
qed

lemma admitSample_sound:
  assumes m: "validateModel vl spec model = None" and h: "sound model now h" and ob: "observation_ok ob now"
    and "0 \<le> replicas" "ns slot \<noteq> 0" "ns slot \<le> ns now"
    and rows: "set (mh_replicaHistory h) \<subseteq> set rows"
    and admit: "admitSample retry model now slot replicas ob (LatestTimestamp rows) h = Inr (c, h')"
  shows "sound model now h'"
proof (cases "h' = h \<or> consumeSlot retry slot h = (c, h')")
  case True
  then show ?thesis using h consumeSlot_sound [OF h assms(5,6)] by blast
next
  case False
  have cpu: "UsesCPUHistory (m_type model)" by (rule validated_parts(4) [OF m])
  have due: "slotDue slot h" and usage: "co_totalUsageMillicores ob \<noteq> None"
    using admit False cpu by (auto simp: admitSample_def Let_def split: if_splits)
  show ?thesis
  proof (cases "co_sourceID ob = ''''")
    case True
    have "appendSample model now slot (observedRow slot replicas ob) h = Inr (c, h')"
      using admit False True due by (auto simp: admitSample_def split: if_splits)
    then show ?thesis
      using assms(4-6) usage slotDue_bound [OF due]
      by (intro appendSample_sound [OF m h observedRow_ok [OF ob]]) (auto simp: observedRow_def)
  next
    case src: False
    let ?t = "t_truncate (t_utc (co_sourceTime ob)) second"
    let ?h = "h\<lparr>mh_lastObservationID := co_sourceID ob, mh_lastObservationTime := format_time (t_utc (co_sourceTime ob))\<rparr>"
    have app: "appendSample model now slot (observedRow ?t replicas ob) ?h = Inr (c, h')"
      and t: "ns ?t \<noteq> 0" "ns ?t \<le> ns now" "\<not> present (\<lambda>p. \<not> after ?t p) (LatestTimestamp rows)"
      using admit False src due by (auto simp: admitSample_def Let_def split: if_splits)
    have bound: "ns u < ns ?t" if "r \<in> set (mh_replicaHistory ?h)" "ts_time r = Some u" for r u
      using LatestTimestamp_bound [OF t(3)] rows that by auto
    show ?thesis
      by (rule appendSample_sound [OF m marker_sound [OF h ob src] observedRow_ok [OF ob usage assms(4) t(1)] _ t(2) bound assms(5,6) app])
        (simp_all add: observedRow_def)
  qed
qed

lemma sampleModel_sound:
  assumes m: "validateModel vl spec model = None" and ob: "observation_ok ob now"
    and "0 \<le> replicas" "ns slot \<noteq> 0" "ns slot \<le> ns now"
    and age: "\<And>age. m_historyMaxAge model = Some age \<Longrightarrow> 0 < age \<and> age \<le> 9223372036854"
    and stored: "\<And>h0. stored = Some h0 \<Longrightarrow> in_i64 (mh_historyEpoch h0)"
    and step: "sampleModel retry now slot replicas ob model stored = Inr (c, h)"
  shows "sound model now h"
proof -
  obtain c0 h0 where s0: "openHistory model now stored = Inr (c0, h0)"
    using step by (cases "openHistory model now stored") (auto simp: sampleModel_def)
  obtain c1 h1 where s1: "pruneAgedHistory model h0 now = Inr (c1, h1)"
    using step s0 by (cases "pruneAgedHistory model h0 now") (auto simp: sampleModel_def)
  obtain c2 w h2 where s2: "lifecycle model now (LatestTimestamp (mh_replicaHistory h0)) h1 = Inr (c2, w, h2)"
    using step s0 s1 by (cases "lifecycle model now (LatestTimestamp (mh_replicaHistory h0)) h1") (auto simp: sampleModel_def)
  have rest: "if w then h = h2 else \<exists>c3. admitSample retry model now slot replicas ob (LatestTimestamp (mh_replicaHistory h0)) h2 = Inr (c3, h)"
    using step s0 s1 s2
    by (cases "admitSample retry model now slot replicas ob (LatestTimestamp (mh_replicaHistory h0)) h2")
      (auto simp: sampleModel_def split: if_splits)
  have h0: "sound model now h0" by (rule openHistory_sound [OF s0 stored])
  note h1 = pruneAged_sound [OF h0 s1 age]
  note h2 = lifecycle_sound [OF h1(1) s2]
  show ?thesis
  proof (cases w)
    case False
    then have "set (mh_replicaHistory h2) \<subseteq> set (mh_replicaHistory h0)" using h1(2) h2(2) by auto
    then show ?thesis using rest False admitSample_sound [OF m h2(1) ob assms(3-5)] by auto
  qed (use rest h2(1) in simp)
qed

section \<open>Windows after a sample\<close>

lemma applyStep_iff:
  "applyStep retry now slot replicas ob (c, data) m = Inr s' \<longleftrightarrow>
     (\<exists>c1 h. sampleModel retry now slot replicas ob m (d_modelHistories data (m_name m)) = Inr (c1, h) \<and>
        s' = (c \<or> c1, storeHistory m h data))"
  by (auto simp: applyStep_def rbind_eq_Inr_iff)

lemma applyStep_sound:
  assumes m: "\<And>m. m \<in> set ms \<Longrightarrow> validateModel vl spec m = None"
    and age: "\<And>m age. m \<in> set ms \<Longrightarrow> m_historyMaxAge m = Some age \<Longrightarrow> 0 < age \<and> age \<le> 9223372036854"
    and ob: "observation_ok ob now" "0 \<le> replicas" "ns slot \<noteq> 0" "ns slot \<le> ns now"
    and "distinct (map m_name ms)"
    and "\<And>m h. m \<in> set ms \<Longrightarrow> d_modelHistories data (m_name m) = Some h \<Longrightarrow> in_i64 (mh_historyEpoch h)"
    and "foldR (applyStep retry now slot replicas ob) (c, data) ms = Inr (c', data')"
    and "name \<in> m_name ` set ms"
  shows "\<exists>m \<in> set ms. \<exists>h. m_name m = name \<and> d_modelHistories data' name = Some h \<and> sound m now h"
  using m age assms(7-10)
proof (induction ms arbitrary: c data)
  case (Cons m ms)
  obtain c1 h where h: "sampleModel retry now slot replicas ob m (d_modelHistories data (m_name m)) = Inr (c1, h)"
    and rest: "foldR (applyStep retry now slot replicas ob) (c \<or> c1, storeHistory m h data) ms = Inr (c', data')"
    using Cons.prems(5) unfolding foldR.simps(2) rbind_eq_Inr_iff applyStep_iff by blast
  have sound: "sound m now h"
    by (rule sampleModel_sound [OF Cons.prems(1) [OF list.set_intros(1)] ob Cons.prems(2) [OF list.set_intros(1)]
          Cons.prems(4) [OF list.set_intros(1)] h])
  have kept: "d_modelHistories data' (m_name m) = Some h"
  proof -
    have "d_modelHistories (snd (c', data')) (m_name m) = Some h"
    proof (rule foldR_invariant [OF rest, where P = "\<lambda>s. d_modelHistories (snd s) (m_name m) = Some h"])
      show "d_modelHistories (snd b) (m_name m) = Some h"
        if "x \<in> set ms" "d_modelHistories (snd a) (m_name m) = Some h" "applyStep retry now slot replicas ob a x = Inr b" for a x b
        using that Cons.prems(3) by (cases a) (auto simp: applyStep_iff storeHistory_def)
    qed (simp add: storeHistory_def)
    then show ?thesis by simp
  qed
  show ?case
  proof (cases "name = m_name m")
    case True
    then show ?thesis using kept sound by auto
  next
    case False
    have epochs: "in_i64 (mh_historyEpoch h')" if "x \<in> set ms" "d_modelHistories (storeHistory m h data) (m_name x) = Some h'" for x h'
      using that Cons.prems(4) [of x h'] sound by (auto simp: storeHistory_def sound_def split: if_splits)
    have "\<exists>m \<in> set ms. \<exists>h. m_name m = name \<and> d_modelHistories data' name = Some h \<and> sound m now h"
    proof (rule Cons.IH [OF _ _ _ epochs rest])
      show "validateModel vl spec x = None" if "x \<in> set ms" for x using Cons.prems(1) [of x] that by simp
      show "0 < age \<and> age \<le> 9223372036854" if "x \<in> set ms" "m_historyMaxAge x = Some age" for x age
        using Cons.prems(2) [of x age] that by simp
    qed (use Cons.prems(3,6) False in auto)
    then show ?thesis by auto
  qed
qed simp

text \<open>
  C14: invariant. After a sample has been applied to any stored state (missing, foreign, damaged or valid
  histories), every history that remains belongs to a configured model of its type and passes the
  validation of training windows at that time: chronological samples with sane values, markers that are
  not ahead of the clock, and the consumed marker within the retained samples.
\<close>

theorem sampler_windows_valid:
  assumes "Validate vl (Some inst) = None" "applySample separate inst data now slot replicas ob = Inr (c, data')"
    and "observation_ok ob now" "0 \<le> replicas" "ns slot \<noteq> 0" "ns slot \<le> ns now"
    and "\<And>name h. d_modelHistories data name = Some h \<Longrightarrow> in_i64 (mh_historyEpoch h)"
    and "d_modelHistories data' name = Some h"
  shows "(\<exists>model \<in> set (s_models (h_spec inst)). m_name model = name \<and> m_type model = mh_type h) \<and> ValidateWindow h now = None"
proof -
  let ?ms = "s_models (h_spec inst)"
  obtain c1 data1 where d: "foldR (applyStep (snd (cpuRetryDeadline separate inst slot now)) now slot replicas ob) (False, data) ?ms = Inr (c1, data1)"
    "d_modelHistories data' = d_modelHistories data1 |` set (map m_name ?ms)"
    using assms(2) by (auto simp: applySample_def dropUnconfigured_def Let_def rbind_eq_Inr_iff)
  have name: "name \<in> m_name ` set ?ms" "d_modelHistories data1 name = Some h"
    using assms(8) unfolding d(2) by (auto simp: restrict_map_def split: if_splits)
  have period: "\<not> present (\<lambda>v. \<not> validDuration v millisecond 1) (s_syncPeriod (h_spec inst))" using assms(1) by (simp add: Validate_parts)
  have "0 < age \<and> age \<le> 9223372036854" if "m \<in> set ?ms" "m_historyMaxAge m = Some age" for m age
    using validated_age(1,2) [OF validated_model [OF assms(1) that(1)] that(2) period] by simp
  moreover have "distinct (map m_name ?ms)"
    using assms(1) modelsLoop_distinct by (auto simp: Validate_def validateModels_def Let_def)
  ultimately have "\<exists>m \<in> set ?ms. \<exists>h. m_name m = name \<and> d_modelHistories data1 name = Some h \<and> sound m now h"
    using validated_model [OF assms(1)] assms(7)
    by (intro applyStep_sound [OF _ _ assms(3-6) _ _ d(1) name(1)]) blast+
  then show ?thesis using name(2) by (auto simp: sound_def)
qed

section \<open>The journal\<close>

lemma unexpired_clock:
  "wp (only clockOnly) k (\<lambda>r _. keepsJournal data r) () \<Longrightarrow> wp (only clockOnly) (unexpired ob k) (\<lambda>r _. keepsJournal data r) ()"
  by (simp add: unexpired_def keepsJournal_def split: option.split)

lemma unexpiredTraining_clock:
  "wp (only clockOnly) k (\<lambda>r _. keepsJournal data r) () \<Longrightarrow>
     wp (only clockOnly) (unexpiredTraining data' ms k) (\<lambda>r _. keepsJournal data r) ()"
  by (induction ms) (simp_all add: keepsJournal_def)

lemma loops_keep_journal:
  "foldR (applyStep retry now slot replicas ob) s ms = Inr s' \<Longrightarrow> d_pendingScale (snd s') = d_pendingScale (snd s)"
  "foldR (prepareStep now slot) q ms = Inr q' \<Longrightarrow> d_pendingScale (snd (snd q')) = d_pendingScale (snd (snd q))"
  by (erule foldR_invariant [where P = "\<lambda>x. d_pendingScale (snd x) = d_pendingScale (snd s)"];
      auto simp: applyStep_def rbind_eq_Inr_iff storeHistory_def split: prod.splits)
    (erule foldR_invariant [where P = "\<lambda>x. d_pendingScale (snd (snd x)) = d_pendingScale (snd (snd q))"];
      auto simp: prepareStep_def rbind_eq_Inr_iff storeHistory_def split: prod.splits)

lemma applySample_keeps:
  assumes "applySample separate inst data now slot replicas ob = Inr v"
  shows "d_pendingScale (snd v) = d_pendingScale data"
  using assms loops_keep_journal(1) [of _ now slot replicas ob "(False, data)"]
  by (fastforce simp: applySample_def rbind_eq_Inr_iff dropUnconfigured_def split: prod.splits)

lemma prepareSamplingState_keeps:
  assumes "prepareSamplingState inst data now slot = Inr (c, d, data')"
  shows "d_pendingScale data' = d_pendingScale data"
  using assms loops_keep_journal(2) [of now slot "(False, False, data)"]
  by (fastforce simp: prepareSamplingState_def rbind_eq_Inr_iff dropUnconfigured_def split: prod.splits)

interpretation reclaim: journal_keeping reclaimAction
  by unfold_locales (simp add: reclaimAction_def keepsJournal_def)

interpretation prepare: journal_keeping "prepareAction inst slot" for inst slot
proof unfold_locales
  have "resultKeeps data (rbind (prepareSamplingState inst data now slot) (\<lambda>(changed, due, data'). Inr (changed, data')))" for data now
    by (cases "prepareSamplingState inst data now slot") (auto simp: prepareSamplingState_keeps)
  then show "wp (only clockOnly) (prepareAction inst slot data) (\<lambda>r _. keepsJournal data r) ()" for data
    by (simp add: prepareAction_def keepsJournal_pure)
qed

interpretation admission: journal_keeping "sampleAction separate inst slot replicas ob" for separate inst slot replicas ob
proof unfold_locales
  fix data
  have "wp (only clockOnly) (case applySample separate inst data now slot replicas ob of
      Inl e \<Rightarrow> fail (Failure e)
    | Inr (changed, data') \<Rightarrow> io_bind readClock (\<lambda>check.
        unexpiredTraining data' (s_models (h_spec inst)) (unexpired ob (ok (changed, data'))))) (\<lambda>r _. keepsJournal data r) ()" for now
  proof (cases "applySample separate inst data now slot replicas ob")
    case (Inr v)
    obtain changed data' where v: "v = (changed, data')" by (cases v)
    have "keepsJournal data (Inr (changed, data'))" using applySample_keeps [OF Inr] by (simp add: keepsJournal_def v)
    then show ?thesis by (simp add: Inr v unexpiredTraining_clock unexpired_clock)
  qed (simp add: keepsJournal_def)
  then show "wp (only clockOnly) (sampleAction separate inst slot replicas ob data) (\<lambda>r _. keepsJournal data r) ()"
    unfolding sampleAction_def by (intro unexpired_clock) (auto simp: keepsJournal_def)
qed

section \<open>The sampler always runs again\<close>

text \<open>
  Whatever an attempt reported, the delay after which the work queue hands the resource to the
  sampler again is positive, so that it is handed again at all, and at most the sync period and two
  seconds, so that no slot is skipped by more than that: across missing CPU, duplicate sources, slow
  attempts that crossed a slot boundary and lifecycle deadlines that have already passed.
\<close>

theorem sampler_always_requeues:
  assumes "\<not> present (\<lambda>v. v \<le> 0 \<or> v > 3153600000000) (s_syncPeriod (h_spec inst))"
  shows "0 < requeueDelay separate hash inst report now \<and>
    requeueDelay separate hash inst report now \<le> syncPeriodForInstance inst + 2 * second"
proof -
  define p where "p = syncPeriodForInstance inst"
  have p: "0 < p" "p \<le> hour * 876000" "millisecond \<le> p"
    using assms by (cases "s_syncPeriod (h_spec inst)"; simp add: p_def syncPeriodForInstance_def wrap64_id in_i64_def)+
  obtain k where k: "ns now < p * k" "p * (k - 1) < ns (samplingSlot now p) + second" "nextSamplingDelay now p = p * k - ns now"
    using next_wakeup [OF p(1,2)] by metis
  have "ns (samplingSlot now p) \<le> p * (ns now div p)" unfolding samplingSlot_ns [OF p(1)] by (rule div_bounds(1)) simp
  also have "\<dots> \<le> ns now" using div_bounds(1) [OF p(1)] .
  finally have n: "0 < nextSamplingDelay now p" "nextSamplingDelay now p \<le> p + second"
    using k by (simp_all add: right_diff_distrib)
  have j: "0 \<le> samplingJitter hash inst" "samplingJitter hash inst \<le> second"
    unfolding samplingJitter_def Let_def by (simp_all add: less_imp_le order_trans [OF less_imp_le [OF pos_mod_bound]])
  define d0 where "d0 = wrap64 (nextSamplingDelay now p + samplingJitter hash inst)"
  have d0: "0 < d0" "d0 \<le> p + 2 * second" using n j p by (simp_all add: d0_def wrap64_id in_i64_def)
  define d1 where "d1 = retryDelay separate inst report now d0"
  have d1: "0 < d1" "d1 \<le> p + 2 * second"
    using d0 by (auto simp: d1_def retryDelay_def cpuRetryDeadline_def Let_def t_sub_pos_iff split: if_splits)
  have "requeueDelay separate hash inst report now = (let d2 = (if after (samplingSlot now p) (sp_sampledSlot report) then millisecond else d1)
      in case sp_nextCheck report of None \<Rightarrow> d2
         | Some c \<Rightarrow> if t_sub c now < d2 then (if t_sub c now \<le> 0 then millisecond else t_sub c now) else d2)"
    by (simp only: requeueDelay_def p_def d0_def d1_def Let_def)
  then show ?thesis using d1 p(3) by (auto simp: Let_def p_def [symmetric] split: option.split)
qed

section \<open>Samples\<close>

definition cpuObservation :: CPUObservationSnapshot where
  "cpuObservation = \<lparr>co_metricsValidUntil = None, co_metricsIncomplete = False, co_targetIdentity = ''t'', co_sourceID = '''',
     co_sourceTime = zero_time, co_utilization = None, co_totalUsageMillicores = Some 900,
     co_requestPerPodMillicores = Some 500, co_targetUtilizationPercentage = Some 70\<rparr>"

definition firstSample :: ModelHistory where
  "firstSample = (newHistory TypeLinear)\<lparr>mh_lastSampleTime := Some (atSecond 100),
     mh_replicaHistory := [observedRow (atSecond 100) 3 cpuObservation]\<rparr>"

lemma first_sample_applied:
  "\<exists>data'. applySample False validInstance emptyData (atSecond 101) (atSecond 100) 3 cpuObservation = Inr (True, data') \<and>
     d_modelHistories data' ''m'' = Some firstSample"
proof -
  have v: "ValidateWindow (newHistory TypeLinear) (atSecond 101) = None" by (rule newHistory_valid)
  have o: "openHistory linearModel (atSecond 101) None = Inr (True, newHistory TypeLinear)"
    by (simp add: openHistory_def newHistory_valid)
  have p: "pruneAgedHistory linearModel (newHistory TypeLinear) (atSecond 101) = Inr (False, newHistory TypeLinear)"
    by (simp add: pruneAgedHistory_def newHistory_def)
  have l: "lifecycle linearModel (atSecond 101) None (newHistory TypeLinear) = Inr (False, False, newHistory TypeLinear)"
    by (simp add: lifecycle_def expireHistory_def)
  have c: "CountCPUHistory [observedRow (atSecond 100) 3 cpuObservation] = 1"
    by (simp add: CountCPUHistory_length FilterCPUHistory_def hasCPU_def observedRow_def cpuObservation_def)
  have a: "admitSample retry linearModel (atSecond 101) (atSecond 100) 3 cpuObservation None (newHistory TypeLinear)
      = Inr (True, firstSample)" for retry
    using c
    by (simp add: admitSample_def slotDue_def latestSample_def newHistory_def LatestTimestamp_def cpuObservation_def appendSample_def
        firstSample_def PruneHistory_def linearPruneHistory_def pruneNewest_def PruneCPUHistory_def)
  have "LatestTimestamp (mh_replicaHistory (newHistory TypeLinear)) = None" by (simp add: newHistory_def LatestTimestamp_def)
  then have "sampleModel retry (atSecond 101) (atSecond 100) 3 cpuObservation linearModel None = Inr (True, firstSample)" for retry
    using o p l a by (simp add: sampleModel_def)
  then show ?thesis
    by (simp add: applySample_def applyStep_def emptyData_def dropUnconfigured_def Let_def storeHistory_def)
qed

theorem sampler_windows_valid_witness:
  "\<exists>data'. applySample False validInstance emptyData (atSecond 101) (atSecond 100) 3 cpuObservation = Inr (True, data') \<and>
     d_modelHistories data' ''m'' = Some firstSample \<and> ValidateWindow firstSample (atSecond 101) = None"
proof -
  obtain data' where d: "applySample False validInstance emptyData (atSecond 101) (atSecond 100) 3 cpuObservation = Inr (True, data')"
    "d_modelHistories data' ''m'' = Some firstSample" using first_sample_applied by blast
  have "observation_ok cpuObservation (atSecond 101)" by (simp add: observation_ok_def cpuObservation_def)
  then have "ValidateWindow firstSample (atSecond 101) = None"
    using sampler_windows_valid [OF validInstance_valid d(1) _ _ _ _ _ d(2)] by (simp add: emptyData_def)
  then show ?thesis using d by blast
qed

theorem sampler_always_requeues_witness:
  "0 < requeueDelay True (\<lambda>_. 12345678901) validInstance \<lparr>sp_outcome = ''missing_cpu'', sp_nextCheck = Some zero_time,
     sp_sampledSlot = atSecond 100\<rparr> (atSecond 101)"
  using sampler_always_requeues [of validInstance True "\<lambda>_. 12345678901" "\<lparr>sp_outcome = ''missing_cpu'', sp_nextCheck = Some zero_time,
     sp_sampledSlot = atSecond 100\<rparr>" "atSecond 101"] by simp

end
