(* ===== verification/CallBounds.thy ===== *)
theory CallBounds
  imports JournalProtocol
begin

text \<open>
  How many calls the programs of \<open>Effects\<close> make. \<open>calls_within p n\<close> says that a program makes at most \<open>n\<close> calls
  whatever the replies; it composes along \<open>io_bind\<close>, so that the bounds of the retry loops and of the
  programs that use them follow from their structure. With \<open>step_or_return\<close>, a program within a bound
  returns: no sequence of conflicts, changed owners or failures makes it retry forever.
\<close>

section \<open>Programs within a number of calls\<close>

primrec calls_within :: "'a io \<Rightarrow> nat \<Rightarrow> bool" where
  "calls_within (Return a) = (\<lambda>n. True)"
| "calls_within (GetOwner k) = (\<lambda>n. case n of 0 \<Rightarrow> False | Suc m \<Rightarrow> \<forall>r. calls_within (k r) m)"
| "calls_within (GetScale k) = (\<lambda>n. case n of 0 \<Rightarrow> False | Suc m \<Rightarrow> \<forall>r. calls_within (k r) m)"
| "calls_within (UpdateScale s k) = (\<lambda>n. case n of 0 \<Rightarrow> False | Suc m \<Rightarrow> \<forall>r. calls_within (k r) m)"
| "calls_within (LoadHistory k) = (\<lambda>n. case n of 0 \<Rightarrow> False | Suc m \<Rightarrow> \<forall>r. calls_within (k r) m)"
| "calls_within (CommitHistory d k) = (\<lambda>n. case n of 0 \<Rightarrow> False | Suc m \<Rightarrow> \<forall>r. calls_within (k r) m)"
| "calls_within (PatchStatus s k) = (\<lambda>n. case n of 0 \<Rightarrow> False | Suc m \<Rightarrow> \<forall>r. calls_within (k r) m)"
| "calls_within (ReadClock k) = (\<lambda>n. case n of 0 \<Rightarrow> False | Suc m \<Rightarrow> \<forall>t. calls_within (k t) m)"
| "calls_within (CheckContext k) = (\<lambda>n. case n of 0 \<Rightarrow> False | Suc m \<Rightarrow> \<forall>e. calls_within (k e) m)"

lemma within_step: "calls_within p n \<Longrightarrow> step p e q \<Longrightarrow> \<exists>m. n = Suc m \<and> calls_within q m"
  by (cases p; cases n) auto

lemma within_steps:
  assumes "steps p t q" "calls_within p n"
  shows "length t \<le> n"
  using assms
proof (induction arbitrary: n rule: steps.induct)
  case (steps_Cons p e q t r)
  then obtain m where "n = Suc m" "calls_within q m" using within_step by blast
  then show ?case using steps_Cons.IH [of m] by simp
qed simp

lemma within_mono: "calls_within p n \<Longrightarrow> n \<le> m \<Longrightarrow> calls_within p m"
proof (induction p arbitrary: n m)
qed (simp_all only: calls_within.simps split: nat.splits; meson Suc_le_mono Suc_le_D rangeI le_0_eq)+

lemma within_bind:
  assumes "calls_within p n" "\<And>r. calls_within (f r) m"
  shows "calls_within (io_bind p f) (n + m)"
  using assms(1)
proof (induction p arbitrary: n)
  case (Return a)
  show ?case using within_mono [OF assms(2) [of a]] by simp
qed (auto split: nat.splits)

lemma within_calls:
  "calls_within getOwner 1" "calls_within getScale 1" "calls_within (updateScale s) 1" "calls_within loadHistory 1"
  "calls_within (commitHistory d) 1" "calls_within (patchStatus st) 1" "calls_within readClock 1" "calls_within checkContext 1"
  by simp_all

lemma within_map: "calls_within p n \<Longrightarrow> calls_within (io_bind p (\<lambda>r. Return (f r))) n"
  using within_bind [of p n "\<lambda>r. Return (f r)" 0] by simp

lemma step_or_return: "(\<exists>e q. step p e q) \<or> (\<exists>v. p = Return v)"
  by (cases p) auto

lemma within_attempt:
  assumes "calls_within p n" "\<And>a. calls_within (f a) m"
  shows "calls_within (attempt p f) (n + m)"
  unfolding attempt_def by (rule within_bind [OF assms(1)]) (auto simp: assms(2) split: sum.split)

section \<open>The loops\<close>

lemma within_contextErr: "calls_within contextErr 1"
  by (auto simp: contextErr_def One_nat_def split: option.split)

lemma within_retryOnConflict: "calls_within p k \<Longrightarrow> calls_within (retryOnConflict n p) (k * (n + 1))"
proof (induction n)
  case (Suc n)
  have "calls_within (retryOnConflict (Suc n) p) (k + k * (n + 1))"
    unfolding retryOnConflict.simps
    using Suc.IH [OF Suc.prems] by (intro within_bind [OF Suc.prems]) (simp split: sum.split ioerror.split)
  then show ?case by (simp add: algebra_simps)
qed simp

lemma within_saveStatus: "calls_within (saveStatus lib latest st) 1"
  by (auto simp: saveStatus_def attempt_def split: option.split sum.split)

lemma within_mutateStatusChecked:
  assumes "\<And>st. calls_within (mutate st) m"
  shows "calls_within (mutateStatusChecked lib inst mutate) ((m + 3) * (lib_retries lib + 1))"
  unfolding mutateStatusChecked_def
proof (rule within_retryOnConflict)
  have inner: "calls_within (attempt (mutate st) (saveStatus lib latest)) (m + 1)" for st latest
    by (rule within_attempt [OF assms within_saveStatus])
  have "calls_within (statusAttempt lib inst mutate) (1 + (1 + (m + 1)))"
    unfolding statusAttempt_def by (intro within_attempt within_contextErr) (auto simp: inner [simplified])
  then show "calls_within (statusAttempt lib inst mutate) (m + 3)" by (simp add: numeral_3_eq_3)
qed

lemma within_mutateLoop:
  assumes "\<And>data. calls_within (mutate data) m"
  shows "calls_within (mutateLoop n inst mutate None e) (n * (m + 5))"
proof (induction n arbitrary: e)
  case 0
  show ?case by (simp split: option.split)
next
  case (Suc n)
  have check: "calls_within (publishCheck inst None d) (1 + 1)" for d
    unfolding publishCheck_def using within_contextErr by (intro within_attempt) (simp_all split: if_split)
  have "calls_within (attempt (publishCheck inst None d) (\<lambda>_. commitHistory d)) (1 + 1 + 1)" for d
    by (rule within_attempt [OF check]) simp
  then have "calls_within (io_bind (attempt (publishCheck inst None d) (\<lambda>_. commitHistory d)) (\<lambda>r. case r of Inr _ \<Rightarrow> ok ()
      | Inl Conflict \<Rightarrow> mutateLoop n inst mutate None (Some Conflict) | Inl e \<Rightarrow> fail e)) (1 + 1 + 1 + n * (m + 5))" for d
    by (rule within_bind) (auto simp: Suc split: sum.split ioerror.split)
  then have "calls_within (attempt (mutate data) (\<lambda>(changed, data'). if \<not> changed then ok ()
      else io_bind (attempt (publishCheck inst None data') (\<lambda>_. commitHistory data')) (\<lambda>r. case r of Inr _ \<Rightarrow> ok ()
        | Inl Conflict \<Rightarrow> mutateLoop n inst mutate None (Some Conflict) | Inl e \<Rightarrow> fail e))) (m + (1 + 1 + 1 + n * (m + 5)))" for data
    by (intro within_attempt [OF assms]) (auto split: prod.split)
  then have load: "calls_within (attempt loadHistory (\<lambda>data. attempt (mutate data) (\<lambda>(changed, data'). if \<not> changed then ok ()
      else io_bind (attempt (publishCheck inst None data') (\<lambda>_. commitHistory data')) (\<lambda>r. case r of Inr _ \<Rightarrow> ok ()
        | Inl Conflict \<Rightarrow> mutateLoop n inst mutate None (Some Conflict) | Inl e \<Rightarrow> fail e)))) (1 + (m + (1 + 1 + 1 + n * (m + 5))))"
    by (rule within_attempt [OF within_calls(4)])
  have "calls_within (mutateLoop (Suc n) inst mutate None e) (1 + (1 + (m + (1 + 1 + 1 + n * (m + 5)))))"
    unfolding mutateLoop.simps using load by (intro within_attempt [OF within_calls(1)]) (simp only: calls_within.simps split: if_split, simp)
  moreover have "Suc n * (m + 5) = 1 + (1 + (m + (1 + 1 + 1 + n * (m + 5))))" by simp
  ultimately show ?case by (simp only:)
qed

lemma within_mutateConfigMapData:
  "(\<And>data. calls_within (mutate data) m) \<Longrightarrow> calls_within (mutateConfigMapData inst mutate) (5 * (m + 5))"
  unfolding mutateConfigMapData_def mutateHistoryChecked_def by (rule within_mutateLoop)

section \<open>The programs of the scale journal\<close>

lemma within_project: "calls_within (projectScaleDecision inst d desired observed st) 2"
  by (auto simp: projectScaleDecision_def)

lemma within_record: "calls_within (recordScaleDecision lib inst d desired observed) (5 * (lib_retries lib + 1))"
proof -
  have "calls_within (io_bind (projectScaleDecision inst d desired observed st) ok) (2 + 0)" for st
    by (rule within_bind [OF within_project]) simp
  then show ?thesis
    unfolding recordScaleDecision_def using within_mutateStatusChecked [where m = 2] by (simp add: numeral_eq_Suc)
qed

lemma within_budget: "calls_within (checkDecisionStatusBudget lib inst d desired observed) 2"
  using within_bind [OF within_project, of _ 0] unfolding checkDecisionStatusBudget_def
  by (metis (no_types, lifting) Nat.add_0_right option.case_eq_if calls_within.simps(1))

lemma within_clear: "calls_within (clearScaleDecision inst ident) 25"
proof -
  have "calls_within (clearMutation ident data) 0" for data by (auto simp: clearMutation_def split: option.split)
  then show ?thesis unfolding clearScaleDecision_def using within_mutateConfigMapData [where m = 0] by fastforce
qed

lemma within_abandon: "calls_within (abandon inst ident e) 25"
  unfolding abandon_def by (rule within_map [OF within_clear])

lemma within_journal: "calls_within (mutateConfigMapData inst (journalMutation validity d)) 30"
proof -
  have "calls_within (journalMutation validity d data) 1" for data by (auto simp: journalMutation_def split: option.split)
  then show ?thesis using within_mutateConfigMapData [where m = 1] by fastforce
qed

lemma within_recheckOwner: "calls_within (recheckOwner lib inst d) 28"
proof -
  have "calls_within (io_bind (checkDecisionStatusBudget lib current d (sd_desired d) (sd_observed d)) (\<lambda>b.
      case b of Inl e \<Rightarrow> abandon inst (sd_id d) e | Inr _ \<Rightarrow> ok ())) (2 + 25)" for current
    by (rule within_bind [OF within_budget]) (auto simp: within_abandon split: sum.split)
  then have "calls_within (recheckOwner lib inst d) (1 + 27)"
    unfolding recheckOwner_def by (intro within_attempt) (auto intro: within_mono [OF within_abandon])
  then show ?thesis by simp
qed

lemma within_prepare: "calls_within (prepareDecision lib inst latest d validity) 61"
proof -
  have "calls_within (recheckDecision lib inst d validity) (1 + 28)"
    unfolding recheckDecision_def
    by (rule within_bind) (auto simp: within_recheckOwner intro: within_mono [OF within_abandon] split: option.split)
  then have "calls_within (prepareDecision lib inst latest d validity) (2 + (30 + 29))"
    unfolding prepareDecision_def by (intro within_attempt within_budget within_journal) simp
  then show ?thesis by simp
qed

lemma within_write: "calls_within (writeDecision lib inst scale d) (5 * lib_retries lib + 31)"
proof -
  let ?R = "5 * (lib_retries lib + 1)"
  have clear: "calls_within (io_bind (clearScaleDecision i (sd_id d)) (\<lambda>c. Return (f c))) 25" for i and f :: "_ \<Rightarrow> string \<times> (ioerror + HPAPlus)"
    by (rule within_map [OF within_clear])
  have "calls_within (io_bind (recordScaleDecision lib inst d (sd_desired d) (sd_observed d)) (\<lambda>r.
      case r of Inl e \<Rightarrow> Return (''accepted'', Inl e)
      | Inr inst' \<Rightarrow> io_bind (clearScaleDecision inst' (sd_id d)) (\<lambda>c.
          Return (''accepted'', case c of Inl ce \<Rightarrow> Inl ce | Inr _ \<Rightarrow> Inr inst')))) (?R + 25)"
    by (rule within_bind [OF within_record]) (auto simp: clear split: sum.split)
  then have "calls_within (writeDecision lib inst scale d) (1 + (?R + 25))"
    unfolding writeDecision_def by (intro within_bind) (auto intro: within_mono [OF clear] split: sum.split)
  then show ?thesis by (simp add: add.commute)
qed

lemma within_unchanged: "calls_within (unchangedStatus lib inst scale desired up down validity) (4 * (lib_retries lib + 1))"
proof -
  have "calls_within (unchangedStatus lib inst scale desired up down validity) ((1 + 3) * (lib_retries lib + 1))"
    unfolding unchangedStatus_def by (rule within_mutateStatusChecked) (auto simp: Let_def split: option.split)
  then show ?thesis by simp
qed

lemma within_apply: "calls_within (applyScaleDecision lib inst scale desired up down validity ident) (5 * lib_retries lib + 95)"
proof -
  let ?n = "5 * lib_retries lib + 92"
  have decide: "calls_within (io_bind (prepareDecision lib inst latest d validity) (\<lambda>r. case r of
      Inl e \<Rightarrow> Return (''not_attempted'', Inl e) | Inr _ \<Rightarrow> writeDecision lib inst scale d)) ?n" for latest d
    using within_bind [OF within_prepare, of "\<lambda>r. case r of Inl e \<Rightarrow> Return (''not_attempted'', Inl e) | Inr _ \<Rightarrow> writeDecision lib inst scale d"
        "5 * lib_retries lib + 31"] within_write by (fastforce simp: add.commute split: sum.split)
  have "5 * lib_retries lib + 95 = 1 + (1 + (1 + ?n))" by simp
  moreover have "calls_within (applyScaleDecision lib inst scale desired up down validity ident) (1 + (1 + (1 + ?n)))"
    unfolding applyScaleDecision_def Let_def
    by (intro conjI impI allI within_bind within_calls within_mono [OF within_map [OF within_unchanged]] decide
        | simp only: calls_within.simps | split if_split sum.split option.split | simp)+
  ultimately show ?thesis by (simp only:)
qed

lemma within_recover: "calls_within (recoverScaleDecision lib inst d) (5 * lib_retries lib + 32)"
proof -
  let ?n = "5 * (lib_retries lib + 1) + 25"
  have account: "calls_within (attempt (recordScaleDecision lib inst d a b) (\<lambda>inst'. clearScaleDecision inst' (sd_id d))) ?n" for a b
    by (rule within_attempt [OF within_record within_clear])
  have "5 * lib_retries lib + 32 = 1 + (1 + ?n)" by simp
  moreover have "calls_within (recoverScaleDecision lib inst d) (1 + (1 + ?n))"
    unfolding recoverScaleDecision_def
    by (intro conjI impI allI within_bind within_calls account within_mono [OF within_clear]
        | simp only: calls_within.simps | split if_split sum.split option.split | simp)+
  ultimately show ?thesis by (simp only:)
qed

text \<open>
  C37: termination. Writing a scale decision and recovering a journalled one always end: whatever the API
  server answers (conflicts at every attempt included), a run makes at most \<open>5 r + 95\<close>, respectively
  \<open>5 r + 32\<close>, calls, where \<open>r\<close> is the number of further attempts of \<open>RetryOnConflict\<close>, and as long as it has
  not returned it has a next call to make.
\<close>

theorem scale_programs_terminate:
  assumes "steps (applyScaleDecision lib inst scale desired up down validity ident) t p"
    and "steps (recoverScaleDecision lib inst d) u q"
  shows "length t \<le> 5 * lib_retries lib + 95 \<and> length u \<le> 5 * lib_retries lib + 32 \<and>
    ((\<exists>e p'. step p e p') \<or> (\<exists>v. p = Return v)) \<and> ((\<exists>e q'. step q e q') \<or> (\<exists>v. q = Return v))"
  using within_steps [OF assms(1) within_apply] within_steps [OF assms(2) within_recover]
    step_or_return [of p] step_or_return [of q] by blast

theorem scale_programs_terminate_witness:
  "steps (applyScaleDecision sampleLibrary sampleInstance sampleScale 3 [] [] alwaysValid ''d1'') runPrefix
     (writeDecision sampleLibrary sampleInstance sampleScale sampleDecision) \<and>
   length runPrefix \<le> 5 * lib_retries sampleLibrary + 95"
proof -
  have "steps (applyScaleDecision sampleLibrary sampleInstance sampleScale 3 [] [] alwaysValid ''d1'') runPrefix
      (writeDecision sampleLibrary sampleInstance sampleScale sampleDecision)"
    unfolding steps_resume by (rule sample_apply_run)
  then show ?thesis
    using scale_programs_terminate [OF _ steps_Nil [of "recoverScaleDecision sampleLibrary sampleInstance sampleDecision"]] by blast
qed

end
