(* ===== verification/Estimator.thy ===== *)
theory Estimator
  imports ApiTypes
begin

text \<open>
  \<open>src/internal/workloaddemand/estimator.go\<close>: the online estimate of CPU seconds per request and of
  background CPU per pod, from accounting windows; and what the request-demand controller does with it
  (\<open>requestReplicas\<close> and \<open>mergeRequestInterval\<close> of \<open>src/internal/controllers/request_demand.go\<close>).
  An estimator is its \<open>State\<close>; \<open>ObserveWindow\<close> returns the new state with the reported estimate. The weight
  function \<open>math.Exp2\<close> is an argument: nothing proved here depends on what it computes.
\<close>

section \<open>Data\<close>

abbreviation (input) Retention :: duration where "Retention \<equiv> 15 * minute"
abbreviation (input) HalfLife :: duration where "HalfLife \<equiv> 2 * minute"
abbreviation (input) MaximumAge :: duration where "MaximumAge \<equiv> 2 * minute"
abbreviation (input) MinimumWindows :: nat where "MinimumWindows \<equiv> 20"

record Window =
  w_id :: string
  w_start :: gotime
  w_end :: gotime
  w_availableAt :: gotime
  w_cpuSeconds :: float64
  w_completedRequests :: float64
  w_podSeconds :: float64
  w_coverage :: float64
  w_qualified :: bool
  w_reason :: string

record Estimate =
  e_cpuSecondsPerRequest :: float64
  e_backgroundCPUPerPod :: float64
  e_state :: string
  e_reason :: string
  e_qualifiedWindows :: int64
  e_version :: nat
  e_lastObservationAt :: gotime
  e_freshUntil :: gotime

record State =
  es_identity :: string
  es_windows :: "Window list"
  es_lastEnd :: gotime
  es_last :: Estimate
  es_drifted :: bool
  es_badDirection :: int64
  es_breaches :: int64
  es_recovery :: int64

definition zeroEstimate :: Estimate where
  "zeroEstimate = \<lparr>e_cpuSecondsPerRequest = Fin 0, e_backgroundCPUPerPod = Fin 0, e_state = '''', e_reason = '''',
     e_qualifiedWindows = 0, e_version = 0, e_lastObservationAt = zero_time, e_freshUntil = zero_time\<rparr>"

definition NewEstimator :: "string \<Rightarrow> State" where
  "NewEstimator identity =
     \<lparr>es_identity = identity, es_windows = [], es_lastEnd = zero_time, es_last = zeroEstimate\<lparr>e_state := ''learning''\<rparr>,
      es_drifted = False, es_badDirection = 0, es_breaches = 0, es_recovery = 0\<rparr>"

section \<open>Admission of windows and restored states\<close>

definition finite_f :: "float64 \<Rightarrow> bool" where
  "finite_f x \<longleftrightarrow> \<not> f_is_nan x \<and> \<not> f_is_inf x"

definition validWindow :: "Window \<Rightarrow> gotime \<Rightarrow> error option" where
  "validWindow w now = firstError
     [(is_zero (w_start w) \<or> \<not> after (w_end w) (w_start w) \<or> t_sub (w_end w) (w_start w) > minute,
       ''accounting window must be positive and at most one minute''),
      (before (w_availableAt w) (w_end w) \<or> after (w_availableAt w) now \<or> after (w_end w) now,
       ''future or backdated accounting observation''),
      (\<not> finite_f (w_cpuSeconds w) \<or> \<not> finite_f (w_completedRequests w) \<or> \<not> finite_f (w_podSeconds w) \<or>
       f_lt (w_cpuSeconds w) (Fin 0) \<or> f_lt (w_completedRequests w) (Fin 0) \<or> f_le (w_podSeconds w) (Fin 0),
       ''invalid CPU, completion or pod accounting''),
      (\<not> w_qualified w \<or> \<not> finite_f (w_coverage w) \<or> f_lt (w_coverage w) (round64 (95 / 100)) \<or>
       f_lt (Fin 1) (w_coverage w),
       ''accounting coverage or qualification unavailable'')]"

fun orderedWindows :: "gotime \<Rightarrow> Window list \<Rightarrow> error option" where
  "orderedWindows prior [] = None"
| "orderedWindows prior (w # ws) =
     (case validWindow w (w_availableAt w) of
        Some e \<Rightarrow> Some ''invalid persisted window: %w''
      | None \<Rightarrow>
        if \<not> is_zero prior \<and> \<not> after (w_end w) prior then Some ''persisted windows must be strictly ordered''
        else orderedWindows (w_end w) ws)"

definition Restore :: "string \<Rightarrow> State \<Rightarrow> State result" where
  "Restore identity state =
     (if identity = '''' \<or> es_identity state \<noteq> identity
      then Inl ''workload/config identity changed; estimator state cannot be reused''
      else if length (es_windows state) > 64 then Inl ''invalid estimator state: too many windows''
      else case orderedWindows zero_time (es_windows state) of
        Some e \<Rightarrow> Inl e
      | None \<Rightarrow>
        let l = es_last state in
        if \<not> finite_f (e_cpuSecondsPerRequest l) \<or> \<not> finite_f (e_backgroundCPUPerPod l) \<or>
           f_lt (e_cpuSecondsPerRequest l) (Fin 0) \<or> f_lt (e_backgroundCPUPerPod l) (Fin 0)
        then Inl ''invalid persisted estimate''
        else Inr state)"

text \<open>\<open>Snapshot\<close> copies the window slice; without shared mutation the copy is the state itself.\<close>

definition Snapshot :: "State \<Rightarrow> State" where
  "Snapshot e = e"

section \<open>The weighted fit\<close>

record moments =
  m_xx :: float64
  m_xz :: float64
  m_zz :: float64
  m_xy :: float64
  m_zy :: float64

definition addMoment :: "(float64 \<Rightarrow> float64) \<Rightarrow> gotime \<Rightarrow> moments \<Rightarrow> Window \<Rightarrow> moments" where
  "addMoment exp2 now m w =
     (let weight = exp2 (f_div (f_neg (d_seconds (t_sub now (w_end w)))) (d_seconds HalfLife));
          x = w_completedRequests w; z = w_podSeconds w; y = w_cpuSeconds w
      in \<lparr>m_xx = f_add (m_xx m) (f_mul (f_mul weight x) x), m_xz = f_add (m_xz m) (f_mul (f_mul weight x) z),
          m_zz = f_add (m_zz m) (f_mul (f_mul weight z) z), m_xy = f_add (m_xy m) (f_mul (f_mul weight x) y),
          m_zy = f_add (m_zy m) (f_mul (f_mul weight z) y)\<rparr>)"

definition candidateLoss :: "moments \<Rightarrow> float64 \<times> float64 \<Rightarrow> float64" where
  "candidateLoss m cand = (case cand of (c, b) \<Rightarrow>
     f_sub (f_sub (f_add (f_add (f_mul (f_mul c c) (m_xx m)) (f_mul (f_mul (f_mul (Fin 2) c) b) (m_xz m)))
       (f_mul (f_mul b b) (m_zz m))) (f_mul (f_mul (Fin 2) c) (m_xy m))) (f_mul (f_mul (Fin 2) b) (m_zy m)))"

fun bestCandidate :: "moments \<Rightarrow> float64 \<Rightarrow> float64 \<times> float64 \<Rightarrow> (float64 \<times> float64) list \<Rightarrow> float64 \<times> float64" where
  "bestCandidate m best res [] = res"
| "bestCandidate m best res (cand # cs) =
     (let loss = candidateLoss m cand
      in if f_lt loss best then bestCandidate m loss cand cs else bestCandidate m best res cs)"

definition fitCandidates :: "moments \<Rightarrow> float64 \<Rightarrow> (float64 \<times> float64) list" where
  "fitCandidates m determinant =
     (let c = f_div (f_sub (f_mul (m_xy m) (m_zz m)) (f_mul (m_zy m) (m_xz m))) determinant;
          b = f_div (f_sub (f_mul (m_zy m) (m_xx m)) (f_mul (m_xy m) (m_xz m))) determinant
      in [(f_max (Fin 0) (f_div (m_xy m) (m_xx m)), Fin 0), (Fin 0, f_max (Fin 0) (f_div (m_zy m) (m_zz m)))] @
         (if f_le (Fin 0) c \<and> f_le (Fin 0) b then [(c, b)] else []))"

definition fit :: "(float64 \<Rightarrow> float64) \<Rightarrow> Window list \<Rightarrow> gotime \<Rightarrow> (float64 \<times> float64) option" where
  "fit exp2 ws now =
     (let m = foldl (addMoment exp2 now) \<lparr>m_xx = Fin 0, m_xz = Fin 0, m_zz = Fin 0, m_xy = Fin 0, m_zy = Fin 0\<rparr> ws;
          determinant = f_sub (f_mul (m_xx m) (m_zz m)) (f_mul (m_xz m) (m_xz m)) in
      if f_le (m_xx m) (Fin 0) \<or> f_le (m_zz m) (Fin 0) \<or>
         f_lt (f_div determinant (f_mul (m_xx m) (m_zz m))) (round64 (1 / 10000)) then None
      else
        let res = bestCandidate m PInf (Fin 0, Fin 0) (fitCandidates m determinant) in
        if \<not> finite_f (fst res) \<or> \<not> finite_f (snd res) \<or> f_le (fst res) (Fin 0) then None else Some res)"

section \<open>Observation\<close>

definition currentEstimate :: "State \<Rightarrow> gotime \<Rightarrow> Estimate" where
  "currentEstimate e now =
     (let out = es_last e in
      if \<not> is_zero (e_freshUntil out) \<and> \<not> before now (e_freshUntil out)
      then out\<lparr>e_state := ''stale'', e_reason := ''no suitable accounting evidence for two minutes''\<rparr>
      else out)"

definition accountingError :: "Estimate \<Rightarrow> Window \<Rightarrow> float64" where
  "accountingError prior w =
     (let predicted = f_add (f_mul (e_cpuSecondsPerRequest prior) (w_completedRequests w))
                            (f_mul (e_backgroundCPUPerPod prior) (w_podSeconds w))
      in f_div (f_sub (w_cpuSeconds w) predicted)
           (f_max (f_max (w_cpuSeconds w) predicted) (round64 (1 / 10 ^ 9))))"

definition scoreWindow :: "State \<Rightarrow> Window \<Rightarrow> State" where
  "scoreWindow e w =
     (let prior = es_last e in
      if f_lt (Fin 0) (e_cpuSecondsPerRequest prior) then
        let relative = accountingError prior w in
        if f_lt (Fin (1 / 4)) (f_abs relative) then
          let direction = (if f_lt relative (Fin 0) then - 1 else 1);
              e1 = (if direction = es_badDirection e then e\<lparr>es_breaches := wrap64 (es_breaches e + 1)\<rparr>
                    else e\<lparr>es_badDirection := direction, es_breaches := 1\<rparr>);
              e2 = e1\<lparr>es_recovery := 0\<rparr>
          in if es_breaches e2 \<ge> 3 then e2\<lparr>es_drifted := True\<rparr> else e2
        else
          let e1 = e\<lparr>es_badDirection := 0, es_breaches := 0\<rparr> in
          if es_drifted e1 then
            let e2 = e1\<lparr>es_recovery := wrap64 (es_recovery e1 + 1)\<rparr>
            in if es_recovery e2 \<ge> 3 then e2\<lparr>es_drifted := False, es_recovery := 0\<rparr> else e2
          else e1
      else e)"

definition retainWindows :: "State \<Rightarrow> Window \<Rightarrow> Window list" where
  "retainWindows e w =
     (let cutoff = t_add (w_end w) (- Retention)
      in filter (\<lambda>old. \<not> before (w_end old) cutoff) (es_windows e) @ [w])"

definition newEstimate :: "(float64 \<Rightarrow> float64) \<Rightarrow> nat \<Rightarrow> Window list \<Rightarrow> Window \<Rightarrow> Estimate" where
  "newEstimate exp2 version ws w =
     (let estimate = \<lparr>e_cpuSecondsPerRequest = Fin 0, e_backgroundCPUPerPod = Fin 0, e_state = ''learning'',
            e_reason = ''requires at least twenty qualified windows'', e_qualifiedWindows = int (length ws),
            e_version = version, e_lastObservationAt = w_end w, e_freshUntil = t_add (w_end w) MaximumAge\<rparr> in
      if length ws \<ge> MinimumWindows then
        (case fit exp2 ws (w_end w) of
           None \<Rightarrow> estimate\<lparr>e_state := ''unidentifiable'',
             e_reason := ''request completions and pod time lack independent variation''\<rparr>
         | Some (c, b) \<Rightarrow> estimate\<lparr>e_cpuSecondsPerRequest := c, e_backgroundCPUPerPod := b,
             e_version := (version + 1) mod 2 ^ 64, e_state := ''qualified'', e_reason := ''''\<rparr>)
      else estimate)"

definition markDrift :: "bool \<Rightarrow> Estimate \<Rightarrow> Estimate" where
  "markDrift drifted estimate =
     (if drifted then estimate\<lparr>e_state := ''drifted'',
        e_reason := ''three consecutive same-direction accounting errors above 25 percent''\<rparr>
      else estimate)"

definition ObserveWindow :: "(float64 \<Rightarrow> float64) \<Rightarrow> State \<Rightarrow> Window \<Rightarrow> gotime \<Rightarrow> State \<times> Estimate" where
  "ObserveWindow exp2 e w now =
     (if \<not> is_zero (es_lastEnd e) \<and> \<not> after (w_end w) (es_lastEnd e) then (e, currentEstimate e now)
      else case validWindow w now of
        Some err \<Rightarrow> (e, (currentEstimate e now)\<lparr>e_reason := err\<rparr>)
      | None \<Rightarrow>
        if \<not> is_zero (es_lastEnd e) \<and> before (w_start w) (es_lastEnd e)
        then (e, (currentEstimate e now)\<lparr>e_reason := ''overlapping accounting window''\<rparr>)
        else
          let e1 = scoreWindow (e\<lparr>es_lastEnd := w_end w\<rparr>) w;
              ws = retainWindows e1 w;
              estimate = markDrift (es_drifted e1) (newEstimate exp2 (e_version (es_last e)) ws w);
              e2 = e1\<lparr>es_windows := ws, es_last := estimate\<rparr>
          in (e2, currentEstimate e2 now))"

section \<open>Replicas for forecast arrivals\<close>

definition RequiredReplicas :: "float64 \<Rightarrow> float64 \<Rightarrow> float64 \<Rightarrow> Estimate \<Rightarrow> gotime \<Rightarrow> float64 result" where
  "RequiredReplicas arrivalsPerSecond requestCores targetUtilization estimate now =
     (if e_state estimate \<noteq> ''qualified'' \<or> \<not> before now (e_freshUntil estimate)
      then Inl ''CPU-cost estimate is unavailable''
      else if \<not> finite_f arrivalsPerSecond \<or> f_lt arrivalsPerSecond (Fin 0) \<or> \<not> finite_f requestCores \<or>
        f_le requestCores (Fin 0) \<or> \<not> finite_f targetUtilization \<or> f_le targetUtilization (Fin 0) \<or>
        f_lt (Fin 1) targetUtilization
      then Inl ''invalid arrival forecast or pod CPU capacity''
      else
        let denominator = f_sub (f_mul requestCores targetUtilization) (e_backgroundCPUPerPod estimate) in
        if f_le denominator (Fin 0) then Inl ''background CPU consumes the target capacity per pod''
        else
          let v = f_div (f_mul arrivalsPerSecond (e_cpuSecondsPerRequest estimate)) denominator in
          if \<not> finite_f v then Inl ''nonfinite replica demand'' else Inr v)"

record Point =
  p_at :: gotime
  p_until :: gotime
  p_value :: float64

definition mergeRequestInterval :: "Point list \<Rightarrow> Point list \<Rightarrow> gotime \<Rightarrow> Point list" where
  "mergeRequestInterval old fresh now =
     (case fresh of [] \<Rightarrow> []
      | f # _ \<Rightarrow>
        map (\<lambda>p. if after (p_until p) (p_at f) then p\<lparr>p_until := p_at f\<rparr> else p)
          (filter (\<lambda>p. \<not> (\<not> after (p_until p) now \<or> \<not> before (p_at p) (p_at f))) old) @ fresh)"

definition considerInstant :: "gotime \<Rightarrow> gotime \<Rightarrow> gotime \<Rightarrow> gotime" where
  "considerInstant now deadline t =
     (if after t now \<and> (is_zero deadline \<or> before t deadline) then t else deadline)"

definition livePoint :: "gotime \<Rightarrow> Point \<Rightarrow> bool" where
  "livePoint now p \<longleftrightarrow> \<not> before now (p_at p) \<and> before now (p_until p)"

definition upcomingPoint :: "duration \<Rightarrow> gotime \<Rightarrow> Point \<Rightarrow> bool" where
  "upcomingPoint lead now p \<longleftrightarrow> after (p_at p) now \<and> \<not> after (p_at p) (t_add now lead)"

record scan =
  sc_value :: float64
  sc_known :: bool
  sc_upcoming :: bool
  sc_deadline :: gotime

definition scanPoint :: "duration \<Rightarrow> gotime \<Rightarrow> scan \<Rightarrow> Point \<Rightarrow> scan" where
  "scanPoint lead now s p =
     (let d = considerInstant now (considerInstant now (considerInstant now (sc_deadline s) (p_at p)) (p_until p))
                (t_add (p_at p) (- lead));
          s1 = s\<lparr>sc_deadline := d\<rparr>;
          s2 = (if livePoint now p
                then s1\<lparr>sc_known := True, sc_value := (if f_lt (sc_value s1) (p_value p) then p_value p else sc_value s1)\<rparr>
                else s1)
      in if upcomingPoint lead now p
         then s2\<lparr>sc_upcoming := True, sc_value := (if f_lt (sc_value s2) (p_value p) then p_value p else sc_value s2)\<rparr>
         else s2)"

definition requestReplicas :: "Point list \<Rightarrow> Estimate \<Rightarrow> PredictivePolicy \<Rightarrow> float64 \<Rightarrow> float64 \<Rightarrow> int32 \<Rightarrow> gotime \<Rightarrow>
    (int32 \<times> gotime) result" where
  "requestReplicas points estimate policy request target current now =
     (let lead = wrap64 (pp_scaleUpLeadSeconds policy * second);
          s = foldl (scanPoint lead now) \<lparr>sc_value = Fin 0, sc_known = False, sc_upcoming = False, sc_deadline = zero_time\<rparr> points in
      if is_zero (sc_deadline s) \<or> (\<not> sc_known s \<and> \<not> sc_upcoming s) then Inl ''no live request forecast''
      else case RequiredReplicas (sc_value s) request target estimate now of
        Inl e \<Rightarrow> Inl ''invalid learned capacity''
      | Inr ratio \<Rightarrow>
        if f_lt (f_of_int max_int32) ratio then Inl ''invalid learned capacity''
        else
          let desired = f_to_int32 (f_ceil ratio);
              desired1 = (if \<not> sc_known s \<and> desired < current then current else desired);
              desired2 = (if desired1 > current \<and> current > 0 \<and>
                            f_le (f_div ratio (f_of_int current)) (f_add (Fin 1) (EffectiveTolerance policy))
                          then current else desired1)
          in Inr (desired2, sc_deadline s))"

section \<open>The fit is finite and nonnegative\<close>

lemma finite_f_Fin: "finite_f x \<longleftrightarrow> (\<exists>r. x = Fin r)"
  by (cases x) (auto simp: finite_f_def f_is_nan_def f_is_inf_def)

lemma bestCandidate_in: "bestCandidate m best res cs \<in> insert res (set cs)"
  by (induction cs arbitrary: best res) (auto simp: Let_def)

lemma f_max_0_nonneg: "\<not> f_lt (f_max (Fin 0) x) (Fin 0)"
  by (cases x) (auto simp: f_max_def)

lemma fitCandidates_nonneg: "(c, b) \<in> set (fitCandidates m d) \<Longrightarrow> \<not> f_lt b (Fin 0)"
  using f_max_0_nonneg by (auto simp: fitCandidates_def Let_def f_le_def elim: f_lt.elims f_eq.elims split: if_splits)

lemma fit_bestCandidate:
  assumes "fit exp2 ws now = Some res"
  obtains m d where "res = bestCandidate m PInf (Fin 0, Fin 0) (fitCandidates m d)"
    "finite_f (fst res)" "finite_f (snd res)" "\<not> f_le (fst res) (Fin 0)"
  using assms by (auto simp: fit_def Let_def split: if_splits)

lemma fit_nonneg:
  assumes "fit exp2 ws now = Some (c, b)"
  shows "finite_f c" "finite_f b" "\<not> f_lt c (Fin 0)" "\<not> f_lt b (Fin 0)"
proof -
  obtain m d where res: "(c, b) = bestCandidate m PInf (Fin 0, Fin 0) (fitCandidates m d)"
    and fin: "finite_f c" "finite_f b" "\<not> f_le c (Fin 0)"
    using assms by (rule fit_bestCandidate) (metis fst_conv snd_conv)
  have "(c, b) \<in> insert (Fin 0, Fin 0) (set (fitCandidates m d))"
    unfolding res by (rule bestCandidate_in)
  then show "\<not> f_lt b (Fin 0)" using fitCandidates_nonneg by auto
  show "finite_f c" "finite_f b" "\<not> f_lt c (Fin 0)" using fin by (auto simp: f_le_def)
qed

section \<open>Reachable estimators\<close>

text \<open>
  The direction of the error of an accepted window against the preceding estimate, and the estimators
  reached by observations of windows in \<open>A\<close>, with the directions seen so far, latest first. A window
  that is not accepted, or that comes before there is an estimate to score, adds no direction.
\<close>

definition accepts :: "State \<Rightarrow> Window \<Rightarrow> gotime \<Rightarrow> bool" where
  "accepts e w now \<longleftrightarrow> validWindow w now = None \<and>
     (is_zero (es_lastEnd e) \<or> after (w_end w) (es_lastEnd e) \<and> \<not> before (w_start w) (es_lastEnd e))"

definition errorDirection :: "State \<Rightarrow> Window \<Rightarrow> int" where
  "errorDirection e w =
     (let relative = accountingError (es_last e) w
      in if f_lt (Fin (1 / 4)) (f_abs relative) then (if f_lt relative (Fin 0) then - 1 else 1) else 0)"

definition seen :: "State \<Rightarrow> Window \<Rightarrow> gotime \<Rightarrow> int list" where
  "seen e w now =
     (if accepts e w now \<and> f_lt (Fin 0) (e_cpuSecondsPerRequest (es_last e)) then [errorDirection e w] else [])"

inductive estimating :: "(float64 \<Rightarrow> float64) \<Rightarrow> string \<Rightarrow> (Window \<Rightarrow> bool) \<Rightarrow> State \<Rightarrow> int list \<Rightarrow> bool"
  for exp2 identity A where
  fresh: "estimating exp2 identity A (NewEstimator identity) []"
| observe: "estimating exp2 identity A e ds \<Longrightarrow> A w \<Longrightarrow>
    estimating exp2 identity A (fst (ObserveWindow exp2 e w now)) (seen e w now @ ds)"

definition accepted :: "(float64 \<Rightarrow> float64) \<Rightarrow> State \<Rightarrow> Window \<Rightarrow> State" where
  "accepted exp2 e w =
     (let e1 = scoreWindow (e\<lparr>es_lastEnd := w_end w\<rparr>) w; ws = retainWindows e w
      in e1\<lparr>es_windows := ws,
           es_last := markDrift (es_drifted e1) (newEstimate exp2 (e_version (es_last e)) ws w)\<rparr>)"

lemma scoreWindow_frame [simp]:
  "es_identity (scoreWindow e w) = es_identity e" "es_windows (scoreWindow e w) = es_windows e"
  "es_lastEnd (scoreWindow e w) = es_lastEnd e" "es_last (scoreWindow e w) = es_last e"
  by (simp_all add: scoreWindow_def Let_def)

lemma ObserveWindow_state: "fst (ObserveWindow exp2 e w now) = (if accepts e w now then accepted exp2 e w else e)"
proof (cases "accepts e w now")
  case True
  then show ?thesis
    by (auto simp: ObserveWindow_def accepts_def accepted_def retainWindows_def Let_def)
next
  case False
  then show ?thesis
    by (cases "validWindow w now") (auto simp: ObserveWindow_def accepts_def Let_def)
qed

lemma accepted_fields:
  "es_identity (accepted exp2 e w) = es_identity e" "es_windows (accepted exp2 e w) = retainWindows e w"
  "es_lastEnd (accepted exp2 e w) = w_end w"
  by (simp_all add: accepted_def Let_def)

section \<open>What a state keeps\<close>

definition spaced :: "Window list \<Rightarrow> bool" where
  "spaced ws \<longleftrightarrow> sorted_wrt (\<lambda>a b. ns (w_end a) \<le> ns (w_start b)) ws"

text \<open>An accounting window of at least fifteen seconds; the controller's windows last thirty.\<close>

definition accounting :: "Window \<Rightarrow> bool" where
  "accounting w \<longleftrightarrow> 0 < ns (w_start w) \<and> 15 * second \<le> ns (w_end w) - ns (w_start w)"

definition restorable :: "string \<Rightarrow> State \<Rightarrow> bool" where
  "restorable identity e \<longleftrightarrow>
     es_identity e = identity \<and> spaced (es_windows e) \<and>
     list_all (\<lambda>w. accounting w \<and> validWindow w (w_availableAt w) = None \<and> ns (w_end w) \<le> ns (es_lastEnd e) \<and>
       ns (es_lastEnd e) - Retention \<le> ns (w_end w)) (es_windows e) \<and>
     0 \<le> ns (es_lastEnd e) \<and> (es_windows e \<noteq> [] \<longrightarrow> 0 < ns (es_lastEnd e)) \<and> (es_windows e = [] \<longrightarrow> es_lastEnd e = zero_time) \<and>
     finite_f (e_cpuSecondsPerRequest (es_last e)) \<and> finite_f (e_backgroundCPUPerPod (es_last e)) \<and>
     \<not> f_lt (e_cpuSecondsPerRequest (es_last e)) (Fin 0) \<and> \<not> f_lt (e_backgroundCPUPerPod (es_last e)) (Fin 0)"

lemma markDrift_costs [simp]:
  "e_cpuSecondsPerRequest (markDrift d est) = e_cpuSecondsPerRequest est"
  "e_backgroundCPUPerPod (markDrift d est) = e_backgroundCPUPerPod est"
  by (simp_all add: markDrift_def)

lemma newEstimate_costs:
  "finite_f (e_cpuSecondsPerRequest (newEstimate exp2 v ws w))" "finite_f (e_backgroundCPUPerPod (newEstimate exp2 v ws w))"
  "\<not> f_lt (e_cpuSecondsPerRequest (newEstimate exp2 v ws w)) (Fin 0)"
  "\<not> f_lt (e_backgroundCPUPerPod (newEstimate exp2 v ws w)) (Fin 0)"
  using fit_nonneg [of exp2 ws "w_end w"]
  by (auto simp: newEstimate_def Let_def finite_f_Fin split: option.split)

lemma validWindow_persisted: "validWindow w now = None \<Longrightarrow> validWindow w (w_availableAt w) = None"
  by (auto simp: validWindow_def)

lemma accepted_restorable:
  assumes e: "restorable identity e" and acc: "accepts e w now" and A: "accounting w"
  shows "restorable identity (accepted exp2 e w)"
proof -
  have wend: "ns (es_lastEnd e) \<le> ns (w_end w)" "0 < ns (w_end w)"
    using acc A e by (auto simp: accepts_def accounting_def restorable_def)
  have sep: "ns (w_end v) \<le> ns (w_start w)" if "v \<in> set (es_windows e)" for v
    using acc e that by (auto simp: accepts_def restorable_def list_all_iff)
  have kept: "retainWindows e w = filter (\<lambda>v. ns (w_end w) - Retention \<le> ns (w_end v)) (es_windows e) @ [w]"
    by (simp add: retainWindows_def not_less)
  have "spaced (retainWindows e w)"
    using e sep by (auto simp: kept spaced_def restorable_def sorted_wrt_append sorted_wrt_filter)
  moreover have "list_all (\<lambda>v. accounting v \<and> validWindow v (w_availableAt v) = None \<and> ns (w_end v) \<le> ns (w_end w) \<and>
      ns (w_end w) - Retention \<le> ns (w_end v)) (retainWindows e w)"
    using e A acc wend validWindow_persisted [of w now]
    by (force simp: kept restorable_def list_all_iff accepts_def)
  ultimately show ?thesis
    using e wend newEstimate_costs [of exp2 _ "retainWindows e w" w]
    by (simp add: restorable_def accepted_fields accepted_def Let_def) (simp add: kept)
qed

lemma estimating_restorable: "estimating exp2 identity A e ds \<Longrightarrow> A \<le> accounting \<Longrightarrow> restorable identity e"
proof (induction rule: estimating.induct)
  case fresh
  show ?case
    by (simp add: restorable_def NewEstimator_def zeroEstimate_def spaced_def finite_f_Fin zero_time_def)
next
  case (observe e ds w now)
  then show ?case using accepted_restorable [of identity e w now exp2] by (auto simp: ObserveWindow_state)
qed

lemma spaced_span:
  assumes "spaced ws" "list_all accounting ws" "ws \<noteq> []"
  shows "ns (w_end (hd ws)) + 15 * second * (int (length ws) - 1) \<le> ns (w_end (last ws))"
  using assms
proof (induction ws rule: rev_induct)
  case (snoc w ws)
  show ?case
  proof (cases "ws = []")
    case False
    with snoc.prems have "ns (w_end (last ws)) \<le> ns (w_start w)" "15 * second \<le> ns (w_end w) - ns (w_start w)"
      by (auto simp: spaced_def sorted_wrt_append accounting_def)
    moreover have "ns (w_end (hd ws)) + 15 * second * (int (length ws) - 1) \<le> ns (w_end (last ws))"
      using snoc False by (simp add: spaced_def sorted_wrt_append)
    ultimately show ?thesis using False by simp
  qed simp
qed simp

lemma restorable_length:
  assumes "restorable identity e"
  shows "length (es_windows e) \<le> 61"
proof (cases "es_windows e = []")
  case False
  then have "hd (es_windows e) \<in> set (es_windows e)" "last (es_windows e) \<in> set (es_windows e)" by simp_all
  with assms have "ns (es_lastEnd e) - Retention \<le> ns (w_end (hd (es_windows e)))"
      "ns (w_end (last (es_windows e))) \<le> ns (es_lastEnd e)"
    by (auto simp: restorable_def list_all_iff)
  moreover have "spaced (es_windows e)" "list_all accounting (es_windows e)"
    using assms by (auto simp: restorable_def list_all_iff)
  ultimately have "15 * second * (int (length (es_windows e)) - 1) \<le> Retention"
    using spaced_span [of "es_windows e"] False by simp
  then show ?thesis by simp
qed simp

lemma orderedWindows_ok:
  assumes "sorted_wrt (\<lambda>a b. ns (w_end a) < ns (w_end b)) ws" "\<forall>w \<in> set ws. validWindow w (w_availableAt w) = None"
    and "is_zero prior \<or> (\<forall>w \<in> set ws. ns prior < ns (w_end w))"
  shows "orderedWindows prior ws = None"
  using assms by (induction ws arbitrary: prior) auto

lemma spaced_ends:
  assumes "spaced ws" "list_all accounting ws"
  shows "sorted_wrt (\<lambda>a b. ns (w_end a) < ns (w_end b)) ws"
proof (rule sorted_wrt_mono_rel)
  show "sorted_wrt (\<lambda>a b. ns (w_end a) \<le> ns (w_start b)) ws" using assms(1) by (simp add: spaced_def)
  show "ns (w_end a) < ns (w_end b)" if "b \<in> set ws" "ns (w_end a) \<le> ns (w_start b)" for a b
    using assms(2) that by (auto simp: list_all_iff accounting_def)
qed

text \<open>
  C35: round trip. Whatever windows of at least fifteen seconds an estimator has observed, in whatever
  order and at whatever times, its snapshot passes the checks of \<open>Restore\<close> under the same identity and
  restores exactly that estimator: at most 61 windows are retained, in strictly increasing order, each
  valid when it became available, and the fitted costs are finite and nonnegative.
\<close>

theorem estimator_snapshot_restores:
  assumes "estimating exp2 identity A e ds" "\<And>w. A w \<Longrightarrow> accounting w" "identity \<noteq> ''''"
  shows "Restore identity (Snapshot e) = Inr e"
proof -
  have r: "restorable identity e" using estimating_restorable assms(1,2) by (metis predicate1I)
  then have acc: "list_all accounting (es_windows e)" by (auto simp: restorable_def list_all_iff)
  have "orderedWindows zero_time (es_windows e) = None"
    using r spaced_ends [OF _ acc] by (intro orderedWindows_ok) (auto simp: restorable_def list_all_iff zero_time_def)
  then show ?thesis using r restorable_length [OF r] assms(3) by (simp add: Restore_def Snapshot_def restorable_def)
qed

section \<open>Drift\<close>

text \<open>
  The drift monitor in terms of the directions alone, latest first: three errors in a row in one
  direction raise it, three windows in a row within tolerance clear it.
\<close>

fun driftVerdict :: "int list \<Rightarrow> bool" where
  "driftVerdict [] = False"
| "driftVerdict (d # ds) = (if take 2 ds = [d, d] then d \<noteq> 0 else driftVerdict ds)"

definition runLength :: "int \<Rightarrow> int list \<Rightarrow> nat" where
  "runLength d ds = length (takeWhile (\<lambda>x. x = d) ds)"

lemma runLength_simps [simp]:
  "runLength d [] = 0" "runLength d (x # ds) = (if x = d then Suc (runLength d ds) else 0)"
  by (simp_all add: runLength_def)

lemma take2_runLength: "take 2 ds = [d, d] \<longleftrightarrow> 2 \<le> runLength d ds"
  by (cases ds; cases "tl ds") (auto simp: numeral_2_eq_2)

lemma runLength_le: "runLength d ds \<le> length ds"
  by (simp add: runLength_def length_takeWhile_le)

definition tracks :: "State \<Rightarrow> int list \<Rightarrow> bool" where
  "tracks e ds \<longleftrightarrow>
     es_drifted e = driftVerdict ds \<and> es_badDirection e = (case ds of [] \<Rightarrow> 0 | d # _ \<Rightarrow> d) \<and>
     es_breaches e = (case ds of [] \<Rightarrow> 0 | d # _ \<Rightarrow> if d = 0 then 0 else int (runLength d ds)) \<and>
     (if driftVerdict ds then es_recovery e = int (runLength 0 ds) \<and> runLength 0 ds < 3 else es_recovery e = 0)"

lemma breaches_next:
  assumes "tracks e ds" "d \<noteq> 0" "int (length ds) < max_int64"
  shows "(if d = es_badDirection e then wrap64 (es_breaches e + 1) else 1) = int (runLength d (d # ds))"
proof (cases ds)
  case (Cons x xs)
  have "int (runLength d ds) < max_int64" using runLength_le [of d ds] assms(3) by simp
  then have "wrap64 (int (runLength d ds) + 1) = int (runLength d ds) + 1" by (simp add: wrap64_id in_i64_def)
  then show ?thesis using assms(1,2) Cons by (auto simp: tracks_def)
qed (use assms in \<open>simp add: tracks_def\<close>)

lemma scoreWindow_tracks:
  assumes t: "tracks e ds" and pos: "f_lt (Fin 0) (e_cpuSecondsPerRequest (es_last e))"
    and len: "int (length ds) < max_int64"
  shows "tracks (scoreWindow e w) (errorDirection e w # ds)"
proof (cases "errorDirection e w = 0")
  case True
  then have small: "\<not> f_lt (Fin (1 / 4)) (f_abs (accountingError (es_last e) w))"
    by (auto simp: errorDirection_def Let_def split: if_splits)
  have "es_drifted e \<Longrightarrow> wrap64 (es_recovery e + 1) = int (runLength 0 ds) + 1"
    using t by (auto simp: tracks_def wrap64_id in_i64_def)
  then show ?thesis
    using t True small pos by (auto simp: tracks_def scoreWindow_def Let_def take2_runLength)
next
  case False
  define d where "d = errorDirection e w"
  have big: "f_lt (Fin (1 / 4)) (f_abs (accountingError (es_last e) w))"
      "(if f_lt (accountingError (es_last e) w) (Fin 0) then - 1 else 1) = d" "d \<noteq> 0"
    using False by (auto simp: d_def errorDirection_def Let_def split: if_splits)
  define e1 where "e1 = (if d = es_badDirection e then e\<lparr>es_breaches := wrap64 (es_breaches e + 1)\<rparr>
      else e\<lparr>es_badDirection := d, es_breaches := 1\<rparr>)\<lparr>es_recovery := 0\<rparr>"
  have s: "scoreWindow e w = (if es_breaches e1 \<ge> 3 then e1\<lparr>es_drifted := True\<rparr> else e1)"
    using pos big by (simp add: scoreWindow_def Let_def e1_def)
  have e1: "es_breaches e1 = int (runLength d (d # ds))" "es_badDirection e1 = d" "es_recovery e1 = 0"
      "es_drifted e1 = driftVerdict ds"
    using breaches_next [OF t big(3) len] t by (auto simp: e1_def tracks_def simp del: runLength_simps split: if_splits)
  show ?thesis
    using e1 big(3) unfolding s d_def [symmetric] by (auto simp: tracks_def take2_runLength)
qed

lemma Observe_tracks:
  assumes "tracks e ds" "int (length (seen e w now @ ds)) \<le> max_int64"
  shows "tracks (fst (ObserveWindow exp2 e w now)) (seen e w now @ ds)"
proof (cases "accepts e w now")
  case True
  let ?e = "e\<lparr>es_lastEnd := w_end w\<rparr>"
  have t: "tracks ?e ds" and d: "errorDirection ?e w = errorDirection e w"
    using assms(1) by (simp_all add: tracks_def errorDirection_def)
  have frame: "tracks (x\<lparr>es_windows := ws, es_last := l\<rparr>) ds' = tracks x ds'" for x ws l ds'
    by (simp add: tracks_def)
  show ?thesis
  proof (cases "f_lt (Fin 0) (e_cpuSecondsPerRequest (es_last e))")
    case pos: True
    then have "int (length ds) < max_int64" using assms(2) True by (simp add: seen_def)
    then show ?thesis
      using scoreWindow_tracks [OF t, of w] True pos d
      by (simp add: ObserveWindow_state accepted_def Let_def frame seen_def)
  next
    case False
    then have "scoreWindow ?e w = ?e" by (simp add: scoreWindow_def)
    then show ?thesis using True False t by (simp add: ObserveWindow_state accepted_def Let_def frame seen_def)
  qed
qed (use assms in \<open>simp add: ObserveWindow_state seen_def\<close>)

lemma estimating_tracks: "estimating exp2 identity A e ds \<Longrightarrow> int (length ds) \<le> max_int64 \<Longrightarrow> tracks e ds"
proof (induction rule: estimating.induct)
  case fresh
  show ?case by (simp add: tracks_def NewEstimator_def)
next
  case (observe e ds w now)
  then have "tracks e ds" by simp
  then show ?case using observe.prems by (rule Observe_tracks)
qed

lemma newEstimate_not_drifted: "e_state (newEstimate exp2 v ws w) \<noteq> ''drifted''"
  by (auto simp: newEstimate_def Let_def split: option.split)

lemma estimating_state: "estimating exp2 identity A e ds \<Longrightarrow> e_state (es_last e) = ''drifted'' \<longleftrightarrow> es_drifted e"
proof (induction rule: estimating.induct)
  case fresh
  show ?case by (simp add: NewEstimator_def)
next
  case (observe e ds w now)
  then show ?case
    using newEstimate_not_drifted by (auto simp: ObserveWindow_state accepted_def Let_def markDrift_def)
qed

text \<open>
  C13: refinement. After any sequence of observations the drift state of the estimator is the verdict of
  the abstract monitor on the directions of the accepted errors: it is raised exactly by three errors
  in a row in one direction, cleared exactly by three windows in a row within tolerance, kept by
  everything else, including rejected, replayed and overlapping windows; and the stored estimate says
  \<open>drifted\<close> exactly then.
\<close>

theorem estimator_drift_refines_verdict:
  assumes "estimating exp2 identity A e ds" "int (length ds) \<le> max_int64"
  shows "es_drifted e = driftVerdict ds \<and> (e_state (es_last e) = ''drifted'') = driftVerdict ds"
  using estimating_tracks [OF assms] estimating_state [OF assms(1)] by (simp add: tracks_def)

section \<open>Stability of the request-demand decision\<close>

text \<open>The times the scan of the points passes to \<open>consider\<close>, and the deadline it leaves.\<close>

definition pointTimes :: "duration \<Rightarrow> Point \<Rightarrow> gotime list" where
  "pointTimes lead p = [p_at p, p_until p, t_add (p_at p) (- lead)]"

lemma scanPoint_deadline:
  "sc_deadline (scanPoint lead now s p) = foldl (considerInstant now) (sc_deadline s) (pointTimes lead p)"
  by (simp add: scanPoint_def pointTimes_def Let_def)

lemma scan_deadline:
  "sc_deadline (foldl (scanPoint lead now) s ps) = foldl (considerInstant now) (sc_deadline s) (concat (map (pointTimes lead) ps))"
  by (induction ps arbitrary: s) (simp_all add: scanPoint_deadline)

lemma considerTime_lower:
  assumes "0 \<le> ns now" "is_zero d \<or> after d now"
  shows "(after d now \<longrightarrow> after (foldl (considerInstant now) d ts) now \<and> ns (foldl (considerInstant now) d ts) \<le> ns d) \<and>
    (\<forall>t \<in> set ts. after t now \<longrightarrow> ns (foldl (considerInstant now) d ts) \<le> ns t)"
  using assms(2)
proof (induction ts arbitrary: d)
  case (Cons u us)
  let ?d = "considerInstant now d u"
  have step: "is_zero ?d \<or> after ?d now" "after d now \<Longrightarrow> after ?d now \<and> ns ?d \<le> ns d"
      "after u now \<Longrightarrow> after ?d now \<and> ns ?d \<le> ns u"
    using Cons.prems assms(1) by (auto simp: considerInstant_def)
  show ?case using Cons.IH [OF step(1)] step(2,3) by fastforce
qed simp

lemma scanPoint_cong:
  assumes "\<forall>t \<in> set (pointTimes lead p). after t now \<longleftrightarrow> after t now'"
  shows "scanPoint lead now s p = scanPoint lead now' s p"
proof -
  have t: "after (p_at p) now \<longleftrightarrow> after (p_at p) now'" "after (p_until p) now \<longleftrightarrow> after (p_until p) now'"
      "after (t_add (p_at p) (- lead)) now \<longleftrightarrow> after (t_add (p_at p) (- lead)) now'"
    using assms by (simp_all add: pointTimes_def)
  have "considerInstant now d u = considerInstant now' d u" if "after u now \<longleftrightarrow> after u now'" for d u
    using that by (simp add: considerInstant_def)
  moreover have "livePoint now p = livePoint now' p" using t by (auto simp: livePoint_def)
  moreover have "upcomingPoint lead now p = upcomingPoint lead now' p" using t by (auto simp: upcomingPoint_def)
  ultimately show ?thesis using t by (simp only: scanPoint_def)
qed

lemma scan_stable:
  assumes now: "0 \<le> ns now" "ns now \<le> ns now'"
    and d: "ns now' < ns (sc_deadline (foldl (scanPoint lead now) s ps))" and s: "is_zero (sc_deadline s)"
  shows "foldl (scanPoint lead now') s ps = foldl (scanPoint lead now) s ps"
proof (rule foldl_cong [OF refl refl])
  fix s' p assume p: "p \<in> set ps"
  have "after t now \<longleftrightarrow> after t now'" if "t \<in> set (pointTimes lead p)" for t
  proof -
    have "t \<in> set (concat (map (pointTimes lead) ps))" using p that by auto
    then have "after t now \<Longrightarrow> ns (sc_deadline (foldl (scanPoint lead now) s ps)) \<le> ns t"
      unfolding scan_deadline using considerTime_lower [OF now(1)] s by blast
    then show ?thesis using now(2) d by auto
  qed
  then show "scanPoint lead now' s' p = scanPoint lead now s' p" using scanPoint_cong by metis
qed

text \<open>
  The replica count that \<open>requestReplicas\<close> derives from a request forecast stays the same
  until the deadline it returns, as long as the cost estimate is fresh: re-evaluating it at any time
  before gives the same count and the same deadline, so that nothing is lost by waiting.
\<close>

theorem request_replicas_stable_until_deadline:
  assumes "requestReplicas points estimate policy request target current now = Inr (n, deadline)"
    and "0 \<le> ns now" "ns now \<le> ns now'" "before now' deadline" "before now' (e_freshUntil estimate)"
  shows "requestReplicas points estimate policy request target current now' = Inr (n, deadline)"
proof -
  let ?s0 = "\<lparr>sc_value = Fin 0, sc_known = False, sc_upcoming = False, sc_deadline = zero_time\<rparr>"
  let ?lead = "wrap64 (pp_scaleUpLeadSeconds policy * second)"
  have d: "deadline = sc_deadline (foldl (scanPoint ?lead now) ?s0 points)"
    using assms(1) by (auto simp: requestReplicas_def Let_def split: if_splits sum.splits)
  have scan: "foldl (scanPoint ?lead now') ?s0 points = foldl (scanPoint ?lead now) ?s0 points"
    using assms(2-4) d by (intro scan_stable) (auto simp: zero_time_def)
  have "before now (e_freshUntil estimate)" using assms(3,5) by simp
  then have req: "RequiredReplicas v request target estimate now' = RequiredReplicas v request target estimate now" for v
    using assms(5) by (simp add: RequiredReplicas_def)
  show ?thesis using assms(1) unfolding requestReplicas_def Let_def scan req .
qed

section \<open>Samples\<close>

definition sampleWindow :: Window where
  "sampleWindow = \<lparr>w_id = ''a'', w_start = atSecond 1000, w_end = atSecond 1030, w_availableAt = atSecond 1031,
     w_cpuSeconds = Fin 2, w_completedRequests = Fin 4, w_podSeconds = Fin 30, w_coverage = Fin 1,
     w_qualified = True, w_reason = ''''\<rparr>"

definition sampleEstimator :: State where
  "sampleEstimator = fst (ObserveWindow (\<lambda>_. Fin 1) (NewEstimator ''a'') sampleWindow (atSecond 1032))"

definition requestPoints :: "Point list" where
  "requestPoints = [\<lparr>p_at = atSecond 1000, p_until = atSecond 1060, p_value = Fin 3\<rparr>,
     \<lparr>p_at = atSecond 1060, p_until = atSecond 1120, p_value = Fin 5\<rparr>]"

definition sampleEstimate :: Estimate where
  "sampleEstimate = zeroEstimate\<lparr>e_cpuSecondsPerRequest := Fin 1, e_state := ''qualified'', e_freshUntil := atSecond 1100\<rparr>"

lemma sampleWindow_accounting: "accounting sampleWindow"
  by (simp add: accounting_def sampleWindow_def)

lemma sampleEstimator_observing:
  "estimating (\<lambda>_. Fin 1) ''a'' accounting sampleEstimator []"
proof -
  have "seen (NewEstimator ''a'') sampleWindow (atSecond 1032) = []"
    by (simp add: seen_def NewEstimator_def zeroEstimate_def)
  then show ?thesis
    using estimating.observe [OF estimating.fresh, of accounting sampleWindow "\<lambda>_. Fin 1" "''a''" "atSecond 1032"]
      sampleWindow_accounting by (simp add: sampleEstimator_def)
qed

lemma sampleWindow_accepted: "accepts (NewEstimator ''a'') sampleWindow (atSecond 1032)"
proof -
  obtain r where "round64 (95 / 100) = Fin r" "r \<le> 1"
    using round64_between [of 0 1 "95 / 100"] representable_of_int [of 1] by auto
  then show ?thesis
    by (simp add: accepts_def validWindow_def sampleWindow_def NewEstimator_def zero_time_def finite_f_Fin t_sub_def)
qed

lemma sampleEstimator_windows: "es_windows sampleEstimator = [sampleWindow]"
  using sampleWindow_accepted
  by (simp add: sampleEstimator_def ObserveWindow_state accepted_fields retainWindows_def NewEstimator_def)

theorem estimator_snapshot_restores_witness:
  "es_windows sampleEstimator = [sampleWindow] \<and> Restore ''a'' (Snapshot sampleEstimator) = Inr sampleEstimator"
  using estimator_snapshot_restores [OF sampleEstimator_observing] sampleEstimator_windows by simp

theorem estimator_drift_refines_verdict_witness:
  "es_windows sampleEstimator = [sampleWindow] \<and> es_drifted sampleEstimator = driftVerdict [] \<and>
   (e_state (es_last sampleEstimator) = ''drifted'') = driftVerdict []"
  using estimator_drift_refines_verdict [OF sampleEstimator_observing] sampleEstimator_windows by simp

lemma sampleReplicas:
  "requestReplicas requestPoints sampleEstimate
     \<lparr>pp_scaleUpLeadSeconds = 30, pp_tolerance = Some (Fin 0), pp_scaleUpLeadFromStartup = False\<rparr>
     (Fin 1) (Fin 1) 1 (atSecond 1010) = Inr (3, atSecond 1030)"
proof -
  have r: "round64 1 = Fin 1" "round64 3 = Fin 3" "f_of_int 1 = Fin 1" "f_of_int 2147483647 = Fin 2147483647"
    using f_of_int_exact [of 1] f_of_int_exact [of 3] f_of_int_exact [of 2147483647] by (simp_all add: f_of_int_def)
  have w: "wrap64 30000000000 = 30000000000" by (simp add: wrap64_id in_i64_def)
  show ?thesis
    by (simp add: requestReplicas_def requestPoints_def scanPoint_def considerInstant_def livePoint_def upcomingPoint_def
        Let_def RequiredReplicas_def sampleEstimate_def zeroEstimate_def zero_time_def finite_f_Fin f_sub_def r w
        EffectiveTolerance_def t_add_def trunc_rat_def in_i32_def)
qed

theorem request_replicas_stable_until_deadline_witness:
  "requestReplicas requestPoints sampleEstimate
     \<lparr>pp_scaleUpLeadSeconds = 30, pp_tolerance = Some (Fin 0), pp_scaleUpLeadFromStartup = False\<rparr>
     (Fin 1) (Fin 1) 1 (atSecond 1020) = Inr (3, atSecond 1030)"
  using request_replicas_stable_until_deadline [OF sampleReplicas, of "atSecond 1020"]
  by (simp add: sampleEstimate_def zeroEstimate_def)

end
