(* ===== verification/Cgroup.thy ===== *)
theory Cgroup
  imports ApiTypes
begin

text \<open>
  \<open>src/internal/cgroup\<close>: CPU accounting from cgroup-v2 counters. \<open>Difference\<close> (counters.go) turns two
  counter reads into a window, \<open>sample\<close> and \<open>trimWindows\<close> (collector.go) keep the windows of one
  container, \<open>Integrate\<close> and \<open>memoryPoint\<close> (integrate.go) sum the windows of the matching pods over an
  interval. What the file system answers (the resolved directory, the counters read from it, whether
  it exists) is an argument of \<open>sample\<close>; the label selector is an argument of \<open>Integrate\<close>. A counter
  is a \<open>nat\<close> below \<open>2^64\<close>.
\<close>

section \<open>Data\<close>

definition Protocol :: string where "Protocol = ''hpaplus-cgroup-v1''"

record CounterWindow =
  cw_from :: gotime
  cw_to :: gotime
  cw_cpuSeconds :: float64
  cw_memoryBytes :: "nat option"
  cw_memorySourceAt :: gotime
  cw_throttledSeconds :: "float64 option"
  cw_periods :: "nat option"
  cw_throttledPeriods :: "nat option"
  cw_pressureSomeSeconds :: "float64 option"
  cw_pressureFullSeconds :: "float64 option"

record Container =
  ct_name :: string
  ct_id :: string
  ct_startedAt :: gotime
  ct_finishedAt :: "gotime option"
  ct_endUpperBound :: "gotime option"
  ct_windows :: "CounterWindow list"
  ct_missingReason :: string

record Pod =
  pd_namespace :: string
  pd_name :: string
  pd_uid :: string
  pd_labels :: "(string \<times> string) list"
  pd_createdAt :: gotime
  pd_deletedAt :: "gotime option"
  pd_containers :: "Container list"

record CgroupSnapshot =
  sn_version :: string
  sn_node :: string
  sn_collectedAt :: gotime
  sn_intervalMillis :: int64
  sn_pods :: "Pod list"
  sn_missingReason :: string

record WorkloadObservation =
  wo_from :: gotime
  wo_to :: gotime
  wo_sourceAt :: gotime
  wo_receivedAt :: gotime
  wo_cpuSeconds :: float64
  wo_runningPodSeconds :: float64
  wo_coverage :: float64
  wo_complete :: bool
  wo_boundaryAveraged :: bool
  wo_memoryBytes :: "nat option"
  wo_memorySourceAt :: gotime
  wo_throttledSeconds :: "float64 option"
  wo_pressureSomeSeconds :: "float64 option"
  wo_pressureFullSeconds :: "float64 option"
  wo_podCount :: nat
  wo_missingReasons :: "string list"
  wo_pods :: "Pod list"
  wo_inventory :: "Pod list"
  wo_inventoryComplete :: bool
  wo_nativeSnapshots :: "CgroupSnapshot list"

section \<open>Counter reads and windows\<close>

record Counters =
  cn_at :: gotime
  cn_usage :: nat
  cn_memory :: "nat option"
  cn_memoryAt :: gotime
  cn_throttled :: "nat option"
  cn_periods :: "nat option"
  cn_throttledPeriods :: "nat option"
  cn_some :: "nat option"
  cn_full :: "nat option"

definition delta :: "nat option \<Rightarrow> nat option \<Rightarrow> float64 \<Rightarrow> float64 option" where
  "delta a b scale =
     (case (a, b) of (Some x, Some y) \<Rightarrow> if y < x then None else Some (f_div (f_of_int (int (y - x))) scale)
      | _ \<Rightarrow> None)"

definition uintDelta :: "nat option \<Rightarrow> nat option \<Rightarrow> nat option" where
  "uintDelta a b = (case (a, b) of (Some x, Some y) \<Rightarrow> if y < x then None else Some (y - x) | _ \<Rightarrow> None)"

definition Difference :: "Counters \<Rightarrow> Counters \<Rightarrow> duration \<Rightarrow> CounterWindow result" where
  "Difference a b maxGap =
     (if \<not> after (cn_at b) (cn_at a) \<or> t_sub (cn_at b) (cn_at a) > maxGap \<or> cn_usage b < cn_usage a
      then Inl ''CPU counter reset or collection gap''
      else Inr \<lparr>cw_from = cn_at a, cw_to = cn_at b,
        cw_cpuSeconds = f_div (f_of_int (int (cn_usage b - cn_usage a))) (f_of_int 1000000),
        cw_memoryBytes = cn_memory b, cw_memorySourceAt = cn_memoryAt b,
        cw_throttledSeconds = delta (cn_throttled a) (cn_throttled b) (f_of_int 1000000),
        cw_periods = uintDelta (cn_periods a) (cn_periods b),
        cw_throttledPeriods = uintDelta (cn_throttledPeriods a) (cn_throttledPeriods b),
        cw_pressureSomeSeconds = delta (cn_some a) (cn_some b) (f_of_int 1000000),
        cw_pressureFullSeconds = delta (cn_full a) (cn_full b) (f_of_int 1000000)\<rparr>)"

section \<open>Sampling one container\<close>

abbreviation (input) MaxWindows :: nat where "MaxWindows \<equiv> 180"

record containerState =
  cs_row :: Container
  cs_previous :: "Counters option"
  cs_path :: string

definition collectorConfigOk :: "string \<Rightarrow> duration \<Rightarrow> duration \<Rightarrow> bool" where
  "collectorConfigOk node interval retention \<longleftrightarrow>
     \<not> (node = '''' \<or> interval < second \<or> interval > 10 * second \<or> retention < minute \<or> retention > 5 * minute)"

definition missingRow :: "string \<Rightarrow> containerState \<Rightarrow> containerState" where
  "missingRow reason c = c\<lparr>cs_row := (cs_row c)\<lparr>ct_missingReason := reason\<rparr>, cs_previous := None\<rparr>"

definition appendWindow :: "CounterWindow list \<Rightarrow> CounterWindow \<Rightarrow> CounterWindow list" where
  "appendWindow ws w = (let ws' = ws @ [w] in if length ws' > MaxWindows then last_n MaxWindows ws' else ws')"

definition sample :: "duration \<Rightarrow> string result \<Rightarrow> (string \<Rightarrow> Counters result) \<Rightarrow> (string \<Rightarrow> bool) \<Rightarrow> gotime \<Rightarrow>
    containerState \<Rightarrow> containerState" where
  "sample interval resolved readCounters absent now c =
     (case (if cs_path c = '''' then resolved else Inr (cs_path c)) of
        Inl err \<Rightarrow> missingRow err c
      | Inr path \<Rightarrow>
        (case readCounters path of
           Inl err \<Rightarrow>
             let c1 = missingRow ''cgroup counters unavailable'' c in
             if absent path \<and> cs_path c \<noteq> '''' \<and> ct_endUpperBound (cs_row c) = None
             then c1\<lparr>cs_row := (cs_row c1)\<lparr>ct_endUpperBound := Some now\<rparr>\<rparr> else c1
         | Inr counter \<Rightarrow>
             let row = (cs_row c)\<lparr>ct_endUpperBound := None\<rparr> in
             if before (cn_at counter) (ct_startedAt row)
             then missingRow ''counter precedes container start'' (c\<lparr>cs_row := row\<rparr>)
             else
               let row1 = row\<lparr>ct_missingReason := ''''\<rparr>;
                   row2 = (case cs_previous c of
                       Some previous \<Rightarrow>
                         if cs_path c = path then
                           (case Difference previous counter (3 * interval) of
                              Inr window \<Rightarrow> row1\<lparr>ct_windows := appendWindow (ct_windows row1) window\<rparr>
                            | Inl err \<Rightarrow> row1\<lparr>ct_missingReason := err\<rparr>)
                         else row1\<lparr>ct_missingReason := ''awaiting second counter read''\<rparr>
                     | None \<Rightarrow> row1\<lparr>ct_missingReason := ''awaiting second counter read''\<rparr>)
               in c\<lparr>cs_row := row2, cs_previous := Some counter, cs_path := path\<rparr>))"

text \<open>The retention step of \<open>Collect\<close>: windows that ended before the cutoff are dropped from the front.\<close>

definition trimWindows :: "gotime \<Rightarrow> containerState \<Rightarrow> containerState" where
  "trimWindows cutoff c =
     c\<lparr>cs_row := (cs_row c)\<lparr>ct_windows := dropWhile (\<lambda>w. before (cw_to w) cutoff) (ct_windows (cs_row c))\<rparr>\<rparr>"

definition containerExpired :: "gotime \<Rightarrow> containerState \<Rightarrow> bool" where
  "containerExpired cutoff c \<longleftrightarrow>
     ct_windows (cs_row c) = [] \<and>
     ((case cs_previous c of None \<Rightarrow> False | Some p \<Rightarrow> before (cn_at p) cutoff) \<or>
      (case (case ct_finishedAt (cs_row c) of None \<Rightarrow> ct_endUpperBound (cs_row c) | e \<Rightarrow> e) of
         None \<Rightarrow> False | Some t \<Rightarrow> before t cutoff))"

text \<open>A termination the kubelet reports, and how it ends a tracked container.\<close>

record ContainerStateTerminated =
  tm_containerID :: string
  tm_startedAt :: gotime
  tm_finishedAt :: gotime

definition recordTermination :: "(string \<rightharpoonup> containerState) \<Rightarrow> string \<Rightarrow> string \<Rightarrow> ContainerStateTerminated option \<Rightarrow>
    (string \<rightharpoonup> containerState)" where
  "recordTermination containers name cid term =
     (case term of None \<Rightarrow> containers
      | Some tm \<Rightarrow>
        if cid = '''' \<or> is_zero (tm_finishedAt tm) then containers
        else if tm_containerID tm \<noteq> '''' \<and> tm_containerID tm \<noteq> cid then containers
        else (case containers (name @ ''/'' @ cid) of None \<Rightarrow> containers
          | Some c \<Rightarrow>
            if \<not> is_zero (ct_startedAt (cs_row c)) \<and> before (tm_finishedAt tm) (ct_startedAt (cs_row c)) then containers
            else containers(name @ ''/'' @ cid \<mapsto> c\<lparr>cs_row := (cs_row c)\<lparr>ct_finishedAt := Some (tm_finishedAt tm)\<rparr>\<rparr>)))"

section \<open>Memory at an instant\<close>

fun newestMemory :: "gotime \<Rightarrow> gotime \<Rightarrow> nat option \<times> gotime \<Rightarrow> CounterWindow list \<Rightarrow> nat option \<times> gotime" where
  "newestMemory at_time started acc [] = acc"
| "newestMemory at_time started (v, source) (w # ws) =
     (let observed = (if is_zero (cw_memorySourceAt w) then cw_to w else cw_memorySourceAt w) in
      if after observed at_time \<or> before observed started then newestMemory at_time started (v, source) ws
      else if is_zero source \<or> after observed source
      then newestMemory at_time started (cw_memoryBytes w, observed) ws
      else newestMemory at_time started (v, source) ws)"

abbreviation (input) MaxUint64 :: nat where "MaxUint64 \<equiv> 18446744073709551615"

fun memoryLoop :: "gotime \<Rightarrow> nat \<Rightarrow> gotime \<Rightarrow> nat \<Rightarrow> Container list \<Rightarrow> nat option \<times> gotime \<times> bool" where
  "memoryLoop at_time summed oldest n [] =
     (if n = 0 then (None, zero_time, True) else (Some summed, oldest, True))"
| "memoryLoop at_time summed oldest n (c # cs) =
     (if ct_id c = '''' \<or> is_zero (ct_startedAt c) then (None, zero_time, False)
      else if after (ct_startedAt c) at_time then memoryLoop at_time summed oldest n cs
      else if present (\<lambda>f. \<not> after f at_time) (ct_finishedAt c) then memoryLoop at_time summed oldest n cs
      else if ct_finishedAt c = None \<and> present (\<lambda>b. \<not> after b at_time) (ct_endUpperBound c)
      then memoryLoop at_time summed oldest n cs
      else if ct_finishedAt c = None \<and> (ct_windows c = [] \<or> before (cw_to (last (ct_windows c))) at_time)
      then (None, zero_time, False)
      else case newestMemory at_time (ct_startedAt c) (None, zero_time) (ct_windows c) of
        (v, source) \<Rightarrow>
          (case v of None \<Rightarrow> (None, zero_time, False)
           | Some bytes \<Rightarrow>
             if is_zero source \<or> t_sub at_time source > 10 * second then (None, zero_time, False)
             else if MaxUint64 - summed < bytes then (None, zero_time, False)
             else memoryLoop at_time (summed + bytes)
                    (if is_zero oldest \<or> before source oldest then source else oldest) (n + 1) cs))"

definition memoryPoint :: "Container list \<Rightarrow> gotime \<Rightarrow> nat option \<times> gotime \<times> bool" where
  "memoryPoint containers at_time = memoryLoop at_time 0 zero_time 0 containers"

section \<open>Integration over an interval\<close>

definition maximum :: "gotime \<Rightarrow> gotime \<Rightarrow> gotime" where
  "maximum a b = (if after a b then a else b)"

definition minimum :: "gotime \<Rightarrow> gotime \<Rightarrow> gotime" where
  "minimum a b = (if before a b then a else b)"

text \<open>The local variables of \<open>Integrate\<close>.\<close>

record integration =
  ig_result :: WorkloadObservation
  ig_seenPods :: "string list"
  ig_expectedSeconds :: float64
  ig_coveredSeconds :: float64
  ig_memoryTotal :: nat
  ig_memoryComplete :: bool
  ig_memoryCount :: nat
  ig_memorySourceAt :: gotime
  ig_throttled :: float64
  ig_some :: float64
  ig_full :: float64
  ig_throttledComplete :: bool
  ig_someComplete :: bool
  ig_fullComplete :: bool

definition missing :: "string \<Rightarrow> integration \<Rightarrow> integration" where
  "missing reason g =
     (let r = ig_result g
      in g\<lparr>ig_result := r\<lparr>wo_complete := False,
           wo_missingReasons := (if length (wo_missingReasons r) < 32 then wo_missingReasons r @ [reason] else wo_missingReasons r)\<rparr>\<rparr>)"

record windowAccount =
  wl_previousTo :: gotime
  wl_coverage :: float64
  wl_coveredDuration :: duration
  wl_state :: integration

definition badWindow :: "gotime \<Rightarrow> gotime \<Rightarrow> CounterWindow \<Rightarrow> bool" where
  "badWindow startedAt previousTo w \<longleftrightarrow>
     \<not> after (cw_to w) (cw_from w) \<or> t_sub (cw_to w) (cw_from w) > 10 * second \<or> before (cw_from w) startedAt \<or>
     \<not> is_zero previousTo \<and> before (cw_from w) previousTo \<or>
     f_is_nan (cw_cpuSeconds w) \<or> f_is_inf (cw_cpuSeconds w) \<or> f_lt (cw_cpuSeconds w) (Fin 0)"

definition chargeWindow :: "gotime \<Rightarrow> gotime \<Rightarrow> CounterWindow \<Rightarrow> float64 \<Rightarrow> integration \<Rightarrow> integration" where
  "chargeWindow left right w seconds g =
     (let fraction = f_div seconds (d_seconds (t_sub (cw_to w) (cw_from w)));
          r = ig_result g;
          r1 = (if after (cw_to w) (wo_sourceAt r) then r\<lparr>wo_sourceAt := cw_to w\<rparr> else r);
          r2 = r1\<lparr>wo_cpuSeconds := f_add (wo_cpuSeconds r1) (f_mul (cw_cpuSeconds w) fraction)\<rparr>;
          r3 = (if \<not> same_instant left (cw_from w) \<or> \<not> same_instant right (cw_to w)
                then r2\<lparr>wo_boundaryAveraged := True\<rparr> else r2);
          g1 = g\<lparr>ig_result := r3\<rparr>;
          g2 = (case cw_throttledSeconds w of Some v \<Rightarrow> g1\<lparr>ig_throttled := f_add (ig_throttled g1) (f_mul v fraction)\<rparr>
                | None \<Rightarrow> g1\<lparr>ig_throttledComplete := False\<rparr>);
          g3 = (case cw_pressureSomeSeconds w of Some v \<Rightarrow> g2\<lparr>ig_some := f_add (ig_some g2) (f_mul v fraction)\<rparr>
                | None \<Rightarrow> g2\<lparr>ig_someComplete := False\<rparr>)
      in case cw_pressureFullSeconds w of Some v \<Rightarrow> g3\<lparr>ig_full := f_add (ig_full g3) (f_mul v fraction)\<rparr>
         | None \<Rightarrow> g3\<lparr>ig_fullComplete := False\<rparr>)"

definition windowStep :: "gotime \<Rightarrow> gotime \<Rightarrow> gotime \<Rightarrow> windowAccount \<Rightarrow> CounterWindow \<Rightarrow> windowAccount result" where
  "windowStep startedAt start_time end_time l w =
     (if badWindow startedAt (wl_previousTo l) w then Inl ''invalid cgroup counter window''
      else
        let l1 = l\<lparr>wl_previousTo := cw_to w\<rparr>;
            left = maximum start_time (cw_from w);
            right = minimum end_time (cw_to w) in
        if \<not> after right left then Inr l1
        else
          let seconds = d_seconds (t_sub right left)
          in Inr (l1\<lparr>wl_coverage := f_add (wl_coverage l1) seconds,
               wl_coveredDuration := wrap64 (wl_coveredDuration l1 + t_sub right left),
               wl_state := chargeWindow left right w seconds (wl_state l1)\<rparr>))"

record podLoop =
  pl_lifetimes :: "(gotime \<times> gotime) list"
  pl_included :: bool
  pl_state :: integration

definition containerEnd :: "gotime \<Rightarrow> Container \<Rightarrow> gotime" where
  "containerEnd to c =
     (case ct_finishedAt c of Some f \<Rightarrow> minimum to f
      | None \<Rightarrow> (case ct_endUpperBound c of Some b \<Rightarrow> minimum to b | None \<Rightarrow> to))"

definition openContainer :: "gotime \<Rightarrow> gotime \<Rightarrow> integration \<Rightarrow> windowAccount" where
  "openContainer start_time end_time g =
     \<lparr>wl_previousTo = zero_time, wl_coverage = Fin 0, wl_coveredDuration = 0,
      wl_state = g\<lparr>ig_expectedSeconds := f_add (ig_expectedSeconds g) (d_seconds (t_sub end_time start_time))\<rparr>\<rparr>"

definition closeContainer :: "Pod \<Rightarrow> Container \<Rightarrow> gotime \<Rightarrow> gotime \<Rightarrow> podLoop \<Rightarrow> windowAccount \<Rightarrow> podLoop" where
  "closeContainer pod c start_time end_time p l =
     (let g = (wl_state l)\<lparr>ig_coveredSeconds := f_add (ig_coveredSeconds (wl_state l)) (wl_coverage l)\<rparr>;
          g1 = (if wl_coveredDuration l < t_sub end_time start_time
                then missing (pd_name pod @ ''/'' @ ct_name c @ '': incomplete counter windows'') g else g)
      in \<lparr>pl_lifetimes = pl_lifetimes p @ [(start_time, end_time)], pl_included = True, pl_state = g1\<rparr>)"

definition containerStep :: "gotime \<Rightarrow> gotime \<Rightarrow> Pod \<Rightarrow> podLoop \<Rightarrow> Container \<Rightarrow> podLoop result" where
  "containerStep from to pod p c =
     (let start_time = maximum from (ct_startedAt c); end_time = containerEnd to c; g = pl_state p in
      if \<not> after end_time start_time then Inr p
      else if ct_id c = '''' \<or> is_zero (ct_startedAt c)
      then Inr (p\<lparr>pl_state := missing (pd_name pod @ ''/'' @ ct_name c @ '': unknown running epoch'')
                  (g\<lparr>ig_result := (ig_result g)\<lparr>wo_inventoryComplete := False\<rparr>\<rparr>)\<rparr>)
      else
        rbind (foldR (windowStep (ct_startedAt c) start_time end_time) (openContainer start_time end_time g) (ct_windows c))
          (\<lambda>l. Inr (closeContainer pod c start_time end_time p l)))"

fun runningSeconds :: "gotime \<Rightarrow> gotime \<Rightarrow> float64 \<Rightarrow> (gotime \<times> gotime) list \<Rightarrow> float64" where
  "runningSeconds left right summed [] = f_add summed (d_seconds (t_sub right left))"
| "runningSeconds left right summed ((f, t) # ls) =
     (if after f right then runningSeconds f t (f_add summed (d_seconds (t_sub right left))) ls
      else runningSeconds left (if after t right then t else right) summed ls)"

text \<open>\<open>sort.Slice\<close> may reorder lifetimes with one start; their union is the same in either order.\<close>

definition chargePod :: "Pod \<Rightarrow> podLoop \<Rightarrow> integration" where
  "chargePod pod p =
     (let g = pl_state p; r = ig_result g in
      if pl_included p then
        (case sort_key (\<lambda>l. ns (fst l)) (pl_lifetimes p) of
           [] \<Rightarrow> g
         | (l, r0) # ls \<Rightarrow>
             g\<lparr>ig_result := r\<lparr>wo_podCount := wo_podCount r + 1,
                 wo_runningPodSeconds := runningSeconds l r0 (wo_runningPodSeconds r) ls,
                 wo_pods := wo_pods r @ [pod]\<rparr>\<rparr>)
      else g)"

definition chargeMemory :: "gotime \<Rightarrow> Pod \<Rightarrow> integration \<Rightarrow> integration result" where
  "chargeMemory to pod g =
     (case memoryPoint (pd_containers pod) to of
        (memory, source, ok) \<Rightarrow>
          if \<not> ok then Inr (g\<lparr>ig_memoryComplete := False\<rparr>)
          else (case memory of None \<Rightarrow> Inr g
            | Some bytes \<Rightarrow>
              if MaxUint64 - ig_memoryTotal g < bytes then Inl ''memory sum overflow''
              else Inr (g\<lparr>ig_memoryTotal := ig_memoryTotal g + bytes, ig_memoryCount := ig_memoryCount g + 1,
                 ig_memorySourceAt := (if is_zero (ig_memorySourceAt g) \<or> before source (ig_memorySourceAt g)
                   then source else ig_memorySourceAt g)\<rparr>)))"

definition podStep :: "string \<Rightarrow> ((string \<times> string) list \<Rightarrow> bool) \<Rightarrow> gotime \<Rightarrow> gotime \<Rightarrow> integration \<Rightarrow> Pod \<Rightarrow>
    integration result" where
  "podStep namespace selector from to g pod =
     (if pd_namespace pod \<noteq> namespace \<or> \<not> selector (pd_labels pod) then Inr g
      else if pd_uid pod = '''' \<or> pd_uid pod \<in> set (ig_seenPods g) then Inl ''duplicate or unidentified cgroup pod''
      else
        let r = ig_result g;
            g1 = g\<lparr>ig_seenPods := pd_uid pod # ig_seenPods g, ig_result := r\<lparr>wo_inventory := wo_inventory r @ [pod]\<rparr>\<rparr> in
        if \<not> is_zero (pd_createdAt pod) \<and> \<not> before (pd_createdAt pod) to then Inr g1
        else if pd_containers pod = []
        then Inr (missing (pd_name pod @ '': runtime inventory unavailable'')
               (g1\<lparr>ig_result := (ig_result g1)\<lparr>wo_inventoryComplete := False\<rparr>\<rparr>))
        else
          rbind (foldR (containerStep from to pod) \<lparr>pl_lifetimes = [], pl_included = False, pl_state = g1\<rparr> (pd_containers pod))
            (\<lambda>p. rbind (chargeMemory to pod (pl_state p)) (\<lambda>g2. Inr (chargePod pod (p\<lparr>pl_state := g2\<rparr>)))))"

definition badSnapshot :: "gotime \<Rightarrow> CgroupSnapshot \<Rightarrow> bool" where
  "badSnapshot received s \<longleftrightarrow>
     sn_version s \<noteq> Protocol \<or> sn_node s = '''' \<or> is_zero (sn_collectedAt s) \<or>
     after (sn_collectedAt s) (t_add received second) \<or> t_sub received (sn_collectedAt s) > 10 * second \<or>
     sn_missingReason s \<noteq> ''''"

definition snapshotStep :: "string \<Rightarrow> ((string \<times> string) list \<Rightarrow> bool) \<Rightarrow> gotime \<Rightarrow> gotime \<Rightarrow> gotime \<Rightarrow> integration \<Rightarrow>
    CgroupSnapshot \<Rightarrow> integration result" where
  "snapshotStep namespace selector from to received g s =
     (if badSnapshot received s then Inl ''invalid or stale cgroup snapshot''
      else foldR (podStep namespace selector from to) g (sn_pods s))"

definition startIntegration :: "CgroupSnapshot list \<Rightarrow> gotime \<Rightarrow> gotime \<Rightarrow> gotime \<Rightarrow> integration" where
  "startIntegration snapshots from to received =
     \<lparr>ig_result = \<lparr>wo_from = from, wo_to = to, wo_sourceAt = zero_time, wo_receivedAt = received, wo_cpuSeconds = Fin 0,
        wo_runningPodSeconds = Fin 0, wo_coverage = Fin 0, wo_complete = True, wo_boundaryAveraged = False,
        wo_memoryBytes = None, wo_memorySourceAt = zero_time, wo_throttledSeconds = None, wo_pressureSomeSeconds = None,
        wo_pressureFullSeconds = None, wo_podCount = 0, wo_missingReasons = [], wo_pods = [], wo_inventory = [],
        wo_inventoryComplete = True, wo_nativeSnapshots = snapshots\<rparr>,
      ig_seenPods = [], ig_expectedSeconds = Fin 0, ig_coveredSeconds = Fin 0, ig_memoryTotal = 0, ig_memoryComplete = True,
      ig_memoryCount = 0, ig_memorySourceAt = zero_time, ig_throttled = Fin 0, ig_some = Fin 0, ig_full = Fin 0,
      ig_throttledComplete = True, ig_someComplete = True, ig_fullComplete = True\<rparr>"

definition finishIntegration :: "integration \<Rightarrow> WorkloadObservation" where
  "finishIntegration g0 =
     (let g = (if f_lt (Fin 0) (ig_expectedSeconds g0)
               then g0\<lparr>ig_result := (ig_result g0)\<lparr>wo_coverage := f_min (Fin 1) (f_div (ig_coveredSeconds g0) (ig_expectedSeconds g0))\<rparr>\<rparr>
               else missing ''no running container accounting'' g0);
          r = ig_result g; covered = f_lt (Fin 0) (ig_coveredSeconds g);
          r1 = (if ig_memoryComplete g \<and> ig_memoryCount g > 0
                then r\<lparr>wo_memoryBytes := Some (ig_memoryTotal g), wo_memorySourceAt := ig_memorySourceAt g\<rparr> else r);
          r2 = (if ig_throttledComplete g \<and> covered then r1\<lparr>wo_throttledSeconds := Some (ig_throttled g)\<rparr> else r1);
          r3 = (if ig_someComplete g \<and> covered then r2\<lparr>wo_pressureSomeSeconds := Some (ig_some g)\<rparr> else r2)
      in if ig_fullComplete g \<and> covered then r3\<lparr>wo_pressureFullSeconds := Some (ig_full g)\<rparr> else r3)"

definition Integrate :: "CgroupSnapshot list \<Rightarrow> string \<Rightarrow> ((string \<times> string) list \<Rightarrow> bool) \<Rightarrow> gotime \<Rightarrow> gotime \<Rightarrow> gotime \<Rightarrow>
    WorkloadObservation result" where
  "Integrate snapshots namespace selector from to received =
     (if is_zero from \<or> \<not> after to from \<or> t_sub to from > minute \<or> after to (t_add received second)
      then Inl ''invalid cgroup accounting interval''
      else rbind (foldR (snapshotStep namespace selector from to received) (startIntegration snapshots from to received) snapshots)
             (\<lambda>g. Inr (finishIntegration g)))"

section \<open>What a complete observation covers\<close>

definition runsAt :: "Container \<Rightarrow> int \<Rightarrow> bool" where
  "runsAt c i \<longleftrightarrow> ns (ct_startedAt c) \<le> i \<and>
     (case ct_finishedAt c of Some f \<Rightarrow> i < ns f
      | None \<Rightarrow> (case ct_endUpperBound c of Some b \<Rightarrow> i < ns b | None \<Rightarrow> True))"

definition measuredBy :: "CounterWindow list \<Rightarrow> int \<Rightarrow> bool" where
  "measuredBy ws i \<longleftrightarrow> (\<exists>w \<in> set ws. ns (cw_from w) \<le> i \<and> i < ns (cw_to w))"

lemma ns_maximum [simp]: "ns (maximum a b) = max (ns a) (ns b)"
  by (simp add: maximum_def)

lemma ns_minimum [simp]: "ns (minimum a b) = min (ns a) (ns b)"
  by (simp add: minimum_def)

lemma containerEnd_le: "ns (containerEnd to c) \<le> ns to"
  by (simp add: containerEnd_def split: option.split)

lemma runsAt_interval:
  assumes "runsAt c i" "ns from \<le> i" "i < ns to"
  shows "ns (maximum from (ct_startedAt c)) \<le> i" "i < ns (containerEnd to c)"
  using assms by (auto simp: runsAt_def containerEnd_def split: option.splits)

abbreviation (input) overlap :: "gotime \<Rightarrow> gotime \<Rightarrow> CounterWindow \<Rightarrow> int set" where
  "overlap s e w \<equiv> {max (ns s) (ns (cw_from w)) ..< min (ns e) (ns (cw_to w))}"

lemma windowStep_covers:
  assumes ok: "windowStep startedAt s e l w = Inr l'" and span: "0 < ns s" "ns s < ns e" "ns e - ns s \<le> minute"
    and C: "C \<subseteq> {ns s ..< ns e}" "C \<subseteq> {..< max (ns s) (ns (wl_previousTo l))}" "wl_coveredDuration l = int (card C)"
  shows "C \<union> overlap s e w \<subseteq> {ns s ..< ns e}"
    "C \<union> overlap s e w \<subseteq> {..< max (ns s) (ns (wl_previousTo l'))}"
    "wl_coveredDuration l' = int (card (C \<union> overlap s e w))"
proof -
  have good: "\<not> badWindow startedAt (wl_previousTo l) w" and prev: "wl_previousTo l' = cw_to w"
    using ok by (auto simp: windowStep_def Let_def split: if_splits)
  have w: "ns (cw_from w) < ns (cw_to w)" "ns (wl_previousTo l) = 0 \<or> ns (wl_previousTo l) \<le> ns (cw_from w)"
    using good by (auto simp: badWindow_def)
  have below: "x < max (ns s) (ns (cw_from w))" if "x \<in> C" for x
    using C(2) that w(2) span(1) by fastforce
  show sub: "C \<union> overlap s e w \<subseteq> {ns s ..< ns e}" using C(1) by auto
  show "C \<union> overlap s e w \<subseteq> {..< max (ns s) (ns (wl_previousTo l'))}"
    using below w(1) prev by fastforce
  have fin: "finite C" using C(1) finite_subset by blast
  have "C \<inter> overlap s e w = {}" using below by fastforce
  then have card: "card (C \<union> overlap s e w) = card C + card (overlap s e w)" using fin by (simp add: card_Un_disjoint)
  have "card (C \<union> overlap s e w) \<le> card {ns s ..< ns e}" using sub by (intro card_mono) auto
  then have "int (card (C \<union> overlap s e w)) \<le> minute" using span by simp
  then have bound: "int (card C) + int (card (overlap s e w)) \<le> minute" using card by simp
  show "wl_coveredDuration l' = int (card (C \<union> overlap s e w))"
  proof (cases "max (ns s) (ns (cw_from w)) < min (ns e) (ns (cw_to w))")
    case True
    let ?d = "min (ns e) (ns (cw_to w)) - max (ns s) (ns (cw_from w))"
    have "wl_coveredDuration l' = wrap64 (int (card C) + t_sub (minimum e (cw_to w)) (maximum s (cw_from w)))"
      using ok good True C(3) by (auto simp: windowStep_def Let_def)
    moreover have "int (card (overlap s e w)) = ?d" using True by simp
    moreover have "t_sub (minimum e (cw_to w)) (maximum s (cw_from w)) = ?d"
      using True bound calculation(2) by (subst t_sub_exact) (auto simp: in_i64_def)
    ultimately show ?thesis using bound card by (simp add: wrap64_id in_i64_def)
  next
    case False
    then have "wl_coveredDuration l' = wl_coveredDuration l" and same: "C \<union> overlap s e w = C"
      using ok good by (auto simp: windowStep_def Let_def)
    then show ?thesis using C(3) unfolding same by simp
  qed
qed

lemma windows_cover:
  assumes "foldR (windowStep startedAt s e) l ws = Inr l'" "0 < ns s" "ns s < ns e" "ns e - ns s \<le> minute"
    and "C \<subseteq> {ns s ..< ns e}" "C \<subseteq> {..< max (ns s) (ns (wl_previousTo l))}" "wl_coveredDuration l = int (card C)"
  shows "wl_coveredDuration l' = int (card (C \<union> (\<Union>w \<in> set ws. overlap s e w)))"
  using assms(1,5-7)
proof (induction ws arbitrary: l C)
  case (Cons w ws)
  then obtain l1 where l1: "windowStep startedAt s e l w = Inr l1" "foldR (windowStep startedAt s e) l1 ws = Inr l'"
    by (auto simp: rbind_eq_Inr_iff)
  show ?case
    using Cons.IH [OF l1(2) windowStep_covers [OF l1(1) assms(2-4) Cons.prems(2-4)]] by (simp add: Un_assoc)
qed simp

lemma full_windows_measure:
  assumes run: "foldR (windowStep startedAt s e) l ws = Inr l'" and span: "0 < ns s" "ns s < ns e" "ns e - ns s \<le> minute"
    and "wl_previousTo l = zero_time" "wl_coveredDuration l = 0" and full: "ns e - ns s \<le> wl_coveredDuration l'"
    and i: "ns s \<le> i" "i < ns e"
  shows "measuredBy ws i"
proof -
  let ?C = "\<Union>w \<in> set ws. overlap s e w"
  have "wl_coveredDuration l' = int (card ?C)"
    using windows_cover [OF run span, of "{}"] assms(5,6) by simp
  moreover have "?C \<subseteq> {ns s ..< ns e}" by auto
  ultimately have "?C = {ns s ..< ns e}"
    using full span(2) by (intro card_seteq) auto
  then have "i \<in> ?C" using i by simp
  then show ?thesis by (auto simp: measuredBy_def)
qed

section \<open>Completeness is never regained\<close>

abbreviation (input) complete_so_far :: "integration \<Rightarrow> bool" where
  "complete_so_far g \<equiv> wo_complete (ig_result g)"

lemma missing_incomplete [simp]: "\<not> complete_so_far (missing reason g)"
  by (simp add: missing_def Let_def)

lemma chargeWindow_complete [simp]: "complete_so_far (chargeWindow a b w x g) = complete_so_far g"
  by (simp add: chargeWindow_def Let_def split: option.split)

lemma windows_complete:
  assumes "foldR (windowStep a s e) l ws = Inr l'"
  shows "complete_so_far (wl_state l') = complete_so_far (wl_state l)"
  by (rule foldR_invariant [OF assms, where P = "\<lambda>x. complete_so_far (wl_state x) = complete_so_far (wl_state l)"])
    (auto simp: windowStep_def Let_def split: if_splits)

lemma closeContainer_complete:
  assumes "complete_so_far (pl_state (closeContainer pod c s e p l))"
  shows "complete_so_far (wl_state l)" "t_sub e s \<le> wl_coveredDuration l"
  using assms by (auto simp: closeContainer_def Let_def split: if_splits)

lemma openContainer_simps [simp]:
  "wl_previousTo (openContainer s e g) = zero_time" "wl_coveredDuration (openContainer s e g) = 0"
  "complete_so_far (wl_state (openContainer s e g)) = complete_so_far g"
  by (simp_all add: openContainer_def)

lemma containerStep_cases:
  assumes "containerStep from to pod p c = Inr p'" "complete_so_far (pl_state p')"
  obtains "p' = p" "\<not> after (containerEnd to c) (maximum from (ct_startedAt c))"
  | l where "foldR (windowStep (ct_startedAt c) (maximum from (ct_startedAt c)) (containerEnd to c))
        (openContainer (maximum from (ct_startedAt c)) (containerEnd to c) (pl_state p)) (ct_windows c) = Inr l"
      "p' = closeContainer pod c (maximum from (ct_startedAt c)) (containerEnd to c) p l"
proof (cases "after (containerEnd to c) (maximum from (ct_startedAt c))")
  case live: True
  show ?thesis
  proof (cases "ct_id c = '''' \<or> is_zero (ct_startedAt c)")
    case True
    then have "\<not> complete_so_far (pl_state p')"
      using assms(1) live by (auto simp: containerStep_def Let_def simp del: time_cmp ns_maximum)
    then show ?thesis using assms(2) by blast
  next
    case False
    then have "rbind (foldR (windowStep (ct_startedAt c) (maximum from (ct_startedAt c)) (containerEnd to c))
        (openContainer (maximum from (ct_startedAt c)) (containerEnd to c) (pl_state p)) (ct_windows c))
        (\<lambda>l. Inr (closeContainer pod c (maximum from (ct_startedAt c)) (containerEnd to c) p l)) = Inr p'"
      using assms(1) live by (simp only: containerStep_def Let_def not_True_eq_False if_False)
    then show ?thesis using that(2) unfolding rbind_eq_Inr_iff by blast
  qed
next
  case False
  then have "p' = p" using assms(1) by (simp only: containerStep_def Let_def not_False_eq_True if_True sum.inject)
  then show ?thesis using that(1) False by blast
qed

lemma containerStep_complete: "containerStep from to pod p c = Inr p' \<Longrightarrow> complete_so_far (pl_state p') \<Longrightarrow> complete_so_far (pl_state p)"
  by (erule containerStep_cases) (auto dest: windows_complete closeContainer_complete)

lemma containers_complete:
  assumes "foldR (containerStep from to pod) p cs = Inr p'" "complete_so_far (pl_state p')"
  shows "complete_so_far (pl_state p)"
proof (rule ccontr)
  assume "\<not> complete_so_far (pl_state p)"
  then have "\<not> complete_so_far (pl_state p')"
    using containerStep_complete by (intro foldR_invariant [OF assms(1), where P = "\<lambda>x. \<not> complete_so_far (pl_state x)"]) blast+
  then show False using assms(2) by simp
qed

lemma chargeMemory_complete: "chargeMemory to pod g = Inr g' \<Longrightarrow> complete_so_far g' = complete_so_far g"
  by (auto simp: chargeMemory_def split: prod.splits if_splits option.splits)

lemma chargePod_complete [simp]: "complete_so_far (chargePod pod p) = complete_so_far (pl_state p)"
  by (auto simp: chargePod_def Let_def split: list.split)

lemma podStep_complete: "podStep n sel from to g pod = Inr g' \<Longrightarrow> complete_so_far g' \<Longrightarrow> complete_so_far g"
  using containers_complete chargeMemory_complete
  by (fastforce simp: podStep_def Let_def rbind_eq_Inr_iff split: if_splits)

lemma pods_complete:
  assumes "foldR (podStep n sel from to) g pods = Inr g'" "complete_so_far g'"
  shows "complete_so_far g"
proof (rule ccontr)
  assume "\<not> complete_so_far g"
  then have "\<not> complete_so_far g'"
    using podStep_complete by (intro foldR_invariant [OF assms(1), where P = "\<lambda>x. \<not> complete_so_far x"]) blast+
  then show False using assms(2) by simp
qed

lemma snapshots_complete:
  assumes "foldR (snapshotStep n sel from to received) g ss = Inr g'" "complete_so_far g'"
  shows "complete_so_far g"
proof (rule ccontr)
  assume "\<not> complete_so_far g"
  then have "\<not> complete_so_far g'"
    using pods_complete
    by (intro foldR_invariant [OF assms(1), where P = "\<lambda>x. \<not> complete_so_far x"]) (auto simp: snapshotStep_def split: if_splits)
  then show False using assms(2) by simp
qed

lemma finish_complete: "wo_complete (finishIntegration g) \<Longrightarrow> complete_so_far g"
  by (auto simp: finishIntegration_def Let_def split: if_splits)

lemma containerStep_measures:
  assumes step: "containerStep from to pod p c = Inr p'" and ok: "complete_so_far (pl_state p')"
    and fr: "0 < ns from" "ns to - ns from \<le> minute" and i: "ns from \<le> i" "i < ns to" "runsAt c i"
  shows "measuredBy (ct_windows c) i"
proof -
  let ?s = "maximum from (ct_startedAt c)" and ?e = "containerEnd to c"
  note se = runsAt_interval [OF i(3,1,2)]
  have live: "after ?e ?s" using se by simp
  have span: "0 < ns ?s" "ns ?s < ns ?e" "ns ?e - ns ?s \<le> minute"
    using fr se containerEnd_le [of to c] by auto
  obtain l where l: "foldR (windowStep (ct_startedAt c) ?s ?e) (openContainer ?s ?e (pl_state p)) (ct_windows c) = Inr l"
    and p': "p' = closeContainer pod c ?s ?e p l"
    using containerStep_cases [OF step ok] live by metis
  have "t_sub ?e ?s \<le> wl_coveredDuration l" using closeContainer_complete(2) ok unfolding p' .
  moreover have "t_sub ?e ?s = ns ?e - ns ?s" using span by (intro t_sub_exact) (auto simp: in_i64_def)
  ultimately show ?thesis using full_windows_measure [OF l span] se by simp
qed

lemma Integrate_complete_measured:
  assumes "Integrate snapshots namespace selector from to received = Inr r" "wo_complete r" "0 < ns from"
    and "s \<in> set snapshots" "pod \<in> set (sn_pods s)" "pd_namespace pod = namespace" "selector (pd_labels pod)"
    and "is_zero (pd_createdAt pod) \<or> before (pd_createdAt pod) to" "c \<in> set (pd_containers pod)"
    and "ns from \<le> i" "i < ns to" "runsAt c i"
  shows "measuredBy (ct_windows c) i"
proof -
  obtain g where g: "foldR (snapshotStep namespace selector from to received)
      (startIntegration snapshots from to received) snapshots = Inr g" "complete_so_far g"
    and to: "ns to - ns from \<le> minute"
    using assms(1,2) finish_complete by (auto simp: Integrate_def rbind_eq_Inr_iff t_sub_le_iff not_less split: if_splits)
  obtain g1 g2 ss where s: "snapshotStep namespace selector from to received g1 s = Inr g2"
      "foldR (snapshotStep namespace selector from to received) g2 ss = Inr g"
    using foldR_visits [OF g(1) assms(4)] by metis
  have g2: "complete_so_far g2" using snapshots_complete s(2) g(2) by blast
  have "foldR (podStep namespace selector from to) g1 (sn_pods s) = Inr g2"
    using s(1) by (auto simp: snapshotStep_def split: if_splits)
  then obtain h1 h2 ps where p: "podStep namespace selector from to h1 pod = Inr h2"
      "foldR (podStep namespace selector from to) h2 ps = Inr g2"
    using foldR_visits assms(5) by metis
  have h2: "complete_so_far h2" using pods_complete p(2) g2 by blast
  obtain p0 p1 where p1: "foldR (containerStep from to pod) p0 (pd_containers pod) = Inr p1" "complete_so_far (pl_state p1)"
    using p(1) h2 assms(6-9) chargeMemory_complete
    by (fastforce simp: podStep_def Let_def rbind_eq_Inr_iff split: if_splits)
  then obtain q1 q2 cs where q: "containerStep from to pod q1 c = Inr q2"
      "foldR (containerStep from to pod) q2 cs = Inr p1"
    using foldR_visits assms(9) by metis
  have "complete_so_far (pl_state q2)" using containers_complete q(2) p1(2) by blast
  then show ?thesis using containerStep_measures [OF q(1)] assms(3,10-12) to by blast
qed

text \<open>
  C12: safety. When \<open>Integrate\<close> reports an observation as complete, no running time was invented: at every
  instant of the interval at which a container of a matching pod ran, one of that container's counter
  windows measured it. A pod whose creation is known to lie after the interval is not asked for.
\<close>

theorem complete_observation_is_measured:
  assumes "Integrate snapshots namespace selector from to received = Inr r" "wo_complete r" "0 < ns from"
    and "s \<in> set snapshots" "pod \<in> set (sn_pods s)" "pd_namespace pod = namespace" "selector (pd_labels pod)"
    and "is_zero (pd_createdAt pod) \<or> before (pd_createdAt pod) to" "c \<in> set (pd_containers pod)"
    and "ns from \<le> i" "i < ns to" "runsAt c i"
  shows "measuredBy (ct_windows c) i"
  using assms by (rule Integrate_complete_measured)

section \<open>Windows of the collector\<close>

text \<open>
  A container row reached by reading counters, dropping old windows and recording a termination. The
  last argument bounds every time seen so far: the clock does not run backwards between reads.
\<close>

inductive sampled :: "duration \<Rightarrow> gotime \<Rightarrow> containerState \<Rightarrow> int \<Rightarrow> bool" for interval startedAt where
  fresh: "ct_windows (cs_row c) = [] \<Longrightarrow> ct_startedAt (cs_row c) = startedAt \<Longrightarrow> cs_previous c = None \<Longrightarrow>
    sampled interval startedAt c t"
| read: "sampled interval startedAt c t \<Longrightarrow> t \<le> t' \<Longrightarrow>
    (\<And>path counter. readCounters path = Inr counter \<Longrightarrow>
       t \<le> ns (cn_at counter) \<and> ns (cn_at counter) \<le> t' \<and> cn_usage counter \<le> MaxUint64) \<Longrightarrow>
    sampled interval startedAt (sample interval resolved readCounters absent now c) t'"
| trim: "sampled interval startedAt c t \<Longrightarrow> sampled interval startedAt (trimWindows cutoff c) t"
| finish: "sampled interval startedAt c t \<Longrightarrow>
    sampled interval startedAt (c\<lparr>cs_row := (cs_row c)\<lparr>ct_finishedAt := Some f\<rparr>\<rparr>) t"

definition goodWindow :: "duration \<Rightarrow> gotime \<Rightarrow> CounterWindow \<Rightarrow> bool" where
  "goodWindow interval startedAt w \<longleftrightarrow>
     ns (cw_from w) < ns (cw_to w) \<and> t_sub (cw_to w) (cw_from w) \<le> 3 * interval \<and>
     ns startedAt \<le> ns (cw_from w) \<and> (\<exists>r. cw_cpuSeconds w = Fin r \<and> 0 \<le> r)"

definition disjointWindows :: "CounterWindow list \<Rightarrow> bool" where
  "disjointWindows ws \<longleftrightarrow> sorted_wrt (\<lambda>a b. ns (cw_to a) \<le> ns (cw_from b)) ws"

definition rowOk :: "duration \<Rightarrow> gotime \<Rightarrow> containerState \<Rightarrow> int \<Rightarrow> bool" where
  "rowOk interval startedAt c t \<longleftrightarrow>
     ct_startedAt (cs_row c) = startedAt \<and> disjointWindows (ct_windows (cs_row c)) \<and>
     (\<forall>w \<in> set (ct_windows (cs_row c)). goodWindow interval startedAt w \<and> ns (cw_to w) \<le> t) \<and>
     (\<forall>p. cs_previous c = Some p \<longrightarrow> ns startedAt \<le> ns (cn_at p) \<and> ns (cn_at p) \<le> t \<and>
        (\<forall>w \<in> set (ct_windows (cs_row c)). ns (cw_to w) \<le> ns (cn_at p)))"

lemma usage_seconds:
  assumes "n \<le> MaxUint64"
  obtains r where "f_div (f_of_int (int n)) (f_of_int 1000000) = Fin r" "0 \<le> r"
proof -
  have rep: "representable (2 powi 64)" by (rule representable_powi) simp_all
  have "(of_int (int n) :: rat) \<le> of_int (2 ^ 64)" using assms by (subst of_int_le_iff) simp
  then have "(of_int (int n) :: rat) \<le> 2 powi 64" by (simp add: power_int_def)
  then obtain a where a: "f_of_int (int n) = Fin a" "0 \<le> a" "a \<le> 2 powi 64"
    using round64_between [OF representable_0 rep, of "of_int (int n)"] by (auto simp: f_of_int_def)
  have m: "f_of_int 1000000 = Fin 1000000" using f_of_int_exact [of 1000000] by simp
  have "a / 1000000 \<le> a / 1" using a(2) by (intro divide_left_mono) auto
  then have "0 \<le> a / 1000000" "a / 1000000 \<le> 2 powi 64" using a by auto
  then obtain r where "round64 (a / 1000000) = Fin r" "0 \<le> r"
    using round64_between [OF representable_0 rep] by metis
  then show thesis using that a(1) m by simp
qed

lemma Difference_good:
  assumes "Difference a b (3 * interval) = Inr w" "ns startedAt \<le> ns (cn_at a)" "cn_usage b \<le> MaxUint64"
  shows "goodWindow interval startedAt w" "cw_from w = cn_at a" "cw_to w = cn_at b"
proof -
  have w: "cw_from w = cn_at a" "cw_to w = cn_at b" "ns (cn_at a) < ns (cn_at b)" "t_sub (cn_at b) (cn_at a) \<le> 3 * interval"
      "cw_cpuSeconds w = f_div (f_of_int (int (cn_usage b - cn_usage a))) (f_of_int 1000000)"
    using assms(1) by (auto simp: Difference_def split: if_splits)
  have "cn_usage b - cn_usage a \<le> MaxUint64" using assms(3) by simp
  then obtain r where "f_div (f_of_int (int (cn_usage b - cn_usage a))) (f_of_int 1000000) = Fin r" "0 \<le> r"
    by (rule usage_seconds)
  then have "\<exists>r. cw_cpuSeconds w = Fin r \<and> 0 \<le> r" unfolding w(5) by blast
  then show "goodWindow interval startedAt w" using assms(2) w(1-4) by (simp add: goodWindow_def)
  show "cw_from w = cn_at a" "cw_to w = cn_at b" by (rule w(1), rule w(2))
qed

lemma appendWindow_suffix: "\<exists>n. appendWindow ws w = drop n (ws @ [w])"
  unfolding appendWindow_def Let_def last_n_def by (metis drop0)

lemma disjoint_drop: "disjointWindows ws \<Longrightarrow> disjointWindows (drop n ws)"
  by (simp add: disjointWindows_def sorted_wrt_drop)

lemma appendWindow_ok:
  assumes "disjointWindows ws" "\<forall>v \<in> set ws. ns (cw_to v) \<le> ns (cw_from w)"
  shows "disjointWindows (appendWindow ws w)" "set (appendWindow ws w) \<subseteq> insert w (set ws)"
proof -
  obtain n where n: "appendWindow ws w = drop n (ws @ [w])" using appendWindow_suffix by blast
  have "disjointWindows (ws @ [w])" using assms by (simp add: disjointWindows_def sorted_wrt_append)
  then show "disjointWindows (appendWindow ws w)" unfolding n by (rule disjoint_drop)
  show "set (appendWindow ws w) \<subseteq> insert w (set ws)" unfolding n using set_drop_subset [of n "ws @ [w]"] by auto
qed

lemma missingRow_ok: "rowOk interval startedAt c t \<Longrightarrow> rowOk interval startedAt (missingRow reason c) t"
  by (simp add: rowOk_def missingRow_def)

lemma rowOk_later: "rowOk interval startedAt c t \<Longrightarrow> t \<le> t' \<Longrightarrow> rowOk interval startedAt c t'"
  by (fastforce simp: rowOk_def)

lemma rowOk_metadata:
  assumes "rowOk interval startedAt c t" "ct_windows row = ct_windows (cs_row c)" "ct_startedAt row = ct_startedAt (cs_row c)"
  shows "rowOk interval startedAt (c\<lparr>cs_row := row\<rparr>) t"
  using assms by (simp add: rowOk_def)

lemma read_ok:
  assumes c: "rowOk interval startedAt c t" and t: "t \<le> ns (cn_at counter)" "ns (cn_at counter) \<le> t'"
    and started: "ns startedAt \<le> ns (cn_at counter)" and "ct_startedAt row = startedAt"
    and ws: "set (ct_windows row) \<subseteq> set (ct_windows (cs_row c)) \<union> {w. goodWindow interval startedAt w \<and> cw_to w = cn_at counter}"
      "disjointWindows (ct_windows row)"
  shows "rowOk interval startedAt (c\<lparr>cs_row := row, cs_previous := Some counter, cs_path := path\<rparr>) t'"
proof -
  have "goodWindow interval startedAt w \<and> ns (cw_to w) \<le> ns (cn_at counter)" if "w \<in> set (ct_windows row)" for w
    using ws(1) that c t(1) by (fastforce simp: rowOk_def)
  then show ?thesis using assms by (fastforce simp: rowOk_def)
qed

lemma sample_ok:
  assumes c: "rowOk interval startedAt c t" and t: "t \<le> t'"
    and rd: "\<And>path counter. readCounters path = Inr counter \<Longrightarrow>
      t \<le> ns (cn_at counter) \<and> ns (cn_at counter) \<le> t' \<and> cn_usage counter \<le> MaxUint64"
  shows "rowOk interval startedAt (sample interval resolved readCounters absent now c) t'"
proof (cases "if cs_path c = '''' then resolved else Inr (cs_path c)")
  case (Inl err)
  then show ?thesis using missingRow_ok [OF rowOk_later [OF c t]] by (simp add: sample_def)
next
  case path: (Inr path)
  show ?thesis
  proof (cases "readCounters path")
    case (Inl err)
    then show ?thesis
      using path missingRow_ok [OF rowOk_later [OF c t], of "''cgroup counters unavailable''"]
      by (auto simp: sample_def Let_def intro!: rowOk_metadata)
  next
    case (Inr counter)
    note rd = rd [OF Inr]
    define row where "row = (cs_row c)\<lparr>ct_endUpperBound := None\<rparr>"
    have row: "ct_windows row = ct_windows (cs_row c)" "ct_startedAt row = startedAt"
      using c by (simp_all add: row_def rowOk_def)
    show ?thesis
    proof (cases "before (cn_at counter) (ct_startedAt row)")
      case True
      then have "sample interval resolved readCounters absent now c
          = missingRow ''counter precedes container start'' (c\<lparr>cs_row := row\<rparr>)"
        using path Inr by (simp add: sample_def Let_def row_def)
      moreover have "rowOk interval startedAt (c\<lparr>cs_row := row\<rparr>) t'"
        using rowOk_metadata [OF rowOk_later [OF c t]] row c by (simp add: rowOk_def)
      ultimately show ?thesis using missingRow_ok by simp
    next
      case False
      define row2 where "row2 = (case cs_previous c of
          Some previous \<Rightarrow>
            if cs_path c = path then
              (case Difference previous counter (3 * interval) of
                 Inr window \<Rightarrow> row\<lparr>ct_missingReason := '''', ct_windows := appendWindow (ct_windows row) window\<rparr>
               | Inl err \<Rightarrow> row\<lparr>ct_missingReason := err\<rparr>)
            else row\<lparr>ct_missingReason := ''awaiting second counter read''\<rparr>
        | None \<Rightarrow> row\<lparr>ct_missingReason := ''awaiting second counter read''\<rparr>)"
      have eq: "sample interval resolved readCounters absent now c = c\<lparr>cs_row := row2, cs_previous := Some counter, cs_path := path\<rparr>"
        using path Inr False unfolding row2_def row_def
        by (auto simp: sample_def Let_def split: option.splits sum.splits)
      have "set (ct_windows row2) \<subseteq> set (ct_windows (cs_row c)) \<union> {w. goodWindow interval startedAt w \<and> cw_to w = cn_at counter} \<and>
          disjointWindows (ct_windows row2)"
      proof (cases "\<exists>previous w. cs_previous c = Some previous \<and> cs_path c = path \<and> Difference previous counter (3 * interval) = Inr w")
        case True
        then obtain previous w where p: "cs_previous c = Some previous" "cs_path c = path"
            "Difference previous counter (3 * interval) = Inr w" by blast
        have "ns startedAt \<le> ns (cn_at previous)" "\<forall>v \<in> set (ct_windows row). ns (cw_to v) \<le> ns (cn_at previous)"
            "disjointWindows (ct_windows row)"
          using c p(1) row by (auto simp: rowOk_def)
        then show ?thesis
          using Difference_good [OF p(3), of startedAt] rd appendWindow_ok [of "ct_windows row" w] p row
          by (auto simp: row2_def)
      next
        case False
        then have "ct_windows row2 = ct_windows (cs_row c)"
          using row by (auto simp: row2_def split: option.splits sum.splits)
        then show ?thesis using c by (simp add: rowOk_def)
      qed
      moreover have "ct_startedAt row2 = startedAt"
        using row by (auto simp: row2_def split: option.splits sum.splits)
      ultimately show ?thesis
        unfolding eq using False row rd by (intro read_ok [OF c]) auto
    qed
  qed
qed

lemma sampled_ok: "sampled interval startedAt c t \<Longrightarrow> rowOk interval startedAt c t"
proof (induction rule: sampled.induct)
  case (fresh c t)
  then show ?case by (simp add: rowOk_def disjointWindows_def)
next
  case (read c t t' readCounters resolved absent now)
  then show ?case by (intro sample_ok) auto
next
  case (trim c t cutoff)
  let ?ws = "dropWhile (\<lambda>w. before (cw_to w) cutoff) (ct_windows (cs_row c))"
  have "set ?ws \<subseteq> set (ct_windows (cs_row c))" by (meson set_dropWhileD subsetI)
  moreover have "disjointWindows ?ws" if "disjointWindows (ct_windows (cs_row c))"
    using disjoint_drop [OF that] by (simp add: dropWhile_eq_drop)
  ultimately show ?case using trim.IH by (auto simp: rowOk_def trimWindows_def)
next
  case (finish c t f)
  then show ?case by (intro rowOk_metadata) simp_all
qed

lemma windowStep_accepts:
  assumes "\<not> badWindow startedAt (wl_previousTo l) w"
  shows "\<exists>l'. windowStep startedAt s e l w = Inr l' \<and> wl_previousTo l' = cw_to w"
  using assms by (cases "after (minimum e (cw_to w)) (maximum s (cw_from w))") (simp_all add: windowStep_def Let_def)

lemma windows_accepted:
  assumes "disjointWindows ws" "\<forall>w \<in> set ws. goodWindow interval startedAt w" "3 * interval \<le> 10 * second"
    and "is_zero (wl_previousTo l) \<or> (\<forall>w \<in> set ws. ns (wl_previousTo l) \<le> ns (cw_from w))"
  shows "is_ok (foldR (windowStep startedAt s e) l ws)"
  using assms(1,2,4)
proof (induction ws arbitrary: l)
  case (Cons w ws)
  have "\<not> badWindow startedAt (wl_previousTo l) w"
    using Cons.prems(2,3) assms(3) by (auto simp: badWindow_def goodWindow_def f_is_nan_def f_is_inf_def)
  then obtain l' where l': "windowStep startedAt s e l w = Inr l'" "wl_previousTo l' = cw_to w"
    using windowStep_accepts by blast
  have "is_ok (foldR (windowStep startedAt s e) l' ws)"
    using Cons.prems l'(2) by (intro Cons.IH) (auto simp: disjointWindows_def)
  then show ?case using l'(1) by simp
qed simp

text \<open>
  With a read interval of at most a third of ten seconds, the windows the collector keeps for
  a container never make \<open>Integrate\<close> refuse an observation: whatever the file system answered, whatever
  resets, gaps, restarts and prunings happened, they are positive, disjoint and ordered, start within the
  container's lifetime, last at most ten seconds and carry a finite nonnegative amount of CPU.
\<close>

theorem collector_windows_integrate:
  assumes "sampled interval startedAt c t" "3 * interval \<le> 10 * second"
  shows "is_ok (containerStep from to pod p (cs_row c))"
proof -
  let ?c = "cs_row c"
  have ok: "disjointWindows (ct_windows ?c)" "\<forall>w \<in> set (ct_windows ?c). goodWindow interval startedAt w" "ct_startedAt ?c = startedAt"
    using sampled_ok [OF assms(1)] by (auto simp: rowOk_def)
  have "is_ok (foldR (windowStep (ct_startedAt ?c) s e) (openContainer s e g) (ct_windows ?c))" for s e g
    using windows_accepted [OF ok(1,2) assms(2)] ok(3) by (simp add: zero_time_def)
  then have "\<exists>l. foldR (windowStep (ct_startedAt ?c) s e) (openContainer s e g) (ct_windows ?c) = Inr l" for s e g
    by (simp add: is_ok_iff)
  then show ?thesis by (auto simp: containerStep_def Let_def is_ok_rbind)
qed

lemma recordTermination_sampled:
  assumes "\<And>key c. containers key = Some c \<Longrightarrow> sampled interval (ct_startedAt (cs_row c)) c t"
    and "recordTermination containers name cid term key = Some c"
  shows "sampled interval (ct_startedAt (cs_row c)) c t"
proof (cases "recordTermination containers name cid term key = containers key")
  case False
  then obtain c0 f where "containers key = Some c0" "c = c0\<lparr>cs_row := (cs_row c0)\<lparr>ct_finishedAt := Some f\<rparr>\<rparr>"
    using assms(2) by (auto simp: recordTermination_def split: option.splits if_splits)
  then show ?thesis using sampled.finish [OF assms(1)] by simp
qed (use assms in simp)

section \<open>Intervals above a third of ten seconds\<close>

definition countersAt :: "gotime \<Rightarrow> Counters" where
  "countersAt t = \<lparr>cn_at = t, cn_usage = 0, cn_memory = None, cn_memoryAt = t, cn_throttled = None, cn_periods = None,
     cn_throttledPeriods = None, cn_some = None, cn_full = None\<rparr>"

definition freshContainer :: "gotime \<Rightarrow> containerState" where
  "freshContainer startedAt =
     \<lparr>cs_row = \<lparr>ct_name = ''app'', ct_id = ''containerd://0123456789ab'', ct_startedAt = startedAt, ct_finishedAt = None,
        ct_endUpperBound = None, ct_windows = [], ct_missingReason = ''''\<rparr>, cs_previous = None, cs_path = ''''\<rparr>"

definition readAt :: "duration \<Rightarrow> gotime \<Rightarrow> containerState \<Rightarrow> containerState" where
  "readAt interval t c = sample interval (Inr ''dir'') (\<lambda>_. Inr (countersAt t)) (\<lambda>_. False) t c"

lemma readAt_sampled:
  "sampled interval startedAt c t \<Longrightarrow> t \<le> ns u \<Longrightarrow> sampled interval startedAt (readAt interval u c) (ns u)"
  unfolding readAt_def by (rule sampled.read) (auto simp: countersAt_def)

lemma two_reads_window:
  assumes "ns s < ns u" "t_sub u s \<le> 3 * interval"
  shows "\<exists>w. ct_windows (cs_row (readAt interval u (readAt interval s (freshContainer s)))) = [w] \<and>
      cw_from w = s \<and> cw_to w = u"
    "ct_startedAt (cs_row (readAt interval u (readAt interval s (freshContainer s)))) = s"
    "ct_id (cs_row (readAt interval u (readAt interval s (freshContainer s)))) \<noteq> ''''"
    "ct_finishedAt (cs_row (readAt interval u (readAt interval s (freshContainer s)))) = None"
    "ct_endUpperBound (cs_row (readAt interval u (readAt interval s (freshContainer s)))) = None"
  using assms by (simp_all add: readAt_def sample_def Let_def freshContainer_def Difference_def countersAt_def appendWindow_def)

text \<open>A container with a window of more than ten seconds spoils every integration in which it runs.\<close>

lemma long_window_refused:
  assumes "w \<in> set (ct_windows c)" "t_sub (cw_to w) (cw_from w) > 10 * second" "ct_id c \<noteq> ''''" "\<not> is_zero (ct_startedAt c)"
    and "after (containerEnd to c) (maximum from (ct_startedAt c))"
  shows "\<not> is_ok (containerStep from to pod p c)"
proof
  let ?s = "maximum from (ct_startedAt c)" and ?e = "containerEnd to c"
  assume "is_ok (containerStep from to pod p c)"
  then obtain l where "foldR (windowStep (ct_startedAt c) ?s ?e) (openContainer ?s ?e (pl_state p)) (ct_windows c) = Inr l"
    using assms(3-5) by (auto simp: containerStep_def Let_def rbind_eq_Inr_iff is_ok_iff)
  then obtain l1 l2 where "windowStep (ct_startedAt c) ?s ?e l1 w = Inr l2" using foldR_visits assms(1) by metis
  then show False using assms(2) by (simp add: windowStep_def badWindow_def)
qed

lemma Integrate_visits:
  assumes "Integrate snapshots namespace selector from to received = Inr r"
    and "s \<in> set snapshots" "pod \<in> set (sn_pods s)" "pd_namespace pod = namespace" "selector (pd_labels pod)"
    and "is_zero (pd_createdAt pod) \<or> before (pd_createdAt pod) to" "c \<in> set (pd_containers pod)"
  shows "\<exists>p. is_ok (containerStep from to pod p c)"
proof -
  obtain g where "foldR (snapshotStep namespace selector from to received) (startIntegration snapshots from to received) snapshots = Inr g"
    using assms(1) by (auto simp: Integrate_def rbind_eq_Inr_iff split: if_splits)
  then obtain g1 g2 where "snapshotStep namespace selector from to received g1 s = Inr g2" using foldR_visits assms(2) by metis
  then have "foldR (podStep namespace selector from to) g1 (sn_pods s) = Inr g2" by (auto simp: snapshotStep_def split: if_splits)
  then obtain h1 h2 where "podStep namespace selector from to h1 pod = Inr h2" using foldR_visits assms(3) by metis
  then obtain p0 p1 where "foldR (containerStep from to pod) p0 (pd_containers pod) = Inr p1"
    using assms(4-7) by (auto simp: podStep_def Let_def rbind_eq_Inr_iff split: if_splits)
  then obtain q1 q2 where "containerStep from to pod q1 c = Inr q2" using foldR_visits assms(7) by metis
  then show ?thesis by (auto simp: is_ok_iff)
qed

lemma appendWindow_last: "w \<in> set (appendWindow ws w)"
  by (auto simp: appendWindow_def Let_def last_n_def)

text \<open>Two successful reads at most three intervals apart leave a window between them.\<close>

lemma sample_joins:
  assumes "cs_previous c = Some earlier" "cs_path c \<noteq> ''''" "readCounters (cs_path c) = Inr counter"
    and "\<not> before (cn_at counter) (ct_startedAt (cs_row c))" "cn_usage earlier \<le> cn_usage counter"
    and "0 < t_sub (cn_at counter) (cn_at earlier)" "t_sub (cn_at counter) (cn_at earlier) \<le> 3 * interval"
  shows "\<exists>w \<in> set (ct_windows (cs_row (sample interval resolved readCounters absent now c))).
      cw_from w = cn_at earlier \<and> cw_to w = cn_at counter"
    "ct_id (cs_row (sample interval resolved readCounters absent now c)) = ct_id (cs_row c)"
    "ct_startedAt (cs_row (sample interval resolved readCounters absent now c)) = ct_startedAt (cs_row c)"
    "containerEnd to (cs_row (sample interval resolved readCounters absent now c)) =
       (case ct_finishedAt (cs_row c) of None \<Rightarrow> to | Some f \<Rightarrow> minimum to f)"
proof -
  have "after (cn_at counter) (cn_at earlier)" using assms(6) by (simp add: t_sub_def Let_def split: if_splits)
  then obtain w where w: "Difference earlier counter (3 * interval) = Inr w" "cw_from w = cn_at earlier" "cw_to w = cn_at counter"
    using assms(5,7) by (auto simp: Difference_def)
  have row: "cs_row (sample interval resolved readCounters absent now c) = (cs_row c)\<lparr>ct_endUpperBound := None, ct_missingReason := '''',
      ct_windows := appendWindow (ct_windows (cs_row c)) w\<rparr>"
    using assms(1-4) w(1) by (simp add: sample_def Let_def)
  show "\<exists>w \<in> set (ct_windows (cs_row (sample interval resolved readCounters absent now c))). cw_from w = cn_at earlier \<and> cw_to w = cn_at counter"
    unfolding row using w(2,3) appendWindow_last by (intro bexI [of _ w]) simp_all
  show "ct_id (cs_row (sample interval resolved readCounters absent now c)) = ct_id (cs_row c)"
    "ct_startedAt (cs_row (sample interval resolved readCounters absent now c)) = ct_startedAt (cs_row c)"
    "containerEnd to (cs_row (sample interval resolved readCounters absent now c)) =
       (case ct_finishedAt (cs_row c) of None \<Rightarrow> to | Some f \<Rightarrow> minimum to f)"
    unfolding row by (simp_all add: containerEnd_def split: option.split)
qed

text \<open>
  C36: error. A late round of the collector can make observations fail instead of leaving a gap. Intervals above a
  third of ten seconds pass the collector's configuration check. When two successive reads of a running
  container succeed more than ten seconds but at most three intervals apart (rounds in between were late or did
  not take place; a read that fails is another matter, since the earlier read is then forgotten), \<open>sample\<close> joins
  them to one window, and every \<open>Integrate\<close> over an interval in which the container ran refuses the whole
  workload.
\<close>

theorem long_interval_window_refused:
  assumes "collectorConfigOk node interval retention" "cs_previous c = Some earlier" "cs_path c \<noteq> ''''"
    and "readCounters (cs_path c) = Inr counter" "cn_usage earlier \<le> cn_usage counter"
    and "\<not> before (cn_at counter) (ct_startedAt (cs_row c))"
    and "10 * second < t_sub (cn_at counter) (cn_at earlier)" "t_sub (cn_at counter) (cn_at earlier) \<le> 3 * interval"
    and "ct_id (cs_row c) \<noteq> ''''" "\<not> is_zero (ct_startedAt (cs_row c))" "ct_finishedAt (cs_row c) = None"
    and "s \<in> set snapshots" "pod \<in> set (sn_pods s)" "pd_namespace pod = namespace" "selector (pd_labels pod)"
    and "is_zero (pd_createdAt pod) \<or> before (pd_createdAt pod) to"
    and "cs_row (sample interval resolved readCounters absent now c) \<in> set (pd_containers pod)"
    and "after to (maximum from (ct_startedAt (cs_row c)))"
  shows "\<not> is_ok (Integrate snapshots namespace selector from to received)"
proof
  let ?c = "cs_row (sample interval resolved readCounters absent now c)"
  have "0 < t_sub (cn_at counter) (cn_at earlier)" using assms(7) by simp
  note joined = sample_joins [where readCounters = readCounters and c = c, OF assms(2-4,6,5) this assms(8)]
  obtain w where w: "w \<in> set (ct_windows ?c)" "t_sub (cw_to w) (cw_from w) > 10 * second" using joined(1) assms(7) by metis
  have "after (containerEnd to ?c) (maximum from (ct_startedAt ?c))" using joined(3,4) assms(11,18) by simp
  then have "\<not> is_ok (containerStep from to pod p ?c)" for p
    using long_window_refused [OF w] joined(2,3) assms(9,10) by simp
  moreover assume "is_ok (Integrate snapshots namespace selector from to received)"
  ultimately show False using Integrate_visits assms(12-17) unfolding is_ok_iff by metis
qed

section \<open>Samples\<close>

definition sampleCounterWindow :: CounterWindow where
  "sampleCounterWindow = \<lparr>cw_from = atSecond 995, cw_to = atSecond 1005, cw_cpuSeconds = Fin 4, cw_memoryBytes = None,
     cw_memorySourceAt = zero_time, cw_throttledSeconds = None, cw_periods = None, cw_throttledPeriods = None,
     cw_pressureSomeSeconds = None, cw_pressureFullSeconds = None\<rparr>"

definition sampleContainer :: Container where
  "sampleContainer = \<lparr>ct_name = ''app'', ct_id = ''containerd://0123456789ab'', ct_startedAt = atSecond 990,
     ct_finishedAt = None, ct_endUpperBound = None, ct_windows = [sampleCounterWindow], ct_missingReason = ''''\<rparr>"

definition samplePod :: Pod where
  "samplePod = \<lparr>pd_namespace = ''shop'', pd_name = ''web-1'', pd_uid = ''u1'', pd_labels = [], pd_createdAt = atSecond 980,
     pd_deletedAt = None, pd_containers = [sampleContainer]\<rparr>"

definition sampleSnapshot :: CgroupSnapshot where
  "sampleSnapshot = \<lparr>sn_version = Protocol, sn_node = ''n1'', sn_collectedAt = atSecond 1005, sn_intervalMillis = 2000,
     sn_pods = [samplePod], sn_missingReason = ''''\<rparr>"

lemma chargeWindow_expected [simp]:
  "ig_expectedSeconds (chargeWindow a b w x g) = ig_expectedSeconds g" "ig_coveredSeconds (chargeWindow a b w x g) = ig_coveredSeconds g"
  by (simp_all add: chargeWindow_def Let_def split: option.split)

lemma sample_seconds: "d_seconds (5 * second) = Fin 5"
  using f_of_int_exact [of 5] f_of_int_exact [of 1000000000] by (simp add: d_seconds_def go_div_def f_of_int_def)

lemma sampleContainer_step:
  "\<exists>p'. containerStep (atSecond 1000) (atSecond 1005) samplePod p sampleContainer = Inr p' \<and>
     complete_so_far (pl_state p') = complete_so_far (pl_state p) \<and>
     ig_expectedSeconds (pl_state p') = f_add (ig_expectedSeconds (pl_state p)) (Fin 5) \<and>
     ig_coveredSeconds (pl_state p') = f_add (ig_coveredSeconds (pl_state p)) (Fin 5)"
  using sample_seconds f_of_int_exact [of 5] unfolding f_of_int_def
  by (simp add: containerStep_def sampleContainer_def sampleCounterWindow_def Let_def containerEnd_def maximum_def minimum_def
      openContainer_def closeContainer_def windowStep_def badWindow_def t_sub_def f_is_nan_def f_is_inf_def wrap64_id in_i64_def)

lemma sample_integrates:
  "\<exists>r. Integrate [sampleSnapshot] ''shop'' (\<lambda>_. True) (atSecond 1000) (atSecond 1005) (atSecond 1006) = Inr r \<and> wo_complete r \<and>
     wo_coverage r = Fin 1"
proof -
  define g where "g = startIntegration [sampleSnapshot] (atSecond 1000) (atSecond 1005) (atSecond 1006)"
  define g1 where "g1 = g\<lparr>ig_seenPods := [''u1''], ig_result := (ig_result g)\<lparr>wo_inventory := [samplePod]\<rparr>\<rparr>"
  obtain p where p: "containerStep (atSecond 1000) (atSecond 1005) samplePod
      \<lparr>pl_lifetimes = [], pl_included = False, pl_state = g1\<rparr> sampleContainer = Inr p"
      "complete_so_far (pl_state p)" "ig_expectedSeconds (pl_state p) = Fin 5" "ig_coveredSeconds (pl_state p) = Fin 5"
    using sampleContainer_step [of "\<lparr>pl_lifetimes = [], pl_included = False, pl_state = g1\<rparr>"] f_of_int_exact [of 5]
    by (auto simp: g1_def g_def startIntegration_def f_of_int_def)
  have mem: "chargeMemory (atSecond 1005) samplePod (pl_state p) = Inr ((pl_state p)\<lparr>ig_memoryComplete := False\<rparr>)"
    by (simp add: chargeMemory_def memoryPoint_def samplePod_def sampleContainer_def sampleCounterWindow_def zero_time_def)
  define h where "h = chargePod samplePod (p\<lparr>pl_state := (pl_state p)\<lparr>ig_memoryComplete := False\<rparr>\<rparr>)"
  have h: "complete_so_far h" "ig_expectedSeconds h = Fin 5" "ig_coveredSeconds h = Fin 5"
    using p(2-4) by (auto simp: h_def chargePod_def Let_def split: list.split)
  have "podStep ''shop'' (\<lambda>_. True) (atSecond 1000) (atSecond 1005) g samplePod = Inr h"
    using p(1) mem by (simp add: podStep_def samplePod_def g_def startIntegration_def g1_def h_def Let_def)
  moreover have "\<not> badSnapshot (atSecond 1006) sampleSnapshot"
    by (simp add: badSnapshot_def sampleSnapshot_def t_sub_def)
  ultimately have "Integrate [sampleSnapshot] ''shop'' (\<lambda>_. True) (atSecond 1000) (atSecond 1005) (atSecond 1006)
      = Inr (finishIntegration h)"
    by (simp add: Integrate_def snapshotStep_def g_def t_sub_def) (simp add: sampleSnapshot_def)
  moreover have "wo_complete (finishIntegration h)" "wo_coverage (finishIntegration h) = Fin 1"
    using h f_of_int_exact [of 1] by (simp_all add: finishIntegration_def Let_def f_min_def f_of_int_def)
  ultimately show ?thesis by blast
qed

theorem complete_observation_is_measured_witness:
  "measuredBy (ct_windows sampleContainer) (1003 * second)"
proof -
  obtain r where "Integrate [sampleSnapshot] ''shop'' (\<lambda>_. True) (atSecond 1000) (atSecond 1005) (atSecond 1006) = Inr r" "wo_complete r"
    using sample_integrates by blast
  from complete_observation_is_measured [OF this, of sampleSnapshot samplePod sampleContainer "1003 * second"]
  show ?thesis
    by (simp add: sampleSnapshot_def samplePod_def sampleContainer_def runsAt_def)
qed

definition samplePodLoop :: podLoop where
  "samplePodLoop = \<lparr>pl_lifetimes = [], pl_included = False,
     pl_state = startIntegration [] (atSecond 1000) (atSecond 1030) (atSecond 1030)\<rparr>"

definition twoReads :: "duration \<Rightarrow> containerState" where
  "twoReads interval = readAt interval (atSecond 1001) (readAt interval (atSecond 1000) (freshContainer (atSecond 1000)))"

lemma twoReads_sampled: "sampled interval (atSecond 1000) (twoReads interval) (1001 * second)"
proof -
  have "sampled interval (atSecond 1000) (freshContainer (atSecond 1000)) (1000 * second)"
    by (rule sampled.fresh) (simp_all add: freshContainer_def)
  from readAt_sampled [OF readAt_sampled [OF this, of "atSecond 1000"], of "atSecond 1001"]
  show ?thesis by (simp add: twoReads_def)
qed

theorem collector_windows_integrate_witness:
  "length (ct_windows (cs_row (twoReads (2 * second)))) = 1 \<and>
   is_ok (containerStep (atSecond 1000) (atSecond 1030) samplePod samplePodLoop (cs_row (twoReads (2 * second))))"
  using collector_windows_integrate [OF twoReads_sampled, of "2 * second" "atSecond 1000" "atSecond 1030" samplePod samplePodLoop]
    two_reads_window(1) [of "atSecond 1000" "atSecond 1001" "2 * second"]
  by (auto simp: twoReads_def t_sub_def)

text \<open>A collector that reads every four seconds and was twelve seconds late.\<close>

definition lateRow :: Container where
  "lateRow = cs_row (sample (4 * second) (Inr ''dir'') (\<lambda>_. Inr (countersAt (atSecond 1012))) (\<lambda>_. False) (atSecond 1012)
     (readAt (4 * second) (atSecond 1000) (freshContainer (atSecond 990))))"

theorem long_interval_window_refused_witness:
  "collectorConfigOk ''node'' (4 * second) (3 * minute) \<and>
   \<not> is_ok (Integrate [sampleSnapshot\<lparr>sn_collectedAt := atSecond 1030, sn_pods := [samplePod\<lparr>pd_containers := [lateRow]\<rparr>]\<rparr>] ''shop'' (\<lambda>_. True)
     (atSecond 1000) (atSecond 1030) (atSecond 1030))"
proof -
  let ?c = "readAt (4 * second) (atSecond 1000) (freshContainer (atSecond 990))"
  have config: "collectorConfigOk ''node'' (4 * second) (3 * minute)" by (simp add: collectorConfigOk_def)
  have c: "cs_previous ?c = Some (countersAt (atSecond 1000))" "cs_path ?c \<noteq> ''''" "ct_startedAt (cs_row ?c) = atSecond 990"
    "ct_id (cs_row ?c) \<noteq> ''''" "ct_finishedAt (cs_row ?c) = None"
    by (simp_all add: readAt_def sample_def Let_def freshContainer_def countersAt_def)
  show ?thesis
    by (rule conjI [OF config long_interval_window_refused [OF config c(1,2), where counter = "countersAt (atSecond 1012)"
        and readCounters = "\<lambda>_. Inr (countersAt (atSecond 1012))" and resolved = "Inr ''dir''" and absent = "\<lambda>_. False" and now = "atSecond 1012"
        and s = "sampleSnapshot\<lparr>sn_collectedAt := atSecond 1030, sn_pods := [samplePod\<lparr>pd_containers := [lateRow]\<rparr>]\<rparr>" and pod = "samplePod\<lparr>pd_containers := [lateRow]\<rparr>"]])
      (simp_all add: c [simplified] countersAt_def t_sub_def lateRow_def samplePod_def maximum_def)
qed

end
