(* ===== verification/Interference.thy ===== *)
theory Interference
  imports Prelude
begin

text \<open>
  Programs that share a service. A program is a tree of calls, each continued by the reply (\<open>prog\<close>); the
  service is a relation between a state, a request, a reply and the next state, so that it may refuse, fail
  or answer late. Any number of programs interleave call by call, may be killed and started again, and the
  surroundings may act in between (\<open>interleaves\<close>). \<open>upholds\<close> is the rely-guarantee reading of a program:
  whatever the others do within \<open>rely\<close> before each of its calls, each of its own calls keeps to \<open>guar\<close>. The
  locale \<open>shared_protocol\<close> is the contract under which programs that uphold a common protocol keep its
  invariant together.
\<close>

datatype ('q, 'r, 'a) prog = Done 'a | Call 'q "'r \<Rightarrow> ('q, 'r, 'a) prog"

type_synonym ('s, 'q, 'r) service = "'s \<Rightarrow> 'q \<Rightarrow> 'r \<Rightarrow> 's \<Rightarrow> bool"

primrec prog_bind :: "('q, 'r, 'a) prog \<Rightarrow> ('a \<Rightarrow> ('q, 'r, 'b) prog) \<Rightarrow> ('q, 'r, 'b) prog" where
  "prog_bind (Done a) f = f a"
| "prog_bind (Call q k) f = Call q (\<lambda>r. prog_bind (k r) f)"

text \<open>\<open>if err != nil { return err }\<close>.\<close>

definition proceed :: "('q, 'r, 'e + 'a) prog \<Rightarrow> ('a \<Rightarrow> ('q, 'r, 'e + 'b) prog) \<Rightarrow> ('q, 'r, 'e + 'b) prog" where
  "proceed p f = prog_bind p (\<lambda>r. case r of Inl e \<Rightarrow> Done (Inl e) | Inr a \<Rightarrow> f a)"

lemma proceed_simps [simp]: "proceed (Done (Inl e)) f = Done (Inl e)" "proceed (Done (Inr a)) f = f a"
    "proceed (Call q k) f = Call q (\<lambda>r. proceed (k r) f)"
  by (simp_all add: proceed_def)

section \<open>Interleaving\<close>

inductive interleaves :: "('s, 'q, 'r) service \<Rightarrow> ('s \<Rightarrow> 's \<Rightarrow> bool) \<Rightarrow> (('q, 'r, 'a) prog \<Rightarrow> bool) \<Rightarrow> 's \<Rightarrow>
    's \<Rightarrow> (nat \<Rightarrow> ('q, 'r, 'a) prog) \<Rightarrow> bool" for sv env starts s0 where
  initially: "(\<And>i. starts (ps i)) \<Longrightarrow> interleaves sv env starts s0 s0 ps"
| calls: "interleaves sv env starts s0 s ps \<Longrightarrow> ps i = Call q k \<Longrightarrow> sv s q r s' \<Longrightarrow>
    interleaves sv env starts s0 s' (ps(i := k r))"
| surroundings: "interleaves sv env starts s0 s ps \<Longrightarrow> env s s' \<Longrightarrow> interleaves sv env starts s0 s' ps"
| restarts: "interleaves sv env starts s0 s ps \<Longrightarrow> starts p \<Longrightarrow> interleaves sv env starts s0 s (ps(i := p))"

section \<open>Rely and guarantee\<close>

primrec upholds :: "('s, 'q, 'r) service \<Rightarrow> ('s \<Rightarrow> 's \<Rightarrow> bool) \<Rightarrow> ('s \<Rightarrow> 's \<Rightarrow> bool) \<Rightarrow> ('a \<Rightarrow> 's \<Rightarrow> bool) \<Rightarrow>
    ('q, 'r, 'a) prog \<Rightarrow> 's \<Rightarrow> bool" where
  "upholds sv rely guar post (Done a) s \<longleftrightarrow> (\<forall>s1. rely\<^sup>*\<^sup>* s s1 \<longrightarrow> post a s1)"
| "upholds sv rely guar post (Call q k) s \<longleftrightarrow>
     (\<forall>s1. rely\<^sup>*\<^sup>* s s1 \<longrightarrow> (\<forall>r s2. sv s1 q r s2 \<longrightarrow> guar s1 s2 \<and> upholds sv rely guar post (k r) s2))"

definition stable :: "('s \<Rightarrow> 's \<Rightarrow> bool) \<Rightarrow> ('s \<Rightarrow> bool) \<Rightarrow> bool" where
  "stable rely P \<longleftrightarrow> (\<forall>s s'. P s \<longrightarrow> rely s s' \<longrightarrow> P s')"

lemma stableI: "(\<And>s s'. P s \<Longrightarrow> rely s s' \<Longrightarrow> P s') \<Longrightarrow> stable rely P"
  by (auto simp: stable_def)

lemma stable_rtranclp: "stable rely P \<Longrightarrow> rely\<^sup>*\<^sup>* s s' \<Longrightarrow> P s \<Longrightarrow> P s'"
  by (rotate_tac 1, induction rule: rtranclp_induct) (auto simp: stable_def)

lemma stable_conj: "stable rely P \<Longrightarrow> stable rely Q \<Longrightarrow> stable rely (\<lambda>s. P s \<and> Q s)"
  by (auto simp: stable_def)

lemma stable_all: "(\<And>x. stable rely (P x)) \<Longrightarrow> stable rely (\<lambda>s. \<forall>x. P x s)"
  by (auto simp: stable_def)

lemma stable_const: "stable rely (\<lambda>s. c)"
  by (simp add: stable_def)

lemma upholds_env:
  assumes "upholds sv rely guar post p s" "rely s s'"
  shows "upholds sv rely guar post p s'"
proof -
  have "rely\<^sup>*\<^sup>* s s1" if "rely\<^sup>*\<^sup>* s' s1" for s1 using assms(2) that by (rule converse_rtranclp_into_rtranclp)
  then show ?thesis using assms(1) by (cases p) (simp, fastforce)
qed

lemma upholds_Done: "P s \<Longrightarrow> stable rely P \<Longrightarrow> (\<And>s. P s \<Longrightarrow> post a s) \<Longrightarrow> upholds sv rely guar post (Done a) s"
  using stable_rtranclp by fastforce

lemma upholds_Call:
  assumes "P s" "stable rely P"
    and "\<And>s1 r s2. P s1 \<Longrightarrow> sv s1 q r s2 \<Longrightarrow> guar s1 s2 \<and> upholds sv rely guar post (k r) s2"
  shows "upholds sv rely guar post (Call q k) s"
proof -
  have "guar s1 s2 \<and> upholds sv rely guar post (k r) s2" if "rely\<^sup>*\<^sup>* s s1" "sv s1 q r s2" for s1 r s2
    using assms(3) [OF stable_rtranclp [OF assms(2) that(1) assms(1)] that(2)] .
  then show ?thesis by simp
qed

lemma upholds_bind:
  assumes "upholds sv rely guar mid p s" "\<And>a s1. mid a s1 \<Longrightarrow> upholds sv rely guar post (f a) s1"
  shows "upholds sv rely guar post (prog_bind p f) s"
  using assms(1)
proof (induction p arbitrary: s)
  case (Done a)
  then have "mid a s" by simp
  then show ?case using assms(2) by simp
next
  case (Call q k)
  then show ?case by simp
qed

lemma upholds_mono:
  assumes "upholds sv rely guar post p s" "\<And>s s'. guar s s' \<Longrightarrow> guar' s s'" "\<And>a s. post a s \<Longrightarrow> post' a s"
  shows "upholds sv rely guar' post' p s"
  using assms(1) by (induction p arbitrary: s) (auto intro: assms(2,3))

lemma upholds_proceed:
  assumes "upholds sv rely guar mid p s"
    and "\<And>a s1. mid (Inr a) s1 \<Longrightarrow> upholds sv rely guar post (f a) s1"
    and "\<And>e s1. mid (Inl e) s1 \<Longrightarrow> upholds sv rely guar post (Done (Inl e)) s1"
  shows "upholds sv rely guar post (proceed p f) s"
  unfolding proceed_def
proof (rule upholds_bind [OF assms(1)])
  show "upholds sv rely guar post (case a of Inl e \<Rightarrow> Done (Inl e) | Inr a \<Rightarrow> f a) s1" if "mid a s1" for a s1
    using that assms(2,3) by (cases a) simp_all
qed

text \<open>Fewer replies and a stronger rely keep what holds; two results hold together.\<close>

lemma upholds_narrow:
  assumes "upholds sv rely guar post p s" "\<And>s q r s'. sv' s q r s' \<Longrightarrow> sv s q r s'" "\<And>s s'. rely' s s' \<Longrightarrow> rely s s'"
  shows "upholds sv' rely' guar post p s"
  using assms(1)
proof (induction p arbitrary: s)
  case (Done a)
  have "rely' \<le> rely" using assms(3) by blast
  then have "rely'\<^sup>*\<^sup>* s s1 \<Longrightarrow> rely\<^sup>*\<^sup>* s s1" for s1 using rtranclp_mono by blast
  then show ?case using Done by simp
next
  case (Call q k)
  have "rely' \<le> rely" using assms(3) by blast
  then have r: "rely'\<^sup>*\<^sup>* s s1 \<Longrightarrow> rely\<^sup>*\<^sup>* s s1" for s1 using rtranclp_mono by blast
  have "guar s1 s2 \<and> upholds sv' rely' guar post (k x) s2" if "rely'\<^sup>*\<^sup>* s s1" "sv' s1 q x s2" for s1 x s2
    using Call.prems r [OF that(1)] assms(2) [OF that(2)] by (auto intro: Call.IH)
  then show ?case by simp
qed

lemma upholds_conj:
  "upholds sv rely guar P p s \<Longrightarrow> upholds sv rely guar' Q p s \<Longrightarrow> upholds sv rely guar (\<lambda>a s. P a s \<and> Q a s) p s"
  by (induction p arbitrary: s) auto

text \<open>Programs that make only calls of one kind, and what such calls keep.\<close>

primrec calls_only :: "('q \<Rightarrow> bool) \<Rightarrow> ('q, 'r, 'a) prog \<Rightarrow> bool" where
  "calls_only c (Done a) \<longleftrightarrow> True"
| "calls_only c (Call q k) \<longleftrightarrow> c q \<and> (\<forall>r. calls_only c (k r))"

lemma upholds_keeps:
  assumes "upholds sv rely guar post p s" "calls_only c p" "I s" "stable rely I"
    and "\<And>s q r s'. c q \<Longrightarrow> I s \<Longrightarrow> sv s q r s' \<Longrightarrow> I s'"
  shows "upholds sv rely guar (\<lambda>a s. post a s \<and> I s) p s"
  using assms(1-3)
proof (induction p arbitrary: s)
  case (Done a)
  then show ?case using stable_rtranclp [OF assms(4)] by auto
next
  case (Call q k)
  have "guar s1 s2 \<and> upholds sv rely guar (\<lambda>a s. post a s \<and> I s) (k r) s2" if "rely\<^sup>*\<^sup>* s s1" "sv s1 q r s2" for s1 r s2
  proof -
    have "I s2" using assms(5) [of q s1 r s2] stable_rtranclp [OF assms(4) that(1)] that(2) Call.prems(2,3) by simp
    moreover have "guar s1 s2" "upholds sv rely guar post (k r) s2" "calls_only c (k r)" using Call.prems(1,2) that by auto
    ultimately show ?thesis using Call.IH [of "k r" s2] by blast
  qed
  then show ?case by simp
qed

text \<open>The runs of one program among others, with its own transitions.\<close>

inductive runs_among :: "('s, 'q, 'r) service \<Rightarrow> ('s \<Rightarrow> 's \<Rightarrow> bool) \<Rightarrow> ('q, 'r, 'a) prog \<Rightarrow> 's \<Rightarrow>
    ('s \<times> 's) list \<Rightarrow> ('q, 'r, 'a) prog \<Rightarrow> 's \<Rightarrow> bool" for sv others p s0 where
  begins: "runs_among sv others p s0 [] p s0"
| others_act: "runs_among sv others p s0 ts q s \<Longrightarrow> others s s' \<Longrightarrow> runs_among sv others p s0 ts q s'"
| acts: "runs_among sv others p s0 ts (Call rq k) s \<Longrightarrow> sv s rq r s' \<Longrightarrow> runs_among sv others p s0 (ts @ [(s, s')]) (k r) s'"

lemma upholds_runs:
  assumes "runs_among sv rely p s0 ts q s" "upholds sv rely guar post p s0"
  shows "(\<forall>t \<in> set ts. guar (fst t) (snd t)) \<and> upholds sv rely guar post q s"
  using assms(1)
proof induction
  case (others_act ts q s s')
  then show ?case using upholds_env by metis
next
  case (acts ts rq k s r s')
  then show ?case by auto
qed (simp add: assms(2))

lemma upholds_result:
  assumes "runs_among sv rely p s0 ts (Done a) s" "upholds sv rely guar post p s0"
  shows "post a s"
  using upholds_runs [OF assms] by simp

text \<open>A run can be followed by giving the replies and the states they lead to.\<close>

fun served :: "('s, 'q, 'r) service \<Rightarrow> ('q, 'r, 'a) prog \<Rightarrow> 's \<Rightarrow> ('r \<times> 's) list \<Rightarrow> bool" where
  "served sv p s [] \<longleftrightarrow> True"
| "served sv (Done a) s (step # steps) \<longleftrightarrow> False"
| "served sv (Call q k) s ((r, s') # steps) \<longleftrightarrow> sv s q r s' \<and> served sv (k r) s' steps"

fun feed :: "('q, 'r, 'a) prog \<Rightarrow> 'r list \<Rightarrow> ('q, 'r, 'a) prog" where
  "feed (Call q k) (r # rs) = feed (k r) rs"
| "feed p rs = p"

lemma runs_feed:
  "served sv p s steps \<Longrightarrow> runs_among sv others p0 s0 ts p s \<Longrightarrow>
    \<exists>ts'. runs_among sv others p0 s0 (ts @ ts') (feed p (map fst steps)) (last (s # map snd steps)) \<and>
      map snd ts' = map snd steps"
proof (induction sv p s steps arbitrary: ts rule: served.induct)
  case (1 sv p s)
  then show ?case by (intro exI [of _ "[]"]) (cases p, auto)
next
  case (3 sv q k s r s' steps)
  from 3(2) have "sv s q r s'" and rest: "served sv (k r) s' steps" by simp_all
  then have "runs_among sv others p0 s0 (ts @ [(s, s')]) (k r) s'" using 3(3) acts by metis
  from 3(1) [OF rest this] obtain ts' where
    "runs_among sv others p0 s0 ((ts @ [(s, s')]) @ ts') (feed (k r) (map fst steps)) (last (s' # map snd steps))"
    "map snd ts' = map snd steps" by blast
  then show ?case by (intro exI [of _ "(s, s') # ts'"]) simp
qed simp

lemma feed_Done [simp]: "feed (Done a) rs = Done a"
  by (cases rs) simp_all

text \<open>A sequence returns a value only when both parts do, on replies of their own.\<close>

lemma feed_proceed:
  "feed (proceed p f) rs = Done (Inr y) \<Longrightarrow> \<exists>x rs1 rs2. feed p rs1 = Done (Inr x) \<and> feed (f x) rs2 = Done (Inr y)"
proof (induction p arbitrary: rs)
  case (Done a)
  then show ?case by (cases a) (auto intro: exI [of _ "[]"])
next
  case (Call q k)
  show ?case
  proof (cases rs)
    case Nil
    then show ?thesis using Call.prems by simp
  next
    case (Cons r rs')
    then obtain x rs1 rs2 where "feed (k r) rs1 = Done (Inr x)" "feed (f x) rs2 = Done (Inr y)"
      using Call.IH [of "k r" rs'] Call.prems by auto
    then show ?thesis by (metis feed.simps(1))
  qed
qed

section \<open>Programs under one protocol\<close>

locale shared_protocol =
  fixes sv :: "('s, 'q, 'r) service" and env :: "'s \<Rightarrow> 's \<Rightarrow> bool" and starts :: "('q, 'r, 'a) prog \<Rightarrow> bool"
    and protocol :: "'s \<Rightarrow> 's \<Rightarrow> bool" and inv :: "'s \<Rightarrow> bool"
  assumes env_protocol: "inv s \<Longrightarrow> env s s' \<Longrightarrow> protocol s s'"
    and protocol_inv: "inv s \<Longrightarrow> protocol s s' \<Longrightarrow> inv s'"
    and starts_uphold: "starts p \<Longrightarrow> inv s \<Longrightarrow> upholds sv protocol protocol (\<lambda>_ _. True) p s"
begin

lemma interleaves_uphold:
  assumes "interleaves sv env starts s0 s ps" "inv s0"
  shows "inv s \<and> (\<forall>i. upholds sv protocol protocol (\<lambda>_ _. True) (ps i) s)"
  using assms(1)
proof induction
  case (initially ps)
  then show ?case using starts_uphold assms(2) by blast
next
  case (calls s ps i q k r s')
  from calls have "upholds sv protocol protocol (\<lambda>_ _. True) (Call q k) s" by metis
  then have s': "protocol s s'" "upholds sv protocol protocol (\<lambda>_ _. True) (k r) s'" using calls(3) by auto
  then show ?case using calls protocol_inv upholds_env by fastforce
next
  case (surroundings s ps s')
  then show ?case using env_protocol protocol_inv upholds_env by metis
next
  case (restarts s ps p i)
  then show ?case using starts_uphold by auto
qed

lemma reachable_inv: "interleaves sv env starts s0 s ps \<Longrightarrow> inv s0 \<Longrightarrow> inv s"
  using interleaves_uphold by blast

lemma calls_keep_protocol:
  assumes "interleaves sv env starts s0 s ps" "inv s0" "ps i = Call q k" "sv s q r s'"
  shows "protocol s s'"
  using interleaves_uphold [OF assms(1,2)] assms(3,4) by (auto dest!: spec [of _ i])

end

end
