(* ===== verification/ChunkStore.thy ===== *)
theory ChunkStore
  imports Effects Interference
begin

text \<open>
  The history store. \<open>AllocatingStore\<close> (\<open>sharded_store.go\<close>) keeps the history of a resource in one root
  ConfigMap, and spills it into immutable chunk ConfigMaps listed in a manifest once it is too large; a
  fence in the root's annotations, advanced before chunks are written or reclaimed, keeps writers apart.
  The programs \<open>Load\<close> and \<open>Commit\<close> are modelled call by call over the API server, with \<open>manifest.go\<close>,
  \<open>codec.go\<close>, \<open>store.go\<close>, \<open>history_budget.go\<close> and the ConfigMap code of \<open>history_store.go\<close>.

  What is proved: whatever any number of writers do at the same time, whichever calls fail, take effect
  late or without an answer, and wherever a writer is killed, the chunks that the current root lists are
  present and unaltered, and a commit replaces the contents it was computed from or nothing.

  JSON, SHA-256 and the syntax of DNS labels are parameters (\<open>StoreLibrary\<close>). The wrapper \<open>storageFailure\<close>
  only adds a reason for reports and is left out. Sizes are lengths of strings of bytes.
\<close>

section \<open>Objects and library\<close>

record OwnerReference =
  or_apiVersion :: string
  or_kind :: string
  or_name :: string
  or_uid :: string

text \<open>The fields of a ConfigMap that are used; \<open>cm_data = None\<close> is a nil map.\<close>

record ConfigMap =
  cm_namespace :: string
  cm_name :: string
  cm_uid :: string
  cm_resourceVersion :: string
  cm_owners :: "OwnerReference list"
  cm_labels :: "string \<rightharpoonup> string"
  cm_annotations :: "string \<rightharpoonup> string"
  cm_immutable :: "bool option"
  cm_data :: "(string \<times> string) list option"
  cm_binaryData :: "(string \<times> string) list"

record ChunkReference =
  ch_name :: string
  ch_uid :: string
  ch_digest :: string
  ch_bytes :: int

record Manifest =
  mn_schemaVersion :: int64
  mn_chunks :: "ChunkReference list"
  mn_pendingScale :: "ScaleDecision option"

text \<open>
  \<open>sl_marshalData\<close>, \<open>sl_marshalManifest\<close> and \<open>sl_marshalDecision\<close> are \<open>json.Marshal\<close>; \<open>sl_unmarshalData\<close> and
  \<open>sl_unmarshalManifest\<close> the strict decoders; \<open>sl_schema\<close> reads the field \<open>schemaVersion\<close> alone;
  \<open>sl_wireValid\<close> says that \<open>validateHistoryWire\<close> accepts; \<open>sl_pendingRaw\<close> is the raw value of the field
  \<open>pendingScale\<close>; \<open>sl_digest\<close> is SHA-256 in hexadecimal; \<open>sl_hexLength\<close> the length \<open>hex.DecodeString\<close> gives;
  \<open>sl_dnsLabel\<close> is \<open>IsDNS1123Label\<close> without complaints; \<open>sl_trimSpace\<close> is \<open>bytes.TrimSpace\<close>.
\<close>

record StoreLibrary =
  sl_marshalData :: "HPAPlusData \<Rightarrow> string result"
  sl_unmarshalData :: "string \<Rightarrow> HPAPlusData result"
  sl_wireValid :: "string \<Rightarrow> HPAPlusData \<Rightarrow> bool"
  sl_trimSpace :: "string \<Rightarrow> string"
  sl_schema :: "string \<Rightarrow> int64 result"
  sl_marshalManifest :: "Manifest \<Rightarrow> string result"
  sl_unmarshalManifest :: "string \<Rightarrow> Manifest result"
  sl_pendingRaw :: "string \<Rightarrow> (string option) result"
  sl_marshalDecision :: "ScaleDecision \<Rightarrow> string result"
  sl_digest :: "string \<Rightarrow> string"
  sl_hexLength :: "string \<Rightarrow> nat option"
  sl_dnsLabel :: "string \<Rightarrow> bool"

abbreviation (input) configMapDataKey :: string where "configMapDataKey \<equiv> ''data''"
abbreviation (input) RootLabel :: string where "RootLabel \<equiv> ''hpa.plus/history-root''"
abbreviation (input) FenceKey :: string where "FenceKey \<equiv> ''hpa.plus/history-fence''"
abbreviation (input) GroupVersion :: string where "GroupVersion \<equiv> ''hpa.plus/v1alpha1''"
abbreviation (input) MaxAllocatedBytes :: nat where "MaxAllocatedBytes \<equiv> 16777216"
abbreviation (input) ChunkBytes :: nat where "ChunkBytes \<equiv> 524288"
abbreviation (input) MaxDataBytes :: nat where "MaxDataBytes \<equiv> 1048576"
abbreviation (input) maxHistoryStateBytes :: nat where "maxHistoryStateBytes \<equiv> 786432"
abbreviation (input) maxScaleJournalBytes :: nat where "maxScaleJournalBytes \<equiv> 262144"
abbreviation (input) MaxFence :: nat where "MaxFence \<equiv> 18446744073709551615"

section \<open>Wire format\<close>

definition EncodeHistory :: "StoreLibrary \<Rightarrow> HPAPlusData \<Rightarrow> string result" where
  "EncodeHistory lib data =
     (if d_schemaVersion data \<noteq> 0 \<and> d_schemaVersion data \<noteq> 1 then Inl ''unsupported history schema version''
      else sl_marshalData lib (data\<lparr>d_schemaVersion := 1\<rparr>))"

definition DecodeBounded :: "StoreLibrary \<Rightarrow> string \<Rightarrow> nat \<Rightarrow> HPAPlusData result" where
  "DecodeBounded lib payload limit =
     (if limit = 0 \<or> length payload > limit then Inl ''history payload exceeds ConfigMap data limit''
      else
        let raw = sl_trimSpace lib payload in
        if raw = '''' \<or> hd raw \<noteq> CHR ''{'' then Inl ''history payload must be a JSON object''
        else rbind (sl_unmarshalData lib raw) (\<lambda>data.
          if d_schemaVersion data \<noteq> 0 \<and> d_schemaVersion data \<noteq> 1 then Inl ''unsupported history schema version''
          else if \<not> sl_wireValid lib raw data then Inl ''invalid history framing''
          else Inr data))"

definition decodeHistory :: "StoreLibrary \<Rightarrow> string \<Rightarrow> HPAPlusData result" where
  "decodeHistory lib payload = DecodeBounded lib payload MaxDataBytes"

definition OwnedConfigMap :: "ConfigMap \<Rightarrow> HPAPlus \<Rightarrow> bool" where
  "OwnedConfigMap cm owner \<longleftrightarrow> cm_namespace cm = h_namespace owner \<and>
     list_ex (\<lambda>ref. or_uid ref = h_uid owner \<and> or_name ref = h_name owner \<and> or_kind ref = ''HPAPlus'' \<and>
       or_apiVersion ref = GroupVersion) (cm_owners cm)"

definition ChunkPrefix :: "StoreLibrary \<Rightarrow> ConfigMap \<Rightarrow> string" where
  "ChunkPrefix lib rootMap = ''hpa-hist-'' @ take 12 (sl_digest lib (cm_uid rootMap)) @ ''-''"

text \<open>\<open>strconv.ParseUint\<close> and \<open>FormatUint\<close> in base ten for 64 bits.\<close>

definition parseUint :: "string \<Rightarrow> nat option" where
  "parseUint s = (if s \<noteq> '''' \<and> list_all is_digit s \<and> dec_value s \<le> int MaxFence then Some (nat (dec_value s)) else None)"

definition formatUint :: "nat \<Rightarrow> string" where
  "formatUint n = append_int (int n) 1"

definition FenceOf :: "ConfigMap \<Rightarrow> nat result" where
  "FenceOf cm =
     (let v = opt_default '''' (cm_annotations cm FenceKey) in
      if v = '''' then Inr 0
      else (case parseUint v of
              Some fence \<Rightarrow> if fence = MaxFence then Inl ''invalid or exhausted history fence'' else Inr fence
            | None \<Rightarrow> Inl ''invalid or exhausted history fence''))"

definition validReference :: "StoreLibrary \<Rightarrow> ConfigMap \<Rightarrow> string list \<Rightarrow> ChunkReference \<Rightarrow> bool" where
  "validReference lib rootMap names ref \<longleftrightarrow>
     take (length (ChunkPrefix lib rootMap)) (ch_name ref) = ChunkPrefix lib rootMap \<and> sl_dnsLabel lib (ch_name ref) \<and>
     ch_uid ref \<noteq> '''' \<and> ch_name ref \<notin> set names \<and> 1 \<le> ch_bytes ref \<and> ch_bytes ref \<le> int ChunkBytes \<and>
     sl_hexLength lib (ch_digest ref) = Some 32"

fun validReferences :: "StoreLibrary \<Rightarrow> ConfigMap \<Rightarrow> string list \<Rightarrow> ChunkReference list \<Rightarrow> bool" where
  "validReferences lib rootMap names [] = True"
| "validReferences lib rootMap names (ref # refs) =
     (validReference lib rootMap names ref \<and> validReferences lib rootMap (ch_name ref # names) refs)"

definition DecodeManifest :: "StoreLibrary \<Rightarrow> string \<Rightarrow> ConfigMap \<Rightarrow> Manifest result" where
  "DecodeManifest lib payload rootMap =
     (if cm_uid rootMap = '''' then Inl ''history root UID is missing''
      else rbind (sl_unmarshalManifest lib payload) (\<lambda>manifest.
        if mn_schemaVersion manifest \<noteq> 2 \<or> mn_chunks manifest = [] \<or>
          length (mn_chunks manifest) > MaxAllocatedBytes div ChunkBytes
        then Inl ''invalid history manifest version/chunk count''
        else if \<not> validReferences lib rootMap [] (mn_chunks manifest) then Inl ''invalid history chunk reference''
        else if sum_list (map ch_bytes (mn_chunks manifest)) > int MaxAllocatedBytes
        then Inl ''history manifest exceeds state limit''
        else rbind (sl_pendingRaw lib payload) (\<lambda>raw.
          rbind (case raw of None \<Rightarrow> Inr manifest
             | Some r \<Rightarrow> rbind (decodeHistory lib
                   (''{\"schemaVersion\":1,\"modelHistories\":{},\"pendingScale\":'' @ r @ ''}''))
                   (\<lambda>data. Inr (manifest\<lparr>mn_pendingScale := d_pendingScale data\<rparr>))) (\<lambda>decoded.
          rbind (FenceOf rootMap) (\<lambda>_. Inr decoded)))))"

section \<open>Calls to the API server\<close>

type_synonym key = "string \<times> string"

datatype request =
    GetMap key
  | ListMaps string string string
  | CreateMap ConfigMap
  | UpdateMap ConfigMap
  | DeleteMap ConfigMap
  | CheckPublication
  | NewTransaction

datatype reply =
    MapReply "ioerror + ConfigMap"
  | PageReply "ioerror + ConfigMap list \<times> string"
  | Outcome "ioerror option"
  | Transaction string

type_synonym 'a call = "(request, reply, ioerror + 'a) prog"

definition mapCall :: "request \<Rightarrow> ConfigMap call" where
  "mapCall q = Call q (\<lambda>r. Done (case r of MapReply x \<Rightarrow> x | _ \<Rightarrow> Inl (Failure ''unexpected reply'')))"

definition pageCall :: "string \<Rightarrow> string \<Rightarrow> string \<Rightarrow> (ConfigMap list \<times> string) call" where
  "pageCall namespace label_value continuation = Call (ListMaps namespace label_value continuation)
     (\<lambda>r. Done (case r of PageReply x \<Rightarrow> x | _ \<Rightarrow> Inl (Failure ''unexpected reply'')))"

definition outcomeCall :: "request \<Rightarrow> unit call" where
  "outcomeCall q = Call q (\<lambda>r. Done (case r of Outcome None \<Rightarrow> Inr () | Outcome (Some e) \<Rightarrow> Inl e
     | _ \<Rightarrow> Inl (Failure ''unexpected reply'')))"

definition newTransaction :: "string call" where
  "newTransaction = Call NewTransaction (\<lambda>r. Done (case r of Transaction t \<Rightarrow> Inr t | _ \<Rightarrow> Inl (Failure ''unexpected reply'')))"

definition lift_result :: "'a result \<Rightarrow> 'a call" where
  "lift_result r = Done (case r of Inl e \<Rightarrow> Inl (Failure e) | Inr a \<Rightarrow> Inr a)"

lemma lift_result_simps: "lift_result (Inl e) = Done (Inl (Failure e))" "lift_result (Inr a) = Done (Inr a)"
  by (simp_all add: lift_result_def)

section \<open>Sizes and budgets\<close>

definition dataAt :: "ConfigMap \<Rightarrow> string \<Rightarrow> string" where
  "dataAt cm k = (case cm_data cm of None \<Rightarrow> '''' | Some kvs \<Rightarrow> opt_default '''' (map_of kvs k))"

fun put :: "string \<Rightarrow> string \<Rightarrow> (string \<times> string) list \<Rightarrow> (string \<times> string) list" where
  "put k v [] = [(k, v)]"
| "put k v ((k', v') # kvs) = (if k' = k then (k, v) # kvs else (k', v') # put k v kvs)"

definition configMapDataBytes :: "ConfigMap \<Rightarrow> int" where
  "configMapDataBytes cm = int (sum_list (map (length \<circ> snd) (opt_default [] (cm_data cm))) +
     sum_list (map (length \<circ> snd) (cm_binaryData cm)))"

definition journalSize :: "StoreLibrary \<Rightarrow> HPAPlusData \<Rightarrow> int result" where
  "journalSize lib data =
     (case d_pendingScale data of None \<Rightarrow> Inr 0
      | Some d \<Rightarrow> rbind (sl_marshalDecision lib d) (\<lambda>raw. Inr (int (length raw + length '',\"pendingScale\":''))))"

definition historyBudgetParts :: "StoreLibrary \<Rightarrow> HPAPlusData \<Rightarrow> int \<Rightarrow> int \<Rightarrow> (int \<times> int) result" where
  "historyBudgetParts lib data payloadBytes unrelatedBytes =
     (if d_pendingScale data = None then Inr (payloadBytes + unrelatedBytes, 0)
      else rbind (EncodeHistory lib (data\<lparr>d_pendingScale := None\<rparr>)) (\<lambda>encoded.
        Inr (int (length encoded) + unrelatedBytes, payloadBytes - int (length encoded))))"

definition checkHistoryBudget :: "StoreLibrary \<Rightarrow> ConfigMap \<Rightarrow> HPAPlusData \<Rightarrow> int \<Rightarrow> unit result" where
  "checkHistoryBudget lib previous data payloadBytes =
     (let unrelated = configMapDataBytes previous - int (length (dataAt previous configMapDataKey)) in
      rbind (historyBudgetParts lib data payloadBytes unrelated) (\<lambda>(state, journal).
        if state \<le> int maxHistoryStateBytes \<and> journal \<le> int maxScaleJournalBytes then Inr ()
        else
          let (oldState, oldJournal) =
            (case decodeHistory lib (dataAt previous configMapDataKey) of Inl _ \<Rightarrow> (0, 0)
             | Inr old \<Rightarrow> (case EncodeHistory lib old of Inl _ \<Rightarrow> (0, 0)
               | Inr encoded \<Rightarrow> (case historyBudgetParts lib old (int (length encoded)) unrelated of
                   Inl _ \<Rightarrow> (0, 0) | Inr parts \<Rightarrow> parts))) in
          if state > int maxHistoryStateBytes \<and> state > oldState
          then Inl ''history state and unrelated ConfigMap data exceed budget''
          else if journal > int maxScaleJournalBytes \<and> journal > oldJournal
          then Inl ''pending scale journal exceeds budget''
          else Inr ()))"

section \<open>The store of a single ConfigMap\<close>

record allocatedRevision =
  re_root :: ConfigMap
  re_manifest :: "Manifest option"
  re_stateDigest :: string

record HistorySnapshot =
  sh_data :: HPAPlusData
  sh_revision :: allocatedRevision
  sh_unrelatedBytes :: int
  sh_stateBytes :: int
  sh_journalBytes :: int
  sh_stateBudgetBytes :: int
  sh_journalBudgetBytes :: int

definition historyRootKey :: "HPAPlus \<Rightarrow> key" where
  "historyRootKey owner = (h_namespace owner, ''hpa-plus-'' @ h_name owner @ ''-data'')"

definition emptyHistory :: HPAPlusData where
  "emptyHistory = \<lparr>d_cpuHistorySource = '''', d_schemaVersion = 0, d_targetIdentity = '''',
     d_modelHistories = Map.empty, d_pendingScale = None\<rparr>"

definition updateConfigMapData :: "StoreLibrary \<Rightarrow> ConfigMap \<Rightarrow> HPAPlusData \<Rightarrow> unit call" where
  "updateConfigMapData lib configMap data =
     proceed (lift_result (EncodeHistory lib data)) (\<lambda>newData.
       if cm_data configMap \<noteq> None \<and> dataAt configMap configMapDataKey = newData then Done (Inr ())
       else
         let updated = configMap\<lparr>cm_data := Some (put configMapDataKey newData (opt_default [] (cm_data configMap)))\<rparr> in
         if configMapDataBytes updated > int MaxDataBytes then Done (Inl (Failure ''history ConfigMap data exceeds limit''))
         else proceed (lift_result (checkHistoryBudget lib configMap data (int (length newData)))) (\<lambda>_.
           proceed (mapCall (UpdateMap updated)) (\<lambda>_. Done (Inr ()))))"

definition initialMap :: "HPAPlus \<Rightarrow> string \<Rightarrow> ConfigMap" where
  "initialMap owner payload =
     \<lparr>cm_namespace = h_namespace owner, cm_name = snd (historyRootKey owner), cm_uid = '''', cm_resourceVersion = '''',
      cm_owners = [\<lparr>or_apiVersion = GroupVersion, or_kind = ''HPAPlus'', or_name = h_name owner, or_uid = h_uid owner\<rparr>],
      cm_labels = Map.empty, cm_annotations = Map.empty, cm_immutable = None,
      cm_data = Some [(configMapDataKey, payload)], cm_binaryData = []\<rparr>"

definition readConfigMap :: "StoreLibrary \<Rightarrow> HPAPlus \<Rightarrow> ConfigMap \<Rightarrow> (ConfigMap \<times> HPAPlusData) result" where
  "readConfigMap lib owner configMap =
     (if \<not> list_ex (\<lambda>ref. or_kind ref = ''HPAPlus'' \<and> or_apiVersion ref = GroupVersion \<and> or_uid ref = h_uid owner \<and>
          or_name ref = h_name owner) (cm_owners configMap)
      then Inl ''history ConfigMap is not owned by this HPAPlus instance''
      else if dataAt configMap configMapDataKey = '''' then Inr (configMap, emptyHistory)
      else rbind (decodeHistory lib (dataAt configMap configMapDataKey)) (\<lambda>data. Inr (configMap, data)))"

definition getOrCreateConfigMapData :: "StoreLibrary \<Rightarrow> HPAPlus \<Rightarrow> (ConfigMap \<times> HPAPlusData) call" where
  "getOrCreateConfigMapData lib owner =
     prog_bind (mapCall (GetMap (historyRootKey owner))) (\<lambda>found.
       case found of
         Inr configMap \<Rightarrow> lift_result (readConfigMap lib owner configMap)
       | Inl e \<Rightarrow>
         if e \<noteq> NotFound then Done (Inl e)
         else proceed (lift_result (EncodeHistory lib emptyHistory)) (\<lambda>payload.
           prog_bind (mapCall (CreateMap (initialMap owner payload))) (\<lambda>created.
             case created of
               Inr configMap \<Rightarrow> Done (Inr (configMap, emptyHistory\<lparr>d_schemaVersion := 1\<rparr>))
             | Inl e \<Rightarrow>
               if e \<noteq> Failure ''AlreadyExists'' then Done (Inl e)
               else proceed (mapCall (GetMap (historyRootKey owner))) (\<lambda>configMap.
                 lift_result (readConfigMap lib owner configMap)))))"

definition configMapSnapshot :: "StoreLibrary \<Rightarrow> ConfigMap \<Rightarrow> HPAPlusData \<Rightarrow> HistorySnapshot result" where
  "configMapSnapshot lib cm data =
     rbind (EncodeHistory lib data) (\<lambda>encoded.
       let extra = configMapDataBytes cm - int (length (dataAt cm configMapDataKey)) in
       rbind (historyBudgetParts lib data (int (length encoded)) extra) (\<lambda>(state, journal).
         Inr \<lparr>sh_data = data, sh_revision = \<lparr>re_root = cm, re_manifest = None, re_stateDigest = ''''\<rparr>,
              sh_unrelatedBytes = extra, sh_stateBytes = state, sh_journalBytes = journal,
              sh_stateBudgetBytes = int maxHistoryStateBytes, sh_journalBudgetBytes = int maxScaleJournalBytes\<rparr>))"

definition legacyLoad :: "StoreLibrary \<Rightarrow> HPAPlus \<Rightarrow> HistorySnapshot call" where
  "legacyLoad lib owner =
     proceed (getOrCreateConfigMapData lib owner) (\<lambda>(cm, data). lift_result (configMapSnapshot lib cm data))"

definition legacyCommit :: "StoreLibrary \<Rightarrow> ConfigMap \<Rightarrow> HPAPlusData \<Rightarrow> unit call" where
  "legacyCommit lib cm data = proceed (outcomeCall CheckPublication) (\<lambda>_. updateConfigMapData lib cm data)"

section \<open>Reading an allocated history\<close>

definition chunkOk :: "StoreLibrary \<Rightarrow> HPAPlus \<Rightarrow> ConfigMap \<Rightarrow> ChunkReference \<Rightarrow> ConfigMap \<Rightarrow> bool" where
  "chunkOk lib owner rootMap ref chunk \<longleftrightarrow>
     (let bytes = opt_default '''' (map_of (cm_binaryData chunk) ''state'') in
      OwnedConfigMap chunk owner \<and> opt_default '''' (cm_labels chunk RootLabel) = cm_uid rootMap \<and>
      cm_uid chunk = ch_uid ref \<and> cm_immutable chunk = Some True \<and> int (length bytes) = ch_bytes ref \<and>
      sl_digest lib bytes = ch_digest ref)"

abbreviation chunkMismatch :: ioerror where "chunkMismatch \<equiv> Failure ''history chunk identity/content mismatch''"

fun readChunks :: "StoreLibrary \<Rightarrow> HPAPlus \<Rightarrow> ConfigMap \<Rightarrow> ChunkReference list \<Rightarrow> string \<Rightarrow> string call" where
  "readChunks lib owner rootMap [] state = Done (Inr state)"
| "readChunks lib owner rootMap (ref # refs) state =
     proceed (mapCall (GetMap (cm_namespace rootMap, ch_name ref))) (\<lambda>chunk.
       if \<not> chunkOk lib owner rootMap ref chunk then Done (Inl chunkMismatch)
       else readChunks lib owner rootMap refs (state @ opt_default '''' (map_of (cm_binaryData chunk) ''state'')))"

definition allocated :: "HistorySnapshot \<Rightarrow> HistorySnapshot" where
  "allocated snapshot = snapshot\<lparr>sh_stateBudgetBytes := int MaxAllocatedBytes\<rparr>"

definition readInline :: "StoreLibrary \<Rightarrow> ConfigMap \<Rightarrow> HistorySnapshot result" where
  "readInline lib rootMap =
     rbind (if dataAt rootMap configMapDataKey = '''' then Inr emptyHistory else decodeHistory lib (dataAt rootMap configMapDataKey))
       (\<lambda>data. rbind (configMapSnapshot lib rootMap data) (\<lambda>snapshot. Inr (allocated snapshot)))"

definition manifestSnapshot :: "StoreLibrary \<Rightarrow> ConfigMap \<Rightarrow> Manifest \<Rightarrow> string \<Rightarrow> HistorySnapshot result" where
  "manifestSnapshot lib rootMap manifest state =
     rbind (DecodeBounded lib state MaxAllocatedBytes) (\<lambda>data0.
       if d_pendingScale data0 \<noteq> None then Inl ''state chunks contain a competing scale journal''
       else
         let data = data0\<lparr>d_pendingScale := mn_pendingScale manifest\<rparr>;
             extra = configMapDataBytes rootMap - int (length (dataAt rootMap configMapDataKey)) in
         rbind (journalSize lib data) (\<lambda>journal.
           Inr \<lparr>sh_data = data,
                sh_revision = \<lparr>re_root = rootMap, re_manifest = Some manifest, re_stateDigest = sl_digest lib state\<rparr>,
                sh_unrelatedBytes = extra, sh_stateBytes = int (length state) + extra, sh_journalBytes = journal,
                sh_stateBudgetBytes = int MaxAllocatedBytes, sh_journalBudgetBytes = int maxScaleJournalBytes\<rparr>))"

definition readRoot :: "StoreLibrary \<Rightarrow> HPAPlus \<Rightarrow> ConfigMap \<Rightarrow> HistorySnapshot call" where
  "readRoot lib owner rootMap =
     (if \<not> OwnedConfigMap rootMap owner then Done (Inl (Failure ''history root is owned by another resource''))
      else if configMapDataBytes rootMap > int MaxDataBytes then Done (Inl (Failure ''history root exceeds ConfigMap limit''))
      else if \<not> is_ok (sl_schema lib (dataAt rootMap configMapDataKey)) \<and> dataAt rootMap configMapDataKey \<noteq> ''''
      then Done (Inl (Failure ''invalid history header''))
      else if sl_schema lib (dataAt rootMap configMapDataKey) \<noteq> Inr 2 then lift_result (readInline lib rootMap)
      else proceed (lift_result (DecodeManifest lib (dataAt rootMap configMapDataKey) rootMap)) (\<lambda>manifest.
        proceed (readChunks lib owner rootMap (mn_chunks manifest) '''') (\<lambda>state.
          lift_result (manifestSnapshot lib rootMap manifest state))))"

text \<open>One attempt returns the snapshot, or the error with the root it was read from.\<close>

definition loadOnce :: "StoreLibrary \<Rightarrow> HPAPlus \<Rightarrow> (request, reply, (ioerror \<times> ConfigMap option) + HistorySnapshot) prog" where
  "loadOnce lib owner =
     prog_bind (mapCall (GetMap (historyRootKey owner))) (\<lambda>found.
       case found of
         Inl e \<Rightarrow>
           if e \<noteq> NotFound then Done (Inl (e, None))
           else prog_bind (legacyLoad lib owner) (\<lambda>r. case r of
             Inl e \<Rightarrow> Done (Inl (e, None)) | Inr snapshot \<Rightarrow> Done (Inr (allocated snapshot)))
       | Inr rootMap \<Rightarrow> prog_bind (readRoot lib owner rootMap) (\<lambda>r. case r of
             Inl e \<Rightarrow> Done (Inl (e, Some rootMap)) | Inr snapshot \<Rightarrow> Done (Inr snapshot)))"

fun loadAttempts :: "nat \<Rightarrow> StoreLibrary \<Rightarrow> HPAPlus \<Rightarrow> HistorySnapshot call" where
  "loadAttempts 0 lib owner = Done (Inl (Failure ''history changed repeatedly while reading''))"
| "loadAttempts (Suc n) lib owner =
     prog_bind (loadOnce lib owner) (\<lambda>r. case r of
       Inr snapshot \<Rightarrow> Done (Inr snapshot)
     | Inl (e, None) \<Rightarrow> Done (Inl e)
     | Inl (e, Some rootMap) \<Rightarrow> prog_bind (mapCall (GetMap (historyRootKey owner))) (\<lambda>latest. case latest of
           Inl _ \<Rightarrow> Done (Inl e)
         | Inr now \<Rightarrow>
             if cm_uid now \<noteq> cm_uid rootMap \<or> cm_resourceVersion now \<noteq> cm_resourceVersion rootMap
             then loadAttempts n lib owner else Done (Inl e)))"

definition LoadStored :: "StoreLibrary \<Rightarrow> HPAPlus \<Rightarrow> HistorySnapshot call" where
  "LoadStored lib owner = loadAttempts 5 lib owner"

section \<open>Writing an allocated history\<close>

definition sameOwners :: "ConfigMap \<Rightarrow> ConfigMap \<Rightarrow> bool" where
  "sameOwners rootMap chunk \<longleftrightarrow>
     list_ex (\<lambda>a. list_ex (\<lambda>b. or_kind a = ''HPAPlus'' \<and> or_apiVersion a = GroupVersion \<and> or_uid a \<noteq> '''' \<and>
       or_uid a = or_uid b \<and> or_name a = or_name b \<and> or_kind a = or_kind b \<and> or_apiVersion a = or_apiVersion b)
       (cm_owners chunk)) (cm_owners rootMap)"

definition reclaimable :: "StoreLibrary \<Rightarrow> ConfigMap \<Rightarrow> string set \<Rightarrow> nat \<Rightarrow> ConfigMap \<Rightarrow> bool" where
  "reclaimable lib rootMap keep fence chunk \<longleftrightarrow>
     (case FenceOf chunk of Inl _ \<Rightarrow> False
      | Inr generation \<Rightarrow> generation < fence \<and> cm_name chunk \<notin> keep \<and>
          take (length (ChunkPrefix lib rootMap)) (cm_name chunk) = ChunkPrefix lib rootMap \<and> sameOwners rootMap chunk)"

fun deleteChunks :: "(ConfigMap \<Rightarrow> bool) \<Rightarrow> ConfigMap list \<Rightarrow> unit call" where
  "deleteChunks reclaim [] = Done (Inr ())"
| "deleteChunks reclaim (chunk # chunks) =
     (if \<not> reclaim chunk then deleteChunks reclaim chunks
      else prog_bind (outcomeCall (DeleteMap chunk)) (\<lambda>r. case r of
        Inl e \<Rightarrow> if e = NotFound then deleteChunks reclaim chunks else Done (Inl e)
      | Inr _ \<Rightarrow> deleteChunks reclaim chunks))"

text \<open>The loop over the pages of the list, with a bound on their number.\<close>

fun cleanupPages :: "nat \<Rightarrow> ConfigMap \<Rightarrow> (ConfigMap \<Rightarrow> bool) \<Rightarrow> string \<Rightarrow> unit call" where
  "cleanupPages 0 rootMap reclaim continuation = Done (Inl (Failure ''more pages than modelled''))"
| "cleanupPages (Suc n) rootMap reclaim continuation =
     proceed (pageCall (cm_namespace rootMap) (cm_uid rootMap) continuation) (\<lambda>(items, next_page).
       proceed (deleteChunks reclaim items) (\<lambda>_.
         if next_page = '''' then Done (Inr ()) else cleanupPages n rootMap reclaim next_page))"

definition cleanup :: "StoreLibrary \<Rightarrow> nat \<Rightarrow> ConfigMap \<Rightarrow> Manifest option \<Rightarrow> nat \<Rightarrow> unit call" where
  "cleanup lib pages rootMap manifest fence =
     (let keep = (case manifest of None \<Rightarrow> {} | Some m \<Rightarrow> ch_name ` set (mn_chunks m))
      in cleanupPages pages rootMap (reclaimable lib rootMap keep fence) '''')"

function chunksOf :: "nat \<Rightarrow> string \<Rightarrow> string list" where
  "chunksOf n s = (if s = '''' \<or> n = 0 then [] else take n s # chunksOf n (drop n s))"
  by auto
termination
  by (relation "measure (length \<circ> snd)") auto

declare chunksOf.simps [simp del]

definition chunkMap :: "StoreLibrary \<Rightarrow> ConfigMap \<Rightarrow> nat \<Rightarrow> string \<Rightarrow> nat \<Rightarrow> string \<Rightarrow> ConfigMap" where
  "chunkMap lib rootMap fence transaction index bytes =
     \<lparr>cm_namespace = cm_namespace rootMap,
      cm_name = ChunkPrefix lib rootMap @ transaction @ ''-'' @ append_int (int index) 2,
      cm_uid = '''', cm_resourceVersion = '''', cm_owners = cm_owners rootMap,
      cm_labels = [RootLabel \<mapsto> cm_uid rootMap], cm_annotations = [FenceKey \<mapsto> formatUint fence],
      cm_immutable = Some True, cm_data = None, cm_binaryData = [(''state'', bytes)]\<rparr>"

definition chunkReference :: "StoreLibrary \<Rightarrow> string \<Rightarrow> ConfigMap \<Rightarrow> ChunkReference" where
  "chunkReference lib bytes chunk =
     \<lparr>ch_name = cm_name chunk, ch_uid = cm_uid chunk, ch_digest = sl_digest lib bytes, ch_bytes = int (length bytes)\<rparr>"

fun stageChunks :: "StoreLibrary \<Rightarrow> ConfigMap \<Rightarrow> nat \<Rightarrow> string \<Rightarrow> string list \<Rightarrow> ChunkReference list \<Rightarrow>
    ChunkReference list call" where
  "stageChunks lib rootMap fence transaction [] staged = Done (Inr staged)"
| "stageChunks lib rootMap fence transaction (bytes # parts) staged =
     proceed (mapCall (CreateMap (chunkMap lib rootMap fence transaction (length staged) bytes))) (\<lambda>chunk.
       if cm_uid chunk = '''' then Done (Inl (Failure ''created history chunk has no UID''))
       else stageChunks lib rootMap fence transaction parts (staged @ [chunkReference lib bytes chunk]))"

definition stageState :: "StoreLibrary \<Rightarrow> allocatedRevision \<Rightarrow> ConfigMap \<Rightarrow> nat \<Rightarrow> string \<Rightarrow> ChunkReference list call" where
  "stageState lib revision rootMap fence encoded =
     (case re_manifest revision of
        Some m \<Rightarrow>
          if re_stateDigest revision = sl_digest lib encoded then Done (Inr (mn_chunks m))
          else proceed newTransaction (\<lambda>transaction. stageChunks lib rootMap fence transaction (chunksOf ChunkBytes encoded) [])
      | None \<Rightarrow> proceed newTransaction (\<lambda>transaction. stageChunks lib rootMap fence transaction (chunksOf ChunkBytes encoded) []))"

definition publish :: "StoreLibrary \<Rightarrow> nat \<Rightarrow> ConfigMap \<Rightarrow> nat \<Rightarrow> Manifest \<Rightarrow> unit call" where
  "publish lib pages rootMap fence manifest =
     proceed (lift_result (sl_marshalManifest lib manifest)) (\<lambda>raw.
       case cm_data rootMap of
         None \<Rightarrow> Done (Inl (Failure ''panic: assignment to entry in nil map''))
       | Some kvs \<Rightarrow>
         let published = rootMap\<lparr>cm_data := Some (put configMapDataKey raw kvs)\<rparr> in
         if configMapDataBytes published > int MaxDataBytes
         then Done (Inl (Failure ''history root metadata and journal exceed ConfigMap limit''))
         else proceed (outcomeCall CheckPublication) (\<lambda>_.
           proceed (mapCall (UpdateMap published)) (\<lambda>current.
             prog_bind (cleanup lib pages current (Some manifest) fence) (\<lambda>_. Done (Inr ())))))"

definition advanceFence :: "ConfigMap \<Rightarrow> nat \<Rightarrow> ConfigMap" where
  "advanceFence rootMap fence = rootMap\<lparr>cm_annotations := (cm_annotations rootMap)(FenceKey \<mapsto> formatUint fence)\<rparr>"

definition CommitStored :: "StoreLibrary \<Rightarrow> nat \<Rightarrow> HistorySnapshot \<Rightarrow> HPAPlusData \<Rightarrow> unit call" where
  "CommitStored lib pages snapshot data =
     (let revision = sh_revision snapshot; rootMap = re_root revision in
      proceed (lift_result (EncodeHistory lib (data\<lparr>d_pendingScale := None\<rparr>))) (\<lambda>encoded.
      proceed (lift_result (journalSize lib data)) (\<lambda>journal.
        let state = int (length encoded) + (configMapDataBytes rootMap - int (length (dataAt rootMap configMapDataKey))) in
        if state > int MaxAllocatedBytes \<or> journal > int maxScaleJournalBytes \<and> journal > sh_journalBytes snapshot
        then Done (Inl (Failure ''allocated history exceeds state or journal budget; no samples were evicted''))
        else if re_manifest revision = None \<and> state \<le> int maxHistoryStateBytes \<and> journal \<le> int maxScaleJournalBytes
        then legacyCommit lib rootMap data
        else if cm_uid rootMap = '''' then Done (Inl (Failure ''history allocation requires a root UID''))
        else proceed (lift_result (FenceOf rootMap)) (\<lambda>fence0.
          let fence = fence0 + 1 in
          proceed (mapCall (UpdateMap (advanceFence rootMap fence))) (\<lambda>fenced.
          proceed (cleanup lib pages fenced (re_manifest revision) fence) (\<lambda>_.
          proceed (stageState lib revision fenced fence encoded) (\<lambda>chunks.
            publish lib pages fenced fence
              \<lparr>mn_schemaVersion = 2, mn_chunks = chunks, mn_pendingScale = d_pendingScale data\<rparr>)))))))"

text \<open>A mutation of the stored history: load, compute, commit. It is what \<open>mutateHistoryChecked\<close> does per attempt.\<close>

definition storeUpdate :: "StoreLibrary \<Rightarrow> nat \<Rightarrow> HPAPlus \<Rightarrow> (HistorySnapshot \<Rightarrow> HPAPlusData) \<Rightarrow> unit call" where
  "storeUpdate lib pages owner f = proceed (LoadStored lib owner) (\<lambda>snapshot. CommitStored lib pages snapshot (f snapshot))"

section \<open>The API server\<close>

text \<open>
  The documented contract of the API server for ConfigMaps, as far as the code rests on it: reads return
  the current object; a create or an update stores a version that was never used before; an update takes
  effect only on the version it names (and one that changes nothing stores nothing); a delete with
  preconditions removes only the version it names; a list shows versions that existed with the label. Any
  call may fail (with an error that is not one of the store's own), and any write may take effect although
  its answer is an error. \<open>sv_history\<close> holds every version ever stored.
\<close>

record server =
  sv_objects :: "key \<rightharpoonup> ConfigMap"
  sv_history :: "ConfigMap set"

definition mapKey :: "ConfigMap \<Rightarrow> key" where
  "mapKey c = (cm_namespace c, cm_name c)"

definition freshVersion :: "server \<Rightarrow> string \<Rightarrow> bool" where
  "freshVersion s v \<longleftrightarrow> v \<noteq> '''' \<and> (\<forall>c \<in> sv_history s. cm_resourceVersion c \<noteq> v)"

definition freshUid :: "server \<Rightarrow> string \<Rightarrow> bool" where
  "freshUid s u \<longleftrightarrow> u \<noteq> '''' \<and> (\<forall>c \<in> sv_history s. cm_uid c \<noteq> u)"

definition stored :: "server \<Rightarrow> ConfigMap \<Rightarrow> server" where
  "stored s c = \<lparr>sv_objects = (sv_objects s)(mapKey c \<mapsto> c), sv_history = insert c (sv_history s)\<rparr>"

definition removed :: "key \<Rightarrow> server \<Rightarrow> server" where
  "removed k s = s\<lparr>sv_objects := (sv_objects s)(k := None)\<rparr>"

inductive serves :: "server \<Rightarrow> request \<Rightarrow> reply \<Rightarrow> server \<Rightarrow> bool" where
  get_found: "sv_objects s k = Some c \<Longrightarrow> serves s (GetMap k) (MapReply (Inr c)) s"
| get_missing: "sv_objects s k = None \<Longrightarrow> serves s (GetMap k) (MapReply (Inl NotFound)) s"
| get_fails: "e \<noteq> NotFound \<Longrightarrow> e \<noteq> chunkMismatch \<Longrightarrow> serves s (GetMap k) (MapReply (Inl e)) s"
| listed: "(\<And>c. c \<in> set cs \<Longrightarrow> c \<in> sv_history s \<and> cm_namespace c = namespace \<and> cm_labels c RootLabel = Some l) \<Longrightarrow>
    serves s (ListMaps namespace l continuation) (PageReply (Inr (cs, next_page))) s"
| list_fails: "serves s (ListMaps namespace l continuation) (PageReply (Inl e)) s"
| created: "sv_objects s (mapKey c) = None \<Longrightarrow> freshUid s u \<Longrightarrow> freshVersion s v \<Longrightarrow>
    c' = c\<lparr>cm_uid := u, cm_resourceVersion := v\<rparr> \<Longrightarrow> r = Inr c' \<or> r = Inl e \<Longrightarrow>
    serves s (CreateMap c) (MapReply r) (stored s c')"
| create_fails: "serves s (CreateMap c) (MapReply (Inl e)) s"
| updated: "sv_objects s (mapKey c) = Some a \<Longrightarrow> cm_resourceVersion c \<in> {'''', cm_resourceVersion a} \<Longrightarrow>
    cm_uid c \<in> {'''', cm_uid a} \<Longrightarrow> freshVersion s v \<Longrightarrow> c' = c\<lparr>cm_uid := cm_uid a, cm_resourceVersion := v\<rparr> \<Longrightarrow>
    r = Inr c' \<or> r = Inl e \<Longrightarrow> serves s (UpdateMap c) (MapReply r) (stored s c')"
| update_noop: "sv_objects s (mapKey c) = Some a \<Longrightarrow> cm_resourceVersion c \<in> {'''', cm_resourceVersion a} \<Longrightarrow>
    c\<lparr>cm_uid := cm_uid a, cm_resourceVersion := cm_resourceVersion a\<rparr> = a \<Longrightarrow>
    serves s (UpdateMap c) (MapReply (Inr a)) s"
| update_fails: "serves s (UpdateMap c) (MapReply (Inl e)) s"
| deleted: "sv_objects s (mapKey c) = Some a \<Longrightarrow> cm_uid a = cm_uid c \<Longrightarrow> cm_resourceVersion a = cm_resourceVersion c \<Longrightarrow>
    serves s (DeleteMap c) (Outcome answer) (removed (mapKey c) s)"
| delete_fails: "serves s (DeleteMap c) (Outcome (Some e)) s"
| checked: "serves s CheckPublication (Outcome answer) s"
| transaction: "serves s NewTransaction (Transaction t) s"

inductive_cases serves_GetMapE: "serves s (GetMap k) r s'"
inductive_cases serves_ListMapsE: "serves s (ListMaps n l c) r s'"
inductive_cases serves_CreateMapE: "serves s (CreateMap c) r s'"
inductive_cases serves_UpdateMapE: "serves s (UpdateMap c) r s'"
inductive_cases serves_DeleteMapE: "serves s (DeleteMap c) r s'"
inductive_cases serves_CheckPublicationE: "serves s CheckPublication r s'"
inductive_cases serves_NewTransactionE: "serves s NewTransaction r s'"

section \<open>The protocol\<close>

text \<open>
  What the marshalled JSON tells: the schema version of a payload, and the chunk list of a manifest.
\<close>

definition jsonFaithful :: "StoreLibrary \<Rightarrow> bool" where
  "jsonFaithful lib \<longleftrightarrow>
     (\<forall>data payload. sl_marshalData lib data = Inr payload \<longrightarrow>
        payload \<noteq> '''' \<and> sl_schema lib payload = Inr (d_schemaVersion data)) \<and>
     (\<forall>m payload. sl_marshalManifest lib m = Inr payload \<longrightarrow> sl_schema lib payload = Inr (mn_schemaVersion m) \<and>
        (\<exists>m'. sl_unmarshalManifest lib payload = Inr m' \<and> mn_chunks m' = mn_chunks m)) \<and>
     (\<forall>payload data. sl_unmarshalData lib (sl_trimSpace lib payload) = Inr data \<longrightarrow>
        sl_schema lib payload = Inr (d_schemaVersion data)) \<and>
     sl_schema lib '''' \<noteq> Inr 2"

text \<open>The chunks a root lists, the generation of an object, and the presence of a chunk.\<close>

definition rootChunks :: "StoreLibrary \<Rightarrow> ConfigMap \<Rightarrow> ChunkReference list" where
  "rootChunks lib rootMap =
     (if sl_schema lib (dataAt rootMap configMapDataKey) = Inr 2
      then (case sl_unmarshalManifest lib (dataAt rootMap configMapDataKey) of Inr m \<Rightarrow> mn_chunks m | Inl _ \<Rightarrow> [])
      else [])"

definition fenceAt :: "ConfigMap \<Rightarrow> nat" where
  "fenceAt c = (case FenceOf c of Inl _ \<Rightarrow> MaxFence | Inr f \<Rightarrow> f)"

definition holdsChunk :: "StoreLibrary \<Rightarrow> ConfigMap \<Rightarrow> ChunkReference \<Rightarrow> ConfigMap \<Rightarrow> bool" where
  "holdsChunk lib rootMap ref c \<longleftrightarrow>
     (let bytes = opt_default '''' (map_of (cm_binaryData c) ''state'') in
      cm_owners c = cm_owners rootMap \<and> cm_namespace c = cm_namespace rootMap \<and>
      cm_labels c RootLabel = Some (cm_uid rootMap) \<and> cm_uid c = ch_uid ref \<and> cm_immutable c = Some True \<and>
      int (length bytes) = ch_bytes ref \<and> sl_digest lib bytes = ch_digest ref)"

definition chunkAt :: "server \<Rightarrow> ConfigMap \<Rightarrow> ChunkReference \<Rightarrow> ConfigMap option" where
  "chunkAt s rootMap ref = sv_objects s (cm_namespace rootMap, ch_name ref)"

definition presentChunk :: "StoreLibrary \<Rightarrow> server \<Rightarrow> ConfigMap \<Rightarrow> ChunkReference \<Rightarrow> bool" where
  "presentChunk lib s rootMap ref \<longleftrightarrow>
     (case chunkAt s rootMap ref of None \<Rightarrow> False | Some c \<Rightarrow> holdsChunk lib rootMap ref c)"

text \<open>The invariant: versions identify objects, chunks are never rewritten, and the root is complete.\<close>

definition versionsUnique :: "key \<Rightarrow> server \<Rightarrow> bool" where
  "versionsUnique K s \<longleftrightarrow>
     (\<forall>k c. sv_objects s k = Some c \<longrightarrow> c \<in> sv_history s \<and> mapKey c = k) \<and>
     (\<forall>c \<in> sv_history s. cm_uid c \<noteq> '''' \<and> cm_resourceVersion c \<noteq> '''') \<and>
     (\<forall>c \<in> sv_history s. \<forall>c' \<in> sv_history s. cm_resourceVersion c = cm_resourceVersion c' \<longrightarrow> c = c') \<and>
     (\<forall>c \<in> sv_history s. \<forall>c' \<in> sv_history s. cm_uid c = cm_uid c' \<longrightarrow> mapKey c = mapKey c' \<and> (mapKey c \<noteq> K \<longrightarrow> c = c'))"

definition rootComplete :: "StoreLibrary \<Rightarrow> key \<Rightarrow> server \<Rightarrow> bool" where
  "rootComplete lib K s \<longleftrightarrow>
     (\<forall>a. sv_objects s K = Some a \<longrightarrow> (\<forall>ref \<in> set (rootChunks lib a). presentChunk lib s a ref \<and> (cm_namespace a, ch_name ref) \<noteq> K))"

definition storeInv :: "StoreLibrary \<Rightarrow> key \<Rightarrow> server \<Rightarrow> bool" where
  "storeInv lib K s \<longleftrightarrow> jsonFaithful lib \<and> versionsUnique K s \<and> rootComplete lib K s"

text \<open>A root may only be followed by a root with the same owners, no smaller fence, and no old chunk but its own.\<close>

definition rootFollows :: "StoreLibrary \<Rightarrow> server \<Rightarrow> ConfigMap \<Rightarrow> ConfigMap \<Rightarrow> bool" where
  "rootFollows lib s' a b \<longleftrightarrow> cm_owners b = cm_owners a \<and> fenceAt a \<le> fenceAt b \<and>
     (\<forall>ref \<in> set (rootChunks lib b). ref \<in> set (rootChunks lib a) \<or>
        (\<exists>c. chunkAt s' b ref = Some c \<and> fenceAt a \<le> fenceAt c))"

definition rootStep :: "StoreLibrary \<Rightarrow> key \<Rightarrow> server \<Rightarrow> server \<Rightarrow> bool" where
  "rootStep lib K s s' \<longleftrightarrow>
     (case sv_objects s' K of None \<Rightarrow> True
      | Some b \<Rightarrow> sv_objects s K = Some b \<or>
         freshVersion s (cm_resourceVersion b) \<and>
         (case sv_objects s K of
            Some a \<Rightarrow> if cm_uid a = cm_uid b then rootFollows lib s' a b else freshUid s (cm_uid b)
          | None \<Rightarrow> freshUid s (cm_uid b)))"

text \<open>A chunk may only go when the current root has a later fence and does not list it.\<close>

definition chunkStep :: "StoreLibrary \<Rightarrow> key \<Rightarrow> server \<Rightarrow> server \<Rightarrow> key \<Rightarrow> bool" where
  "chunkStep lib K s s' k \<longleftrightarrow>
     (case sv_objects s k of
        None \<Rightarrow> True
      | Some c \<Rightarrow> sv_objects s' k = Some c \<or>
          sv_objects s' k = None \<and>
          (\<forall>a. sv_objects s K = Some a \<longrightarrow> cm_labels c RootLabel = Some (cm_uid a) \<longrightarrow>
             fenceAt c < fenceAt a \<and> (\<forall>ref \<in> set (rootChunks lib a). ch_name ref \<noteq> snd k)))"

definition storeProtocol :: "StoreLibrary \<Rightarrow> key \<Rightarrow> server \<Rightarrow> server \<Rightarrow> bool" where
  "storeProtocol lib K s s' \<longleftrightarrow> storeInv lib K s \<and> storeInv lib K s' \<and> sv_history s \<subseteq> sv_history s' \<and>
     rootStep lib K s s' \<and> (\<forall>k. k \<noteq> K \<longrightarrow> chunkStep lib K s s' k)"

section \<open>Helper facts\<close>

lemma map_of_put [simp]: "map_of (put k v kvs) k = Some v"
  by (induction kvs rule: put.induct) auto

lemma dataAt_put [simp]: "dataAt (c\<lparr>cm_data := Some (put k v kvs)\<rparr>) k = v"
  by (simp add: dataAt_def)

lemma formatUint_nonempty [simp]: "formatUint n \<noteq> ''''"
proof -
  have "length (formatUint n) = max 1 (num_digits n)" by (simp add: formatUint_def append_int_def)
  then show ?thesis by fastforce
qed

lemma parse_formatUint: "n \<le> MaxFence \<Longrightarrow> parseUint (formatUint n) = Some n"
proof -
  assume n: "n \<le> MaxFence"
  let ?k = "max 1 (num_digits n)"
  have eq: "formatUint n = dec_digits ?k (int n)" by (simp add: formatUint_def append_int_def)
  have "n < 10 ^ ?k"
  proof -
    have "n < 10 ^ num_digits n" for n
    proof (induction n rule: num_digits.induct)
      case (1 n)
      then show ?case by (subst num_digits.simps) (auto simp: div_less_iff_less_mult)
    qed
    then show ?thesis by (meson less_le_trans max.cobounded2 one_le_numeral power_increasing)
  qed
  then have "int n < 10 ^ ?k" by (metis of_nat_less_iff of_nat_numeral of_nat_power)
  then have "dec_value (formatUint n) = int n" unfolding eq by (intro dec_value_dec_digits) simp_all
  moreover have "list_all is_digit (formatUint n)"
    unfolding eq list_all_iff by (auto intro: dec_digits_all_digits [of "int n"])
  ultimately show ?thesis using n by (simp add: parseUint_def)
qed

lemma fenceAt_annotated:
  assumes "cm_annotations c FenceKey = Some (formatUint n)" "n \<le> MaxFence"
  shows "fenceAt c = n"
  using assms parse_formatUint by (simp add: fenceAt_def FenceOf_def Let_def)

lemma FenceOf_bound: "FenceOf c = Inr f \<Longrightarrow> f < MaxFence"
  by (auto simp: FenceOf_def parseUint_def Let_def split: if_splits option.splits)

lemma fenceAt_Inr [simp]: "FenceOf c = Inr f \<Longrightarrow> fenceAt c = f"
  by (simp add: fenceAt_def)

lemma rootChunks_data_cong: "dataAt b configMapDataKey = dataAt a configMapDataKey \<Longrightarrow> rootChunks lib b = rootChunks lib a"
  by (simp add: rootChunks_def)

lemma rootChunks_encoded:
  assumes "jsonFaithful lib" "EncodeHistory lib data = Inr p" "dataAt b configMapDataKey = p"
  shows "rootChunks lib b = []"
proof -
  have "sl_marshalData lib (data\<lparr>d_schemaVersion := 1\<rparr>) = Inr p" using assms(2) by (simp add: EncodeHistory_def split: if_splits)
  then have "sl_schema lib p = Inr 1" using assms(1) by (simp add: jsonFaithful_def)
  then show ?thesis using assms(3) by (simp add: rootChunks_def)
qed

lemma rootChunks_manifest:
  assumes "jsonFaithful lib" "sl_marshalManifest lib m = Inr p" "mn_schemaVersion m = 2" "dataAt b configMapDataKey = p"
  shows "rootChunks lib b = mn_chunks m"
  using assms by (fastforce simp: rootChunks_def jsonFaithful_def)

lemma chunkOk_if_holds: "holdsChunk lib rootMap ref c \<Longrightarrow> OwnedConfigMap rootMap owner \<Longrightarrow> chunkOk lib owner rootMap ref c"
  by (auto simp: holdsChunk_def chunkOk_def OwnedConfigMap_def Let_def)

section \<open>What the protocol keeps\<close>

lemma versionsUniqueD:
  assumes "versionsUnique K s"
  shows "sv_objects s k = Some c \<Longrightarrow> c \<in> sv_history s" "sv_objects s k = Some c \<Longrightarrow> mapKey c = k"
    "c \<in> sv_history s \<Longrightarrow> cm_uid c \<noteq> ''''" "c \<in> sv_history s \<Longrightarrow> cm_resourceVersion c \<noteq> ''''"
    "c \<in> sv_history s \<Longrightarrow> c' \<in> sv_history s \<Longrightarrow> cm_resourceVersion c = cm_resourceVersion c' \<Longrightarrow> c = c'"
    "c \<in> sv_history s \<Longrightarrow> c' \<in> sv_history s \<Longrightarrow> cm_uid c = cm_uid c' \<Longrightarrow> mapKey c = mapKey c'"
    "c \<in> sv_history s \<Longrightarrow> c' \<in> sv_history s \<Longrightarrow> cm_uid c = cm_uid c' \<Longrightarrow> mapKey c \<noteq> K \<Longrightarrow> c = c'"
  using assms unfolding versionsUnique_def by blast+

text \<open>A root that was current once and is current again has been current throughout.\<close>

lemma protocol_same_root:
  assumes "storeProtocol lib K s s'" "b \<in> sv_history s" "sv_objects s' K = Some b"
  shows "sv_objects s K = Some b"
  using assms by (auto simp: storeProtocol_def rootStep_def freshVersion_def)

text \<open>A chunk that is still listed by the current root is still the same object.\<close>

lemma protocol_keeps_listed:
  assumes "storeProtocol lib K s s'" "(n, ch_name ref) \<noteq> K" "sv_objects s (n, ch_name ref) = Some c"
    and "sv_objects s' (n, ch_name ref) \<noteq> None"
  shows "sv_objects s' (n, ch_name ref) = Some c"
proof -
  have "chunkStep lib K s s' (n, ch_name ref)" using assms(1,2) by (simp add: storeProtocol_def)
  then show ?thesis using assms(3,4) by (auto simp: chunkStep_def)
qed

definition knownRoot :: "ConfigMap \<Rightarrow> server \<Rightarrow> bool" where
  "knownRoot b s \<longleftrightarrow> b \<in> sv_history s"

lemma stable_knownRoot: "stable (storeProtocol lib K) (knownRoot b)"
  by (rule stableI) (auto simp: knownRoot_def storeProtocol_def)

text \<open>After a writer has advanced the fence to \<open>F\<close>: the root lists only chunks it keeps, or later ones.\<close>

definition fencedFrom :: "StoreLibrary \<Rightarrow> key \<Rightarrow> string \<Rightarrow> nat \<Rightarrow> string set \<Rightarrow> server \<Rightarrow> bool" where
  "fencedFrom lib K u F keep s \<longleftrightarrow> (\<exists>c \<in> sv_history s. cm_uid c = u) \<and>
     (\<forall>b. sv_objects s K = Some b \<longrightarrow> cm_uid b = u \<longrightarrow> F \<le> fenceAt b \<and>
        (\<forall>ref \<in> set (rootChunks lib b). ch_name ref \<in> keep \<or> (\<exists>c. chunkAt s b ref = Some c \<and> F \<le> fenceAt c)))"

lemma stable_fencedFrom: "stable (storeProtocol lib K) (fencedFrom lib K u F keep)"
proof (rule stableI)
  fix s s' assume f: "fencedFrom lib K u F keep s" and p: "storeProtocol lib K s s'"
  have inv: "storeInv lib K s" "storeInv lib K s'" and root_step: "rootStep lib K s s'"
    using p by (auto simp: storeProtocol_def)
  have known: "\<exists>c \<in> sv_history s'. cm_uid c = u" using f p by (auto simp: fencedFrom_def storeProtocol_def)
  have kept: "ch_name ref \<in> keep \<or> (\<exists>c. chunkAt s' b ref = Some c \<and> F \<le> fenceAt c)"
    if a: "sv_objects s K = Some a" "cm_uid a = u" "ref \<in> set (rootChunks lib a)"
      and b: "sv_objects s' K = Some b" "ref \<in> set (rootChunks lib b)" for a b ref
  proof (cases "ch_name ref \<in> keep")
    case False
    then obtain c where c: "chunkAt s a ref = Some c" "F \<le> fenceAt c" using f a by (auto simp: fencedFrom_def)
    have ns: "cm_namespace b = cm_namespace a"
      using versionsUniqueD(2) a(1) b(1) inv unfolding storeInv_def mapKey_def by (metis prod.inject)
    have "presentChunk lib s' b ref" "(cm_namespace b, ch_name ref) \<noteq> K"
      using inv(2) b by (auto simp: storeInv_def rootComplete_def)
    then have "chunkAt s' b ref = Some c"
      using protocol_keeps_listed [OF p, of "cm_namespace b" ref c] c(1) ns
      by (auto simp: chunkAt_def presentChunk_def split: option.splits)
    then show ?thesis using c(2) by blast
  qed simp
  have "F \<le> fenceAt b \<and> (\<forall>ref \<in> set (rootChunks lib b). ch_name ref \<in> keep \<or> (\<exists>c. chunkAt s' b ref = Some c \<and> F \<le> fenceAt c))"
    if b: "sv_objects s' K = Some b" "cm_uid b = u" for b
  proof (cases "sv_objects s K = Some b")
    case True
    then show ?thesis using f b kept by (auto simp: fencedFrom_def)
  next
    case False
    have "\<not> freshUid s u" using f by (auto simp: fencedFrom_def freshUid_def)
    then obtain a where a: "sv_objects s K = Some a" "cm_uid a = u" "rootFollows lib s' a b"
      using root_step b False by (auto simp: rootStep_def split: option.splits if_splits)
    then have "F \<le> fenceAt a" using f by (auto simp: fencedFrom_def)
    then show ?thesis using a kept b by (auto simp: rootFollows_def dest: le_trans) (meson le_trans)
  qed
  then show "fencedFrom lib K u F keep s'" using known by (simp add: fencedFrom_def)
qed

text \<open>While the root a writer has fenced is current, what the writer staged or reuses stays.\<close>

definition stagedOn :: "StoreLibrary \<Rightarrow> key \<Rightarrow> ConfigMap \<Rightarrow> ChunkReference list \<Rightarrow> server \<Rightarrow> bool" where
  "stagedOn lib K b refs s \<longleftrightarrow> b \<in> sv_history s \<and>
     (sv_objects s K = Some b \<longrightarrow> (\<forall>ref \<in> set refs. (cm_namespace b, ch_name ref) \<noteq> K \<and> presentChunk lib s b ref \<and>
        (ref \<in> set (rootChunks lib b) \<or> (\<exists>c. chunkAt s b ref = Some c \<and> fenceAt b \<le> fenceAt c))))"

lemma stable_stagedOn: "stable (storeProtocol lib K) (stagedOn lib K b refs)"
proof (rule stableI)
  fix s s' assume st: "stagedOn lib K b refs s" and p: "storeProtocol lib K s s'"
  have "(cm_namespace b, ch_name ref) \<noteq> K \<and> presentChunk lib s' b ref \<and>
      (ref \<in> set (rootChunks lib b) \<or> (\<exists>c. chunkAt s' b ref = Some c \<and> fenceAt b \<le> fenceAt c))"
    if b: "sv_objects s' K = Some b" and ref: "ref \<in> set refs" for ref
  proof -
    have cur: "sv_objects s K = Some b" using protocol_same_root [OF p] st b by (simp add: stagedOn_def)
    then have k: "(cm_namespace b, ch_name ref) \<noteq> K" and pr: "presentChunk lib s b ref"
      and alt: "ref \<in> set (rootChunks lib b) \<or> (\<exists>c. chunkAt s b ref = Some c \<and> fenceAt b \<le> fenceAt c)"
      using st ref by (auto simp: stagedOn_def)
    from pr obtain c where c: "chunkAt s b ref = Some c" "holdsChunk lib b ref c"
      by (auto simp: presentChunk_def split: option.splits)
    have "chunkStep lib K s s' (cm_namespace b, ch_name ref)" using p k by (simp add: storeProtocol_def)
    then have "chunkAt s' b ref = Some c"
      using c alt cur by (auto simp: chunkStep_def chunkAt_def holdsChunk_def Let_def)
    then show ?thesis using k c alt by (auto simp: presentChunk_def)
  qed
  then show "stagedOn lib K b refs s'" using st p by (auto simp: stagedOn_def storeProtocol_def)
qed

section \<open>Single calls keep to the protocol\<close>

lemma protocol_refl: "storeInv lib K s \<Longrightarrow> storeProtocol lib K s s"
  by (auto simp: storeProtocol_def rootStep_def chunkStep_def split: option.splits)

lemma storeProtocol_inv: "storeProtocol lib K s s' \<Longrightarrow> storeInv lib K s'"
  by (simp add: storeProtocol_def)

lemma stable_storeInv: "stable (storeProtocol lib K) (storeInv lib K)"
  by (rule stableI) (rule storeProtocol_inv)

lemma sv_stored [simp]: "sv_objects (stored s c) = (sv_objects s)(mapKey c \<mapsto> c)" "sv_history (stored s c) = insert c (sv_history s)"
  by (simp_all add: stored_def)

lemma sv_removed [simp]: "sv_objects (removed k s) = (sv_objects s)(k := None)" "sv_history (removed k s) = sv_history s"
  by (simp_all add: removed_def)

lemma versionsUnique_stored:
  assumes "versionsUnique K s" "freshVersion s (cm_resourceVersion c)" "cm_uid c \<noteq> ''''"
    and "\<And>c'. c' \<in> sv_history s \<Longrightarrow> cm_uid c' = cm_uid c \<Longrightarrow> mapKey c' = K \<and> mapKey c = K"
  shows "versionsUnique K (stored s c)"
  unfolding versionsUnique_def
proof (intro conjI)
  show "\<forall>k c'. sv_objects (stored s c) k = Some c' \<longrightarrow> c' \<in> sv_history (stored s c) \<and> mapKey c' = k"
    using versionsUniqueD(1,2) [OF assms(1)] by auto
  show "\<forall>c'\<in>sv_history (stored s c). cm_uid c' \<noteq> '''' \<and> cm_resourceVersion c' \<noteq> ''''"
    using versionsUniqueD(3,4) [OF assms(1)] assms(2,3) by (auto simp: freshVersion_def)
  show "\<forall>d\<in>sv_history (stored s c). \<forall>d'\<in>sv_history (stored s c). cm_resourceVersion d = cm_resourceVersion d' \<longrightarrow> d = d'"
    using versionsUniqueD(5) [OF assms(1)] assms(2) by (auto simp: freshVersion_def)
  show "\<forall>d\<in>sv_history (stored s c). \<forall>d'\<in>sv_history (stored s c). cm_uid d = cm_uid d' \<longrightarrow>
      mapKey d = mapKey d' \<and> (mapKey d \<noteq> K \<longrightarrow> d = d')"
  proof (intro ballI impI)
    fix d d' assume d: "d \<in> sv_history (stored s c)" "d' \<in> sv_history (stored s c)" "cm_uid d = cm_uid d'"
    consider "d = c" "d' = c" | "d = c" "d' \<in> sv_history s" | "d' = c" "d \<in> sv_history s"
      | "d \<in> sv_history s" "d' \<in> sv_history s" using d by auto
    then show "mapKey d = mapKey d' \<and> (mapKey d \<noteq> K \<longrightarrow> d = d')"
    proof cases
      case 4
      then show ?thesis using versionsUniqueD(6,7) [OF assms(1)] d(3) by blast
    qed (use assms(4) d(3) in auto)
  qed
qed

lemma versionsUnique_removed:
  assumes "versionsUnique K s"
  shows "versionsUnique K (removed k s)"
proof -
  have "\<forall>k' c. sv_objects (removed k s) k' = Some c \<longrightarrow> c \<in> sv_history s \<and> mapKey c = k'"
    using versionsUniqueD(1,2) [OF assms] by simp
  then show ?thesis using assms unfolding versionsUnique_def sv_removed(2) by blast
qed

lemma chunkAt_stored_other: "mapKey c \<noteq> (cm_namespace a, ch_name ref) \<Longrightarrow> chunkAt (stored s c) a ref = chunkAt s a ref"
  by (simp add: chunkAt_def)

lemma protocol_create_chunk:
  assumes "storeInv lib K s" "sv_objects s (mapKey c) = None" "mapKey c \<noteq> K" "freshUid s (cm_uid c)"
    and "freshVersion s (cm_resourceVersion c)"
  shows "storeProtocol lib K s (stored s c)"
proof -
  have u: "versionsUnique K (stored s c)"
    using assms by (intro versionsUnique_stored) (auto simp: storeInv_def freshUid_def)
  have "presentChunk lib (stored s c) a ref" if "presentChunk lib s a ref" for a ref
  proof -
    have "mapKey c \<noteq> (cm_namespace a, ch_name ref)" using that assms(2) by (auto simp: presentChunk_def chunkAt_def)
    then show ?thesis using that by (simp add: presentChunk_def chunkAt_stored_other)
  qed
  then have "rootComplete lib K (stored s c)" using assms(1,3) by (auto simp: storeInv_def rootComplete_def)
  then show ?thesis
    using assms u by (auto simp: storeProtocol_def storeInv_def rootStep_def chunkStep_def split: option.splits)
qed

lemma protocol_store_root:
  assumes "storeInv lib K s" "mapKey b = K" "freshVersion s (cm_resourceVersion b)" "cm_uid b \<noteq> ''''"
    and "case sv_objects s K of Some a \<Rightarrow> if cm_uid a = cm_uid b then rootFollows lib s a b else freshUid s (cm_uid b)
         | None \<Rightarrow> freshUid s (cm_uid b)"
    and "\<And>ref. ref \<in> set (rootChunks lib b) \<Longrightarrow> (cm_namespace b, ch_name ref) \<noteq> K \<and> presentChunk lib s b ref"
  shows "storeProtocol lib K s (stored s b)"
proof -
  have vu: "versionsUnique K s" using assms(1) by (simp add: storeInv_def)
  have "mapKey c = K" if "c \<in> sv_history s" "cm_uid c = cm_uid b" for c
  proof -
    have "\<not> freshUid s (cm_uid b)" using that by (auto simp: freshUid_def)
    then obtain a where "sv_objects s K = Some a" "cm_uid a = cm_uid b"
      using assms(5) by (auto split: option.splits if_splits)
    then show ?thesis using versionsUniqueD(1,2,6) [OF vu] that by metis
  qed
  then have u: "versionsUnique K (stored s b)"
    using assms(2-4) vu by (intro versionsUnique_stored) auto
  have at: "chunkAt (stored s b) b ref = chunkAt s b ref" if "ref \<in> set (rootChunks lib b)" for ref
    using assms(2) assms(6) [OF that] by (intro chunkAt_stored_other) auto
  then have "rootComplete lib K (stored s b)"
    using assms(2,6) by (auto simp: rootComplete_def presentChunk_def)
  moreover have "rootFollows lib (stored s b) a b" if "rootFollows lib s a b" for a
    using that at by (auto simp: rootFollows_def)
  ultimately show ?thesis
    using assms u by (auto simp: storeProtocol_def storeInv_def rootStep_def chunkStep_def split: option.splits if_splits)
qed

lemma protocol_delete_chunk:
  assumes "storeInv lib K s" "sv_objects s k = Some c" "k \<noteq> K"
    and "\<And>a. sv_objects s K = Some a \<Longrightarrow> cm_labels c RootLabel = Some (cm_uid a) \<Longrightarrow>
      fenceAt c < fenceAt a \<and> (\<forall>ref \<in> set (rootChunks lib a). ch_name ref \<noteq> snd k)"
  shows "storeProtocol lib K s (removed k s)"
proof -
  have present: "presentChunk lib (removed k s) a ref"
    if a: "sv_objects s K = Some a" and ref: "ref \<in> set (rootChunks lib a)" for a ref
  proof -
    have pr: "presentChunk lib s a ref" using a ref assms(1) by (auto simp: storeInv_def rootComplete_def)
    have "(cm_namespace a, ch_name ref) \<noteq> k"
    proof
      assume k: "(cm_namespace a, ch_name ref) = k"
      then have "holdsChunk lib a ref c" using pr assms(2) by (auto simp: presentChunk_def chunkAt_def)
      then have "cm_labels c RootLabel = Some (cm_uid a)" by (simp add: holdsChunk_def Let_def)
      then show False using assms(4) a ref k by auto
    qed
    then show ?thesis using pr by (simp add: presentChunk_def chunkAt_def)
  qed
  then have "rootComplete lib K (removed k s)" using assms(1,3) by (auto simp: storeInv_def rootComplete_def)
  then show ?thesis
    using assms versionsUnique_removed
    by (auto simp: storeProtocol_def storeInv_def rootStep_def chunkStep_def split: option.splits)
qed

lemma protocol_remove_root: "storeInv lib K s \<Longrightarrow> storeProtocol lib K s (removed K s)"
  using versionsUnique_removed
  by (auto simp: storeProtocol_def storeInv_def rootStep_def chunkStep_def rootComplete_def split: option.splits)

section \<open>Commits as compare-and-swap\<close>

text \<open>
  A payload describes a history inline, or as a manifest with the history's journal whose chunk digests are
  those of pieces of the encoded history.
\<close>

definition describes :: "StoreLibrary \<Rightarrow> HPAPlusData \<Rightarrow> string \<Rightarrow> bool" where
  "describes lib data payload \<longleftrightarrow>
     EncodeHistory lib data = Inr payload \<or>
     (\<exists>m parts. sl_marshalManifest lib m = Inr payload \<and> mn_schemaVersion m = 2 \<and> mn_pendingScale m = d_pendingScale data \<and>
        map ch_digest (mn_chunks m) = map (sl_digest lib) parts \<and>
        EncodeHistory lib (data\<lparr>d_pendingScale := None\<rparr>) = Inr (concat parts))"

definition payloadAt :: "key \<Rightarrow> server \<Rightarrow> (string \<times> string) option" where
  "payloadAt K s = map_option (\<lambda>a. (cm_uid a, dataAt a configMapDataKey)) (sv_objects s K)"

definition replaces :: "StoreLibrary \<Rightarrow> key \<Rightarrow> ConfigMap \<Rightarrow> HPAPlusData \<Rightarrow> server \<Rightarrow> server \<Rightarrow> bool" where
  "replaces lib K a0 data s s' \<longleftrightarrow> payloadAt K s = Some (cm_uid a0, dataAt a0 configMapDataKey) \<and>
     (\<exists>payload. payloadAt K s' = Some (cm_uid a0, payload) \<and> describes lib data payload)"

definition swaps :: "StoreLibrary \<Rightarrow> key \<Rightarrow> ConfigMap \<Rightarrow> HPAPlusData \<Rightarrow> server \<Rightarrow> server \<Rightarrow> bool" where
  "swaps lib K a0 data s s' \<longleftrightarrow> storeProtocol lib K s s' \<and> (payloadAt K s' = payloadAt K s \<or> replaces lib K a0 data s s')"

lemma swaps_refl: "storeInv lib K s \<Longrightarrow> swaps lib K a0 data s s"
  by (simp add: swaps_def protocol_refl)

lemma swaps_same_root: "storeProtocol lib K s s' \<Longrightarrow> sv_objects s' K = sv_objects s K \<Longrightarrow> swaps lib K a0 data s s'"
  by (simp add: swaps_def payloadAt_def)

section \<open>Rules for the calls\<close>

declare upholds.simps [simp del]

lemma upholds_over:
  assumes "storeInv lib K s" "P s" "stable (storeProtocol lib K) P"
  shows "upholds serves (storeProtocol lib K) guar (\<lambda>x s. storeInv lib K s \<and> P s) (Done y) s"
  by (rule upholds_Done [where P = "\<lambda>s. storeInv lib K s \<and> P s"]) (use assms stable_conj [OF stable_storeInv] in auto)

text \<open>Calls that change nothing, whatever they answer.\<close>

lemma upholds_quiet:
  assumes "storeInv lib K s" "\<And>s r s'. serves s q r s' \<Longrightarrow> s' = s" "\<And>s. storeInv lib K s \<Longrightarrow> guar s s"
    and "P s" "stable (storeProtocol lib K) P" "\<And>r. stable (storeProtocol lib K) (Q (f r))"
    and "\<And>s1 r. storeInv lib K s1 \<Longrightarrow> P s1 \<Longrightarrow> serves s1 q r s1 \<Longrightarrow> Q (f r) s1"
  shows "upholds serves (storeProtocol lib K) guar (\<lambda>x s. storeInv lib K s \<and> P s \<and> Q x s) (Call q (\<lambda>r. Done (f r))) s"
proof (rule upholds_Call [where P = "\<lambda>s. storeInv lib K s \<and> P s"])
  show "storeInv lib K s \<and> P s" using assms(1,4) by simp
  show "stable (storeProtocol lib K) (\<lambda>s. storeInv lib K s \<and> P s)" using stable_conj [OF stable_storeInv assms(5)] .
next
  fix s1 r s2 assume s1: "storeInv lib K s1 \<and> P s1" and r: "serves s1 q r s2"
  have eq: "s2 = s1" using assms(2) r by blast
  have "Q (f r) s1" using assms(7) s1 r eq by blast
  then show "guar s1 s2 \<and> upholds serves (storeProtocol lib K) guar (\<lambda>x s. storeInv lib K s \<and> P s \<and> Q x s) (Done (f r)) s2"
    unfolding eq using s1 assms(3) stable_conj [OF stable_storeInv stable_conj [OF assms(5,6)]]
    by (intro conjI upholds_Done [where P = "\<lambda>s. storeInv lib K s \<and> P s \<and> Q (f r) s"]) auto
qed

lemma upholds_get:
  assumes "storeInv lib K s" "\<And>s. storeInv lib K s \<Longrightarrow> guar s s" "P s" "stable (storeProtocol lib K) P"
  shows "upholds serves (storeProtocol lib K) guar
    (\<lambda>x s. storeInv lib K s \<and> P s \<and> (\<forall>c. x = Inr c \<longrightarrow> knownRoot c s \<and> mapKey c = k)) (mapCall (GetMap k)) s"
  unfolding mapCall_def
proof (rule upholds_quiet [OF assms(1) _ assms(2-4)])
  show "s' = s" if "serves s (GetMap k) r s'" for s r s' using that by (cases rule: serves_GetMapE)
  show "stable (storeProtocol lib K) (\<lambda>s. \<forall>c. (case r of MapReply x \<Rightarrow> x | _ \<Rightarrow> Inl (Failure ''unexpected reply'')) = Inr c \<longrightarrow>
      knownRoot c s \<and> mapKey c = k)" for r
    using stable_knownRoot [of lib K] unfolding stable_def by metis
  show "\<forall>c. (case r of MapReply x \<Rightarrow> x | _ \<Rightarrow> Inl (Failure ''unexpected reply'')) = Inr c \<longrightarrow> knownRoot c s1 \<and> mapKey c = k"
    if "storeInv lib K s1" "serves s1 (GetMap k) r s1" for s1 r
    using that(2,1) versionsUniqueD(1,2) [of K s1 k]
    by (cases rule: serves_GetMapE) (auto simp: storeInv_def knownRoot_def simp del: split_paired_All)
qed

lemma upholds_outcome_quiet:
  assumes "storeInv lib K s" "\<And>s. storeInv lib K s \<Longrightarrow> guar s s" "P s" "stable (storeProtocol lib K) P"
  shows "upholds serves (storeProtocol lib K) guar (\<lambda>x s. storeInv lib K s \<and> P s \<and> True) (outcomeCall CheckPublication) s"
  unfolding outcomeCall_def
  by (rule upholds_quiet [OF assms(1) _ assms(2-4) stable_const]) (auto elim: serves_CheckPublicationE)

lemma upholds_transaction:
  assumes "storeInv lib K s" "\<And>s. storeInv lib K s \<Longrightarrow> guar s s" "P s" "stable (storeProtocol lib K) P"
  shows "upholds serves (storeProtocol lib K) guar (\<lambda>x s. storeInv lib K s \<and> P s \<and> True) newTransaction s"
  unfolding newTransaction_def
  by (rule upholds_quiet [OF assms(1) _ assms(2-4) stable_const]) (auto elim: serves_NewTransactionE)

lemma upholds_page:
  assumes "storeInv lib K s" "\<And>s. storeInv lib K s \<Longrightarrow> guar s s" "P s" "stable (storeProtocol lib K) P"
  shows "upholds serves (storeProtocol lib K) guar
    (\<lambda>x s. storeInv lib K s \<and> P s \<and> (\<forall>cs n. x = Inr (cs, n) \<longrightarrow> (\<forall>c \<in> set cs. knownRoot c s \<and> cm_namespace c = namespace \<and> cm_labels c RootLabel = Some l)))
    (pageCall namespace l continuation) s"
  unfolding pageCall_def
proof (rule upholds_quiet [OF assms(1) _ assms(2-4)])
  show "s' = s" if "serves s (ListMaps namespace l continuation) r s'" for s r s' using that by (cases rule: serves_ListMapsE)
  show "stable (storeProtocol lib K) (\<lambda>s. \<forall>cs n. (case r of PageReply x \<Rightarrow> x | _ \<Rightarrow> Inl (Failure ''unexpected reply'')) = Inr (cs, n) \<longrightarrow>
      (\<forall>c \<in> set cs. knownRoot c s \<and> cm_namespace c = namespace \<and> cm_labels c RootLabel = Some l))" for r
    using stable_knownRoot [of lib K] unfolding stable_def by meson
  show "\<forall>cs n. (case r of PageReply x \<Rightarrow> x | _ \<Rightarrow> Inl (Failure ''unexpected reply'')) = Inr (cs, n) \<longrightarrow>
      (\<forall>c \<in> set cs. knownRoot c s1 \<and> cm_namespace c = namespace \<and> cm_labels c RootLabel = Some l)"
    if "serves s1 (ListMaps namespace l continuation) r s1" for s1 r
    using that by (cases rule: serves_ListMapsE) (auto simp: knownRoot_def)
qed

text \<open>A stored version of \<open>c\<close> differs from it in the version only.\<close>

definition revisionOf :: "ConfigMap \<Rightarrow> ConfigMap \<Rightarrow> bool" where
  "revisionOf c b \<longleftrightarrow> b = c\<lparr>cm_resourceVersion := cm_resourceVersion b\<rparr>"

lemma revisionOf_fields:
  assumes "revisionOf c b"
  shows "cm_namespace b = cm_namespace c" "cm_name b = cm_name c" "cm_uid b = cm_uid c" "cm_owners b = cm_owners c"
    "cm_annotations b = cm_annotations c" "cm_data b = cm_data c" "mapKey b = mapKey c" "dataAt b = dataAt c"
    "fenceAt b = fenceAt c"
proof -
  obtain v where b: "b = c\<lparr>cm_resourceVersion := v\<rparr>" using assms unfolding revisionOf_def by blast
  show "cm_namespace b = cm_namespace c" "cm_name b = cm_name c" "cm_uid b = cm_uid c" "cm_owners b = cm_owners c"
    "cm_annotations b = cm_annotations c" "cm_data b = cm_data c" "mapKey b = mapKey c" "dataAt b = dataAt c"
    "fenceAt b = fenceAt c"
    unfolding b by (auto simp: mapKey_def dataAt_def fun_eq_iff fenceAt_def FenceOf_def Let_def)
qed

text \<open>Updates of the version \<open>a0\<close> of the root take effect on that version only.\<close>

lemma update_cases:
  assumes "storeInv lib K s" "knownRoot a0 s" "serves s (UpdateMap c) r s'"
    and "cm_resourceVersion c = cm_resourceVersion a0" "cm_uid c = cm_uid a0" "mapKey c = K"
  obtains (failed) e where "s' = s" "r = MapReply (Inl e)"
  | (applied) b where "sv_objects s K = Some a0" "revisionOf c b"
      "s' = stored s b \<and> freshVersion s (cm_resourceVersion b) \<or> s' = s \<and> b = a0" "r = MapReply (Inr b) \<or> (\<exists>e. r = MapReply (Inl e))"
proof -
  have vu: "versionsUnique K s" and a0: "a0 \<in> sv_history s" using assms(1,2) by (auto simp: storeInv_def knownRoot_def)
  have same: "a = a0" if "sv_objects s K = Some a" "cm_resourceVersion c \<in> {'''', cm_resourceVersion a}" for a
    using that versionsUniqueD(1,4,5) [OF vu] a0 assms(4) by (metis empty_iff insert_iff)
  consider (eff) a v e where "sv_objects s K = Some a" "cm_resourceVersion c \<in> {'''', cm_resourceVersion a}" "freshVersion s v"
      "s' = stored s (c\<lparr>cm_uid := cm_uid a, cm_resourceVersion := v\<rparr>)"
      "r = MapReply (Inr (c\<lparr>cm_uid := cm_uid a, cm_resourceVersion := v\<rparr>)) \<or> r = MapReply (Inl e)"
    | (none) a where "sv_objects s K = Some a" "cm_resourceVersion c \<in> {'''', cm_resourceVersion a}"
      "c\<lparr>cm_uid := cm_uid a, cm_resourceVersion := cm_resourceVersion a\<rparr> = a" "r = MapReply (Inr a)" "s' = s"
    | (err) e where "s' = s" "r = MapReply (Inl e)"
    using assms(3) unfolding assms(6) [symmetric] by (cases rule: serves_UpdateMapE) blast+
  then show thesis
  proof cases
    case eff
    have a: "a = a0" using same eff(1,2) .
    have c: "c\<lparr>cm_uid := cm_uid a, cm_resourceVersion := v\<rparr> = c\<lparr>cm_resourceVersion := v\<rparr>" using a assms(5) by simp
    show thesis
      using applied [of "c\<lparr>cm_resourceVersion := v\<rparr>"] eff(1,3) eff(4,5) [unfolded c] a by (auto simp: revisionOf_def)
  next
    case none
    have a: "a = a0" using same none(1,2) .
    then have "revisionOf c a0" using none(3) assms(5) unfolding revisionOf_def by (metis ConfigMap.surjective ConfigMap.update_convs(3))
    then show thesis using applied [of a0] none a by blast
  next
    case err
    then show thesis using failed by blast
  qed
qed

lemma upholds_update:
  assumes "storeInv lib K s" "knownRoot a0 s" "P s" "stable (storeProtocol lib K) P"
    and "cm_resourceVersion c = cm_resourceVersion a0" "cm_uid c = cm_uid a0" "mapKey c = K"
    and guar: "\<And>s. storeInv lib K s \<Longrightarrow> guar s s" "\<And>s s'. guar s s' \<Longrightarrow> storeProtocol lib K s s'"
    and takes_effect: "\<And>s b. storeInv lib K s \<Longrightarrow> P s \<Longrightarrow> sv_objects s K = Some a0 \<Longrightarrow>
      revisionOf c b \<Longrightarrow> freshVersion s (cm_resourceVersion b) \<Longrightarrow>
      guar s (stored s b) \<and> Q b (stored s b)"
    and no_effect: "\<And>s. storeInv lib K s \<Longrightarrow> P s \<Longrightarrow> sv_objects s K = Some a0 \<Longrightarrow>
      revisionOf c a0 \<Longrightarrow> Q a0 s"
    and "\<And>b. stable (storeProtocol lib K) (Q b)"
  shows "upholds serves (storeProtocol lib K) guar
    (\<lambda>x s. storeInv lib K s \<and> P s \<and> (\<forall>b. x = Inr b \<longrightarrow> revisionOf c b \<and> knownRoot b s \<and> Q b s))
    (mapCall (UpdateMap c)) s"
  unfolding mapCall_def
proof (rule upholds_Call [where P = "\<lambda>s. storeInv lib K s \<and> P s \<and> knownRoot a0 s"])
  let ?post = "\<lambda>x s. storeInv lib K s \<and> P s \<and> (\<forall>b. x = Inr b \<longrightarrow> revisionOf c b \<and> knownRoot b s \<and> Q b s)"
  show "storeInv lib K s \<and> P s \<and> knownRoot a0 s" using assms(1-3) by simp
  show "stable (storeProtocol lib K) (\<lambda>s. storeInv lib K s \<and> P s \<and> knownRoot a0 s)"
    by (intro stable_conj stable_storeInv assms(4) stable_knownRoot)
  have st: "stable (storeProtocol lib K) (?post x)" for x
    using stable_conj [OF stable_storeInv assms(4)] stable_knownRoot [of lib K] assms(12) unfolding stable_def by metis
  fix s1 r s2 assume s1: "storeInv lib K s1 \<and> P s1 \<and> knownRoot a0 s1" and r: "serves s1 (UpdateMap c) r s2"
  let ?x = "case r of MapReply x \<Rightarrow> x | _ \<Rightarrow> Inl (Failure ''unexpected reply'')"
  have "guar s1 s2 \<and> ?post ?x s2"
  proof (cases rule: update_cases [OF conjunct1 [OF s1] _ r assms(5-7)])
    case 1 show ?case using s1 by simp
  next
    case (2 e)
    then show ?thesis using s1 guar(1) by auto
  next
    case (3 b)
    have "guar s1 s2 \<and> Q b s2 \<and> b \<in> sv_history s2"
    proof (cases "s2 = stored s1 b \<and> freshVersion s1 (cm_resourceVersion b)")
      case True
      then show ?thesis using takes_effect 3 s1 by auto
    next
      case False
      then have "s2 = s1" "b = a0" using 3 by auto
      then show ?thesis using no_effect 3 s1 guar(1) by (auto simp: knownRoot_def)
    qed
    moreover from this have "storeProtocol lib K s1 s2" using guar(2) by blast
    moreover from this have "storeInv lib K s2" "P s2" using s1 assms(4) by (auto simp: stable_def storeProtocol_def)
    ultimately show ?thesis using 3 by (auto simp: knownRoot_def)
  qed
  then show "guar s1 s2 \<and> upholds serves (storeProtocol lib K) guar ?post (Done ?x) s2"
  proof (intro conjI)
    assume x: "guar s1 s2 \<and> ?post ?x s2"
    show "guar s1 s2" using x by simp
    show "upholds serves (storeProtocol lib K) guar ?post (Done ?x) s2"
      by (rule upholds_Done [where P = "?post ?x", OF conjunct2 [OF x] st])
  qed
qed

lemma upholds_create:
  assumes "storeInv lib K s" "P s" "stable (storeProtocol lib K) P"
    and guar: "\<And>s. storeInv lib K s \<Longrightarrow> guar s s" "\<And>s s'. guar s s' \<Longrightarrow> storeProtocol lib K s s'"
    and takes_effect: "\<And>s u v d. storeInv lib K s \<Longrightarrow> P s \<Longrightarrow> sv_objects s (mapKey c) = None \<Longrightarrow> freshUid s u \<Longrightarrow> freshVersion s v \<Longrightarrow>
      d = c\<lparr>cm_uid := u, cm_resourceVersion := v\<rparr> \<Longrightarrow> guar s (stored s d) \<and> Q d (stored s d)"
    and "\<And>d. stable (storeProtocol lib K) (Q d)"
  shows "upholds serves (storeProtocol lib K) guar
    (\<lambda>x s. storeInv lib K s \<and> P s \<and> (\<forall>d. x = Inr d \<longrightarrow> knownRoot d s \<and> Q d s)) (mapCall (CreateMap c)) s"
  unfolding mapCall_def
proof (rule upholds_Call [where P = "\<lambda>s. storeInv lib K s \<and> P s"])
  let ?post = "\<lambda>x s. storeInv lib K s \<and> P s \<and> (\<forall>d. x = Inr d \<longrightarrow> knownRoot d s \<and> Q d s)"
  show "storeInv lib K s \<and> P s" using assms(1,2) by simp
  show "stable (storeProtocol lib K) (\<lambda>s. storeInv lib K s \<and> P s)" by (rule stable_conj [OF stable_storeInv assms(3)])
  have st: "stable (storeProtocol lib K) (?post x)" for x
    using stable_conj [OF stable_storeInv assms(3)] stable_knownRoot [of lib K] assms(7) unfolding stable_def by metis
  fix s1 r s2 assume s1: "storeInv lib K s1 \<and> P s1" and r: "serves s1 (CreateMap c) r s2"
  let ?x = "case r of MapReply x \<Rightarrow> x | _ \<Rightarrow> Inl (Failure ''unexpected reply'')"
  have x: "guar s1 s2 \<and> ?post ?x s2"
  proof -
    consider (eff) u v d where "sv_objects s1 (mapKey c) = None" "freshUid s1 u" "freshVersion s1 v"
        "d = c\<lparr>cm_uid := u, cm_resourceVersion := v\<rparr>" "s2 = stored s1 d" "r = MapReply (Inr d) \<or> (\<exists>e. r = MapReply (Inl e))"
      | (err) e where "s2 = s1" "r = MapReply (Inl e)"
      using r by (cases rule: serves_CreateMapE) blast+
    then show ?thesis
    proof cases
    case eff
    have "guar s1 s2 \<and> Q d s2 \<and> d \<in> sv_history s2" using takes_effect [OF _ _ eff(1-4)] eff(5) s1 by auto
    moreover from this have "storeProtocol lib K s1 s2" using guar(2) by blast
    moreover from this have "storeInv lib K s2" "P s2" using s1 assms(3) by (auto simp: stable_def storeProtocol_def)
    ultimately show ?thesis using eff(6) by (auto simp: knownRoot_def)
    next
      case err
      then show ?thesis using s1 guar(1) by auto
    qed
  qed
  show "guar s1 s2 \<and> upholds serves (storeProtocol lib K) guar ?post (Done ?x) s2"
    by (rule conjI [OF conjunct1 [OF x] upholds_Done [where P = "?post ?x", OF conjunct2 [OF x] st]])
qed

lemma upholds_delete:
  assumes "storeInv lib K s" "P s" "stable (storeProtocol lib K) P" "\<And>s. P s \<Longrightarrow> knownRoot c s"
    and guar: "\<And>s. storeInv lib K s \<Longrightarrow> guar s s" "\<And>s s'. guar s s' \<Longrightarrow> storeProtocol lib K s s'"
    and takes_effect: "\<And>s. storeInv lib K s \<Longrightarrow> P s \<Longrightarrow> sv_objects s (mapKey c) = Some c \<Longrightarrow> guar s (removed (mapKey c) s)"
  shows "upholds serves (storeProtocol lib K) guar (\<lambda>x s. storeInv lib K s \<and> P s) (outcomeCall (DeleteMap c)) s"
  unfolding outcomeCall_def
proof (rule upholds_Call [where P = "\<lambda>s. storeInv lib K s \<and> P s"])
  show "storeInv lib K s \<and> P s" using assms(1,2) by simp
  show st: "stable (storeProtocol lib K) (\<lambda>s. storeInv lib K s \<and> P s)" by (rule stable_conj [OF stable_storeInv assms(3)])
  fix s1 r s2 assume s1: "storeInv lib K s1 \<and> P s1" and r: "serves s1 (DeleteMap c) r s2"
  have "guar s1 s2"
  proof -
    consider (eff) a where "sv_objects s1 (mapKey c) = Some a" "cm_resourceVersion a = cm_resourceVersion c" "s2 = removed (mapKey c) s1"
      | (err) "s2 = s1"
      using r by (cases rule: serves_DeleteMapE) blast+
    then show ?thesis
    proof cases
    case eff
    have "c \<in> sv_history s1" using assms(4) s1 by (simp add: knownRoot_def)
    then have "a = c" using s1 eff versionsUniqueD(1,5) [of K s1] unfolding storeInv_def by metis
    then show ?thesis using takes_effect s1 eff by auto
    next
      case err
      then show ?thesis using s1 guar(1) by auto
    qed
  qed
  have s2: "storeInv lib K s2 \<and> P s2"
    using \<open>guar s1 s2\<close> s1 assms(3) guar(2) by (auto simp: stable_def storeProtocol_def)
  show "guar s1 s2 \<and> upholds serves (storeProtocol lib K) guar (\<lambda>x s. storeInv lib K s \<and> P s) (Done y) s2" for y :: "ioerror + unit"
    by (rule conjI [OF \<open>guar s1 s2\<close> upholds_Done [where P = "\<lambda>s. storeInv lib K s \<and> P s", OF s2 st]])
qed

section \<open>Cleanup\<close>

text \<open>What the garbage collection of a writer with fence \<open>F\<close> removes is no chunk of the current root.\<close>

lemma reclaim_protocol:
  assumes "storeInv lib K s" "fencedFrom lib K u F keep s" "sv_objects s (mapKey c) = Some c" "mapKey c \<noteq> K"
    and "cm_labels c RootLabel = Some u" "FenceOf c = Inr g" "g < F" "cm_name c \<notin> keep" "cm_namespace c = fst K"
  shows "storeProtocol lib K s (removed (mapKey c) s)"
proof (rule protocol_delete_chunk [OF assms(1,3,4)])
  fix a assume a: "sv_objects s K = Some a" "cm_labels c RootLabel = Some (cm_uid a)"
  have au: "cm_uid a = u" using a(2) assms(5) by simp
  have F: "F \<le> fenceAt a" using assms(2) a(1) au by (simp add: fencedFrom_def)
  have "ch_name ref \<noteq> snd (mapKey c)" if ref: "ref \<in> set (rootChunks lib a)" for ref
  proof
    assume n: "ch_name ref = snd (mapKey c)"
    then have "ch_name ref \<notin> keep" using assms(8) by (simp add: mapKey_def)
    then obtain d where d: "chunkAt s a ref = Some d" "F \<le> fenceAt d" using assms(2) a(1) au ref by (auto simp: fencedFrom_def)
    have "mapKey a = K" using assms(1) a(1) versionsUniqueD(2) unfolding storeInv_def by blast
    then have "chunkAt s a ref = Some c" using n assms(3,9) by (auto simp: chunkAt_def mapKey_def)
    then show False using d assms(6,7) by simp
  qed
  then show "fenceAt c < fenceAt a \<and> (\<forall>ref \<in> set (rootChunks lib a). ch_name ref \<noteq> snd (mapKey c))"
    using F assms(6,7) by simp
qed

lemma chunk_name_not_root:
  assumes "take (length (ChunkPrefix lib a)) n = ChunkPrefix lib a"
  shows "(x, n) \<noteq> historyRootKey owner"
proof
  assume "(x, n) = historyRootKey owner"
  then have "take 5 n = ''hpa-p''" by (auto simp: historyRootKey_def)
  moreover have "take 5 n = take 5 (take (length (ChunkPrefix lib a)) n)"
    unfolding take_take by (simp add: ChunkPrefix_def min_def)
  moreover have "take 5 (ChunkPrefix lib a) = ''hpa-h''" by (simp add: ChunkPrefix_def)
  ultimately show False using assms by simp
qed

lemma stable_known_all: "stable (storeProtocol lib K) (\<lambda>s. \<forall>c \<in> set cs. knownRoot c s)"
  using stable_knownRoot [of lib K] unfolding stable_def by blast

lemma upholds_deleteChunks:
  assumes K: "K = historyRootKey owner" and P: "stable (storeProtocol lib K) P" "\<And>s. P s \<Longrightarrow> fencedFrom lib K (cm_uid b) F keep s"
  shows "storeInv lib K s \<Longrightarrow> P s \<Longrightarrow>
    \<forall>c \<in> set cs. knownRoot c s \<and> cm_namespace c = fst K \<and> cm_labels c RootLabel = Some (cm_uid b) \<Longrightarrow>
    upholds serves (storeProtocol lib K) (swaps lib K a0 data) (\<lambda>x s. storeInv lib K s \<and> P s) (deleteChunks (reclaimable lib b keep F) cs) s"
proof (induction cs arbitrary: s)
  case Nil
  show ?case
    using upholds_over [OF Nil.prems(1,2) P(1)] by simp
next
  case (Cons c cs)
  let ?rest = "deleteChunks (reclaimable lib b keep F) cs"
  let ?post = "\<lambda>(x :: ioerror + unit) s. storeInv lib K s \<and> P s"
  let ?PC = "\<lambda>s. P s \<and> (\<forall>d \<in> set (c # cs). knownRoot d s)"
  have stPC: "stable (storeProtocol lib K) ?PC" by (rule stable_conj [OF P(1) stable_known_all])
  show ?case
  proof (cases "reclaimable lib b keep F c")
    case False
    then show ?thesis using Cons by simp
  next
    case True
    then obtain g where g: "FenceOf c = Inr g" "g < F" "cm_name c \<notin> keep"
      "take (length (ChunkPrefix lib b)) (cm_name c) = ChunkPrefix lib b"
      by (auto simp: reclaimable_def split: sum.splits)
    have key: "mapKey c \<noteq> K" unfolding K mapKey_def by (rule chunk_name_not_root [OF g(4)])
    have del: "swaps lib K a0 data s (removed (mapKey c) s)"
      if "storeInv lib K s" "?PC s" "sv_objects s (mapKey c) = Some c" for s
    proof -
      have "storeProtocol lib K s (removed (mapKey c) s)"
        using that P(2) key Cons.prems(3) g by (intro reclaim_protocol) auto
      then show ?thesis using key by (intro swaps_same_root) auto
    qed
    have first: "upholds serves (storeProtocol lib K) (swaps lib K a0 data) (\<lambda>x s. storeInv lib K s \<and> ?PC s) (outcomeCall (DeleteMap c)) s"
      by (rule upholds_delete [where P = ?PC]) (use Cons.prems stPC swaps_refl del in \<open>auto simp: swaps_def\<close>)
    have rest: "upholds serves (storeProtocol lib K) (swaps lib K a0 data) ?post ?rest s1" if "storeInv lib K s1 \<and> ?PC s1" for s1
      using Cons.IH [of s1] that Cons.prems(3) by simp
    have failing: "upholds serves (storeProtocol lib K) (swaps lib K a0 data) ?post (Done (Inl e)) s1" if "storeInv lib K s1 \<and> ?PC s1" for s1 e
      by (rule upholds_over) (use that P(1) in auto)
    show ?thesis
      using True by simp (rule upholds_bind [OF first], simp add: rest failing split: sum.split)
  qed
qed

lemma upholds_cleanupPages:
  assumes K: "K = historyRootKey owner" and P: "stable (storeProtocol lib K) P" "\<And>s. P s \<Longrightarrow> fencedFrom lib K (cm_uid b) F keep s"
    and b: "cm_namespace b = fst K"
  shows "storeInv lib K s \<Longrightarrow> P s \<Longrightarrow>
    upholds serves (storeProtocol lib K) (swaps lib K a0 data) (\<lambda>x s. storeInv lib K s \<and> P s) (cleanupPages n b (reclaimable lib b keep F) continuation) s"
proof (induction n arbitrary: s continuation)
  case 0
  show ?case
    using upholds_over [OF 0 P(1)] by simp
next
  case (Suc n)
  let ?post = "\<lambda>(x :: ioerror + unit) s. storeInv lib K s \<and> P s"
  have over: "upholds serves (storeProtocol lib K) (swaps lib K a0 data) ?post (Done y) s1" if "storeInv lib K s1 \<and> P s1" for s1 y
    by (rule upholds_over) (use that P(1) in auto)
  have page: "upholds serves (storeProtocol lib K) (swaps lib K a0 data)
      (\<lambda>x s. storeInv lib K s \<and> P s \<and> (\<forall>cs n. x = Inr (cs, n) \<longrightarrow> (\<forall>c \<in> set cs. knownRoot c s \<and>
         cm_namespace c = cm_namespace b \<and> cm_labels c RootLabel = Some (cm_uid b))))
      (pageCall (cm_namespace b) (cm_uid b) continuation) s"
    by (rule upholds_page [OF Suc.prems(1) swaps_refl Suc.prems(2) P(1)])
  show ?case
    unfolding cleanupPages.simps
  proof (rule upholds_proceed [OF page])
    fix a :: "ConfigMap list \<times> string" and s1 assume "storeInv lib K s1 \<and> P s1 \<and> (\<forall>cs n. Inr a = (Inr (cs, n) :: ioerror + _) \<longrightarrow>
      (\<forall>c \<in> set cs. knownRoot c s1 \<and> cm_namespace c = cm_namespace b \<and> cm_labels c RootLabel = Some (cm_uid b)))"
    moreover obtain cs next_page where a: "a = (cs, next_page)" by force
    ultimately have s1: "storeInv lib K s1" "P s1"
      "\<forall>c \<in> set cs. knownRoot c s1 \<and> cm_namespace c = fst K \<and> cm_labels c RootLabel = Some (cm_uid b)"
      using b by auto
    have rest: "upholds serves (storeProtocol lib K) (swaps lib K a0 data) ?post
        (if next_page = '''' then Done (Inr ()) else cleanupPages n b (reclaimable lib b keep F) next_page) s2"
      if "storeInv lib K s2 \<and> P s2" for s2
      using Suc.IH [of s2 next_page] over that by simp
    show "upholds serves (storeProtocol lib K) (swaps lib K a0 data) ?post
        (case a of (items, next_page) \<Rightarrow> proceed (deleteChunks (reclaimable lib b keep F) items) (\<lambda>_.
          if next_page = '''' then Done (Inr ()) else cleanupPages n b (reclaimable lib b keep F) next_page)) s1"
      unfolding a prod.case
      by (rule upholds_proceed [OF upholds_deleteChunks [OF K P s1]]) (use rest over in blast)+
  qed (use over in blast)
qed

text \<open>Cleaning up with fence \<open>F\<close>, keeping the chunks of a manifest.\<close>

definition manifestNames :: "Manifest option \<Rightarrow> string set" where
  "manifestNames manifest = (case manifest of None \<Rightarrow> {} | Some m \<Rightarrow> ch_name ` set (mn_chunks m))"

lemma upholds_cleanup:
  assumes "K = historyRootKey owner" "stable (storeProtocol lib K) P"
    and "\<And>s. P s \<Longrightarrow> fencedFrom lib K (cm_uid b) F (manifestNames manifest) s"
    and "cm_namespace b = fst K" "storeInv lib K s" "P s"
  shows "upholds serves (storeProtocol lib K) (swaps lib K a0 data) (\<lambda>x s. storeInv lib K s \<and> P s) (cleanup lib pages b manifest F) s"
  using upholds_cleanupPages [OF assms(1-4)] assms(5,6) by (simp add: cleanup_def manifestNames_def Let_def)

section \<open>Staging\<close>

lemma concat_chunksOf: "0 < n \<Longrightarrow> concat (chunksOf n s) = s"
  by (induction n s rule: chunksOf.induct) (subst chunksOf.simps, auto)

lemma chunksOf_lengths: "part \<in> set (chunksOf n s) \<Longrightarrow> 1 \<le> length part \<and> length part \<le> n"
  by (induction n s rule: chunksOf.induct) (subst (asm) (2) chunksOf.simps, auto split: if_splits simp: Suc_le_eq)

lemma length_chunksOf: "0 < n \<Longrightarrow> length s \<le> k * n \<Longrightarrow> length (chunksOf n s) \<le> k"
proof (induction k arbitrary: s)
  case 0
  then show ?case by (subst chunksOf.simps) simp
next
  case (Suc k)
  then show ?case by (subst chunksOf.simps) simp
qed

lemma stagedOn_own:
  assumes "storeInv lib K s" "knownRoot b s" "set refs \<subseteq> set (rootChunks lib b)"
  shows "stagedOn lib K b refs s"
  using assms unfolding stagedOn_def storeInv_def rootComplete_def knownRoot_def by blast

lemma staged_chunk:
  assumes "stagedOn lib K b staged s" "storeInv lib K s" "sv_objects s (mapKey c) = None" "freshUid s u" "freshVersion s v"
    and c: "c = chunkMap lib b F tx i bytes" and d: "d = c\<lparr>cm_uid := u, cm_resourceVersion := v\<rparr>"
    and K: "K = historyRootKey owner" and F: "fenceAt b = F" "F \<le> MaxFence"
  shows "swaps lib K a0 data s (stored s d) \<and> stagedOn lib K b (staged @ [chunkReference lib bytes d]) (stored s d)"
proof -
  have key: "mapKey d = mapKey c" "mapKey c = (cm_namespace b, ch_name (chunkReference lib bytes d))"
    by (simp_all add: d c mapKey_def chunkMap_def chunkReference_def)
  have notK: "mapKey c \<noteq> K"
    unfolding K mapKey_def by (rule chunk_name_not_root [of lib b]) (simp add: c chunkMap_def)
  have p: "storeProtocol lib K s (stored s d)"
    using assms(2-5) notK key by (intro protocol_create_chunk) (auto simp: d)
  have old: "stagedOn lib K b staged (stored s d)" using stable_stagedOn p assms(1) unfolding stable_def by blast
  have "fenceAt d = F" using F(2) by (intro fenceAt_annotated) (simp_all add: d c chunkMap_def)
  moreover have "holdsChunk lib b (chunkReference lib bytes d) d"
    by (simp add: d c holdsChunk_def chunkReference_def chunkMap_def Let_def)
  moreover have "chunkAt (stored s d) b (chunkReference lib bytes d) = Some d" using key by (simp add: chunkAt_def)
  ultimately have "stagedOn lib K b (staged @ [chunkReference lib bytes d]) (stored s d)"
    using old notK key(2) F(1) by (auto simp: stagedOn_def presentChunk_def)
  then show ?thesis using swaps_same_root [OF p] notK key(1) by simp
qed

lemma upholds_stageChunks:
  assumes K: "K = historyRootKey owner" and F: "fenceAt b = F" "F \<le> MaxFence" and P: "stable (storeProtocol lib K) P"
  shows "storeInv lib K s \<Longrightarrow> P s \<Longrightarrow> stagedOn lib K b staged s \<Longrightarrow> map ch_digest staged = map (sl_digest lib) finished \<Longrightarrow>
    upholds serves (storeProtocol lib K) (swaps lib K a0 data)
      (\<lambda>x s. storeInv lib K s \<and> P s \<and> (\<forall>refs. x = Inr refs \<longrightarrow> stagedOn lib K b refs s \<and>
         map ch_digest refs = map (sl_digest lib) (finished @ parts)))
      (stageChunks lib b F tx parts staged) s"
proof (induction parts arbitrary: staged finished s)
  case Nil
  let ?Q = "\<lambda>s. storeInv lib K s \<and> P s \<and> stagedOn lib K b staged s"
  show ?case
    unfolding stageChunks.simps
    by (rule upholds_Done [where P = ?Q, OF _ stable_conj [OF stable_storeInv stable_conj [OF P stable_stagedOn]]]) (use Nil in auto)
next
  case (Cons bytes parts)
  let ?c = "chunkMap lib b F tx (length staged) bytes"
  let ?post = "\<lambda>x s. storeInv lib K s \<and> P s \<and> (\<forall>refs. x = (Inr refs :: ioerror + _) \<longrightarrow> stagedOn lib K b refs s \<and>
         map ch_digest refs = map (sl_digest lib) (finished @ bytes # parts))"
  let ?P = "\<lambda>s. P s \<and> stagedOn lib K b staged s"
  let ?Q = "\<lambda>d. stagedOn lib K b (staged @ [chunkReference lib bytes d])"
  have over: "upholds serves (storeProtocol lib K) (swaps lib K a0 data) ?post (Done (Inl e)) s1" if "storeInv lib K s1" "P s1" for e s1
    by (rule upholds_Done [where P = "\<lambda>s. storeInv lib K s \<and> P s"]) (use that in \<open>auto intro: stable_conj stable_storeInv P\<close>)
  have create: "upholds serves (storeProtocol lib K) (swaps lib K a0 data)
      (\<lambda>x s. storeInv lib K s \<and> ?P s \<and> (\<forall>d. x = Inr d \<longrightarrow> knownRoot d s \<and> ?Q d s)) (mapCall (CreateMap ?c)) s"
  proof (rule upholds_create)
    show "swaps lib K a0 data s1 (stored s1 d) \<and> ?Q d (stored s1 d)"
      if "storeInv lib K s1" "?P s1" "sv_objects s1 (mapKey ?c) = None" "freshUid s1 u" "freshVersion s1 v"
        "d = ?c\<lparr>cm_uid := u, cm_resourceVersion := v\<rparr>" for s1 u v d
      using staged_chunk [OF _ that(1,3-5) refl that(6) K F] that(2) by blast
    show "storeProtocol lib K s1 s2" if "swaps lib K a0 data s1 s2" for s1 s2 using that by (simp add: swaps_def)
  qed (use Cons.prems swaps_refl in \<open>auto intro: stable_conj P stable_stagedOn\<close>)
  show ?case
    unfolding stageChunks.simps
  proof (rule upholds_proceed [OF create])
    fix d s1 assume "storeInv lib K s1 \<and> ?P s1 \<and> (\<forall>d'. Inr d = (Inr d' :: ioerror + _) \<longrightarrow> knownRoot d' s1 \<and> ?Q d' s1)"
    then have s1: "storeInv lib K s1" "P s1" "?Q d s1" by auto
    have "map ch_digest (staged @ [chunkReference lib bytes d]) = map (sl_digest lib) (finished @ [bytes])"
      using Cons.prems(4) by (simp add: chunkReference_def)
    from Cons.IH [OF s1 this] over s1
    show "upholds serves (storeProtocol lib K) (swaps lib K a0 data) ?post
        (if cm_uid d = '''' then Done (Inl (Failure ''created history chunk has no UID''))
         else stageChunks lib b F tx parts (staged @ [chunkReference lib bytes d])) s1"
      by (simp del: map_append)
  qed (use over in blast)
qed

text \<open>What a snapshot remembers of the root it was loaded from.\<close>

definition loadedFrom :: "StoreLibrary \<Rightarrow> key \<Rightarrow> HistorySnapshot \<Rightarrow> server \<Rightarrow> bool" where
  "loadedFrom lib K snapshot s \<longleftrightarrow> knownRoot (re_root (sh_revision snapshot)) s \<and> mapKey (re_root (sh_revision snapshot)) = K \<and>
     (case re_manifest (sh_revision snapshot) of
        None \<Rightarrow> rootChunks lib (re_root (sh_revision snapshot)) = []
      | Some m \<Rightarrow> mn_chunks m = rootChunks lib (re_root (sh_revision snapshot)) \<and>
          (\<exists>parts. map ch_digest (mn_chunks m) = map (sl_digest lib) parts \<and>
             re_stateDigest (sh_revision snapshot) = sl_digest lib (concat parts)))"

lemma stable_loadedFrom: "stable (storeProtocol lib K) (loadedFrom lib K snapshot)"
  using stable_knownRoot [of lib K] unfolding stable_def loadedFrom_def by blast

lemma upholds_stageState:
  assumes K: "K = historyRootKey owner" and F: "fenceAt b = F" "F \<le> MaxFence" and P: "stable (storeProtocol lib K) P"
    and inj: "inj (sl_digest lib)" and s: "storeInv lib K s" "P s" "knownRoot b s" "loadedFrom lib K snapshot s"
    and b: "rootChunks lib b = rootChunks lib (re_root (sh_revision snapshot))"
  shows "upholds serves (storeProtocol lib K) (swaps lib K a0 data)
      (\<lambda>x s. storeInv lib K s \<and> P s \<and> (\<forall>refs. x = Inr refs \<longrightarrow> stagedOn lib K b refs s \<and>
         (\<exists>parts. map ch_digest refs = map (sl_digest lib) parts \<and> concat parts = encoded)))
      (stageState lib (sh_revision snapshot) b F encoded) s"
proof -
  let ?post = "\<lambda>x s. storeInv lib K s \<and> P s \<and> (\<forall>refs. x = (Inr refs :: ioerror + _) \<longrightarrow> stagedOn lib K b refs s \<and>
         (\<exists>parts. map ch_digest refs = map (sl_digest lib) parts \<and> concat parts = encoded))"
  let ?PB = "\<lambda>s. P s \<and> knownRoot b s"
  have fresh: "upholds serves (storeProtocol lib K) (swaps lib K a0 data) ?post
      (proceed newTransaction (\<lambda>tx. stageChunks lib b F tx (chunksOf ChunkBytes encoded) [])) s"
  proof (rule upholds_proceed)
    show "upholds serves (storeProtocol lib K) (swaps lib K a0 data) (\<lambda>x s. storeInv lib K s \<and> ?PB s \<and> True) newTransaction s"
      by (rule upholds_transaction) (use s swaps_refl in \<open>auto intro: stable_conj P stable_knownRoot\<close>)
    fix tx s1 assume s1: "storeInv lib K s1 \<and> ?PB s1 \<and> True"
    have "stagedOn lib K b [] s1" using s1 by (simp add: stagedOn_def knownRoot_def)
    then have "upholds serves (storeProtocol lib K) (swaps lib K a0 data)
        (\<lambda>x s. storeInv lib K s \<and> P s \<and> (\<forall>refs. x = Inr refs \<longrightarrow> stagedOn lib K b refs s \<and>
           map ch_digest refs = map (sl_digest lib) ([] @ chunksOf ChunkBytes encoded)))
        (stageChunks lib b F tx (chunksOf ChunkBytes encoded) []) s1"
      using s1 by (intro upholds_stageChunks [OF K F P]) auto
    then show "upholds serves (storeProtocol lib K) (swaps lib K a0 data) ?post (stageChunks lib b F tx (chunksOf ChunkBytes encoded) []) s1"
      by (rule upholds_mono) (use concat_chunksOf [of ChunkBytes encoded] in auto)
  next
    fix e s1 assume "storeInv lib K s1 \<and> ?PB s1 \<and> True"
    then show "upholds serves (storeProtocol lib K) (swaps lib K a0 data) ?post (Done (Inl e)) s1"
      by (intro upholds_Done [where P = "\<lambda>s. storeInv lib K s \<and> P s"]) (auto intro: stable_conj stable_storeInv P)
  qed
  show ?thesis
  proof (cases "\<exists>m. re_manifest (sh_revision snapshot) = Some m \<and> re_stateDigest (sh_revision snapshot) = sl_digest lib encoded")
    case True
    then obtain m parts where m: "re_manifest (sh_revision snapshot) = Some m" "mn_chunks m = rootChunks lib b"
      "map ch_digest (mn_chunks m) = map (sl_digest lib) parts" "sl_digest lib (concat parts) = sl_digest lib encoded"
      using s(4) b by (auto simp: loadedFrom_def)
    have enc: "concat parts = encoded" using inj m(4) by (rule injD)
    have "stagedOn lib K b (mn_chunks m) s" using s m(2) by (intro stagedOn_own) auto
    then have "upholds serves (storeProtocol lib K) (swaps lib K a0 data) ?post (Done (Inr (mn_chunks m))) s"
      using s(1,2) m(3) enc
      by (intro upholds_Done [where P = "\<lambda>s. storeInv lib K s \<and> P s \<and> stagedOn lib K b (mn_chunks m) s",
            OF _ stable_conj [OF stable_storeInv stable_conj [OF P stable_stagedOn]]]) auto
    then show ?thesis using True m(1) by (simp add: stageState_def)
  next
    case False
    then show ?thesis using fresh by (auto simp: stageState_def split: option.split)
  qed
qed

section \<open>Publishing\<close>

text \<open>A version of the root that describes the committed history has been stored (or was there already).\<close>

definition committed :: "StoreLibrary \<Rightarrow> key \<Rightarrow> ConfigMap \<Rightarrow> HPAPlusData \<Rightarrow> server \<Rightarrow> bool" where
  "committed lib K a0 data s \<longleftrightarrow> (\<exists>d. knownRoot d s \<and> mapKey d = K \<and> cm_uid d = cm_uid a0 \<and> describes lib data (dataAt d configMapDataKey))"

lemma stable_committed: "stable (storeProtocol lib K) (committed lib K a0 data)"
  using stable_knownRoot [of lib K] unfolding stable_def committed_def by blast

abbreviation (input) commit_post :: "StoreLibrary \<Rightarrow> key \<Rightarrow> ConfigMap \<Rightarrow> HPAPlusData \<Rightarrow> ioerror + unit \<Rightarrow> server \<Rightarrow> bool" where
  "commit_post lib K a0 data \<equiv> (\<lambda>x s. storeInv lib K s \<and> (x = Inr () \<longrightarrow> committed lib K a0 data s))"

lemma upholds_failed:
  assumes "storeInv lib K s"
  shows "upholds serves (storeProtocol lib K) guar (commit_post lib K a0 data) (Done (Inl e)) s"
  by (rule upholds_Done [where P = "storeInv lib K", OF assms stable_storeInv]) simp

lemma upholds_succeeded:
  assumes "storeInv lib K s" "committed lib K a0 data s"
  shows "upholds serves (storeProtocol lib K) guar (commit_post lib K a0 data) (Done x) s"
  by (rule upholds_Done [where P = "\<lambda>s. storeInv lib K s \<and> committed lib K a0 data s", OF _ stable_conj [OF stable_storeInv stable_committed]])
    (use assms in auto)

text \<open>Replacing the payload of the current root \<open>b\<close>.\<close>

lemma replace_root:
  assumes s: "storeInv lib K s" "sv_objects s K = Some b" and d: "revisionOf (b\<lparr>cm_data := Some kvs\<rparr>) d" "freshVersion s (cm_resourceVersion d)"
    and refs: "stagedOn lib K b (rootChunks lib d) s"
    and b: "cm_uid b = cm_uid a0" "dataAt b configMapDataKey = dataAt a0 configMapDataKey"
    and data: "describes lib data (dataAt d configMapDataKey)"
  shows "swaps lib K a0 data s (stored s d)"
proof -
  note f = revisionOf_fields [OF d(1)]
  have bK: "mapKey b = K" "b \<in> sv_history s" "cm_uid b \<noteq> ''''"
    using s versionsUniqueD(1,2,3) [of K s] unfolding storeInv_def by blast+
  have key: "mapKey d = K" using f(7) bK(1) by (simp add: mapKey_def)
  have same: "cm_uid d = cm_uid b" "cm_owners d = cm_owners b" "cm_namespace d = cm_namespace b" "fenceAt d = fenceAt b"
    using f by (auto simp: fenceAt_def FenceOf_def)
  have at: "chunkAt s d = chunkAt s b" "presentChunk lib s d = presentChunk lib s b"
    using same by (auto simp: fun_eq_iff chunkAt_def presentChunk_def holdsChunk_def split: option.split)
  have "rootFollows lib s b d" using refs s(2) same at by (auto simp: rootFollows_def stagedOn_def)
  then have p: "storeProtocol lib K s (stored s d)"
    using s d(2) key same bK(3) refs at by (intro protocol_store_root) (auto simp: stagedOn_def)
  moreover have "replaces lib K a0 data s (stored s d)"
    using s(2) b data key same(1) by (auto simp: replaces_def payloadAt_def)
  ultimately show ?thesis by (simp add: swaps_def)
qed

text \<open>What holds of the root \<open>d\<close> once it is published with the manifest \<open>m\<close> under the fence \<open>F\<close>.\<close>

definition published :: "StoreLibrary \<Rightarrow> key \<Rightarrow> ConfigMap \<Rightarrow> HPAPlusData \<Rightarrow> Manifest \<Rightarrow> nat \<Rightarrow> ConfigMap \<Rightarrow> server \<Rightarrow> bool" where
  "published lib K a0 data m F d s \<longleftrightarrow> fencedFrom lib K (cm_uid d) F (manifestNames (Some m)) s \<and> committed lib K a0 data s"

lemma stable_published: "stable (storeProtocol lib K) (published lib K a0 data m F d)"
  unfolding published_def by (rule stable_conj [OF stable_fencedFrom stable_committed])

lemma published_root:
  assumes "sv_objects s K = Some d" "knownRoot d s" "revisionOf (b\<lparr>cm_data := Some (put configMapDataKey raw kvs)\<rparr>) d"
    and "fenceAt b = F" "mapKey b = K" "cm_uid b = cm_uid a0" "describes lib data raw"
    and "\<And>d. dataAt d configMapDataKey = raw \<Longrightarrow> rootChunks lib d = mn_chunks m"
  shows "published lib K a0 data m F d s"
proof -
  note f = revisionOf_fields [OF assms(3)]
  have d: "dataAt d configMapDataKey = raw" "fenceAt d = F" "mapKey d = K" "cm_uid d = cm_uid a0"
    using f assms(4-6) by (auto simp: fenceAt_def FenceOf_def mapKey_def)
  then show ?thesis
    using assms(1,2,7) assms(8) [OF d(1)] by (auto simp: published_def fencedFrom_def manifestNames_def knownRoot_def committed_def)
qed

lemma upholds_publish_update:
  fixes b raw kvs
  defines "pub \<equiv> b\<lparr>cm_data := Some (put configMapDataKey raw kvs)\<rparr>"
  assumes F: "fenceAt b = F" and bK: "mapKey b = K"
    and b: "cm_uid b = cm_uid a0" "dataAt b configMapDataKey = dataAt a0 configMapDataKey"
    and raw: "describes lib data raw" and listed: "\<And>d. dataAt d configMapDataKey = raw \<Longrightarrow> rootChunks lib d = mn_chunks m"
    and s: "storeInv lib K s" "stagedOn lib K b (mn_chunks m) s"
  shows "upholds serves (storeProtocol lib K) (swaps lib K a0 data)
    (\<lambda>x s. storeInv lib K s \<and> stagedOn lib K b (mn_chunks m) s \<and>
       (\<forall>d. x = Inr d \<longrightarrow> revisionOf pub d \<and> knownRoot d s \<and> published lib K a0 data m F d s)) (mapCall (UpdateMap pub)) s"
proof (rule upholds_update [where ?a0.0 = b])
  note published = published_root [OF _ _ _ F bK b(1) raw listed]
  show "swaps lib K a0 data s2 (stored s2 d) \<and> published lib K a0 data m F d (stored s2 d)"
    if "storeInv lib K s2" "stagedOn lib K b (mn_chunks m) s2" "sv_objects s2 K = Some b" "revisionOf pub d"
      "freshVersion s2 (cm_resourceVersion d)" for s2 d
  proof
    have raw_d: "dataAt d configMapDataKey = raw" using revisionOf_fields(8) [OF that(4)] by (simp add: pub_def)
    have "mapKey d = K" using revisionOf_fields(7) [OF that(4)] bK by (simp add: mapKey_def pub_def)
    then show "published lib K a0 data m F d (stored s2 d)"
      using published [of "stored s2 d" d] that(4) by (simp add: knownRoot_def pub_def)
    show "swaps lib K a0 data s2 (stored s2 d)"
      using replace_root [OF that(1,3) that(4) [unfolded pub_def] that(5)] that(2) listed [OF raw_d] b raw raw_d by simp
  qed
  show "published lib K a0 data m F b s2"
    if "storeInv lib K s2" "stagedOn lib K b (mn_chunks m) s2" "sv_objects s2 K = Some b" "revisionOf pub b" for s2
    using published that by (simp add: stagedOn_def knownRoot_def pub_def)
  show "stable (storeProtocol lib K) (published lib K a0 data m F d)" for d by (rule stable_published)
  show "knownRoot b s" using s(2) by (simp add: stagedOn_def knownRoot_def)
qed (use s swaps_refl bK in \<open>auto simp: swaps_def mapKey_def pub_def intro: stable_stagedOn\<close>)

lemma upholds_publish_cleanup:
  assumes K: "K = historyRootKey owner" and "cm_namespace d = fst K" "storeInv lib K s" "published lib K a0 data m F d s"
  shows "upholds serves (storeProtocol lib K) (swaps lib K a0 data) (commit_post lib K a0 data)
    (prog_bind (cleanup lib pages d (Some m) F) (\<lambda>_. Done (Inr ()))) s"
proof (rule upholds_bind)
  show "upholds serves (storeProtocol lib K) (swaps lib K a0 data)
      (\<lambda>x s. storeInv lib K s \<and> fencedFrom lib K (cm_uid d) F (manifestNames (Some m)) s \<and> committed lib K a0 data s)
      (cleanup lib pages d (Some m) F) s"
    using assms(2-4) by (intro upholds_cleanup [OF K stable_conj [OF stable_fencedFrom stable_committed]]) (auto simp: published_def)
qed (use upholds_succeeded in blast)

lemma upholds_publish:
  assumes K: "K = historyRootKey owner" and F: "fenceAt b = F" and bK: "mapKey b = K"
    and b: "cm_uid b = cm_uid a0" "dataAt b configMapDataKey = dataAt a0 configMapDataKey"
    and m: "mn_schemaVersion m = 2" "mn_pendingScale m = d_pendingScale data"
    and parts: "map ch_digest (mn_chunks m) = map (sl_digest lib) parts"
      "EncodeHistory lib (data\<lparr>d_pendingScale := None\<rparr>) = Inr (concat parts)"
    and s: "storeInv lib K s" "stagedOn lib K b (mn_chunks m) s"
  shows "upholds serves (storeProtocol lib K) (swaps lib K a0 data) (commit_post lib K a0 data) (publish lib pages b F m) s"
proof (cases "\<exists>raw kvs. sl_marshalManifest lib m = Inr raw \<and> cm_data b = Some kvs")
  case False
  then show ?thesis using upholds_failed [OF s(1)] by (cases "sl_marshalManifest lib m"; cases "cm_data b") (auto simp: publish_def lift_result_def)
next
  case True
  then obtain raw kvs where ok: "sl_marshalManifest lib m = Inr raw" "cm_data b = Some kvs" by blast
  let ?pub = "b\<lparr>cm_data := Some (put configMapDataKey raw kvs)\<rparr>"
  have raw: "describes lib data raw" unfolding describes_def using ok m parts by blast
  have "jsonFaithful lib" using s(1) by (simp add: storeInv_def)
  note upd = upholds_publish_update [OF F bK b raw rootChunks_manifest [OF this ok(1) m(1)]]
  have tail: "upholds serves (storeProtocol lib K) (swaps lib K a0 data) (commit_post lib K a0 data)
      (prog_bind (cleanup lib pages d (Some m) F) (\<lambda>_. Done (Inr ()))) s1"
    if "storeInv lib K s1" "revisionOf ?pub d" "published lib K a0 data m F d s1" for d s1
    using that revisionOf_fields(1) [OF that(2)] bK by (intro upholds_publish_cleanup [OF K]) (auto simp: mapKey_def)
  have check: "upholds serves (storeProtocol lib K) (swaps lib K a0 data)
      (\<lambda>x s. storeInv lib K s \<and> stagedOn lib K b (mn_chunks m) s \<and> True) (outcomeCall CheckPublication) s"
    by (rule upholds_outcome_quiet [OF s(1) swaps_refl s(2) stable_stagedOn])
  have "upholds serves (storeProtocol lib K) (swaps lib K a0 data) (commit_post lib K a0 data)
      (proceed (outcomeCall CheckPublication) (\<lambda>_. proceed (mapCall (UpdateMap ?pub)) (\<lambda>d.
         prog_bind (cleanup lib pages d (Some m) F) (\<lambda>_. Done (Inr ()))))) s"
  proof (rule upholds_proceed [OF check])
    show "upholds serves (storeProtocol lib K) (swaps lib K a0 data) (commit_post lib K a0 data) (proceed (mapCall (UpdateMap ?pub)) (\<lambda>d.
         prog_bind (cleanup lib pages d (Some m) F) (\<lambda>_. Done (Inr ())))) s1"
      if "storeInv lib K s1 \<and> stagedOn lib K b (mn_chunks m) s1 \<and> True" for s1
      by (rule upholds_proceed [OF upd]) (use that tail upholds_failed in blast)+
  qed (use upholds_failed in blast)
  then show ?thesis using ok upholds_failed [OF s(1)] by (simp add: publish_def lift_result_def Let_def)
qed

section \<open>Commit\<close>

lemma upholds_updateConfigMapData:
  assumes s: "storeInv lib K s" "knownRoot a0 s" and a0: "mapKey a0 = K"
  shows "upholds serves (storeProtocol lib K) (swaps lib K a0 data) (commit_post lib K a0 data) (updateConfigMapData lib a0 data) s"
proof (cases "EncodeHistory lib data")
  case (Inl e)
  then show ?thesis using upholds_failed [OF s(1)] by (simp add: updateConfigMapData_def lift_result_def)
next
  case (Inr p)
  let ?new = "a0\<lparr>cm_data := Some (put configMapDataKey p (opt_default [] (cm_data a0)))\<rparr>"
  have lib: "jsonFaithful lib" using s(1) by (simp add: storeInv_def)
  have p: "describes lib data p" using Inr by (simp add: describes_def)
  have Q: "committed lib K a0 data s1" if "knownRoot d s1" "revisionOf ?new d" for d s1
    using revisionOf_fields(3,7,8) [OF that(2)] that(1) a0 p by (auto simp: committed_def mapKey_def)
  have "upholds serves (storeProtocol lib K) (swaps lib K a0 data)
      (\<lambda>x s. storeInv lib K s \<and> knownRoot a0 s \<and> (\<forall>d. x = Inr d \<longrightarrow> revisionOf ?new d \<and> knownRoot d s \<and> committed lib K a0 data s))
      (mapCall (UpdateMap ?new)) s"
  proof (rule upholds_update [where ?a0.0 = a0])
    show "swaps lib K a0 data s1 (stored s1 d) \<and> committed lib K a0 data (stored s1 d)"
      if "storeInv lib K s1" "knownRoot a0 s1" "sv_objects s1 K = Some a0" "revisionOf ?new d" "freshVersion s1 (cm_resourceVersion d)" for s1 d
    proof
      have d: "dataAt d configMapDataKey = p" using revisionOf_fields(8) [OF that(4)] by simp
      have "rootChunks lib d = []" using rootChunks_encoded [OF lib Inr d] .
      then show "swaps lib K a0 data s1 (stored s1 d)"
        using replace_root [OF that(1,3,4,5)] that(2) p d by (simp add: stagedOn_def knownRoot_def)
      show "committed lib K a0 data (stored s1 d)" using Q [OF _ that(4)] by (simp add: knownRoot_def)
    qed
    show "committed lib K a0 data s1" if "knownRoot a0 s1" "revisionOf ?new a0" for s1 using Q that .
  qed (use s a0 swaps_refl in \<open>auto simp: swaps_def mapKey_def intro: stable_knownRoot stable_committed\<close>)
  then have upd: "upholds serves (storeProtocol lib K) (swaps lib K a0 data) (commit_post lib K a0 data)
      (proceed (mapCall (UpdateMap ?new)) (\<lambda>_. Done (Inr ()))) s"
    by (rule upholds_proceed) (use upholds_failed upholds_succeeded in blast)+
  have "committed lib K a0 data s" if "dataAt a0 configMapDataKey = p" using that s(2) a0 p by (auto simp: committed_def)
  then show ?thesis
    using Inr upd upholds_failed [OF s(1)] upholds_succeeded [OF s(1)]
    by (auto simp: updateConfigMapData_def lift_result_def Let_def split: sum.split)
qed

lemma upholds_legacyCommit:
  assumes s: "storeInv lib K s" "knownRoot a0 s" and a0: "mapKey a0 = K"
  shows "upholds serves (storeProtocol lib K) (swaps lib K a0 data) (commit_post lib K a0 data) (legacyCommit lib a0 data) s"
  unfolding legacyCommit_def
  by (rule upholds_proceed [OF upholds_outcome_quiet [OF s(1) swaps_refl s(2) stable_knownRoot]])
    (use upholds_updateConfigMapData [OF _ _ a0] upholds_failed in blast)+

text \<open>Advancing the fence leaves the payload, and leaves nothing to older writers.\<close>

lemma upholds_fence:
  assumes s: "storeInv lib K s" "loadedFrom lib K snapshot s" and a0: "a0 = re_root (sh_revision snapshot)"
    and F: "FenceOf a0 = Inr f" "F = f + 1"
  shows "upholds serves (storeProtocol lib K) (swaps lib K a0 data)
      (\<lambda>x s. storeInv lib K s \<and> loadedFrom lib K snapshot s \<and> (\<forall>b. x = Inr b \<longrightarrow> revisionOf (advanceFence a0 F) b \<and> knownRoot b s \<and>
         fencedFrom lib K (cm_uid b) F (manifestNames (re_manifest (sh_revision snapshot))) s))
      (mapCall (UpdateMap (advanceFence a0 F))) s"
proof (rule upholds_update [where ?a0.0 = a0])
  let ?keep = "manifestNames (re_manifest (sh_revision snapshot))"
  have a0K: "mapKey a0 = K" "knownRoot a0 s" using s(2) a0 by (auto simp: loadedFrom_def)
  show "mapKey (advanceFence a0 F) = K" "knownRoot a0 s" using a0K by (simp_all add: advanceFence_def mapKey_def)
  have Fmax: "F \<le> MaxFence" using FenceOf_bound [OF F(1)] F(2) by simp
  have keep: "ch_name ` set (rootChunks lib a0) = ?keep"
    using s(2) a0 by (auto simp: loadedFrom_def manifestNames_def split: option.splits)
  have b: "fenceAt b = F" "rootChunks lib b = rootChunks lib a0" "cm_uid b = cm_uid a0" "mapKey b = K"
      "cm_owners b = cm_owners a0" "dataAt b = dataAt a0" if "revisionOf (advanceFence a0 F) b" for b
  proof -
    note f = revisionOf_fields [OF that]
    show "fenceAt b = F" using f(5) Fmax by (intro fenceAt_annotated) (simp_all add: advanceFence_def)
    show d: "dataAt b = dataAt a0" unfolding f(8) by (simp add: advanceFence_def dataAt_def fun_eq_iff)
    show "rootChunks lib b = rootChunks lib a0" by (simp add: rootChunks_def d)
    show "cm_uid b = cm_uid a0" "mapKey b = K" "cm_owners b = cm_owners a0"
      using f a0K(1) by (simp_all add: advanceFence_def mapKey_def)
  qed
  have Q: "fencedFrom lib K (cm_uid b) F ?keep s1" if "sv_objects s1 K = Some b" "b \<in> sv_history s1" "revisionOf (advanceFence a0 F) b" for b s1
    using that keep b [OF that(3)] by (auto simp: fencedFrom_def)
  show "swaps lib K a0 data s1 (stored s1 b) \<and> fencedFrom lib K (cm_uid b) F ?keep (stored s1 b)"
    if "storeInv lib K s1" "sv_objects s1 K = Some a0" "revisionOf (advanceFence a0 F) b" "freshVersion s1 (cm_resourceVersion b)" for s1 b
  proof
    note bb = b [OF that(3)]
    show "fencedFrom lib K (cm_uid b) F ?keep (stored s1 b)" using Q [of "stored s1 b" b] that(3) bb(4) by simp
    have ns: "cm_namespace b = cm_namespace a0" using bb(4) a0K(1) by (auto simp: mapKey_def)
    have uid: "cm_uid b \<noteq> ''''" using that(1,2) versionsUniqueD(1,3) [of K s1] bb(3) unfolding storeInv_def by metis
    have chunks: "(cm_namespace b, ch_name ref) \<noteq> K \<and> presentChunk lib s1 b ref" if "ref \<in> set (rootChunks lib b)" for ref
      using that \<open>storeInv lib K s1\<close> \<open>sv_objects s1 K = Some a0\<close> bb ns
      by (auto simp: storeInv_def rootComplete_def presentChunk_def chunkAt_def holdsChunk_def split: option.splits)
    have "rootFollows lib s1 a0 b" using bb F by (auto simp: rootFollows_def)
    then have "storeProtocol lib K s1 (stored s1 b)"
      using that bb uid chunks by (intro protocol_store_root) auto
    then show "swaps lib K a0 data s1 (stored s1 b)"
      using that(2) bb by (simp add: swaps_def payloadAt_def)
  qed
  show "fencedFrom lib K (cm_uid a0) F ?keep s1"
    if "storeInv lib K s1" "loadedFrom lib K snapshot s1" "sv_objects s1 K = Some a0" "revisionOf (advanceFence a0 F) a0" for s1
    using Q that a0 by (auto simp: loadedFrom_def knownRoot_def)
qed (use s swaps_refl in \<open>auto simp: swaps_def advanceFence_def intro: stable_loadedFrom stable_fencedFrom\<close>)

lemma upholds_allocate:
  assumes K: "K = historyRootKey owner" and inj: "inj (sl_digest lib)"
    and s: "storeInv lib K s" "loadedFrom lib K snapshot s" and a0: "a0 = re_root (sh_revision snapshot)"
    and F: "FenceOf a0 = Inr f" "F = f + 1"
    and enc: "EncodeHistory lib (data\<lparr>d_pendingScale := None\<rparr>) = Inr encoded"
  shows "upholds serves (storeProtocol lib K) (swaps lib K a0 data) (commit_post lib K a0 data)
      (proceed (mapCall (UpdateMap (advanceFence a0 F))) (\<lambda>b.
       proceed (cleanup lib pages b (re_manifest (sh_revision snapshot)) F) (\<lambda>_.
       proceed (stageState lib (sh_revision snapshot) b F encoded) (\<lambda>chunks.
         publish lib pages b F \<lparr>mn_schemaVersion = 2, mn_chunks = chunks, mn_pendingScale = d_pendingScale data\<rparr>)))) s"
proof (rule upholds_proceed [OF upholds_fence [OF s a0 F]])
  let ?U = "upholds serves (storeProtocol lib K) (swaps lib K a0 data)"
  fix b s1
  assume "storeInv lib K s1 \<and> loadedFrom lib K snapshot s1 \<and> (\<forall>b'. Inr b = (Inr b' :: ioerror + _) \<longrightarrow> revisionOf (advanceFence a0 F) b' \<and>
    knownRoot b' s1 \<and> fencedFrom lib K (cm_uid b') F (manifestNames (re_manifest (sh_revision snapshot))) s1)"
  then have s1: "storeInv lib K s1" "loadedFrom lib K snapshot s1" "revisionOf (advanceFence a0 F) b" "knownRoot b s1"
    "fencedFrom lib K (cm_uid b) F (manifestNames (re_manifest (sh_revision snapshot))) s1" by auto
  note f = revisionOf_fields [OF s1(3)]
  have Fmax: "F \<le> MaxFence" using FenceOf_bound [OF F(1)] F(2) by simp
  have b: "fenceAt b = F" "cm_uid b = cm_uid a0" "mapKey b = K" "dataAt b = dataAt a0" "cm_namespace b = fst K"
  proof -
    have K': "mapKey a0 = K" using s(2) a0 by (simp add: loadedFrom_def)
    show "fenceAt b = F" using f(5) Fmax by (intro fenceAt_annotated) (simp_all add: advanceFence_def)
    show "cm_uid b = cm_uid a0" "mapKey b = K" "cm_namespace b = fst K" using f K' by (auto simp: advanceFence_def mapKey_def)
    show "dataAt b = dataAt a0" unfolding f(8) by (simp add: advanceFence_def dataAt_def fun_eq_iff)
  qed
  let ?P = "\<lambda>s. fencedFrom lib K (cm_uid b) F (manifestNames (re_manifest (sh_revision snapshot))) s \<and> loadedFrom lib K snapshot s \<and> knownRoot b s"
  have stP: "stable (storeProtocol lib K) ?P"
    by (intro stable_conj stable_fencedFrom stable_loadedFrom stable_knownRoot)
  have stage: "?U (commit_post lib K a0 data) (proceed (stageState lib (sh_revision snapshot) b F encoded) (\<lambda>chunks.
      publish lib pages b F \<lparr>mn_schemaVersion = 2, mn_chunks = chunks, mn_pendingScale = d_pendingScale data\<rparr>)) s2"
    if s2: "storeInv lib K s2 \<and> ?P s2" for s2
  proof (rule upholds_proceed)
    show "?U (\<lambda>x s. storeInv lib K s \<and> True \<and> (\<forall>refs. x = Inr refs \<longrightarrow> stagedOn lib K b refs s \<and>
         (\<exists>parts. map ch_digest refs = map (sl_digest lib) parts \<and> concat parts = encoded)))
        (stageState lib (sh_revision snapshot) b F encoded) s2"
      using s2 b a0 by (intro upholds_stageState [OF K b(1) Fmax stable_const inj]) (auto simp: rootChunks_def)
    fix refs s3 assume "storeInv lib K s3 \<and> True \<and> (\<forall>refs'. Inr refs = (Inr refs' :: ioerror + _) \<longrightarrow> stagedOn lib K b refs' s3 \<and>
         (\<exists>parts. map ch_digest refs' = map (sl_digest lib) parts \<and> concat parts = encoded))"
    then obtain parts where "storeInv lib K s3" "stagedOn lib K b refs s3" "map ch_digest refs = map (sl_digest lib) parts" "concat parts = encoded"
      by blast
    then show "?U (commit_post lib K a0 data) (publish lib pages b F
        \<lparr>mn_schemaVersion = 2, mn_chunks = refs, mn_pendingScale = d_pendingScale data\<rparr>) s3"
      using enc b by (intro upholds_publish [OF K b(1,3)]) auto
  qed (use upholds_failed in blast)
  have "?U (\<lambda>x s. storeInv lib K s \<and> ?P s) (cleanup lib pages b (re_manifest (sh_revision snapshot)) F) s1"
    using s1 by (intro upholds_cleanup [OF K stP]) (auto simp: b)
  then show "?U (commit_post lib K a0 data) (proceed (cleanup lib pages b (re_manifest (sh_revision snapshot)) F) (\<lambda>_.
      proceed (stageState lib (sh_revision snapshot) b F encoded) (\<lambda>chunks.
        publish lib pages b F \<lparr>mn_schemaVersion = 2, mn_chunks = chunks, mn_pendingScale = d_pendingScale data\<rparr>))) s1"
    by (rule upholds_proceed) (use stage upholds_failed in blast)+
qed (use upholds_failed in blast)

lemma upholds_Commit:
  assumes K: "K = historyRootKey owner" and inj: "inj (sl_digest lib)"
    and s: "storeInv lib K s" "loadedFrom lib K snapshot s" and a0: "a0 = re_root (sh_revision snapshot)"
  shows "upholds serves (storeProtocol lib K) (swaps lib K a0 data) (commit_post lib K a0 data) (CommitStored lib pages snapshot data) s"
proof -
  have known: "knownRoot a0 s" "mapKey a0 = K" using s(2) a0 by (auto simp: loadedFrom_def)
  show ?thesis
    using upholds_failed [OF s(1)] upholds_legacyCommit [OF s(1) known] upholds_allocate [OF K inj s a0 _ refl]
    by (auto simp: CommitStored_def Let_def lift_result_def a0 [symmetric] split: sum.split)
qed

section \<open>Load\<close>

definition load_post :: "StoreLibrary \<Rightarrow> key \<Rightarrow> 'e + HistorySnapshot \<Rightarrow> server \<Rightarrow> bool" where
  "load_post lib K x s \<longleftrightarrow> storeInv lib K s \<and> (\<forall>snapshot. x = Inr snapshot \<longrightarrow> loadedFrom lib K snapshot s)"

lemma load_postD:
  "load_post lib K (Inl e) s \<Longrightarrow> storeInv lib K s"
  "load_post lib K (Inr snapshot) s \<Longrightarrow> storeInv lib K s \<and> loadedFrom lib K snapshot s"
  by (simp_all add: load_post_def)

lemma upholds_load_failed:
  "storeInv lib K s \<Longrightarrow> upholds serves (storeProtocol lib K) guar (load_post lib K) (Done (Inl e)) s"
  by (rule upholds_Done [where P = "storeInv lib K", OF _ stable_storeInv]) (simp_all add: load_post_def)

lemma upholds_loaded:
  "storeInv lib K s \<Longrightarrow> loadedFrom lib K snapshot s \<Longrightarrow> upholds serves (storeProtocol lib K) guar (load_post lib K) (Done (Inr snapshot)) s"
  by (rule upholds_Done [where P = "\<lambda>s. storeInv lib K s \<and> loadedFrom lib K snapshot s", OF _ stable_conj [OF stable_storeInv stable_loadedFrom]])
    (simp_all add: load_post_def)

lemma upholds_get_root:
  assumes "K = historyRootKey owner" "storeInv lib K s"
  shows "upholds serves (storeProtocol lib K) (storeProtocol lib K)
    (\<lambda>x s. storeInv lib K s \<and> (\<forall>c. x = Inr c \<longrightarrow> knownRoot c s \<and> mapKey c = K)) (mapCall (GetMap (historyRootKey owner))) s"
proof (rule upholds_mono)
  show "upholds serves (storeProtocol lib K) (storeProtocol lib K)
      (\<lambda>x s. storeInv lib K s \<and> True \<and> (\<forall>c. x = Inr c \<longrightarrow> knownRoot c s \<and> mapKey c = K)) (mapCall (GetMap (historyRootKey owner))) s"
    unfolding assms(1) [symmetric]
    by (rule upholds_get [where P = "\<lambda>_. True", OF assms(2) _ TrueI stable_const]) (rule protocol_refl)
qed simp_all

lemma upholds_readChunks:
  "storeInv lib K s \<Longrightarrow> knownRoot a s \<Longrightarrow>
    upholds serves (storeProtocol lib K) (storeProtocol lib K)
      (\<lambda>x s. storeInv lib K s \<and> knownRoot a s \<and> (\<forall>state'. x = Inr state' \<longrightarrow>
         (\<exists>parts. map ch_digest refs = map (sl_digest lib) parts \<and> state' = state @ concat parts)))
      (readChunks lib owner a refs state) s"
proof (induction refs arbitrary: state s)
  case Nil
  show ?case
    unfolding readChunks.simps
    by (rule upholds_Done [where P = "\<lambda>s. storeInv lib K s \<and> knownRoot a s", OF _ stable_conj [OF stable_storeInv stable_knownRoot]])
      (use Nil in auto)
next
  case (Cons ref refs)
  let ?post = "\<lambda>(x :: ioerror + string) s. storeInv lib K s \<and> knownRoot a s \<and> (\<forall>state'. x = Inr state' \<longrightarrow>
         (\<exists>parts. map ch_digest (ref # refs) = map (sl_digest lib) parts \<and> state' = state @ concat parts))"
  let ?U = "upholds serves (storeProtocol lib K) (storeProtocol lib K)"
  have failed: "?U ?post (Done (Inl e)) s1" if "storeInv lib K s1 \<and> knownRoot a s1" for e s1
    by (rule upholds_Done [where P = "\<lambda>s. storeInv lib K s \<and> knownRoot a s", OF _ stable_conj [OF stable_storeInv stable_knownRoot]])
      (use that in auto)
  show ?case
    unfolding readChunks.simps
  proof (rule upholds_proceed [OF upholds_get [where guar = "storeProtocol lib K", OF Cons.prems(1) _ Cons.prems(2) stable_knownRoot]])
    fix chunk s1
    assume "storeInv lib K s1 \<and> knownRoot a s1 \<and> (\<forall>c. Inr chunk = (Inr c :: ioerror + _) \<longrightarrow> knownRoot c s1 \<and> mapKey c = (cm_namespace a, ch_name ref))"
    then have s1: "storeInv lib K s1" "knownRoot a s1" by auto
    let ?bytes = "opt_default '''' (map_of (cm_binaryData chunk) ''state'')"
    have "?U ?post (readChunks lib owner a refs (state @ ?bytes)) s1" if "chunkOk lib owner a ref chunk"
    proof (rule upholds_mono [OF Cons.IH [OF s1]])
      have "ch_digest ref = sl_digest lib ?bytes" using that by (auto simp: chunkOk_def Let_def)
      then have "\<exists>parts'. map ch_digest (ref # refs) = map (sl_digest lib) parts' \<and> (state @ ?bytes) @ concat parts = state @ concat parts'"
        if "map ch_digest refs = map (sl_digest lib) parts" for parts
        using that by (intro exI [of _ "?bytes # parts"]) simp
      then show "?post x s2" if "storeInv lib K s2 \<and> knownRoot a s2 \<and> (\<forall>state'. x = Inr state' \<longrightarrow>
          (\<exists>parts. map ch_digest refs = map (sl_digest lib) parts \<and> state' = (state @ ?bytes) @ concat parts))" for x s2
        using that by blast
    qed
    then show "?U ?post (if \<not> chunkOk lib owner a ref chunk then Done (Inl chunkMismatch)
        else readChunks lib owner a refs (state @ ?bytes)) s1"
      using failed s1 by simp
  qed (rule protocol_refl, assumption, rule failed, blast)
qed

lemma DecodeManifest_chunks:
  assumes "DecodeManifest lib p a = Inr m" "p = dataAt a configMapDataKey" "sl_schema lib p = Inr 2"
  shows "mn_chunks m = rootChunks lib a"
  using assms by (auto simp: DecodeManifest_def rootChunks_def rbind_eq_Inr_iff split: if_splits option.splits)

lemma inline_root:
  assumes "jsonFaithful lib" "dataAt a configMapDataKey = '''' \<or> is_ok (decodeHistory lib (dataAt a configMapDataKey))"
  shows "rootChunks lib a = []"
proof -
  have "sl_schema lib (dataAt a configMapDataKey) \<noteq> Inr 2"
    using assms by (auto simp: jsonFaithful_def decodeHistory_def DecodeBounded_def Let_def is_ok_rbind split: if_splits)
  then show ?thesis by (simp add: rootChunks_def)
qed

lemma configMapSnapshot_revision:
  "configMapSnapshot lib a data = Inr snapshot \<Longrightarrow> sh_revision snapshot = \<lparr>re_root = a, re_manifest = None, re_stateDigest = ''''\<rparr>"
  by (auto simp: configMapSnapshot_def rbind_eq_Inr_iff Let_def)

lemma readRoot_schema: "sl_schema lib p \<noteq> Inr 2 \<Longrightarrow> p = dataAt a configMapDataKey \<Longrightarrow> rootChunks lib a = []"
  by (simp add: rootChunks_def)

lemma upholds_readRoot:
  assumes s: "storeInv lib K s" "knownRoot a s" and a: "mapKey a = K"
  shows "upholds serves (storeProtocol lib K) (storeProtocol lib K) (load_post lib K) (readRoot lib owner a) s"
proof -
  let ?U = "upholds serves (storeProtocol lib K) (storeProtocol lib K)"
  let ?p = "dataAt a configMapDataKey"
  have lib: "jsonFaithful lib" using s(1) by (simp add: storeInv_def)
  have "?U (load_post lib K) (lift_result (readInline lib a)) s" if "sl_schema lib ?p \<noteq> Inr 2"
  proof (cases "readInline lib a")
    case (Inr snapshot)
    then have "sh_revision snapshot = \<lparr>re_root = a, re_manifest = None, re_stateDigest = ''''\<rparr>"
      by (auto simp: readInline_def rbind_eq_Inr_iff allocated_def dest: configMapSnapshot_revision)
    then have "loadedFrom lib K snapshot s" using s(2) a readRoot_schema [OF that refl] by (simp add: loadedFrom_def)
    then show ?thesis using Inr upholds_loaded [OF s(1)] by (simp add: lift_result_def)
  qed (use upholds_load_failed [OF s(1)] in \<open>simp add: lift_result_def\<close>)
  moreover have "?U (load_post lib K) (proceed (readChunks lib owner a (mn_chunks m) '''') (\<lambda>state.
      lift_result (manifestSnapshot lib a m state))) s" if m: "DecodeManifest lib ?p a = Inr m" "sl_schema lib ?p = Inr 2" for m
  proof (rule upholds_proceed [OF upholds_readChunks [OF s]])
    fix state s1 assume "storeInv lib K s1 \<and> knownRoot a s1 \<and> (\<forall>state'. Inr state = (Inr state' :: ioerror + _) \<longrightarrow>
         (\<exists>parts. map ch_digest (mn_chunks m) = map (sl_digest lib) parts \<and> state' = '''' @ concat parts))"
    then obtain parts where s1: "storeInv lib K s1" "knownRoot a s1" "map ch_digest (mn_chunks m) = map (sl_digest lib) parts" "state = concat parts"
      by auto
    show "?U (load_post lib K) (lift_result (manifestSnapshot lib a m state)) s1"
    proof (cases "manifestSnapshot lib a m state")
      case (Inr snapshot)
      then have "sh_revision snapshot = \<lparr>re_root = a, re_manifest = Some m, re_stateDigest = sl_digest lib state\<rparr>"
        by (auto simp: manifestSnapshot_def rbind_eq_Inr_iff Let_def split: if_splits)
      then have "loadedFrom lib K snapshot s1"
        using s1 a DecodeManifest_chunks [OF m(1) refl m(2)] by (auto simp: loadedFrom_def)
      then show ?thesis using Inr upholds_loaded [OF s1(1)] by (simp add: lift_result_def)
    qed (use upholds_load_failed [OF s1(1)] in \<open>simp add: lift_result_def\<close>)
  qed (simp add: upholds_load_failed)
  ultimately show ?thesis
    unfolding readRoot_def
    by (cases "DecodeManifest lib ?p a"; cases "sl_schema lib ?p = Inr 2")
      (simp_all add: lift_result_simps upholds_load_failed [OF s(1)])
qed

text \<open>Creating the root.\<close>

lemma upholds_create_root:
  assumes K: "K = historyRootKey owner" and s: "storeInv lib K s" and p: "EncodeHistory lib emptyHistory = Inr p"
  shows "upholds serves (storeProtocol lib K) (storeProtocol lib K)
    (\<lambda>x s. storeInv lib K s \<and> True \<and> (\<forall>d. x = Inr d \<longrightarrow> knownRoot d s \<and> mapKey d = K \<and> rootChunks lib d = []))
    (mapCall (CreateMap (initialMap owner p))) s"
proof (rule upholds_create)
  have key: "mapKey (initialMap owner p) = K" by (simp add: K initialMap_def mapKey_def historyRootKey_def)
  show "storeProtocol lib K s1 (stored s1 d) \<and> mapKey d = K \<and> rootChunks lib d = []"
    if "storeInv lib K s1" "sv_objects s1 (mapKey (initialMap owner p)) = None" "freshUid s1 u" "freshVersion s1 v"
      "d = (initialMap owner p)\<lparr>cm_uid := u, cm_resourceVersion := v\<rparr>" for s1 u v d
  proof -
    have d: "mapKey d = K" "cm_uid d = u" "cm_resourceVersion d = v" "dataAt d configMapDataKey = p"
      using that(5) key by (auto simp: mapKey_def dataAt_def initialMap_def)
    have "rootChunks lib d = []" using rootChunks_encoded [OF _ p d(4)] that(1) by (simp add: storeInv_def)
    then show ?thesis
      using that(1-4) d key by (auto intro!: protocol_store_root simp: freshUid_def)
  qed
qed (use s protocol_refl in \<open>auto intro: stable_const\<close>)

lemma upholds_legacyLoad:
  assumes K: "K = historyRootKey owner" and s: "storeInv lib K s"
  shows "upholds serves (storeProtocol lib K) (storeProtocol lib K) (load_post lib K) (legacyLoad lib owner) s"
proof -
  let ?U = "upholds serves (storeProtocol lib K) (storeProtocol lib K)"
  define mid where "mid = (\<lambda>(x :: ioerror + (ConfigMap \<times> HPAPlusData)) s. storeInv lib K s \<and>
     (\<forall>a data. x = Inr (a, data) \<longrightarrow> knownRoot a s \<and> mapKey a = K \<and> rootChunks lib a = []))"
  have failed: "?U mid (Done (Inl e)) s1" if "storeInv lib K s1" for e s1
    by (rule upholds_Done [where P = "storeInv lib K", OF that stable_storeInv]) (simp add: mid_def)
  have found: "?U mid (Done (Inr (a, data))) s1" if "storeInv lib K s1" "knownRoot a s1" "mapKey a = K" "rootChunks lib a = []" for a data s1
    by (rule upholds_Done [where P = "\<lambda>s. storeInv lib K s \<and> knownRoot a s", OF _ stable_conj [OF stable_storeInv stable_knownRoot]])
      (use that in \<open>auto simp: mid_def\<close>)
  have readable: "?U mid (lift_result (readConfigMap lib owner a)) s1" if "storeInv lib K s1" "knownRoot a s1" "mapKey a = K" for a s1
  proof (cases "readConfigMap lib owner a")
    case (Inr r)
    then have "dataAt a configMapDataKey = '''' \<or> is_ok (decodeHistory lib (dataAt a configMapDataKey))" "fst r = a"
      by (auto simp: readConfigMap_def rbind_eq_Inr_iff is_ok_iff split: if_splits)
    then show ?thesis using Inr found [OF that inline_root] that(1) by (cases r) (simp add: lift_result_def storeInv_def)
  qed (use failed that in \<open>simp add: lift_result_def\<close>)
  note get = upholds_get_root [OF K]
  have create: "?U mid (proceed (lift_result (EncodeHistory lib emptyHistory)) (\<lambda>payload.
      prog_bind (mapCall (CreateMap (initialMap owner payload))) (\<lambda>created. case created of
          Inr configMap \<Rightarrow> Done (Inr (configMap, emptyHistory\<lparr>d_schemaVersion := 1\<rparr>))
        | Inl e \<Rightarrow> if e \<noteq> Failure ''AlreadyExists'' then Done (Inl e)
            else proceed (mapCall (GetMap (historyRootKey owner))) (\<lambda>configMap. lift_result (readConfigMap lib owner configMap))))) s1"
    if s1: "storeInv lib K s1" for s1
  proof (cases "EncodeHistory lib emptyHistory")
    case (Inl e)
    then show ?thesis using failed s1 by (simp add: lift_result_def)
  next
    case (Inr p)
    have again: "?U mid (proceed (mapCall (GetMap (historyRootKey owner))) (\<lambda>configMap. lift_result (readConfigMap lib owner configMap))) s2"
      if "storeInv lib K s2" for s2
      by (rule upholds_proceed [OF get [OF that]]) (use readable failed in blast)+
    have "?U mid (prog_bind (mapCall (CreateMap (initialMap owner p))) (\<lambda>created. case created of
          Inr configMap \<Rightarrow> Done (Inr (configMap, emptyHistory\<lparr>d_schemaVersion := 1\<rparr>))
        | Inl e \<Rightarrow> if e \<noteq> Failure ''AlreadyExists'' then Done (Inl e)
            else proceed (mapCall (GetMap (historyRootKey owner))) (\<lambda>configMap. lift_result (readConfigMap lib owner configMap)))) s1"
      by (rule upholds_bind [OF upholds_create_root [OF K s1 Inr]]) (auto split: sum.split simp: found failed again)
    then show ?thesis using Inr by (simp add: lift_result_def)
  qed
  have "?U mid (getOrCreateConfigMapData lib owner) s"
    unfolding getOrCreateConfigMapData_def
    by (rule upholds_bind [OF get [OF s]]) (auto split: sum.split simp: failed readable create)
  then show ?thesis
    unfolding legacyLoad_def
  proof (rule upholds_proceed)
    fix r s1 assume r: "mid (Inr r) s1"
    obtain a data where ad: "r = (a, data)" by force
    show "?U (load_post lib K) (case r of (cm, data) \<Rightarrow> lift_result (configMapSnapshot lib cm data)) s1"
    proof (cases "configMapSnapshot lib a data")
      case (Inr snapshot)
      have "loadedFrom lib K snapshot s1" using r ad configMapSnapshot_revision [OF Inr] by (simp add: loadedFrom_def mid_def)
      then show ?thesis using Inr r ad by (simp add: upholds_loaded lift_result_def mid_def)
    qed (use r ad in \<open>simp add: upholds_load_failed lift_result_def mid_def\<close>)
  qed (use upholds_load_failed in \<open>simp add: mid_def\<close>)
qed

lemma loaded_allocated: "loadedFrom lib K (allocated snapshot) s = loadedFrom lib K snapshot s"
proof -
  have "sh_revision (allocated snapshot) = sh_revision snapshot" by (simp add: allocated_def)
  then show ?thesis unfolding loadedFrom_def by (simp only:)
qed

lemma upholds_loadOnce:
  assumes K: "K = historyRootKey owner" and s: "storeInv lib K s"
  shows "upholds serves (storeProtocol lib K) (storeProtocol lib K) (load_post lib K) (loadOnce lib owner) s"
proof -
  let ?U = "upholds serves (storeProtocol lib K) (storeProtocol lib K)"
  have legacy: "?U (load_post lib K) (prog_bind (legacyLoad lib owner) (\<lambda>r. case r of
      Inl e \<Rightarrow> Done (Inl (e, None)) | Inr snapshot \<Rightarrow> Done (Inr (allocated snapshot)))) s1" if "storeInv lib K s1" for s1
    by (rule upholds_bind [OF upholds_legacyLoad [OF K that]])
      (auto split: sum.split simp: upholds_load_failed loaded_allocated intro!: upholds_loaded dest!: load_postD)
  have reading: "?U (load_post lib K) (prog_bind (readRoot lib owner a) (\<lambda>r. case r of
      Inl e \<Rightarrow> Done (Inl (e, Some a)) | Inr snapshot \<Rightarrow> Done (Inr snapshot))) s1" if "storeInv lib K s1" "knownRoot a s1" "mapKey a = K" for a s1
    by (rule upholds_bind [OF upholds_readRoot [OF that]]) (auto split: sum.split simp: upholds_load_failed upholds_loaded dest!: load_postD)
  show ?thesis
    unfolding loadOnce_def
    by (rule upholds_bind [OF upholds_get_root [OF K s]]) (auto split: sum.split simp: upholds_load_failed legacy reading)
qed

lemma upholds_loadAttempts:
  assumes K: "K = historyRootKey owner"
  shows "storeInv lib K s \<Longrightarrow> upholds serves (storeProtocol lib K) (storeProtocol lib K) (load_post lib K) (loadAttempts n lib owner) s"
proof (induction n arbitrary: s)
  case (Suc n)
  let ?U = "upholds serves (storeProtocol lib K) (storeProtocol lib K)"
  have again: "?U (load_post lib K) (prog_bind (mapCall (GetMap (historyRootKey owner))) (\<lambda>latest. case latest of
           Inl _ \<Rightarrow> Done (Inl e)
         | Inr now \<Rightarrow> if cm_uid now \<noteq> cm_uid a \<or> cm_resourceVersion now \<noteq> cm_resourceVersion a
             then loadAttempts n lib owner else Done (Inl e))) s1" if "storeInv lib K s1" for s1 e a
    by (rule upholds_bind [OF upholds_get_root [OF K that]]) (auto split: sum.split simp: upholds_load_failed Suc.IH)
  show ?case
    unfolding loadAttempts.simps
  proof (rule upholds_bind [OF upholds_loadOnce [OF K Suc.prems]])
    fix x :: "(ioerror \<times> ConfigMap option) + HistorySnapshot" and s1 assume x: "load_post lib K x s1"
    consider e where "x = Inl (e, None)" | e a where "x = Inl (e, Some a)" | snapshot where "x = Inr snapshot"
      by (metis obj_sumE old.prod.exhaust option.exhaust)
    then show "?U (load_post lib K) (case x of Inr snapshot \<Rightarrow> Done (Inr snapshot) | Inl (e, None) \<Rightarrow> Done (Inl e)
        | Inl (e, Some a) \<Rightarrow> prog_bind (mapCall (GetMap (historyRootKey owner))) (\<lambda>latest. case latest of
           Inl _ \<Rightarrow> Done (Inl e)
         | Inr now \<Rightarrow> if cm_uid now \<noteq> cm_uid a \<or> cm_resourceVersion now \<noteq> cm_resourceVersion a
             then loadAttempts n lib owner else Done (Inl e))) s1"
    proof cases
      case 2
      then show ?thesis unfolding 2 sum.case prod.case option.case using again load_postD(1) [OF x [unfolded 2]] by blast
    qed (use x in \<open>auto simp: upholds_load_failed upholds_loaded dest!: load_postD\<close>)
  qed
qed (use upholds_load_failed in simp)

lemma upholds_Load:
  assumes "K = historyRootKey owner" "storeInv lib K s"
  shows "upholds serves (storeProtocol lib K) (storeProtocol lib K) (load_post lib K) (LoadStored lib owner) s"
  unfolding LoadStored_def using upholds_loadAttempts [OF assms] .

lemma upholds_storeUpdate:
  assumes K: "K = historyRootKey owner" and inj: "inj (sl_digest lib)" and s: "storeInv lib K s"
  shows "upholds serves (storeProtocol lib K) (storeProtocol lib K) (\<lambda>_ _. True) (storeUpdate lib pages owner f) s"
  unfolding storeUpdate_def
proof (rule upholds_proceed [OF upholds_Load [OF K s]])
  fix snapshot s1 assume "load_post lib K (Inr snapshot :: ioerror + _) s1"
  then have "storeInv lib K s1" "loadedFrom lib K snapshot s1" by (auto dest!: load_postD)
  from upholds_Commit [OF K inj this refl]
  show "upholds serves (storeProtocol lib K) (storeProtocol lib K) (\<lambda>_ _. True) (CommitStored lib pages snapshot (f snapshot)) s1"
    by (rule upholds_mono) (simp_all add: swaps_def)
qed (simp add: upholds.simps)

section \<open>Readers\<close>




























section \<open>Writers together\<close>

definition storeClient :: "StoreLibrary \<Rightarrow> key \<Rightarrow> (request, reply, ioerror + unit) prog \<Rightarrow> bool" where
  "storeClient lib K p \<longleftrightarrow> (\<exists>owner pages f. K = historyRootKey owner \<and> p = storeUpdate lib pages owner f)"

definition collectsRoot :: "key \<Rightarrow> server \<Rightarrow> server \<Rightarrow> bool" where
  "collectsRoot K s s' \<longleftrightarrow> s' = removed K s"

interpretation store: shared_protocol serves "collectsRoot K" "storeClient lib K" "storeProtocol lib K"
  "\<lambda>s. inj (sl_digest lib) \<and> storeInv lib K s" for lib K
proof unfold_locales
  show "storeProtocol lib K s s'" if "inj (sl_digest lib) \<and> storeInv lib K s" "collectsRoot K s s'" for s s'
    using that protocol_remove_root by (simp add: collectsRoot_def)
  show "inj (sl_digest lib) \<and> storeInv lib K s'" if "inj (sl_digest lib) \<and> storeInv lib K s" "storeProtocol lib K s s'" for s s'
    using that storeProtocol_inv by blast
  show "upholds serves (storeProtocol lib K) (storeProtocol lib K) (\<lambda>_ _. True) p s"
    if "storeClient lib K p" "inj (sl_digest lib) \<and> storeInv lib K s" for p s
    using that upholds_storeUpdate unfolding storeClient_def by blast
qed

text \<open>The store starts empty.\<close>

definition emptyServer :: server where
  "emptyServer = \<lparr>sv_objects = Map.empty, sv_history = {}\<rparr>"

lemma storeInv_empty: "jsonFaithful lib \<Longrightarrow> storeInv lib K emptyServer"
  by (simp add: storeInv_def versionsUnique_def rootComplete_def emptyServer_def)

text \<open>
  C3: invariant. Any number of writers load and commit the history of one resource at the same time: their
  calls interleave in any order, fail, or take effect without an answer, any of them is killed and started
  again at any point, and the root may be garbage collected. In every state reached from an intact store,
  each chunk that the current root lists is there and passes the checks of a reader: no writer ever removes
  or replaces a chunk that is still needed, and none publishes a manifest of chunks that are gone.
\<close>

theorem allocated_history_complete:
  assumes "storeInv lib K s0" "inj (sl_digest lib)"
    and "interleaves serves (collectsRoot K) (storeClient lib K) s0 s ps"
    and "sv_objects s K = Some a" "OwnedConfigMap a owner" "ref \<in> set (rootChunks lib a)"
  shows "\<exists>c. sv_objects s (cm_namespace a, ch_name ref) = Some c \<and> chunkOk lib owner a ref c"
proof -
  have "storeInv lib K s" using store.reachable_inv [OF assms(3)] assms(1,2) by blast
  then have "presentChunk lib s a ref" using assms(4,6) by (simp add: storeInv_def rootComplete_def)
  then show ?thesis
    using chunkOk_if_holds [OF _ assms(5)] by (auto simp: presentChunk_def chunkAt_def split: option.splits)
qed

text \<open>
  C16: refinement. The store is a compare-and-swap register, whatever other writers (which keep to the
  protocol, as every writer does) do between any two calls: a commit replaces the contents of the root only
  while they are the contents its snapshot was loaded from, only by contents that describe the committed
  history, and reports success only when such contents were stored. All its other calls leave the contents
  as they are.
\<close>

theorem commit_is_compare_and_swap:
  assumes "inj (sl_digest lib)" "K = historyRootKey owner" "storeInv lib K s0"
    and "runs_among serves (storeProtocol lib K) (LoadStored lib owner) s0 ls (Done (Inr snapshot)) s1"
    and "runs_among serves (storeProtocol lib K) (CommitStored lib pages snapshot data) s1 ts q s2"
  shows "(\<forall>t \<in> set ts. payloadAt K (snd t) = payloadAt K (fst t) \<or>
        replaces lib K (re_root (sh_revision snapshot)) data (fst t) (snd t)) \<and>
      (q = Done (Inr ()) \<longrightarrow> committed lib K (re_root (sh_revision snapshot)) data s2)"
proof -
  have "load_post lib K (Inr snapshot :: ioerror + _) s1"
    using upholds_result [OF assms(4) upholds_Load [OF assms(2,3)]] .
  then have s1: "storeInv lib K s1" "loadedFrom lib K snapshot s1" by (auto dest!: load_postD)
  note c = upholds_Commit [OF assms(2,1) s1 refl]
  have "\<forall>t \<in> set ts. swaps lib K (re_root (sh_revision snapshot)) data (fst t) (snd t)"
    using upholds_runs [OF assms(5) c] by blast
  moreover have "committed lib K (re_root (sh_revision snapshot)) data s2" if "q = Done (Inr ())"
    using upholds_result [OF assms(5) [unfolded that] c] by simp
  ultimately show ?thesis by (auto simp: swaps_def)
qed


section \<open>What a reader gets\<close>

lemma readChunks_content:
  "feed (readChunks lib owner a refs state) rs = Done (Inr out) \<Longrightarrow>
    \<exists>parts. out = state @ concat parts \<and> map (sl_digest lib) parts = map ch_digest refs"
proof (induction refs arbitrary: state rs)
  case (Cons ref refs)
  then obtain chunk rs' where "chunkOk lib owner a ref chunk"
    "feed (readChunks lib owner a refs (state @ opt_default '''' (map_of (cm_binaryData chunk) ''state''))) rs' = Done (Inr out)"
    by (auto dest!: feed_proceed split: if_splits)
  then obtain bytes parts where "sl_digest lib bytes = ch_digest ref" "out = (state @ bytes) @ concat parts"
    "map (sl_digest lib) parts = map ch_digest refs"
    using Cons.IH by (fastforce simp: chunkOk_def Let_def)
  then show ?case by (intro exI [of _ "bytes # parts"]) simp
qed simp

lemma manifestSnapshot_data:
  "manifestSnapshot lib a m state = Inr snapshot \<Longrightarrow>
    \<exists>d0. DecodeBounded lib state MaxAllocatedBytes = Inr d0 \<and> sh_data snapshot = d0\<lparr>d_pendingScale := mn_pendingScale m\<rparr>"
  by (auto simp: manifestSnapshot_def rbind_eq_Inr_iff Let_def split: if_splits)

lemma readInline_data:
  "readInline lib a = Inr snapshot \<Longrightarrow> dataAt a configMapDataKey \<noteq> '''' \<Longrightarrow>
    decodeHistory lib (dataAt a configMapDataKey) = Inr (sh_data snapshot)"
  by (auto simp: readInline_def configMapSnapshot_def allocated_def rbind_eq_Inr_iff Let_def)

lemma readRoot_cases:
  assumes "feed (readRoot lib owner a) rs = Done (Inr snapshot)"
  obtains (inline) "sl_schema lib (dataAt a configMapDataKey) \<noteq> Inr 2" "readInline lib a = Inr snapshot"
  | (chunks) m parts where "sl_schema lib (dataAt a configMapDataKey) = Inr 2"
      "DecodeManifest lib (dataAt a configMapDataKey) a = Inr m" "map (sl_digest lib) parts = map ch_digest (mn_chunks m)"
      "manifestSnapshot lib a m (concat parts) = Inr snapshot"
proof -
  show thesis
    using assms inline chunks
    by (auto simp: readRoot_def lift_result_def split: if_splits sum.splits dest!: feed_proceed readChunks_content)
qed

text \<open>
  C17: roundtrip. A history that was committed is read back whole or not at all: whatever answers a reader
  gets, in whatever state of the store, a read of a root that describes a committed history either fails or
  returns what decoding the committed encoding itself returns, however it was cut into chunks, with the
  journal of the manifest.
\<close>

theorem committed_history_read_back:
  assumes "jsonFaithful lib" "inj (sl_digest lib)" "describes lib data (dataAt a configMapDataKey)"
    and "feed (readRoot lib owner a) rs = Done (Inr snapshot)"
  shows "EncodeHistory lib data = Inr (dataAt a configMapDataKey) \<and>
      decodeHistory lib (dataAt a configMapDataKey) = Inr (sh_data snapshot) \<or>
    (\<exists>encoded history m. EncodeHistory lib (data\<lparr>d_pendingScale := None\<rparr>) = Inr encoded \<and>
      DecodeBounded lib encoded MaxAllocatedBytes = Inr history \<and>
      DecodeManifest lib (dataAt a configMapDataKey) a = Inr m \<and>
      sh_data snapshot = history\<lparr>d_pendingScale := mn_pendingScale m\<rparr>)"
  using assms(3) unfolding describes_def
proof (elim disjE exE conjE)
  assume e: "EncodeHistory lib data = Inr (dataAt a configMapDataKey)"
  then have "sl_schema lib (dataAt a configMapDataKey) = Inr 1" "dataAt a configMapDataKey \<noteq> ''''"
    using assms(1) by (auto simp: EncodeHistory_def jsonFaithful_def split: if_splits)
  with assms(4) show ?thesis
    by (elim readRoot_cases) (use e readInline_data in auto)
next
  fix m parts
  assume m: "sl_marshalManifest lib m = Inr (dataAt a configMapDataKey)" "mn_schemaVersion m = 2"
    "map ch_digest (mn_chunks m) = map (sl_digest lib) parts"
    "EncodeHistory lib (data\<lparr>d_pendingScale := None\<rparr>) = Inr (concat parts)"
  have schema: "sl_schema lib (dataAt a configMapDataKey) = Inr 2" using assms(1) m(1,2) by (auto simp: jsonFaithful_def)
  have listed: "rootChunks lib a = mn_chunks m" by (rule rootChunks_manifest [OF assms(1) m(1,2) refl])
  from assms(4) show ?thesis
  proof (cases rule: readRoot_cases)
    case (chunks m' parts')
    then have "map (sl_digest lib) parts' = map (sl_digest lib) parts"
      using DecodeManifest_chunks [OF chunks(2) refl schema] listed m(3) by simp
    then have "parts' = parts" using assms(2) by (metis inj_map_eq_map)
    then show ?thesis using m(4) chunks(2) manifestSnapshot_data [OF chunks(4)] by blast
  qed (simp add: schema)
qed

section \<open>A concrete store\<close>

definition sampleChunkRef :: ChunkReference where
  "sampleChunkRef = \<lparr>ch_name = ''hpa-hist-r-t-00'', ch_uid = ''c'', ch_digest = ''{}'', ch_bytes = 2\<rparr>"

definition sampleStoreLibrary :: StoreLibrary where
  "sampleStoreLibrary =
     \<lparr>sl_marshalData = (\<lambda>d. if d_schemaVersion d = 1 then Inr ''{}'' else Inl ''unsupported''),
      sl_unmarshalData = (\<lambda>raw. if raw = ''{}'' then Inr (emptyHistory\<lparr>d_schemaVersion := 1\<rparr>) else Inl ''malformed''),
      sl_wireValid = (\<lambda>_ _. True), sl_trimSpace = (\<lambda>s. s),
      sl_schema = (\<lambda>p. if p = ''{}'' then Inr 1 else if p = ''M'' then Inr 2 else Inl ''malformed''),
      sl_marshalManifest = (\<lambda>m. if mn_schemaVersion m = 2 \<and> mn_chunks m = [sampleChunkRef] then Inr ''M'' else Inl ''unsupported''),
      sl_unmarshalManifest = (\<lambda>p. if p = ''M'' then Inr \<lparr>mn_schemaVersion = 2, mn_chunks = [sampleChunkRef], mn_pendingScale = None\<rparr>
         else Inl ''malformed''),
      sl_pendingRaw = (\<lambda>_. Inr None), sl_marshalDecision = (\<lambda>_. Inr ''{}''), sl_digest = (\<lambda>s. s),
      sl_hexLength = (\<lambda>_. Some 32), sl_dnsLabel = (\<lambda>_. True)\<rparr>"

definition sampleRoot :: ConfigMap where
  "sampleRoot = (initialMap sampleInstance ''M'')\<lparr>cm_uid := ''r'', cm_resourceVersion := ''1'', cm_annotations := [FenceKey \<mapsto> ''1'']\<rparr>"

definition sampleChunk :: ConfigMap where
  "sampleChunk = (chunkMap sampleStoreLibrary sampleRoot 1 ''t'' 0 ''{}'')\<lparr>cm_uid := ''c'', cm_resourceVersion := ''2''\<rparr>"

definition sampleServer :: server where
  "sampleServer = \<lparr>sv_objects = [mapKey sampleRoot \<mapsto> sampleRoot, mapKey sampleChunk \<mapsto> sampleChunk], sv_history = {sampleRoot, sampleChunk}\<rparr>"

abbreviation (input) sampleKey :: key where "sampleKey \<equiv> (''prod'', ''hpa-plus-web-data'')"

lemma sampleKey_eq: "historyRootKey sampleInstance = sampleKey"
  by (simp add: historyRootKey_def sampleInstance_def)

lemma sampleRoot_fields:
  "mapKey sampleRoot = sampleKey" "cm_uid sampleRoot = ''r''" "cm_resourceVersion sampleRoot = ''1''"
  "dataAt sampleRoot configMapDataKey = ''M''" "cm_namespace sampleRoot = ''prod''" "OwnedConfigMap sampleRoot sampleInstance"
  "FenceOf sampleRoot = Inr 1"
  by (simp_all add: sampleRoot_def initialMap_def mapKey_def dataAt_def OwnedConfigMap_def historyRootKey_def sampleInstance_def
      FenceOf_def parseUint_def is_digit_def dec_value_def digit_val_def Let_def)

lemma sampleChunk_fields:
  "mapKey sampleChunk = (''prod'', ''hpa-hist-r-t-00'')" "cm_uid sampleChunk = ''c''" "cm_resourceVersion sampleChunk = ''2''"
  "holdsChunk sampleStoreLibrary sampleRoot sampleChunkRef sampleChunk"
proof -
  have "append_int 0 2 = ''00''" by code_simp
  then show "mapKey sampleChunk = (''prod'', ''hpa-hist-r-t-00'')"
    by (simp add: sampleChunk_def chunkMap_def mapKey_def sampleRoot_fields ChunkPrefix_def) (simp add: sampleStoreLibrary_def)
qed (simp_all add: sampleChunk_def chunkMap_def sampleStoreLibrary_def holdsChunk_def sampleChunkRef_def Let_def)

lemma sampleRoot_chunks: "rootChunks sampleStoreLibrary sampleRoot = [sampleChunkRef]"
  by (simp add: rootChunks_def sampleRoot_fields) (simp add: sampleStoreLibrary_def)

lemma sampleStoreLibrary_faithful: "jsonFaithful sampleStoreLibrary" "inj (sl_digest sampleStoreLibrary)"
  by (auto simp: jsonFaithful_def sampleStoreLibrary_def emptyHistory_def inj_def split: if_splits)

lemma sampleServer_inv: "storeInv sampleStoreLibrary sampleKey sampleServer"
proof -
  have "versionsUnique sampleKey sampleServer"
    using sampleRoot_fields(1-3) sampleChunk_fields(1-3) by (auto simp: versionsUnique_def sampleServer_def split: if_splits)
  moreover have "chunkAt sampleServer sampleRoot sampleChunkRef = Some sampleChunk"
    by (simp add: chunkAt_def sampleServer_def sampleRoot_fields sampleChunk_fields sampleChunkRef_def)
  then have "rootComplete sampleStoreLibrary sampleKey sampleServer"
    using sampleChunk_fields(4)
    by (simp add: rootComplete_def sampleServer_def sampleRoot_fields sampleChunk_fields sampleRoot_chunks presentChunk_def)
      (simp add: sampleChunkRef_def)
  ultimately show ?thesis using sampleStoreLibrary_faithful(1) by (simp add: storeInv_def)
qed

theorem allocated_history_complete_witness:
  "\<exists>c. sv_objects sampleServer (cm_namespace sampleRoot, ch_name sampleChunkRef) = Some c \<and>
     chunkOk sampleStoreLibrary sampleInstance sampleRoot sampleChunkRef c"
proof (rule allocated_history_complete [OF sampleServer_inv sampleStoreLibrary_faithful(2)])
  show "interleaves serves (collectsRoot sampleKey) (storeClient sampleStoreLibrary sampleKey) sampleServer sampleServer
      (\<lambda>_. storeUpdate sampleStoreLibrary 1 sampleInstance sh_data)"
    by (rule interleaves.initially) (metis storeClient_def sampleKey_eq)
  show "sv_objects sampleServer sampleKey = Some sampleRoot"
    by (simp add: sampleServer_def sampleRoot_fields sampleChunk_fields)
qed (simp_all add: sampleRoot_fields sampleRoot_chunks)

definition sampleManifest :: Manifest where
  "sampleManifest = \<lparr>mn_schemaVersion = 2, mn_chunks = [sampleChunkRef], mn_pendingScale = None\<rparr>"

definition sampleStored :: HistorySnapshot where
  "sampleStored = \<lparr>sh_data = emptyHistory\<lparr>d_schemaVersion := 1\<rparr>,
     sh_revision = \<lparr>re_root = sampleRoot, re_manifest = Some sampleManifest, re_stateDigest = ''{}''\<rparr>,
     sh_unrelatedBytes = 0, sh_stateBytes = 2, sh_journalBytes = 0,
     sh_stateBudgetBytes = int MaxAllocatedBytes, sh_journalBudgetBytes = int maxScaleJournalBytes\<rparr>"

definition fencedRoot :: ConfigMap where
  "fencedRoot = (advanceFence sampleRoot (Suc (Suc 0)))\<lparr>cm_resourceVersion := ''3''\<rparr>"

lemma sample_library:
  "sl_schema sampleStoreLibrary ''M'' = Inr 2"
  "sl_unmarshalManifest sampleStoreLibrary ''M'' = Inr sampleManifest"
  "sl_marshalManifest sampleStoreLibrary sampleManifest = Inr ''M''"
  "sl_pendingRaw sampleStoreLibrary p = Inr None" "sl_digest sampleStoreLibrary p = p"
  "sl_hexLength sampleStoreLibrary p = Some 32" "sl_dnsLabel sampleStoreLibrary p" "sl_trimSpace sampleStoreLibrary p = p"
  "sl_unmarshalData sampleStoreLibrary ''{}'' = Inr (emptyHistory\<lparr>d_schemaVersion := 1\<rparr>)" "sl_wireValid sampleStoreLibrary p data"
  "d_schemaVersion d = 1 \<Longrightarrow> EncodeHistory sampleStoreLibrary d = Inr ''{}''"
  by (simp_all add: sampleStoreLibrary_def sampleManifest_def EncodeHistory_def emptyHistory_def)

lemma sampleRoot_data: "cm_data sampleRoot = Some [(''data'', ''M'')]" "cm_binaryData sampleRoot = []" "configMapDataBytes sampleRoot = 1"
  by (simp_all add: sampleRoot_def initialMap_def configMapDataBytes_def)

lemma sampleServer_objects: "sv_objects sampleServer sampleKey = Some sampleRoot"
    "sv_objects sampleServer (''prod'', ''hpa-hist-r-t-00'') = Some sampleChunk"
  by (simp_all add: sampleServer_def sampleRoot_fields sampleChunk_fields)

lemma sample_readRoot: "readRoot sampleStoreLibrary sampleInstance sampleRoot =
    proceed (readChunks sampleStoreLibrary sampleInstance sampleRoot [sampleChunkRef] '''')
      (\<lambda>state. lift_result (manifestSnapshot sampleStoreLibrary sampleRoot sampleManifest state))"
proof -
  have "DecodeManifest sampleStoreLibrary ''M'' sampleRoot = Inr sampleManifest"
    by (simp add: DecodeManifest_def sampleRoot_fields validReference_def ChunkPrefix_def sample_library sampleChunkRef_def sampleManifest_def)
  moreover have "mn_chunks sampleManifest = [sampleChunkRef]" by (simp add: sampleManifest_def)
  ultimately show ?thesis
    by (simp add: readRoot_def sampleRoot_fields sampleRoot_data lift_result_simps sample_library del: readChunks.simps)
qed

lemma sample_reading:
  "chunkOk sampleStoreLibrary sampleInstance sampleRoot sampleChunkRef sampleChunk"
  "opt_default '''' (map_of (cm_binaryData sampleChunk) ''state'') = ''{}''"
  "manifestSnapshot sampleStoreLibrary sampleRoot sampleManifest ''{}'' = Inr sampleStored"
  "ch_name sampleChunkRef = ''hpa-hist-r-t-00''"
  by (rule chunkOk_if_holds [OF sampleChunk_fields(4) sampleRoot_fields(6)])
    (simp_all add: sampleChunk_def chunkMap_def sampleChunkRef_def manifestSnapshot_def DecodeBounded_def sample_library
      sampleStored_def sampleRoot_fields sampleRoot_data journalSize_def emptyHistory_def sampleManifest_def)

lemma sample_load:
  "served serves (LoadStored sampleStoreLibrary sampleInstance) sampleServer
    [(MapReply (Inr sampleRoot), sampleServer), (MapReply (Inr sampleChunk), sampleServer)]"
  "feed (LoadStored sampleStoreLibrary sampleInstance) [MapReply (Inr sampleRoot), MapReply (Inr sampleChunk)] = Done (Inr sampleStored)"
proof -
  have load: "LoadStored sampleStoreLibrary sampleInstance = loadAttempts (Suc 4) sampleStoreLibrary sampleInstance"
    by (simp add: LoadStored_def del: loadAttempts.simps)
  note eval = loadOnce_def mapCall_def sampleKey_eq sample_readRoot sample_reading lift_result_simps
    get_found sampleServer_objects sampleRoot_fields(5)
  show "served serves (LoadStored sampleStoreLibrary sampleInstance) sampleServer
    [(MapReply (Inr sampleRoot), sampleServer), (MapReply (Inr sampleChunk), sampleServer)]"
    unfolding load loadAttempts.simps(2) by (simp add: eval)
  show "feed (LoadStored sampleStoreLibrary sampleInstance) [MapReply (Inr sampleRoot), MapReply (Inr sampleChunk)] = Done (Inr sampleStored)"
    unfolding load loadAttempts.simps(2) by (simp add: eval)
qed

lemma fencedRoot_fields: "mapKey fencedRoot = sampleKey" "cm_uid fencedRoot = ''r''" "cm_data fencedRoot = Some [(''data'', ''M'')]"
    "cm_namespace fencedRoot = ''prod''" "configMapDataBytes fencedRoot = 1" "cm_resourceVersion fencedRoot = ''3''"
  using sampleRoot_fields sampleRoot_data by (simp_all add: fencedRoot_def advanceFence_def mapKey_def configMapDataBytes_def)

abbreviation (input) sampleCommit :: "unit call" where
  "sampleCommit \<equiv> CommitStored sampleStoreLibrary (Suc 0) sampleStored (sh_data sampleStored)"

abbreviation (input) fencedServer :: server where "fencedServer \<equiv> stored sampleServer fencedRoot"

lemma sampleCommit_eq: "sampleCommit = proceed (mapCall (UpdateMap (advanceFence sampleRoot (Suc (Suc 0))))) (\<lambda>fenced.
    proceed (cleanup sampleStoreLibrary (Suc 0) fenced (Some sampleManifest) (Suc (Suc 0))) (\<lambda>_. publish sampleStoreLibrary (Suc 0) fenced (Suc (Suc 0)) sampleManifest))"
  by (simp add: CommitStored_def sampleStored_def sample_library journalSize_def emptyHistory_def sampleRoot_fields sampleRoot_data
      lift_result_simps stageState_def Let_def) (simp add: sampleManifest_def)

lemma sample_update: "serves sampleServer (UpdateMap (advanceFence sampleRoot (Suc (Suc 0)))) (MapReply (Inr fencedRoot)) fencedServer"
proof (rule updated [where a = sampleRoot and v = "''3''"])
  show "freshVersion sampleServer ''3''" by (simp add: freshVersion_def sampleServer_def sampleRoot_fields sampleChunk_fields)
  show "sv_objects sampleServer (mapKey (advanceFence sampleRoot (Suc (Suc 0)))) = Some sampleRoot"
    using sampleServer_objects(1) sampleRoot_fields(1) by (simp add: advanceFence_def mapKey_def)
qed (simp_all add: advanceFence_def fencedRoot_def)

lemma sample_noop: "serves fencedServer (UpdateMap fencedRoot) (MapReply (Inr fencedRoot)) fencedServer"
  by (rule update_noop [where a = fencedRoot]) simp_all

lemma sample_publish: "publish sampleStoreLibrary (Suc 0) fencedRoot (Suc (Suc 0)) sampleManifest =
    proceed (outcomeCall CheckPublication) (\<lambda>_. proceed (mapCall (UpdateMap fencedRoot)) (\<lambda>current.
      prog_bind (cleanup sampleStoreLibrary (Suc 0) current (Some sampleManifest) (Suc (Suc 0))) (\<lambda>_. Done (Inr ()))))"
proof -
  have same: "fencedRoot\<lparr>cm_data := Some [(''data'', ''M'')]\<rparr> = fencedRoot"
    using fencedRoot_fields(3) by (cases fencedRoot) simp
  show ?thesis by (simp add: publish_def sample_library lift_result_simps Let_def fencedRoot_fields same)
qed

lemma sample_listing: "serves s (ListMaps n l c) (PageReply (Inr ([], ''''))) s"
  by (rule listed) simp

lemma sample_commit:
  "served serves sampleCommit sampleServer
    [(MapReply (Inr fencedRoot), fencedServer), (PageReply (Inr ([], '''')), fencedServer), (Outcome None, fencedServer),
     (MapReply (Inr fencedRoot), fencedServer), (PageReply (Inr ([], '''')), fencedServer)]"
  "feed sampleCommit [MapReply (Inr fencedRoot), PageReply (Inr ([], '''')), Outcome None, MapReply (Inr fencedRoot),
     PageReply (Inr ([], ''''))] = Done (Inr ())"
  unfolding sampleCommit_eq
  by (simp_all add: mapCall_def pageCall_def outcomeCall_def cleanup_def sample_publish sample_update sample_noop
      sample_listing checked)

theorem commit_is_compare_and_swap_witness:
  "committed sampleStoreLibrary sampleKey sampleRoot (sh_data sampleStored) fencedServer"
proof -
  obtain ls where ls: "runs_among serves (storeProtocol sampleStoreLibrary sampleKey) (LoadStored sampleStoreLibrary sampleInstance)
      sampleServer ls (Done (Inr sampleStored)) sampleServer"
    using runs_feed [OF sample_load(1) runs_among.begins] sample_load(2) by fastforce
  obtain ts where ts: "runs_among serves (storeProtocol sampleStoreLibrary sampleKey) sampleCommit sampleServer ts (Done (Inr ())) fencedServer"
    using runs_feed [OF sample_commit(1) runs_among.begins] sample_commit(2) by fastforce
  have "re_root (sh_revision sampleStored) = sampleRoot" by (simp add: sampleStored_def)
  then show ?thesis
    using commit_is_compare_and_swap [OF sampleStoreLibrary_faithful(2) sampleKey_eq [symmetric] sampleServer_inv ls ts] by simp
qed








theorem committed_history_read_back_witness:
  "EncodeHistory sampleStoreLibrary emptyHistory = Inr (dataAt sampleRoot configMapDataKey) \<and>
      decodeHistory sampleStoreLibrary (dataAt sampleRoot configMapDataKey) = Inr (sh_data sampleStored) \<or>
    (\<exists>encoded history m. EncodeHistory sampleStoreLibrary (emptyHistory\<lparr>d_pendingScale := None\<rparr>) = Inr encoded \<and>
      DecodeBounded sampleStoreLibrary encoded MaxAllocatedBytes = Inr history \<and>
      DecodeManifest sampleStoreLibrary (dataAt sampleRoot configMapDataKey) sampleRoot = Inr m \<and>
      sh_data sampleStored = history\<lparr>d_pendingScale := mn_pendingScale m\<rparr>)"
proof (rule committed_history_read_back [OF sampleStoreLibrary_faithful])
  show "describes sampleStoreLibrary emptyHistory (dataAt sampleRoot configMapDataKey)"
    unfolding describes_def
    by (rule disjI2, rule exI [of _ sampleManifest], rule exI [of _ "[''{}'']"])
      (simp add: sampleStoreLibrary_def sampleManifest_def sampleRoot_fields EncodeHistory_def emptyHistory_def sampleChunkRef_def)
  show "feed (readRoot sampleStoreLibrary sampleInstance sampleRoot) [MapReply (Inr sampleChunk)] = Done (Inr sampleStored)"
    by (simp add: sample_readRoot sample_reading mapCall_def lift_result_simps)
qed

end
