(* ===== verification/Traffic.thy ===== *)
theory Traffic
  imports Validation Cgroup "HOL-Library.List_Lexorder" "HOL-Library.Char_ord"
begin

text \<open>
  \<open>src/internal/workloaddemand/traffic_lifecycle.go\<close> and \<open>traffic.go\<close>: what the request counters of the pods
  of a workload say about a window of time. A pod is expected to be counted while one of its containers may
  have run, according to the CPU counters' inventory (\<open>demandWindowScope\<close> of \<open>request_demand.go\<close>); it is
  covered where every one of its series has two adjacent samples around the instant. Rates of the fleet are
  taken over the seconds at which no expected pod is uncovered.

  What is proved: the interval operations compute the union, intersection and difference of sets of
  instants, and the seconds a fleet rate is taken over are exactly the instants of the window at which every
  pod that may have run was measured by every one of its series.

  The answers of Prometheus are parameters (\<open>query\<close>), and so is \<open>strconv.ParseFloat\<close>. Where the code sorts
  by an instant the order of equal ones is that of the input, and where it ranges over a map the order is
  that of insertion; neither changes what is computed but for the order of sums.
\<close>

section \<open>Data\<close>

record TimeInterval =
  iv_from :: gotime
  iv_to :: gotime

record PodIdentity =
  pi_name :: string
  pi_uid :: string

record PodLifetime =
  lf_known :: bool
  lf_intervals :: "TimeInterval list"
  lf_reason :: string
  lf_boundaries :: "gotime list"

record Scope =
  scp_namespace :: string
  scp_pods :: "PodIdentity list"
  scp_lifetimes :: "(string \<rightharpoonup> PodLifetime) option"

record FeatureValue =
  fv_value :: "float64 option"
  fv_sourceAt :: gotime
  fv_receivedAt :: gotime
  fv_unit :: string
  fv_missingReason :: string
  fv_measurementWindow :: "TimeInterval option"

record PodCounterInterval =
  pc_pod :: string
  pc_uid :: string
  pc_start :: gotime
  pc_end :: gotime
  pc_completedRequests :: float64

record PodTrafficCoverage =
  tc_pod :: PodIdentity
  tc_expectedSeconds :: float64
  tc_coveredSeconds :: float64
  tc_intervals :: "TimeInterval list"
  tc_gaps :: "TimeInterval list"
  tc_reason :: string

record ArrivalInterval =
  ai_from :: gotime
  ai_to :: gotime
  ai_availableAt :: gotime
  ai_rate :: "float64 option"
  ai_coverage :: float64
  ai_boundaryAveraged :: bool

record counterSegment =
  cg_from :: gotime
  cg_to :: gotime
  cg_count :: float64
  cg_nativeFrom :: gotime
  cg_nativeUntil :: gotime

record counterSupport =
  cu_segments :: "counterSegment list"
  cu_covered :: "TimeInterval list"
  cu_expected :: "TimeInterval list"
  cu_known :: bool
  cu_reason :: string
  cu_native :: "PodCounterInterval list"
  cu_sourceAt :: gotime

record promSample =
  ps_at :: gotime
  ps_value :: float64

record promSeries =
  pr_metric :: "string \<rightharpoonup> string"
  pr_samples :: "promSample list"

abbreviation (input) interval :: "gotime \<Rightarrow> gotime \<Rightarrow> TimeInterval" where
  "interval a b \<equiv> \<lparr>iv_from = a, iv_to = b\<rparr>"

section \<open>Intervals\<close>

definition later :: "gotime \<Rightarrow> gotime \<Rightarrow> gotime" where
  "later a b = (if after a b then a else b)"

definition earlierEnd :: "gotime \<Rightarrow> gotime \<Rightarrow> gotime" where
  "earlierEnd a b = (if before a b then a else b)"

definition intervalSeconds :: "TimeInterval list \<Rightarrow> float64" where
  "intervalSeconds values = foldl (\<lambda>s v. f_add s (d_seconds (t_sub (iv_to v) (iv_from v)))) (Fin 0) values"

definition unionStep :: "TimeInterval list \<Rightarrow> TimeInterval \<Rightarrow> TimeInterval list" where
  "unionStep out v =
     (if \<not> after (iv_to v) (iv_from v) then out
      else if out = [] \<or> after (iv_from v) (iv_to (last out)) then out @ [v]
      else if after (iv_to v) (iv_to (last out)) then butlast out @ [(last out)\<lparr>iv_to := iv_to v\<rparr>]
      else out)"

definition unionIntervals :: "TimeInterval list \<Rightarrow> TimeInterval list" where
  "unionIntervals values = foldl unionStep [] (sort_key (\<lambda>v. ns (iv_from v)) values)"

definition intersectIntervals :: "TimeInterval list \<Rightarrow> TimeInterval list \<Rightarrow> TimeInterval list" where
  "intersectIntervals a b = unionIntervals (concat (map (\<lambda>x. concat (map (\<lambda>y.
     let from = later (iv_from x) (iv_from y); to = earlierEnd (iv_to x) (iv_to y)
     in if after to from then [interval from to] else []) b)) a))"

definition cutInterval :: "TimeInterval \<Rightarrow> TimeInterval \<Rightarrow> TimeInterval list" where
  "cutInterval remove v =
     (if \<not> after (iv_to remove) (iv_from v) \<or> \<not> after (iv_to v) (iv_from remove) then [v]
      else (if after (iv_from remove) (iv_from v) then [interval (iv_from v) (earlierEnd (iv_to v) (iv_from remove))] else []) @
           (if before (iv_to remove) (iv_to v) then [interval (later (iv_from v) (iv_to remove)) (iv_to v)] else []))"

definition subtractIntervals :: "TimeInterval list \<Rightarrow> TimeInterval list \<Rightarrow> TimeInterval list" where
  "subtractIntervals a b =
     foldl (\<lambda>out remove. concat (map (cutInterval remove) out)) (unionIntervals a) (unionIntervals b)"

section \<open>Lifetimes\<close>

definition expectedLifetime :: "Scope \<Rightarrow> PodIdentity \<Rightarrow> gotime \<Rightarrow> gotime \<Rightarrow> TimeInterval list \<times> bool \<times> string" where
  "expectedLifetime scope pod from to =
     (case scp_lifetimes scope of
        None \<Rightarrow> ([interval from to], True, '''')
      | Some lifetimes \<Rightarrow>
        (case lifetimes (pi_uid pod) of
           None \<Rightarrow> ([interval from to], False, ''runtime lifetime inventory unavailable'')
         | Some life \<Rightarrow>
             if \<not> lf_known life then ([interval from to], False, ''runtime lifetime inventory unavailable'')
             else (intersectIntervals
                 (unionIntervals (map (\<lambda>i. if is_zero (iv_to i) then i\<lparr>iv_to := to\<rparr> else i) (lf_intervals life)))
                 [interval from to], True, lf_reason life)))"

definition pairWithinRuntime :: "Scope \<Rightarrow> PodIdentity \<Rightarrow> gotime \<Rightarrow> gotime \<Rightarrow> bool" where
  "pairWithinRuntime scope pod from to =
     (case scp_lifetimes scope of
        None \<Rightarrow> True
      | Some lifetimes \<Rightarrow>
        (case lifetimes (pi_uid pod) of
           None \<Rightarrow> False
         | Some life \<Rightarrow>
             \<not> list_ex (\<lambda>boundary. after boundary from \<and> before boundary to) (lf_boundaries life) \<and>
             list_ex (\<lambda>i. \<not> before from (iv_from i) \<and> (is_zero (iv_to i) \<or> \<not> after to (iv_to i))) (lf_intervals life)))"

section \<open>Support of a counter\<close>

definition trafficLabels :: "TrafficProviderConfig \<Rightarrow> string \<times> string \<times> string" where
  "trafficLabels t =
     (let orElse = (\<lambda>s d. if s = '''' then d else s)
      in (orElse (tp_namespaceLabel t) ''namespace'', orElse (tp_podLabel t) ''pod'', orElse (tp_podUIDLabel t) ''pod_uid''))"

definition seriesPod :: "TrafficProviderConfig \<Rightarrow> promSeries \<Rightarrow> PodIdentity" where
  "seriesPod t s = (let (_, podLabel, uidLabel) = trafficLabels t
     in \<lparr>pi_name = opt_default '''' (pr_metric s podLabel), pi_uid = opt_default '''' (pr_metric s uidLabel)\<rparr>)"

type_synonym pairKey = "gotime \<times> gotime"

fun addTo :: "'k \<Rightarrow> ('v \<Rightarrow> 'v) \<Rightarrow> 'v \<Rightarrow> ('k \<times> 'v) list \<Rightarrow> ('k \<times> 'v) list" where
  "addTo k f v0 [] = [(k, f v0)]"
| "addTo k f v0 ((k', v) # kvs) = (if k' = k then (k', f v) # kvs else (k', v) # addTo k f v0 kvs)"

record seriesScan =
  sx_value :: counterSupport
  sx_support :: "TimeInterval list"
  sx_pairs :: "(pairKey \<times> float64) list"
  sx_pairLabels :: "(pairKey \<times> nat) list"
  sx_seen :: "pairKey set"

definition badPair :: "duration \<Rightarrow> promSample \<Rightarrow> promSample \<Rightarrow> bool" where
  "badPair age a b \<longleftrightarrow> \<not> after (ps_at b) (ps_at a) \<or> f_lt (ps_value a) (Fin 0) \<or> f_lt (ps_value b) (ps_value a) \<or>
     t_sub (ps_at b) (ps_at a) > wrap64 (2 * age)"

definition nativePair :: "promSample \<Rightarrow> promSample \<Rightarrow> seriesScan \<Rightarrow> seriesScan" where
  "nativePair a b s =
     (let key = (ps_at a, ps_at b);
          s1 = s\<lparr>sx_pairs := addTo key (\<lambda>v. f_add v (f_sub (ps_value b) (ps_value a))) (Fin 0) (sx_pairs s)\<rparr>
      in if key \<in> sx_seen s then s1
         else s1\<lparr>sx_pairLabels := addTo key Suc 0 (sx_pairLabels s), sx_seen := insert key (sx_seen s)\<rparr>)"

definition lifeStep :: "promSample \<Rightarrow> promSample \<Rightarrow> seriesScan \<Rightarrow> TimeInterval \<Rightarrow> seriesScan" where
  "lifeStep a b s life =
     (let left = later (ps_at a) (iv_from life); right = earlierEnd (ps_at b) (iv_to life); v = sx_value s in
      if \<not> after right left then s
      else
        let segment = \<lparr>cg_from = left, cg_to = right,
              cg_count = f_div (f_mul (f_sub (ps_value b) (ps_value a)) (d_seconds (t_sub right left)))
                (d_seconds (t_sub (ps_at b) (ps_at a))),
              cg_nativeFrom = ps_at a, cg_nativeUntil = ps_at b\<rparr>;
            s1 = s\<lparr>sx_value := v\<lparr>cu_segments := cu_segments v @ [segment],
                 cu_sourceAt := (if after (ps_at b) (cu_sourceAt v) then ps_at b else cu_sourceAt v)\<rparr>,
               sx_support := sx_support s @ [interval left right]\<rparr>
        in if \<not> before (ps_at a) (iv_from life) \<and> \<not> after (ps_at b) (iv_to life) then nativePair a b s1 else s1)"

definition pairStep :: "Scope \<Rightarrow> PodIdentity \<Rightarrow> duration \<Rightarrow> TimeInterval list \<Rightarrow> seriesScan \<Rightarrow> promSample \<times> promSample \<Rightarrow> seriesScan" where
  "pairStep scope pod age expected s = (\<lambda>(a, b).
     if badPair age a b
     then s\<lparr>sx_value := (sx_value s)\<lparr>cu_reason := ''counter reset, duplicate or missing native interval''\<rparr>\<rparr>
     else if \<not> pairWithinRuntime scope pod (ps_at a) (ps_at b)
     then s\<lparr>sx_value := (sx_value s)\<lparr>cu_reason := ''native counter pair crosses runtime boundary''\<rparr>\<rparr>
     else foldl (lifeStep a b) s expected)"

definition adjacent :: "'a list \<Rightarrow> ('a \<times> 'a) list" where
  "adjacent xs = zip xs (tl xs)"

definition rowStep :: "Scope \<Rightarrow> PodIdentity \<Rightarrow> duration \<Rightarrow> TimeInterval list \<Rightarrow> seriesScan \<times> TimeInterval list \<Rightarrow> promSeries \<Rightarrow>
    seriesScan \<times> TimeInterval list" where
  "rowStep scope pod age expected = (\<lambda>(s, common) row.
     let s' = foldl (pairStep scope pod age expected) (s\<lparr>sx_support := [], sx_seen := {}\<rparr>) (adjacent (pr_samples row))
     in (s', intersectIntervals common (unionIntervals (sx_support s'))))"

definition nativeIntervals :: "PodIdentity \<Rightarrow> nat \<Rightarrow> seriesScan \<Rightarrow> PodCounterInterval list" where
  "nativeIntervals pod rows s =
     sort_key (\<lambda>i. ns (pc_start i)) (map (\<lambda>((start, end), total). \<lparr>pc_pod = pi_name pod, pc_uid = pi_uid pod,
         pc_start = start, pc_end = end, pc_completedRequests = total\<rparr>)
       (filter (\<lambda>(key, _). map_of (sx_pairLabels s) key = Some rows) (sx_pairs s)))"

definition podSupport :: "Scope \<Rightarrow> TrafficProviderConfig \<Rightarrow> promSeries list \<Rightarrow> gotime \<Rightarrow> gotime \<Rightarrow> duration \<Rightarrow> PodIdentity \<Rightarrow>
    counterSupport" where
  "podSupport scope t series from to age pod =
     (let (expected, known, reason) = expectedLifetime scope pod from to;
          v = \<lparr>cu_segments = [], cu_covered = [], cu_expected = expected, cu_known = known, cu_reason = reason,
               cu_native = [], cu_sourceAt = zero_time\<rparr>;
          rows = filter (\<lambda>s. seriesPod t s = pod) series in
      if \<not> known \<or> expected = [] then v
      else if rows = [] then v\<lparr>cu_reason := ''counter series unavailable for active runtime''\<rparr>
      else
        let (s, common) = foldl (rowStep scope pod age expected)
              (\<lparr>sx_value = v, sx_support = [], sx_pairs = [], sx_pairLabels = [], sx_seen = {}\<rparr>, expected) rows
        in (sx_value s)\<lparr>cu_covered := common, cu_native := nativeIntervals pod (length rows) s\<rparr>)"

definition supportsFromSeries :: "Scope \<Rightarrow> TrafficProviderConfig \<Rightarrow> promSeries list \<Rightarrow> gotime \<Rightarrow> gotime \<Rightarrow> duration \<Rightarrow>
    (PodIdentity \<rightharpoonup> counterSupport)" where
  "supportsFromSeries scope t series from to age =
     (\<lambda>pod. if pod \<in> set (scp_pods scope) then Some (podSupport scope t series from to age pod) else None)"

section \<open>Rates of the fleet\<close>

definition podGaps :: "counterSupport \<Rightarrow> TimeInterval list" where
  "podGaps v = subtractIntervals (cu_expected v) (cu_covered v)"

definition commonStep :: "(PodIdentity \<rightharpoonup> counterSupport) \<Rightarrow> TimeInterval list \<Rightarrow> PodIdentity \<Rightarrow> TimeInterval list" where
  "commonStep values common pod =
     (case values pod of
        None \<Rightarrow> []
      | Some v \<Rightarrow> if \<not> cu_known v then [] else subtractIntervals common (podGaps v))"

definition fleetCommon :: "Scope \<Rightarrow> (PodIdentity \<rightharpoonup> counterSupport) \<Rightarrow> gotime \<Rightarrow> gotime \<Rightarrow> TimeInterval list" where
  "fleetCommon scope values from to = foldl (commonStep values) [interval from to] (scp_pods scope)"

definition coverageDetail :: "(PodIdentity \<rightharpoonup> counterSupport) \<Rightarrow> gotime \<Rightarrow> gotime \<Rightarrow> PodIdentity \<Rightarrow> PodTrafficCoverage" where
  "coverageDetail values from to pod =
     (let unavailable = \<lparr>tc_pod = pod, tc_expectedSeconds = d_seconds (t_sub to from), tc_coveredSeconds = Fin 0,
            tc_intervals = [], tc_gaps = [interval from to], tc_reason = ''runtime inventory unavailable''\<rparr>
      in case values pod of
           None \<Rightarrow> unavailable
         | Some v \<Rightarrow> if \<not> cu_known v then unavailable
             else \<lparr>tc_pod = pod, tc_expectedSeconds = intervalSeconds (cu_expected v),
                    tc_coveredSeconds = intervalSeconds (cu_covered v), tc_intervals = cu_covered v,
                    tc_gaps = podGaps v, tc_reason = cu_reason v\<rparr>)"

definition fleetSource :: "Scope \<Rightarrow> (PodIdentity \<rightharpoonup> counterSupport) \<Rightarrow> gotime" where
  "fleetSource scope values = foldl (\<lambda>source pod. case values pod of
       None \<Rightarrow> source
     | Some v \<Rightarrow> if cu_known v \<and> after (cu_sourceAt v) source then cu_sourceAt v else source) zero_time (scp_pods scope)"

definition countPiece :: "counterSegment \<Rightarrow> float64 \<times> bool \<Rightarrow> TimeInterval \<Rightarrow> float64 \<times> bool" where
  "countPiece segment = (\<lambda>(total, averaged) covered.
     (f_add total (f_div (f_mul (cg_count segment) (d_seconds (t_sub (iv_to covered) (iv_from covered))))
        (d_seconds (t_sub (cg_to segment) (cg_from segment)))),
      averaged \<or> \<not> same_instant (iv_from covered) (cg_nativeFrom segment) \<or> \<not> same_instant (iv_to covered) (cg_nativeUntil segment)))"

definition countSegment :: "TimeInterval list \<Rightarrow> float64 \<times> bool \<Rightarrow> counterSegment \<Rightarrow> float64 \<times> bool" where
  "countSegment common acc segment =
     foldl (countPiece segment) acc (intersectIntervals [interval (cg_from segment) (cg_to segment)] common)"

definition fleetCounterRate :: "Scope \<Rightarrow> (PodIdentity \<rightharpoonup> counterSupport) \<Rightarrow> gotime \<Rightarrow> gotime \<Rightarrow>
    float64 \<times> float64 \<times> bool \<times> gotime \<times> PodTrafficCoverage list" where
  "fleetCounterRate scope values from to =
     (let common = fleetCommon scope values from to;
          details = map (coverageDetail values from to) (scp_pods scope);
          source = fleetSource scope values;
          seconds = intervalSeconds common;
          coverage = f_div seconds (d_seconds (t_sub to from)) in
      if f_le seconds (Fin 0) then (Fin 0, coverage, False, source, details)
      else
        let (total, averaged) = foldl (\<lambda>acc pod. case values pod of None \<Rightarrow> acc
              | Some v \<Rightarrow> foldl (countSegment common) acc (cu_segments v)) (Fin 0, False) (scp_pods scope)
        in (f_div total seconds, f_min (Fin 1) coverage, averaged, source, details))"

fun mergeNativeIntervals :: "PodCounterInterval list \<Rightarrow> PodCounterInterval list \<Rightarrow> PodCounterInterval list" where
  "mergeNativeIntervals out [] = out"
| "mergeNativeIntervals out (v # vs) =
     (if out \<noteq> [] \<and> pc_uid (last out) = pc_uid v \<and> same_instant (pc_end (last out)) (pc_start v)
      then mergeNativeIntervals (butlast out @ [(last out)\<lparr>pc_end := pc_end v,
             pc_completedRequests := f_add (pc_completedRequests (last out)) (pc_completedRequests v)\<rparr>]) vs
      else mergeNativeIntervals (out @ [v]) vs)"

fun joinReasons :: "string list \<Rightarrow> string" where
  "joinReasons [] = ''''"
| "joinReasons [r] = r"
| "joinReasons (r # rs) = r @ '' '' @ joinReasons rs"

record nativeSupport =
  nt_native :: "PodCounterInterval list"
  nt_expected :: nat
  nt_present :: nat
  nt_expectedSeconds :: float64
  nt_measuredSeconds :: float64
  nt_reasons :: "string list"

definition nativeStep :: "(PodIdentity \<rightharpoonup> counterSupport) \<Rightarrow> nativeSupport \<Rightarrow> PodIdentity \<Rightarrow> nativeSupport" where
  "nativeStep values s pod =
     (let expected = (case values pod of None \<Rightarrow> [] | Some v \<Rightarrow> cu_expected v);
          s1 = s\<lparr>nt_expectedSeconds := f_add (nt_expectedSeconds s) (intervalSeconds expected)\<rparr>;
          unknown = s1\<lparr>nt_expected := nt_expected s + 1, nt_reasons := nt_reasons s @ [pi_name pod @ '': unknown runtime inventory'']\<rparr> in
      case values pod of
        None \<Rightarrow> unknown
      | Some v \<Rightarrow>
        if \<not> cu_known v then unknown
        else if expected = [] then s1
        else if cu_native v = []
        then s1\<lparr>nt_expected := nt_expected s + 1,
               nt_reasons := nt_reasons s @ [pi_name pod @ '': no complete native completion interval'']\<rparr>
        else s1\<lparr>nt_expected := nt_expected s + 1, nt_present := nt_present s + 1, nt_native := nt_native s @ cu_native v,
               nt_measuredSeconds := foldl (\<lambda>x i. f_add x (d_seconds (t_sub (pc_end i) (pc_start i)))) (nt_measuredSeconds s) (cu_native v)\<rparr>)"

definition nativeCompletionSupport :: "Scope \<Rightarrow> (PodIdentity \<rightharpoonup> counterSupport) \<Rightarrow>
    PodCounterInterval list \<times> PodCounterInterval list \<times> float64 \<times> float64 \<times> float64 \<times> string" where
  "nativeCompletionSupport scope values =
     (let s = foldl (nativeStep values) \<lparr>nt_native = [], nt_expected = 0, nt_present = 0, nt_expectedSeconds = Fin 0,
            nt_measuredSeconds = Fin 0, nt_reasons = []\<rparr> (scp_pods scope);
          coverage = (if nt_expected s > 0 then f_div (f_of_int (int (nt_present s))) (f_of_int (int (nt_expected s))) else Fin 1)
      in (mergeNativeIntervals [] (nt_native s), nt_native s, coverage, nt_expectedSeconds s, nt_measuredSeconds s,
          ''['' @ joinReasons (nt_reasons s) @ '']''))"

text \<open>Two counters restricted to the instants both of them measured, when the inventory of every pod is known.\<close>

definition bothKnown :: "counterSupport option \<Rightarrow> counterSupport option \<Rightarrow> bool" where
  "bothKnown x y \<longleftrightarrow> present cu_known x \<and> present cu_known y"

definition restrictTo :: "(PodIdentity \<rightharpoonup> counterSupport) \<Rightarrow> (PodIdentity \<rightharpoonup> counterSupport) \<Rightarrow>
    (PodIdentity \<rightharpoonup> counterSupport) \<Rightarrow> (PodIdentity \<rightharpoonup> counterSupport)" where
  "restrictTo values a b = (\<lambda>pod. case (values pod, a pod, b pod) of
     (Some v, Some x, Some y) \<Rightarrow> Some (v\<lparr>cu_covered := intersectIntervals (cu_covered x) (cu_covered y)\<rparr>) | _ \<Rightarrow> None)"

definition matchCounters :: "Scope \<Rightarrow> (PodIdentity \<rightharpoonup> counterSupport) \<Rightarrow> (PodIdentity \<rightharpoonup> counterSupport) \<Rightarrow>
    ((PodIdentity \<rightharpoonup> counterSupport) \<times> (PodIdentity \<rightharpoonup> counterSupport)) option" where
  "matchCounters scope a b =
     (if list_all (\<lambda>pod. bothKnown (a pod) (b pod)) (scp_pods scope)
      then Some (restrictTo a a b, restrictTo b a b) else None)"

definition half :: float64 where "half = round64 (1 / 2)"
definition p95 :: float64 where "p95 = round64 (95 / 100)"

definition matchedBacklogRatio :: "Scope \<Rightarrow> (PodIdentity \<rightharpoonup> counterSupport) \<Rightarrow> (PodIdentity \<rightharpoonup> counterSupport) \<Rightarrow> bool \<Rightarrow>
    gotime \<Rightarrow> gotime \<Rightarrow> float64 option \<times> gotime \<times> string" where
  "matchedBacklogRatio scope arrivals completions completionFailed from to =
     (if completionFailed then (None, to, ''completion counter unavailable'')
      else case matchCounters scope arrivals completions of
        None \<Rightarrow> (None, to, ''incomplete fleet runtime inventory'')
      | Some (matchedArrivals, matchedCompletions) \<Rightarrow>
        let (arrivalRate, coverage, _, arrivalSource, _) = fleetCounterRate scope matchedArrivals from to;
            (completionRate, _, _, completionSource, _) = fleetCounterRate scope matchedCompletions from to in
        if f_lt coverage half then (None, to, ''too few seconds measured by both counters'')
        else if f_le completionRate (Fin 0) then (None, to, ''no finished requests in the measured seconds'')
        else (Some (f_div arrivalRate completionRate), later arrivalSource completionSource, ''''))"

definition finishedOutcomeErrorFraction :: "Scope \<Rightarrow> (PodIdentity \<rightharpoonup> counterSupport) \<Rightarrow> (PodIdentity \<rightharpoonup> counterSupport) \<Rightarrow>
    gotime \<Rightarrow> gotime \<Rightarrow> float64 option \<times> gotime \<times> string" where
  "finishedOutcomeErrorFraction scope failures outcomes from to =
     (case matchCounters scope failures outcomes of
        None \<Rightarrow> (None, to, ''incomplete fleet outcome support'')
      | Some (matchedFailures, matchedOutcomes) \<Rightarrow>
        let (failureRate, failureCoverage, _, failureSource, _) = fleetCounterRate scope matchedFailures from to;
            (outcomeRate, outcomeCoverage, _, outcomeSource, _) = fleetCounterRate scope matchedOutcomes from to;
            source = later failureSource outcomeSource in
        if f_lt failureCoverage p95 \<or> f_lt outcomeCoverage p95 then (None, source, ''incomplete fleet outcome support'')
        else if f_le outcomeRate (Fin 0) then (None, source, ''no finished outcomes in the measurement window'')
        else if f_lt outcomeRate failureRate then (None, source, ''error counter exceeds all finished outcomes'')
        else (Some (f_div failureRate outcomeRate), source, ''''))"

section \<open>Reading a window\<close>

type_synonym query = "string \<Rightarrow> gotime \<Rightarrow> gotime \<Rightarrow> promSeries list result"

text \<open>What \<open>query\<close> accepts of a decoded answer; \<open>None\<close> is a pair that is not a timestamp and a value.\<close>

definition unixEpoch :: int where "unixEpoch = 62135596800 * second"

definition nativeSample :: "(string \<Rightarrow> float64 option) \<Rightarrow> gotime \<Rightarrow> (float64 \<times> string) option \<Rightarrow> promSample result" where
  "nativeSample parseFloat to pair =
     (case pair of None \<Rightarrow> Inl ''invalid native sample''
      | Some (timestamp, raw) \<Rightarrow>
        (case parseFloat raw of None \<Rightarrow> Inl ''nonfinite native sample''
         | Some number \<Rightarrow>
           if f_is_nan number \<or> f_is_inf number \<or> f_is_nan timestamp \<or> f_is_inf timestamp then Inl ''nonfinite native sample''
           else let stamp = GoTime (unixEpoch + f_to_int64 (f_round (f_mul timestamp (f_of_int second)))) 0 in
             if after stamp to then Inl ''future Prometheus sample'' else Inr \<lparr>ps_at = stamp, ps_value = number\<rparr>))"

definition acceptSeries :: "(string \<Rightarrow> float64 option) \<Rightarrow> Scope \<Rightarrow> TrafficProviderConfig \<Rightarrow> gotime \<Rightarrow> promSeries list \<Rightarrow>
    (string \<rightharpoonup> string) \<times> (float64 \<times> string) option list \<Rightarrow> promSeries list result" where
  "acceptSeries parseFloat scope t to out = (\<lambda>(metric, values).
     let (nsLabel, _, _) = trafficLabels t; s = \<lparr>pr_metric = metric, pr_samples = []\<rparr> in
     if opt_default '''' (metric nsLabel) \<noteq> scp_namespace scope \<or> seriesPod t s \<notin> set (scp_pods scope)
     then Inl ''Prometheus series violates workload identity''
     else if length values > 256 then Inl ''too many native samples per series''
     else rbind (foldR (\<lambda>acc pair. rbind (nativeSample parseFloat to pair) (\<lambda>x. Inr (acc @ [x]))) [] values)
       (\<lambda>samples. Inr (out @ [s\<lparr>pr_samples := sort_key (\<lambda>x. ns (ps_at x)) samples\<rparr>])))"

definition acceptAnswer :: "(string \<Rightarrow> float64 option) \<Rightarrow> Scope \<Rightarrow> TrafficProviderConfig \<Rightarrow> gotime \<Rightarrow>
    ((string \<rightharpoonup> string) \<times> (float64 \<times> string) option list) list \<Rightarrow> promSeries list result" where
  "acceptAnswer parseFloat scope t to answer =
     (if length answer > 4096 then Inl ''invalid or oversized Prometheus matrix''
      else foldR (acceptSeries parseFloat scope t to) [] answer)"

definition counterSupports :: "query \<Rightarrow> gotime \<Rightarrow> Scope \<Rightarrow> TrafficProviderConfig \<Rightarrow> string \<Rightarrow> gotime \<Rightarrow> gotime \<Rightarrow> duration \<Rightarrow>
    (PodIdentity \<rightharpoonup> counterSupport) result" where
  "counterSupports query now scope t metric from to age =
     rbind (query metric (t_add from (- age)) (earlierEnd (t_add to age) now))
       (\<lambda>series. Inr (supportsFromSeries scope t series from to age))"

definition activeAt :: "Scope \<Rightarrow> gotime \<Rightarrow> PodIdentity \<Rightarrow> bool" where
  "activeAt scope to pod \<longleftrightarrow> fst (expectedLifetime scope pod to (t_add to 1)) \<noteq> []"

definition gaugeStep :: "Scope \<Rightarrow> TrafficProviderConfig \<Rightarrow> gotime \<Rightarrow> duration \<Rightarrow> float64 \<times> gotime \<times> PodIdentity set \<Rightarrow> promSeries \<Rightarrow>
    (float64 \<times> gotime \<times> PodIdentity set) result" where
  "gaugeStep scope t to age = (\<lambda>(v, source, seen) s.
     let pod = seriesPod t s in
     if \<not> (pod \<in> set (scp_pods scope) \<and> activeAt scope to pod) \<or> pr_samples s = [] then Inr (v, source, seen)
     else let x = last (pr_samples s) in
       if t_sub to (ps_at x) > age \<or> after (ps_at x) to then Inl ''optional gauge is stale''
       else Inr (f_add v (ps_value x), (if before (ps_at x) source then ps_at x else source), insert pod seen))"

definition readGauge :: "query \<Rightarrow> Scope \<Rightarrow> TrafficProviderConfig \<Rightarrow> string \<Rightarrow> gotime \<Rightarrow> duration \<Rightarrow> (float64 \<times> gotime) result" where
  "readGauge query scope t metric to age =
     rbind (query metric (t_add to (- age)) to) (\<lambda>series.
       if list_ex (\<lambda>pod. \<not> fst (snd (expectedLifetime scope pod to (t_add to 1)))) (scp_pods scope)
       then Inl ''optional gauge runtime inventory unavailable''
       else rbind (foldR (gaugeStep scope t to age) (Fin 0, to, {}) series) (\<lambda>(v, source, seen).
         if card seen \<noteq> card {pod \<in> set (scp_pods scope). activeAt scope to pod}
         then Inl ''optional gauge has incomplete active pod coverage'' else Inr (v, source)))"

fun groupBounds :: "(string \<Rightarrow> float64 option) \<Rightarrow> (float64 \<times> promSeries list) list \<Rightarrow> promSeries list \<Rightarrow>
    ((float64 \<times> promSeries list) list) result" where
  "groupBounds parseFloat grouped [] = Inr grouped"
| "groupBounds parseFloat grouped (s # series) =
     (case parseFloat (opt_default '''' (pr_metric s ''le'')) of
        None \<Rightarrow> Inl ''invalid histogram boundary''
      | Some bound \<Rightarrow> if f_is_nan bound then Inl ''invalid histogram boundary''
          else groupBounds parseFloat (addTo bound (\<lambda>rows. rows @ [s]) [] grouped) series)"

definition bucketStep :: "Scope \<Rightarrow> TrafficProviderConfig \<Rightarrow> gotime \<Rightarrow> gotime \<Rightarrow> duration \<Rightarrow> (float64 \<times> float64) list \<times> gotime \<Rightarrow>
    float64 \<times> promSeries list \<Rightarrow> ((float64 \<times> float64) list \<times> gotime) result" where
  "bucketStep scope t from to age = (\<lambda>(buckets, source) (bound, rows).
     let (rate, coverage, _, read, _) = fleetCounterRate scope (supportsFromSeries scope t rows from to age) from to in
     if f_lt coverage p95 then Inl ''latency histogram incomplete fleet coverage''
     else Inr (buckets @ [(bound, rate)], if after read source then read else source))"

fun quantileLoop :: "float64 \<Rightarrow> float64 \<Rightarrow> float64 \<Rightarrow> (float64 \<times> float64) list \<Rightarrow> float64 result" where
  "quantileLoop target previousBound previousCount [] = Inl ''histogram quantile unavailable''"
| "quantileLoop target previousBound previousCount ((bound, height) # buckets) =
     (if f_lt height previousCount then Inl ''nonmonotonic histogram buckets''
      else if f_le target height then
        (if bound = PInf then Inr previousBound
         else if f_eq height previousCount then Inr bound
         else Inr (f_add previousBound (f_div (f_mul (f_sub bound previousBound) (f_sub target previousCount))
                (f_sub height previousCount))))
      else quantileLoop target bound height buckets)"

definition readLatency :: "(string \<Rightarrow> float64 option) \<Rightarrow> query \<Rightarrow> gotime \<Rightarrow> Scope \<Rightarrow> TrafficProviderConfig \<Rightarrow> gotime \<Rightarrow> gotime \<Rightarrow>
    duration \<Rightarrow> (float64 \<times> gotime) result" where
  "readLatency parseFloat query now scope t from to age =
     rbind (query (tp_latencyBucketMetric t) (t_add from (- age)) (if after (t_add to age) now then now else t_add to age)) (\<lambda>series.
     rbind (groupBounds parseFloat [] series) (\<lambda>grouped.
     rbind (foldR (bucketStep scope t from to age) ([], zero_time) grouped) (\<lambda>(buckets, source).
       let total = opt_default (Fin 0) (map_of buckets PInf) in
       if f_le total (Fin 0) then Inl ''latency histogram unavailable''
       else rbind (quantileLoop (f_mul p95 total) (Fin 0) (Fin 0) (sort_key fst buckets)) (\<lambda>v. Inr (v, source)))))"

record TrafficWindow =
  tw_start :: gotime
  tw_end :: gotime
  tw_availableAt :: gotime
  tw_arrivalsPerSecond :: float64
  tw_completedRequests :: float64
  tw_perPodIntervals :: "PodCounterInterval list"
  tw_features :: "string \<rightharpoonup> FeatureValue"
  tw_arrivalCoverage :: float64
  tw_coverage :: float64
  tw_qualified :: bool
  tw_reason :: string
  tw_arrivalBoundaryAveraged :: bool
  tw_arrivalPodCoverage :: "PodTrafficCoverage list"
  tw_expectedPodSeconds :: float64
  tw_nativePodSeconds :: float64
  tw_nativeSupportFraction :: float64
  tw_perPodNativeIntervals :: "PodCounterInterval list"
  tw_arrivalIntervals :: "ArrivalInterval list"

definition emptyWindow :: "gotime \<Rightarrow> gotime \<Rightarrow> TrafficWindow" where
  "emptyWindow from to =
     \<lparr>tw_start = from, tw_end = to, tw_availableAt = zero_time, tw_arrivalsPerSecond = Fin 0, tw_completedRequests = Fin 0,
      tw_perPodIntervals = [], tw_features = Map.empty, tw_arrivalCoverage = Fin 0, tw_coverage = Fin 0, tw_qualified = False,
      tw_reason = '''', tw_arrivalBoundaryAveraged = False, tw_arrivalPodCoverage = [], tw_expectedPodSeconds = Fin 0,
      tw_nativePodSeconds = Fin 0, tw_nativeSupportFraction = Fin 0, tw_perPodNativeIntervals = [], tw_arrivalIntervals = []\<rparr>"

definition setFeature :: "(string \<Rightarrow> gotime) \<Rightarrow> string \<Rightarrow> string \<Rightarrow> float64 option \<Rightarrow> gotime \<Rightarrow> string \<Rightarrow> TrafficWindow \<Rightarrow> TrafficWindow" where
  "setFeature now name unit v source reason w =
     w\<lparr>tw_features := (tw_features w)(name \<mapsto> \<lparr>fv_value = v, fv_sourceAt = (if is_zero source then tw_end w else source),
        fv_receivedAt = now name, fv_unit = unit, fv_missingReason = reason,
        fv_measurementWindow = Some (interval (tw_start w) (tw_end w))\<rparr>)\<rparr>"

text \<open>The starts of the shorter windows; the stride is positive where the loop is entered.\<close>

function arrivalStarts :: "duration \<Rightarrow> gotime \<Rightarrow> gotime \<Rightarrow> gotime list" where
  "arrivalStarts stride to left =
     (if stride \<le> 0 \<or> after (t_add left stride) to then [] else left # arrivalStarts stride to (t_add left stride))"
  by auto
termination
  by (relation "measure (\<lambda>(stride, to, left). nat (ns to - ns left))") auto

declare arrivalStarts.simps [simp del]

definition arrivalInterval :: "Scope \<Rightarrow> (PodIdentity \<rightharpoonup> counterSupport) \<Rightarrow> duration \<Rightarrow> gotime \<Rightarrow> ArrivalInterval" where
  "arrivalInterval scope arrival stride left =
     (let right = t_add left stride; (rate, covered, boundary, _, _) = fleetCounterRate scope arrival left right
      in \<lparr>ai_from = left, ai_to = right, ai_availableAt = zero_time,
          ai_rate = (if f_le p95 covered then Some rate else None), ai_coverage = covered, ai_boundaryAveraged = boundary\<rparr>)"

definition arrivalPart :: "Scope \<Rightarrow> RequestDemandConfig \<Rightarrow> (PodIdentity \<rightharpoonup> counterSupport) \<Rightarrow> TrafficWindow \<Rightarrow> TrafficWindow" where
  "arrivalPart scope config arrival w =
     (let (arrivalRate, coverage, averaged, _, details) = fleetCounterRate scope arrival (tw_start w) (tw_end w);
          seconds = rd_forecastIntervalSeconds config; stride = wrap64 (seconds * second)
      in w\<lparr>tw_arrivalsPerSecond := arrivalRate, tw_arrivalCoverage := coverage, tw_arrivalBoundaryAveraged := averaged,
           tw_arrivalPodCoverage := details,
           tw_arrivalIntervals := (if seconds > 0 \<and> seconds < 30
             then map (arrivalInterval scope arrival stride) (arrivalStarts stride (tw_end w) (tw_start w)) else [])\<rparr>)"

definition completionPart :: "Scope \<Rightarrow> (PodIdentity \<rightharpoonup> counterSupport) result \<Rightarrow> TrafficWindow \<Rightarrow> TrafficWindow" where
  "completionPart scope completed w =
     (let (merged, native, coverage, expectedSeconds, nativeSeconds, reason) =
            nativeCompletionSupport scope (case completed of Inl _ \<Rightarrow> Map.empty | Inr v \<Rightarrow> v)
      in w\<lparr>tw_perPodIntervals := merged, tw_perPodNativeIntervals := native, tw_coverage := coverage,
           tw_expectedPodSeconds := expectedSeconds, tw_nativePodSeconds := nativeSeconds,
           tw_nativeSupportFraction := (if f_lt (Fin 0) expectedSeconds then f_div nativeSeconds expectedSeconds else Fin 0),
           tw_completedRequests := foldl (\<lambda>x i. f_add x (pc_completedRequests i)) (Fin 0) merged,
           tw_qualified := is_ok completed \<and> f_eq coverage (Fin 1) \<and> merged \<noteq> [],
           tw_reason := (case completed of Inl e \<Rightarrow> e | Inr _ \<Rightarrow> reason)\<rparr>)"

definition requiredFeatures :: "(string \<Rightarrow> gotime) \<Rightarrow> Scope \<Rightarrow> (PodIdentity \<rightharpoonup> counterSupport) \<Rightarrow>
    (PodIdentity \<rightharpoonup> counterSupport) result \<Rightarrow> TrafficWindow \<Rightarrow> TrafficWindow" where
  "requiredFeatures now scope arrival completed w =
     (let from = tw_start w; to = tw_end w; values = (case completed of Inl _ \<Rightarrow> Map.empty | Inr v \<Rightarrow> v);
          (arrivalRate, coverage, _, arrivalSource, _) = fleetCounterRate scope arrival from to;
          w1 = (if f_le p95 coverage then setFeature now ''traffic_arrivals'' ''requests/second'' (Some arrivalRate) arrivalSource '''' w
                else setFeature now ''traffic_arrivals'' ''requests/second'' None to ''incomplete fleet arrival support'' w);
          (completionRate, completionCoverage, _, completionSource, _) = fleetCounterRate scope values from to;
          w2 = (if is_ok completed \<and> f_le p95 completionCoverage
                then setFeature now ''traffic_completions'' ''requests/second'' (Some completionRate) completionSource '''' w1
                else setFeature now ''traffic_completions'' ''requests/second'' None to ''incomplete fleet completion support'' w1)
      in case matchedBacklogRatio scope arrival values (\<not> is_ok completed) from to of
           (Some ratio, source, _) \<Rightarrow> setFeature now ''traffic_backlog_ratio'' ''ratio'' (Some ratio) source '''' w2
         | (None, _, reason) \<Rightarrow> setFeature now ''traffic_backlog_ratio'' ''ratio'' None to reason w2)"

definition errorFeatures :: "query \<Rightarrow> (string \<Rightarrow> gotime) \<Rightarrow> Scope \<Rightarrow> TrafficProviderConfig \<Rightarrow> duration \<Rightarrow> TrafficWindow \<Rightarrow> TrafficWindow" where
  "errorFeatures query now scope t age w =
     (let from = tw_start w; to = tw_end w in
      if tp_errorsMetric t = '''' then w
      else
        let counters = counterSupports query (now (tp_errorsMetric t)) scope t (tp_errorsMetric t) from to age;
            values = (case counters of Inl _ \<Rightarrow> Map.empty | Inr v \<Rightarrow> v);
            (rate, coverage, _, source, _) = fleetCounterRate scope values from to;
            w1 = setFeature now ''traffic_error_rate'' ''ratio'' None to ''all-outcome counter is not configured'' w in
        if \<not> is_ok counters \<or> f_lt coverage p95
        then setFeature now ''traffic_error_rate'' ''ratio'' None to ''error counter unavailable''
               (setFeature now ''traffic_errors'' ''errors/second'' None to ''error counter unavailable'' w1)
        else
          let w2 = setFeature now ''traffic_errors'' ''errors/second'' (Some rate) source '''' w1 in
          if tp_outcomesMetric t = '''' then w2
          else case counterSupports query (now (tp_outcomesMetric t)) scope t (tp_outcomesMetric t) from to age of
            Inl _ \<Rightarrow> setFeature now ''traffic_error_rate'' ''ratio'' None to ''all-outcome counter unavailable'' w2
          | Inr outcomes \<Rightarrow>
            let (ratio, ratioSource, reason) = finishedOutcomeErrorFraction scope values outcomes from to
            in setFeature now ''traffic_error_rate'' ''ratio'' ratio ratioSource reason w2)"

definition latencyFeature :: "(string \<Rightarrow> float64 option) \<Rightarrow> query \<Rightarrow> (string \<Rightarrow> gotime) \<Rightarrow> Scope \<Rightarrow> TrafficProviderConfig \<Rightarrow> duration \<Rightarrow>
    TrafficWindow \<Rightarrow> TrafficWindow" where
  "latencyFeature parseFloat query now scope t age w =
     (if tp_latencyBucketMetric t = '''' then w
      else case readLatency parseFloat query (now (tp_latencyBucketMetric t)) scope t (tw_start w) (tw_end w) age of
        Inl e \<Rightarrow> setFeature now ''traffic_latency_p95'' ''seconds'' None (tw_end w) e w
      | Inr (v, source) \<Rightarrow> setFeature now ''traffic_latency_p95'' ''seconds'' (Some v) source '''' w)"

definition extraFeature :: "query \<Rightarrow> (string \<Rightarrow> gotime) \<Rightarrow> Scope \<Rightarrow> TrafficProviderConfig \<Rightarrow> duration \<Rightarrow> TrafficWindow \<Rightarrow>
    DemandExtraMetric \<Rightarrow> TrafficWindow" where
  "extraFeature query now scope t maxAge w m =
     (let from = tw_start w; to = tw_end w;
          configured = wrap64 (dx_maxAgeSeconds m * second); age = (if configured = 0 then maxAge else configured) in
      if dx_kind m = ''counter'' then
        (let counters = counterSupports query (now (dx_name m)) scope t (dx_metric m) from to age;
             (rate, coverage, _, source, _) = fleetCounterRate scope (case counters of Inl _ \<Rightarrow> Map.empty | Inr v \<Rightarrow> v) from to in
         if \<not> is_ok counters \<or> f_lt coverage p95
         then setFeature now (dx_name m) (dx_unit m) None to ''optional counter unavailable'' w
         else setFeature now (dx_name m) (dx_unit m) (Some rate) source '''' w)
      else case readGauge query scope t (dx_metric m) to age of
        Inl e \<Rightarrow> setFeature now (dx_name m) (dx_unit m) None to e w
      | Inr (v, source) \<Rightarrow>
        let w1 = setFeature now (dx_name m) (dx_unit m) (Some v) source '''' w
        in w1\<lparr>tw_features := (tw_features w1)(dx_name m := map_option (\<lambda>f. f\<lparr>fv_measurementWindow := None\<rparr>) (tw_features w1 (dx_name m)))\<rparr>)"

definition stampWindow :: "gotime \<Rightarrow> TrafficWindow \<Rightarrow> TrafficWindow" where
  "stampWindow available w =
     w\<lparr>tw_availableAt := available,
       tw_arrivalIntervals := map (\<lambda>i. i\<lparr>ai_availableAt := available\<rparr>) (tw_arrivalIntervals w),
       tw_features := (\<lambda>k. map_option (\<lambda>f. f\<lparr>fv_receivedAt := available\<rparr>) (tw_features w k))\<rparr>"

text \<open>
  \<open>now\<close> gives the reading of the clock at each step, named by the step; \<open>query\<close> is the reader's query for
  the scope and the provider.
\<close>

definition ReadWindow :: "(string \<Rightarrow> float64 option) \<Rightarrow> query \<Rightarrow> (string \<Rightarrow> gotime) \<Rightarrow> Scope \<Rightarrow> RequestDemandConfig \<Rightarrow> gotime \<Rightarrow>
    gotime \<Rightarrow> TrafficWindow result" where
  "ReadWindow parseFloat query now scope config from to =
     (let t = rd_traffic config; configured = wrap64 (tp_maxAgeSeconds t * second);
          maxAge = (if configured = 0 then 3 * second else configured) in
      case ValidateConfig config of Some e \<Rightarrow> Inl e | None \<Rightarrow>
      if scp_namespace scope = '''' \<or> scp_pods scope = [] \<or> length (scp_pods scope) > 128 \<or> \<not> after to from \<or>
        t_sub to from > minute
      then Inl ''invalid or unbounded workload window''
      else if after to (now ''start'') then Inl ''future traffic windows are not readable''
      else case counterSupports query (now (tp_arrivalsMetric t)) scope t (tp_arrivalsMetric t) from to maxAge of
        Inl e \<Rightarrow> Inl ''arrival counter''
      | Inr arrival \<Rightarrow>
        let completed = counterSupports query (now (tp_completionsMetric t)) scope t (tp_completionsMetric t) from to maxAge;
            w = latencyFeature parseFloat query now scope t maxAge (errorFeatures query now scope t maxAge
                  (requiredFeatures now scope arrival completed (completionPart scope completed
                    (arrivalPart scope config arrival (emptyWindow from to)))))
        in Inr (stampWindow (now ''available'') (foldl (extraFeature query now scope t maxAge) w (rd_extraMetrics config))))"

section \<open>The scope of a window\<close>

definition unborn :: "Container \<Rightarrow> bool" where
  "unborn c \<longleftrightarrow> ct_id c = [] \<or> is_zero (ct_startedAt c)"

definition lifetimeStep :: "gotime \<Rightarrow> PodLifetime \<Rightarrow> Container \<Rightarrow> PodLifetime" where
  "lifetimeStep from life c =
     (if unborn c \<and> present (\<lambda>f. \<not> after f from) (ct_finishedAt c) then life
      else if unborn c \<and> ct_finishedAt c = None \<and> present (\<lambda>e. \<not> after e from) (ct_endUpperBound c) then life
      else if unborn c then life\<lparr>lf_known := False, lf_reason := ''unknown runtime epoch''\<rparr>
      else
        let life1 = life\<lparr>lf_boundaries := lf_boundaries life @ [ct_startedAt c]\<rparr> in
        case ct_finishedAt c of
          Some f \<Rightarrow> life1\<lparr>lf_boundaries := lf_boundaries life1 @ [f],
              lf_intervals := lf_intervals life @ [interval (ct_startedAt c) f]\<rparr>
        | None \<Rightarrow> (case ct_endUpperBound c of
            Some e \<Rightarrow> life1\<lparr>lf_boundaries := lf_boundaries life1 @ [e],
              lf_reason := ''exit bounded by observed absence; unknown tail remains required'',
              lf_intervals := lf_intervals life @ [interval (ct_startedAt c) e]\<rparr>
          | None \<Rightarrow> life1\<lparr>lf_intervals := lf_intervals life @ [interval (ct_startedAt c) zero_time]\<rparr>))"

definition podLifetime :: "gotime \<Rightarrow> gotime \<Rightarrow> Pod \<Rightarrow> PodLifetime" where
  "podLifetime from to pod =
     (let life = \<lparr>lf_known = pd_containers pod \<noteq> [], lf_intervals = [], lf_reason = [], lf_boundaries = []\<rparr>
      in if after (pd_createdAt pod) to then life\<lparr>lf_known := True\<rparr> else foldl (lifetimeStep from) life (pd_containers pod))"

definition inventoryStep :: "gotime \<Rightarrow> gotime \<Rightarrow> Scope \<Rightarrow> Pod \<Rightarrow> Scope" where
  "inventoryStep from to scope pod =
     (if pd_namespace pod \<noteq> scp_namespace scope \<or> pd_uid pod = [] then scope
      else scope\<lparr>
        scp_pods := (if pd_name pod \<noteq> [] \<and> pd_uid pod \<notin> pi_uid ` set (scp_pods scope)
          then scp_pods scope @ [\<lparr>pi_name = pd_name pod, pi_uid = pd_uid pod\<rparr>] else scp_pods scope),
        scp_lifetimes := map_option (\<lambda>m. m(pd_uid pod \<mapsto> podLifetime from to pod)) (scp_lifetimes scope)\<rparr>)"

definition activeIn :: "Scope \<Rightarrow> gotime \<Rightarrow> gotime \<Rightarrow> PodIdentity \<Rightarrow> bool" where
  "activeIn scope from to pod \<longleftrightarrow>
     (case Option.bind (scp_lifetimes scope) (\<lambda>m. m (pi_uid pod)) of
        None \<Rightarrow> True
      | Some life \<Rightarrow> \<not> lf_known life \<or>
          list_ex (\<lambda>i. before (iv_from i) to \<and> (is_zero (iv_to i) \<or> after (iv_to i) from)) (lf_intervals life))"

definition demandWindowScope :: "Scope \<Rightarrow> WorkloadObservation option \<Rightarrow> Scope" where
  "demandWindowScope scope window =
     (let byUID = (\<lambda>s. s\<lparr>scp_pods := sort_key pi_uid (scp_pods s)\<rparr>) in
      case window of
        None \<Rightarrow> byUID scope
      | Some w \<Rightarrow>
        let inventory = (if wo_inventory w = [] then wo_pods w else wo_inventory w);
            s = foldl (inventoryStep (wo_from w) (wo_to w)) (scope\<lparr>scp_lifetimes := Some Map.empty\<rparr>) inventory
        in byUID (if after (wo_to w) (wo_from w)
                  then s\<lparr>scp_pods := filter (activeIn s (wo_from w) (wo_to w)) (scp_pods s)\<rparr> else s))"

section \<open>Intervals as sets of instants\<close>

definition ivPoints :: "TimeInterval \<Rightarrow> int set" where
  "ivPoints v = {ns (iv_from v) ..< ns (iv_to v)}"

definition instants :: "TimeInterval list \<Rightarrow> int set" where
  "instants vs = (\<Union>v \<in> set vs. ivPoints v)"

lemma instants_simps [simp]:
  "instants [] = {}" "instants (v # vs) = ivPoints v \<union> instants vs" "instants (us @ vs) = instants us \<union> instants vs"
  by (auto simp: instants_def)

lemma instants_concat: "instants (concat vss) = (\<Union>vs \<in> set vss. instants vs)"
  by (auto simp: instants_def)

lemma ivPoints_interval [simp]: "ivPoints (interval a b) = {ns a ..< ns b}"
  by (simp add: ivPoints_def)

lemma ns_later [simp]: "ns (later a b) = max (ns a) (ns b)"
  by (simp add: later_def)

lemma ns_earlierEnd [simp]: "ns (earlierEnd a b) = min (ns a) (ns b)"
  by (simp add: earlierEnd_def)

text \<open>The normal form: proper intervals in order, with gaps between them.\<close>

definition separated :: "TimeInterval list \<Rightarrow> bool" where
  "separated vs \<longleftrightarrow> (\<forall>v \<in> set vs. ns (iv_from v) < ns (iv_to v)) \<and>
     sorted_wrt (\<lambda>u v. ns (iv_to u) < ns (iv_from v)) vs"

lemma unionStep_normal:
  assumes "separated out" "\<And>u. u \<in> set out \<Longrightarrow> ns (iv_from u) \<le> ns (iv_from v)"
  shows "separated (unionStep out v)" "instants (unionStep out v) = instants out \<union> ivPoints v"
    "\<And>u. u \<in> set (unionStep out v) \<Longrightarrow> ns (iv_from u) \<le> ns (iv_from v)"
proof -
  consider (keep) "unionStep out v = out" "ivPoints v \<subseteq> instants out"
    | (new) "unionStep out v = out @ [v]" "ns (iv_from v) < ns (iv_to v)" "\<And>u. u \<in> set out \<Longrightarrow> ns (iv_to u) < ns (iv_from v)"
    | (grow) us u where "out = us @ [u]" "unionStep out v = us @ [u\<lparr>iv_to := iv_to v\<rparr>]" "ns (iv_from u) \<le> ns (iv_from v)"
        "ns (iv_from v) \<le> ns (iv_to u)" "ns (iv_to u) < ns (iv_to v)"
  proof (cases out rule: rev_cases)
    case Nil
    then show ?thesis using that(1,2) by (cases "ns (iv_from v) < ns (iv_to v)") (auto simp: unionStep_def ivPoints_def)
  next
    case (snoc us u)
    then have u: "ns (iv_from u) \<le> ns (iv_from v)" "\<And>x. x \<in> set us \<Longrightarrow> ns (iv_to x) < ns (iv_from u)" "ns (iv_from u) < ns (iv_to u)"
      using assms by (auto simp: separated_def sorted_wrt_append)
    show ?thesis
    proof (cases "ns (iv_from v) < ns (iv_to v) \<and> ns (iv_to u) < ns (iv_from v)")
      case True
      then show ?thesis using snoc u by (intro that(2)) (fastforce simp: unionStep_def)+
    next
      case False
      then show ?thesis using snoc u by (cases "ns (iv_to u) < ns (iv_to v)")
          (auto simp: unionStep_def ivPoints_def instants_def intro: that(1,3))
    qed
  qed
  then show "separated (unionStep out v)" "instants (unionStep out v) = instants out \<union> ivPoints v"
    "\<And>u. u \<in> set (unionStep out v) \<Longrightarrow> ns (iv_from u) \<le> ns (iv_from v)"
    using assms by (cases; fastforce simp: separated_def sorted_wrt_append ivPoints_def)+
qed

lemma foldl_unionStep:
  assumes "separated out" "sorted (map (\<lambda>v. ns (iv_from v)) vs)" "\<And>u v. u \<in> set out \<Longrightarrow> v \<in> set vs \<Longrightarrow> ns (iv_from u) \<le> ns (iv_from v)"
  shows "separated (foldl unionStep out vs) \<and> instants (foldl unionStep out vs) = instants out \<union> instants vs"
  using assms
proof (induction vs arbitrary: out)
  case (Cons v vs)
  note step = unionStep_normal [OF Cons.prems(1), of v]
  have le: "ns (iv_from u) \<le> ns (iv_from v)" if "u \<in> set out" for u using Cons.prems(3) that by simp
  have "separated (foldl unionStep (unionStep out v) vs) \<and>
      instants (foldl unionStep (unionStep out v) vs) = instants (unionStep out v) \<union> instants vs"
    using Cons.prems(2) step(1) [OF le] step(3) [OF le] by (intro Cons.IH) (auto intro: order_trans)
  then show ?case using step(2) [OF le] by auto
qed simp

lemma separated_Nil [simp]: "separated []"
  by (simp add: separated_def)

lemma unionIntervals_normal: "separated (unionIntervals vs)" "instants (unionIntervals vs) = instants vs"
proof -
  have "separated (unionIntervals vs) \<and> instants (unionIntervals vs) = instants (sort_key (\<lambda>v. ns (iv_from v)) vs)"
    unfolding unionIntervals_def by (subst foldl_unionStep [of "[]"]) (auto intro: foldl_unionStep [THEN conjunct1])
  then show "separated (unionIntervals vs)" "instants (unionIntervals vs) = instants vs" by (auto simp: instants_def)
qed

lemma intersectIntervals_instants [simp]: "instants (intersectIntervals a b) = instants a \<inter> instants b"
proof -
  have "instants (let from = later (iv_from x) (iv_from y); to = earlierEnd (iv_to x) (iv_to y)
      in if after to from then [interval from to] else []) = ivPoints x \<inter> ivPoints y" for x y
    by (auto simp: ivPoints_def Let_def)
  then show ?thesis unfolding intersectIntervals_def unionIntervals_normal(2) instants_concat set_map image_image
    by (auto simp: instants_def)
qed

lemma cutInterval_instants: "instants (cutInterval r v) = ivPoints v - ivPoints r"
  by (auto simp: cutInterval_def ivPoints_def)

lemma subtractIntervals_instants [simp]: "instants (subtractIntervals a b) = instants a - instants b"
proof -
  have "instants (foldl (\<lambda>out remove. concat (map (cutInterval remove) out)) vs rs) = instants vs - instants rs" for vs rs
  proof (induction rs arbitrary: vs)
    case (Cons r rs)
    have "instants (concat (map (cutInterval r) vs)) = instants vs - ivPoints r"
      by (auto simp: instants_concat cutInterval_instants) (auto simp: instants_def)
    then show ?case using Cons by auto
  qed simp
  then show ?thesis by (simp add: subtractIntervals_def unionIntervals_normal(2))
qed

section \<open>What a counter measured\<close>

text \<open>When a container of the pod may have run, and when a series measured an instant.\<close>

definition mayRun :: "Scope \<Rightarrow> PodIdentity \<Rightarrow> int \<Rightarrow> bool" where
  "mayRun scope pod i =
     (case scp_lifetimes scope of None \<Rightarrow> True
      | Some m \<Rightarrow> (case m (pi_uid pod) of None \<Rightarrow> True
        | Some life \<Rightarrow> \<not> lf_known life \<or> (\<exists>v \<in> set (lf_intervals life). ns (iv_from v) \<le> i \<and> (is_zero (iv_to v) \<or> i < ns (iv_to v)))))"

definition inventoryKnown :: "Scope \<Rightarrow> PodIdentity \<Rightarrow> bool" where
  "inventoryKnown scope pod =
     (case scp_lifetimes scope of None \<Rightarrow> True | Some m \<Rightarrow> present lf_known (m (pi_uid pod)))"

definition pairCovers :: "Scope \<Rightarrow> PodIdentity \<Rightarrow> duration \<Rightarrow> int \<Rightarrow> promSample \<times> promSample \<Rightarrow> bool" where
  "pairCovers scope pod age i = (\<lambda>(a, b). ns (ps_at a) \<le> i \<and> i < ns (ps_at b) \<and>
     \<not> f_lt (ps_value a) (Fin 0) \<and> \<not> f_lt (ps_value b) (ps_value a) \<and> t_sub (ps_at b) (ps_at a) \<le> wrap64 (2 * age) \<and>
     (case scp_lifetimes scope of None \<Rightarrow> True
      | Some m \<Rightarrow> (case m (pi_uid pod) of None \<Rightarrow> False
        | Some life \<Rightarrow> (\<forall>t \<in> set (lf_boundaries life). \<not> (ns (ps_at a) < ns t \<and> ns t < ns (ps_at b))) \<and>
            (\<exists>v \<in> set (lf_intervals life). ns (iv_from v) \<le> ns (ps_at a) \<and> (is_zero (iv_to v) \<or> ns (ps_at b) \<le> ns (iv_to v))))))"

lemma pairCovers_checked:
  "pairCovers scope pod age i (a, b) \<longleftrightarrow> ns (ps_at a) \<le> i \<and> i < ns (ps_at b) \<and> \<not> badPair age a b \<and>
     pairWithinRuntime scope pod (ps_at a) (ps_at b)"
  by (auto simp: pairCovers_def badPair_def pairWithinRuntime_def list_ex_iff not_less split: option.splits)

definition measuredAt :: "Scope \<Rightarrow> PodIdentity \<Rightarrow> duration \<Rightarrow> promSeries \<Rightarrow> int \<Rightarrow> bool" where
  "measuredAt scope pod age row i \<longleftrightarrow> (\<exists>p \<in> set (adjacent (pr_samples row)). pairCovers scope pod age i p)"

lemma expectedLifetime_eq:
  "fst (snd (expectedLifetime scope pod from to)) = inventoryKnown scope pod"
  "instants (fst (expectedLifetime scope pod from to)) = {i. ns from \<le> i \<and> i < ns to \<and> mayRun scope pod i}"
proof -
  have "instants (map (\<lambda>i. if is_zero (iv_to i) then i\<lparr>iv_to := to\<rparr> else i) vs) \<inter> {ns from ..< ns to} =
      {i. ns from \<le> i \<and> i < ns to \<and> (\<exists>v \<in> set vs. ns (iv_from v) \<le> i \<and> (is_zero (iv_to v) \<or> i < ns (iv_to v)))}" for vs
    by (auto simp: instants_def ivPoints_def split: if_splits)
  then show "instants (fst (expectedLifetime scope pod from to)) = {i. ns from \<le> i \<and> i < ns to \<and> mayRun scope pod i}"
    by (auto simp: expectedLifetime_def mayRun_def unionIntervals_normal simp del: is_zero_def split: option.splits)
qed (simp add: expectedLifetime_def inventoryKnown_def present_def split: option.splits)

lemma lifeStep_support: "instants (sx_support (lifeStep a b s life)) =
    instants (sx_support s) \<union> ({ns (ps_at a) ..< ns (ps_at b)} \<inter> ivPoints life)"
  by (auto simp: lifeStep_def nativePair_def ivPoints_def Let_def)

lemma lifeSteps_support: "instants (sx_support (foldl (lifeStep a b) s lives)) =
    instants (sx_support s) \<union> ({ns (ps_at a) ..< ns (ps_at b)} \<inter> instants lives)"
  by (induction lives arbitrary: s) (auto simp: lifeStep_support)

lemma pairSteps_support: "instants (sx_support (foldl (pairStep scope pod age expected) s ps)) =
    instants (sx_support s) \<union> {i \<in> instants expected. \<exists>p \<in> set ps. pairCovers scope pod age i p}"
proof (induction ps arbitrary: s)
  case (Cons p ps)
  have "instants (sx_support (pairStep scope pod age expected s p)) =
      instants (sx_support s) \<union> {i \<in> instants expected. pairCovers scope pod age i p}"
    by (cases p) (auto simp: pairStep_def lifeSteps_support pairCovers_checked)
  then show ?case using Cons by auto
qed simp

lemma rowSteps_common:
  assumes "instants common \<subseteq> instants expected"
  shows "instants (snd (foldl (rowStep scope pod age expected) (s, common) rows)) =
    {i \<in> instants common. \<forall>row \<in> set rows. measuredAt scope pod age row i}"
  using assms
proof (induction rows arbitrary: s common)
  case (Cons row rows)
  obtain s' common' where r: "rowStep scope pod age expected (s, common) row = (s', common')" by force
  then have c: "instants common' = {i \<in> instants common. measuredAt scope pod age row i}"
    using Cons.prems by (auto simp: rowStep_def Let_def unionIntervals_normal pairSteps_support measuredAt_def)
  then show ?case using Cons.IH [of common' s'] Cons.prems by (auto simp: r)
qed simp

lemma sx_value_kept:
  "cu_expected (sx_value (fst (foldl (rowStep scope pod age expected) sc rows))) = cu_expected (sx_value (fst sc)) \<and>
   cu_known (sx_value (fst (foldl (rowStep scope pod age expected) sc rows))) = cu_known (sx_value (fst sc))"
proof -
  have life: "cu_expected (sx_value (foldl (lifeStep a b) s lives)) = cu_expected (sx_value s) \<and>
      cu_known (sx_value (foldl (lifeStep a b) s lives)) = cu_known (sx_value s)" for a b s lives
    by (induction lives arbitrary: s) (auto simp: lifeStep_def nativePair_def Let_def)
  have pair: "cu_expected (sx_value (foldl (pairStep scope pod age expected) s ps)) = cu_expected (sx_value s) \<and>
      cu_known (sx_value (foldl (pairStep scope pod age expected) s ps)) = cu_known (sx_value s)" for s ps
    by (induction ps arbitrary: s) (auto simp: pairStep_def life split: prod.splits)
  show ?thesis
    by (induction rows arbitrary: sc) (auto simp: rowStep_def pair Let_def split: prod.splits)
qed

lemma podSupport_covered:
  assumes "v = podSupport scope t series from to age pod" "rows = filter (\<lambda>s. seriesPod t s = pod) series"
  shows "cu_known v = inventoryKnown scope pod"
    "instants (cu_expected v) = {i. ns from \<le> i \<and> i < ns to \<and> mayRun scope pod i}"
    "inventoryKnown scope pod \<Longrightarrow> instants (cu_covered v) =
       {i \<in> instants (cu_expected v). rows \<noteq> [] \<and> (\<forall>row \<in> set rows. measuredAt scope pod age row i)}"
    "cu_expected v = fst (expectedLifetime scope pod from to)"
proof -
  obtain expected known reason where e: "expectedLifetime scope pod from to = (expected, known, reason)" by (cases "expectedLifetime scope pod from to")
  then have e': "known = inventoryKnown scope pod" "instants expected = {i. ns from \<le> i \<and> i < ns to \<and> mayRun scope pod i}"
    using expectedLifetime_eq [of scope pod "from" to] by auto
  let ?v0 = "\<lparr>cu_segments = [], cu_covered = [], cu_expected = expected, cu_known = known, cu_reason = reason,
      cu_native = [], cu_sourceAt = zero_time\<rparr>"
  let ?s0 = "\<lparr>sx_value = ?v0, sx_support = [], sx_pairs = [], sx_pairLabels = [], sx_seen = {}\<rparr>"
  obtain s common where f: "foldl (rowStep scope pod age expected) (?s0, expected) rows = (s, common)" by force
  have v: "v = (if \<not> known \<or> expected = [] then ?v0
      else if rows = [] then ?v0\<lparr>cu_reason := ''counter series unavailable for active runtime''\<rparr>
      else (sx_value s)\<lparr>cu_covered := common, cu_native := nativeIntervals pod (length rows) s\<rparr>)"
    using f by (cases known) (simp_all add: assms podSupport_def e Let_def)
  have kept: "cu_expected (sx_value s) = expected" "cu_known (sx_value s) = known"
    using sx_value_kept [of scope pod age expected "(?s0, expected)" rows] by (simp_all add: f)
  have common: "instants common = {i \<in> instants expected. \<forall>row \<in> set rows. measuredAt scope pod age row i}"
    using rowSteps_common [of expected expected scope pod age ?s0 rows] by (simp add: f)
  show "cu_known v = inventoryKnown scope pod" "instants (cu_expected v) = {i. ns from \<le> i \<and> i < ns to \<and> mayRun scope pod i}"
    using e' kept by (auto simp: v)
  show "instants (cu_covered v) = {i \<in> instants (cu_expected v). rows \<noteq> [] \<and> (\<forall>row \<in> set rows. measuredAt scope pod age row i)}"
    if "inventoryKnown scope pod"
    using that e'(1) kept common by (auto simp: v)
  show "cu_expected v = fst (expectedLifetime scope pod from to)" using e kept by (simp add: v)
qed

section \<open>The seconds of a fleet rate\<close>

definition supported :: "(PodIdentity \<rightharpoonup> counterSupport) \<Rightarrow> int \<Rightarrow> PodIdentity \<Rightarrow> bool" where
  "supported values i pod \<longleftrightarrow> present (\<lambda>v. cu_known v \<and> (i \<in> instants (cu_expected v) \<longrightarrow> i \<in> instants (cu_covered v))) (values pod)"

lemma fleetCommon_instants:
  "instants (fleetCommon scope values from to) = {i. ns from \<le> i \<and> i < ns to \<and> (\<forall>pod \<in> set (scp_pods scope). supported values i pod)}"
proof -
  have step: "instants (commonStep values common pod) = {i \<in> instants common. supported values i pod}" for common pod
    by (auto simp: commonStep_def podGaps_def supported_def present_def split: option.splits)
  have "instants (foldl (commonStep values) common pods) = {i \<in> instants common. \<forall>pod \<in> set pods. supported values i pod}" for common pods
    by (induction pods arbitrary: common) (auto simp: step)
  then show ?thesis by (auto simp: fleetCommon_def)
qed

lemma supported_supportsFromSeries:
  assumes "pod \<in> set (scp_pods scope)" "ns from \<le> i" "i < ns to"
  shows "supported (supportsFromSeries scope t series from to age) i pod \<longleftrightarrow> inventoryKnown scope pod \<and>
    (mayRun scope pod i \<longrightarrow> (\<exists>row \<in> set series. seriesPod t row = pod) \<and>
       (\<forall>row \<in> set series. seriesPod t row = pod \<longrightarrow> measuredAt scope pod age row i))"
proof -
  note p = podSupport_covered [where v = "podSupport scope t series from to age pod" and rows = "filter (\<lambda>s. seriesPod t s = pod) series", OF refl refl]
  show ?thesis
    using assms p by (auto simp: supported_def supportsFromSeries_def present_def filter_empty_conv)
qed

text \<open>
  C18: equivalence. The seconds over which a rate of the fleet is taken are exactly the instants of the window
  at which the runtime inventory of every pod is known and every pod that may have run is measured: it has
  series, and each of them has two adjacent samples around the instant that are in order, do not decrease,
  are at most twice the allowed age apart and do not straddle a start or an end of a container.
\<close>

theorem fleet_rate_seconds_exact:
  "i \<in> instants (fleetCommon scope (supportsFromSeries scope t series from to age) from to) \<longleftrightarrow>
     ns from \<le> i \<and> i < ns to \<and>
     (\<forall>pod \<in> set (scp_pods scope). inventoryKnown scope pod \<and>
        (mayRun scope pod i \<longrightarrow> (\<exists>row \<in> set series. seriesPod t row = pod) \<and>
           (\<forall>row \<in> set series. seriesPod t row = pod \<longrightarrow> measuredAt scope pod age row i)))"
  using supported_supportsFromSeries by (auto simp: fleetCommon_instants)

section \<open>Scopes from the inventory of the CPU counters\<close>

definition lifeAt :: "PodLifetime \<Rightarrow> int \<Rightarrow> bool" where
  "lifeAt life i \<longleftrightarrow> \<not> lf_known life \<or>
     (\<exists>v \<in> set (lf_intervals life). ns (iv_from v) \<le> i \<and> (is_zero (iv_to v) \<or> i < ns (iv_to v)))"

lemma lifetimeStep_keeps: "lifeAt life i \<Longrightarrow> lifeAt (lifetimeStep start life c) i"
  by (auto simp: lifetimeStep_def lifeAt_def Let_def simp del: is_zero_def split: option.splits)

lemma lifetimeSteps_keep: "lifeAt life i \<Longrightarrow> lifeAt (foldl (lifetimeStep start) life cs) i"
  by (induction cs arbitrary: life) (auto intro: lifetimeStep_keeps)

lemma lifetimeStep_covers: "runsAt c i \<Longrightarrow> ns start \<le> i \<Longrightarrow> lifeAt (lifetimeStep start life c) i"
  by (auto simp: lifetimeStep_def lifeAt_def runsAt_def present_def Let_def split: option.splits)

lemma podLifetime_covers:
  assumes "\<not> after (pd_createdAt pod) stop" "c \<in> set (pd_containers pod)" "runsAt c i" "ns start \<le> i"
  shows "lifeAt (podLifetime start stop pod) i"
proof -
  obtain before_c after_c where "pd_containers pod = before_c @ c # after_c" using assms(2) by (meson split_list)
  then show ?thesis
    using assms lifetimeStep_covers [OF assms(3,4)] by (auto simp: podLifetime_def Let_def intro: lifetimeSteps_keep)
qed

lemma inventorySteps:
  fixes start stop scope inventory
  defines "s \<equiv> foldl (inventoryStep start stop) scope inventory"
  shows "scp_namespace s = scp_namespace scope" "set (scp_pods scope) \<subseteq> set (scp_pods s)"
    "scp_lifetimes scope = Some m \<Longrightarrow> \<exists>m'. scp_lifetimes s = Some m' \<and>
       (\<forall>u. u \<notin> pd_uid ` set inventory \<longrightarrow> m' u = m u)"
proof -
  have "scp_namespace s = scp_namespace scope \<and> set (scp_pods scope) \<subseteq> set (scp_pods s) \<and>
      (\<forall>m. scp_lifetimes scope = Some m \<longrightarrow> (\<exists>m'. scp_lifetimes s = Some m' \<and> (\<forall>u. u \<notin> pd_uid ` set inventory \<longrightarrow> m' u = m u)))"
    unfolding s_def
  proof (induction inventory arbitrary: scope)
    case (Cons p ps)
    have "scp_namespace (inventoryStep start stop scope p) = scp_namespace scope"
      "set (scp_pods scope) \<subseteq> set (scp_pods (inventoryStep start stop scope p))"
      "scp_lifetimes scope = Some m \<Longrightarrow> \<exists>m'. scp_lifetimes (inventoryStep start stop scope p) = Some m' \<and> (\<forall>u. u \<noteq> pd_uid p \<longrightarrow> m' u = m u)" for m
      by (auto simp: inventoryStep_def)
    then show ?case using Cons [of "inventoryStep start stop scope p"] by fastforce
  qed simp
  then show "scp_namespace s = scp_namespace scope" "set (scp_pods scope) \<subseteq> set (scp_pods s)"
    "scp_lifetimes scope = Some m \<Longrightarrow> \<exists>m'. scp_lifetimes s = Some m' \<and> (\<forall>u. u \<notin> pd_uid ` set inventory \<longrightarrow> m' u = m u)"
    by blast+
qed

lemma inventoried:
  assumes "scp_lifetimes scope = Some m" "distinct (map pd_uid inventory)" "pod \<in> set inventory"
    and "pd_namespace pod = scp_namespace scope" "pd_name pod \<noteq> []" "pd_uid pod \<noteq> []"
  shows "\<exists>m'. scp_lifetimes (foldl (inventoryStep start stop) scope inventory) = Some m' \<and>
      m' (pd_uid pod) = Some (podLifetime start stop pod)"
    "pd_uid pod \<in> pi_uid ` set (scp_pods (foldl (inventoryStep start stop) scope inventory))"
proof -
  obtain ps qs where inv: "inventory = ps @ pod # qs" using assms(3) by (meson split_list)
  let ?s = "foldl (inventoryStep start stop) scope ps"
  let ?s' = "inventoryStep start stop ?s pod"
  note before_pod = inventorySteps [where start = start and stop = stop and scope = scope and inventory = ps]
  obtain m1 where m1: "scp_lifetimes ?s = Some m1" using before_pod(3) [OF assms(1)] by blast
  have s': "scp_lifetimes ?s' = Some (m1(pd_uid pod \<mapsto> podLifetime start stop pod))" "pd_uid pod \<in> pi_uid ` set (scp_pods ?s')"
    using before_pod(1) m1 assms(4-6) by (auto simp: inventoryStep_def image_iff)
  note after_pod = inventorySteps [where start = start and stop = stop and scope = ?s' and inventory = qs]
  have "pd_uid pod \<notin> pd_uid ` set qs" using assms(2) by (auto simp: inv)
  then show "\<exists>m'. scp_lifetimes (foldl (inventoryStep start stop) scope inventory) = Some m' \<and>
      m' (pd_uid pod) = Some (podLifetime start stop pod)"
    using after_pod(3) [OF s'(1)] by (auto simp: inv)
  show "pd_uid pod \<in> pi_uid ` set (scp_pods (foldl (inventoryStep start stop) scope inventory))"
    using after_pod(2) s'(2) by (auto simp: inv)
qed

lemma lifeAt_active:
  assumes "lifeAt life i" "ns start \<le> i" "i < ns stop"
  shows "\<not> lf_known life \<or> list_ex (\<lambda>v. before (iv_from v) stop \<and> (is_zero (iv_to v) \<or> after (iv_to v) start)) (lf_intervals life)"
  using assms unfolding lifeAt_def list_ex_iff by force

lemma demandWindowScope_pod:
  assumes "inventory = (if wo_inventory w = [] then wo_pods w else wo_inventory w)" "distinct (map pd_uid inventory)"
    and "pod \<in> set inventory" "pd_namespace pod = scp_namespace scope" "pd_name pod \<noteq> []" "pd_uid pod \<noteq> []"
    and "lifeAt (podLifetime (wo_from w) (wo_to w) pod) i" "ns (wo_from w) \<le> i" "i < ns (wo_to w)"
  shows "\<exists>identity \<in> set (scp_pods (demandWindowScope scope (Some w))). pi_uid identity = pd_uid pod \<and>
    mayRun (demandWindowScope scope (Some w)) identity i"
proof -
  let ?s = "foldl (inventoryStep (wo_from w) (wo_to w)) (scope\<lparr>scp_lifetimes := Some Map.empty\<rparr>) inventory"
  have scope: "demandWindowScope scope (Some w) =
      ?s\<lparr>scp_pods := sort_key pi_uid (filter (activeIn ?s (wo_from w) (wo_to w)) (scp_pods ?s))\<rparr>"
    using assms(1,8,9) by (simp add: demandWindowScope_def Let_def)
  note inv = inventoried [of "scope\<lparr>scp_lifetimes := Some Map.empty\<rparr>" Map.empty inventory pod "wo_from w" "wo_to w"]
  obtain m where m: "scp_lifetimes ?s = Some m" "m (pd_uid pod) = Some (podLifetime (wo_from w) (wo_to w) pod)"
    using inv(1) assms(2-6) by auto
  obtain identity where identity: "identity \<in> set (scp_pods ?s)" "pi_uid identity = pd_uid pod"
    using inv(2) assms(2-6) by (auto simp: image_iff)
  have "activeIn ?s (wo_from w) (wo_to w) identity"
    using m identity(2) lifeAt_active [OF assms(7-9)] by (simp add: activeIn_def)
  moreover have "mayRun (demandWindowScope scope (Some w)) identity i"
    using m identity(2) assms(7) by (auto simp: scope mayRun_def lifeAt_def)
  ultimately show ?thesis using identity by (intro bexI [of _ identity]) (auto simp: scope)
qed

text \<open>
  C19: safety. Request counters and CPU counters account for the same pods: in a window whose scope is taken
  from the inventory of the CPU counters, an instant contributes to a rate of the fleet only when every pod
  of the inventory with a container that ran at that instant is measured by every one of its series.
\<close>

theorem fleet_rate_covers_running_pods:
  assumes "scope = demandWindowScope scope0 (Some w)"
    and "inventory = (if wo_inventory w = [] then wo_pods w else wo_inventory w)" "distinct (map pd_uid inventory)"
    and "pod \<in> set inventory" "pd_namespace pod = scp_namespace scope0" "pd_name pod \<noteq> []" "pd_uid pod \<noteq> []"
    and "\<not> after (pd_createdAt pod) (wo_to w)" "c \<in> set (pd_containers pod)" "runsAt c i"
    and "i \<in> instants (fleetCommon scope (supportsFromSeries scope t series (wo_from w) (wo_to w) age) (wo_from w) (wo_to w))"
  shows "\<exists>identity \<in> set (scp_pods scope). pi_uid identity = pd_uid pod \<and> (\<exists>row \<in> set series. seriesPod t row = identity) \<and>
    (\<forall>row \<in> set series. seriesPod t row = identity \<longrightarrow> measuredAt scope identity age row i)"
proof -
  have i: "ns (wo_from w) \<le> i" "i < ns (wo_to w)"
    "\<And>p. p \<in> set (scp_pods scope) \<Longrightarrow> supported (supportsFromSeries scope t series (wo_from w) (wo_to w) age) i p"
    using assms(11) by (auto simp: fleetCommon_instants)
  obtain identity where "identity \<in> set (scp_pods scope)" "pi_uid identity = pd_uid pod" "mayRun scope identity i"
    using demandWindowScope_pod [OF assms(2-7) podLifetime_covers [OF assms(8-10) i(1)] i(1,2)] assms(1) by blast
  then show ?thesis using supported_supportsFromSeries [OF _ i(1,2)] i(3) by blast
qed













section \<open>A concrete window\<close>

definition countedPod :: Pod where
  "countedPod = \<lparr>pd_namespace = ''prod'', pd_name = ''web-1'', pd_uid = ''u'', pd_labels = [], pd_createdAt = atSecond 100,
     pd_deletedAt = None, pd_containers = [\<lparr>ct_name = ''web'', ct_id = ''c'', ct_startedAt = atSecond 100,
       ct_finishedAt = None, ct_endUpperBound = None, ct_windows = [], ct_missingReason = []\<rparr>]\<rparr>"

definition countedWindow :: WorkloadObservation where
  "countedWindow = \<lparr>wo_from = atSecond 110, wo_to = atSecond 120, wo_sourceAt = atSecond 120, wo_receivedAt = atSecond 121,
     wo_cpuSeconds = Fin 0, wo_runningPodSeconds = Fin 10, wo_coverage = Fin 1, wo_complete = True, wo_boundaryAveraged = False,
     wo_memoryBytes = None, wo_memorySourceAt = zero_time, wo_throttledSeconds = None, wo_pressureSomeSeconds = None,
     wo_pressureFullSeconds = None, wo_podCount = 1, wo_missingReasons = [], wo_pods = [], wo_inventory = [countedPod],
     wo_inventoryComplete = True, wo_nativeSnapshots = []\<rparr>"

definition countedScope :: Scope where
  "countedScope = demandWindowScope \<lparr>scp_namespace = ''prod'', scp_pods = [], scp_lifetimes = None\<rparr> (Some countedWindow)"

definition countedRow :: promSeries where
  "countedRow = \<lparr>pr_metric = [''namespace'' \<mapsto> ''prod'', ''pod'' \<mapsto> ''web-1'', ''pod_uid'' \<mapsto> ''u''],
     pr_samples = [\<lparr>ps_at = atSecond 105, ps_value = Fin 5\<rparr>, \<lparr>ps_at = atSecond 125, ps_value = Fin 45\<rparr>]\<rparr>"

definition countedTraffic :: TrafficProviderConfig where
  "countedTraffic = \<lparr>tp_provider = ''prometheus'', tp_namespaceLabel = [], tp_podLabel = [], tp_podUIDLabel = [],
     tp_arrivalsMetric = ''a'', tp_completionsMetric = ''c'', tp_arrivalSemantics = [], tp_completionSemantics = [],
     tp_retrySemantics = [], tp_additionalLabels = [], tp_errorsMetric = [], tp_outcomesMetric = [],
     tp_latencyBucketMetric = [], tp_maxAgeSeconds = 10\<rparr>"

abbreviation (input) countedSupport :: "PodIdentity \<rightharpoonup> counterSupport" where
  "countedSupport \<equiv> supportsFromSeries countedScope countedTraffic [countedRow] (atSecond 110) (atSecond 120) (10 * second)"

lemma countedScope_eq: "countedScope = \<lparr>scp_namespace = ''prod'', scp_pods = [\<lparr>pi_name = ''web-1'', pi_uid = ''u''\<rparr>],
    scp_lifetimes = Some [''u'' \<mapsto> \<lparr>lf_known = True, lf_intervals = [interval (atSecond 100) zero_time], lf_reason = [],
      lf_boundaries = [atSecond 100]\<rparr>]\<rparr>"
  by (simp add: countedScope_def countedWindow_def countedPod_def demandWindowScope_def inventoryStep_def podLifetime_def
      lifetimeStep_def unborn_def activeIn_def present_def Let_def)

lemma counted_pod: "seriesPod countedTraffic countedRow = \<lparr>pi_name = ''web-1'', pi_uid = ''u''\<rparr>"
  by (simp add: seriesPod_def trafficLabels_def countedTraffic_def countedRow_def Let_def)

lemma counted_measured:
  assumes "105 * second \<le> i" "i < 125 * second"
  shows "measuredAt countedScope \<lparr>pi_name = ''web-1'', pi_uid = ''u''\<rparr> (10 * second) countedRow i"
  using assms by (simp add: measuredAt_def adjacent_def pairCovers_def countedRow_def countedScope_eq badPair_def
      pairWithinRuntime_def f_lt.simps t_sub_def wrap64_def)

lemma counted_seconds:
  "110 * second \<le> i \<Longrightarrow> i < 120 * second \<Longrightarrow> i \<in> instants (fleetCommon countedScope countedSupport (atSecond 110) (atSecond 120))"
  using counted_pod counted_measured [of i]
  by (auto simp: fleetCommon_instants supported_supportsFromSeries countedScope_eq inventoryKnown_def present_def)

theorem fleet_rate_seconds_exact_witness:
  "inventoryKnown countedScope \<lparr>pi_name = ''web-1'', pi_uid = ''u''\<rparr> \<and>
    measuredAt countedScope \<lparr>pi_name = ''web-1'', pi_uid = ''u''\<rparr> (10 * second) countedRow (115 * second)"
proof -
  have "mayRun countedScope \<lparr>pi_name = ''web-1'', pi_uid = ''u''\<rparr> (115 * second)" by (simp add: countedScope_eq mayRun_def)
  then show ?thesis
    using fleet_rate_seconds_exact [THEN iffD1, OF counted_seconds [of "115 * second"]] counted_pod
    by (simp add: countedScope_eq)
qed

theorem fleet_rate_covers_running_pods_witness:
  "\<exists>identity \<in> set (scp_pods countedScope). pi_uid identity = ''u'' \<and>
    measuredAt countedScope identity (10 * second) countedRow (115 * second)"
proof -
  have w: "wo_from countedWindow = atSecond 110" "wo_to countedWindow = atSecond 120" "wo_inventory countedWindow = [countedPod]"
    by (simp_all add: countedWindow_def)
  note p = fleet_rate_covers_running_pods [OF countedScope_def refl, of countedPod "hd (pd_containers countedPod)" "115 * second"
      countedTraffic "[countedRow]" "10 * second", unfolded w]
  have "\<exists>identity \<in> set (scp_pods countedScope). pi_uid identity = pd_uid countedPod \<and>
      (\<exists>row \<in> set [countedRow]. seriesPod countedTraffic row = identity) \<and>
      (\<forall>row \<in> set [countedRow]. seriesPod countedTraffic row = identity \<longrightarrow> measuredAt countedScope identity (10 * second) row (115 * second))"
    by (rule p) (use counted_seconds [of "115 * second"] in \<open>simp_all add: countedPod_def runsAt_def\<close>)
  then show ?thesis by (auto simp: countedPod_def)
qed













end
