(* ===== verification/RequestForecast.thy ===== *)
theory RequestForecast
  imports Traffic Estimator
begin

text \<open>
  \<open>src/internal/prediction/requestdemand/requestdemand.go\<close>: the request forecaster's protocol. A model becomes a
  configuration; what is sent to the worker is checked first, and so is its answer.

  What is proved: the horizon covers the look-ahead of the model with the fewest intervals, and an accepted
  forecast consists of consecutive intervals from the requested instant on that were not yet started.

  The worker is a parameter: it maps a request to its decoded answer. Strict JSON decoding, with the presence
  of the required fields, and the limits on encoded sizes are part of it. Where the code ranges over the
  features of an observation, which is a map, the names of the configuration are visited in their order; that
  only decides which of several errors is reported.
\<close>

section \<open>Data\<close>

record requestFeature =
  rf_value :: "float64 option"
  rf_sourceAt :: gotime
  rf_receivedAt :: gotime
  rf_unit :: string
  rf_window :: "TimeInterval option"

record requestArrival =
  ra_at :: gotime
  ra_until :: gotime
  ra_receivedAt :: gotime
  ra_rate :: "float64 option"
  ra_coverage :: float64
  ra_boundaryAveraged :: bool

record requestObservation =
  ro_at :: gotime
  ro_until :: gotime
  ro_receivedAt :: gotime
  ro_arrivalsPerSecond :: "float64 option"
  ro_features :: "string \<rightharpoonup> requestFeature"
  ro_arrivalCoverage :: "float64 option"
  ro_arrivalBoundaryAveraged :: bool
  ro_arrivalIntervals :: "requestArrival list"

record FeatureSpec =
  fs_name :: string
  fs_unit :: string
  fs_maxAgeSeconds :: int64

record requestConfig =
  rc_intervalSeconds :: int64
  rc_forecastIntervalSeconds :: int64
  rc_historySize :: int64
  rc_lags :: int64
  rc_horizonSteps :: int64
  rc_quantile :: float64
  rc_seasonalFeatures :: bool
  rc_nEstimators :: int64
  rc_maxDepth :: int64
  rc_learningRate :: float64
  rc_subsample :: float64
  rc_colsampleBytree :: float64
  rc_minChildWeight :: float64
  rc_gamma :: float64
  rc_regLambda :: float64
  rc_regAlpha :: float64
  rc_features :: "FeatureSpec list"
  rc_timeoutMillis :: int64

record FeatureAvailability =
  av_trainingNonMissing :: int64
  av_trainingTotal :: int64
  av_inferenceNonMissing :: int64
  av_inferenceTotal :: int64
  av_trainingRowsWithValue :: int64
  av_inferenceRowsWithValue :: int64

text \<open>The diagnostics that are checked; the others are only reported.\<close>

record requestDiagnostics =
  dg_forecastIntervalSeconds :: int64
  dg_trainingRows :: int64
  dg_featureAvailability :: "(string \<times> FeatureAvailability) list"
  dg_arrivalAvailability :: FeatureAvailability

record requestResult =
  rr_protocol :: string
  rr_unit :: string
  rr_generatedAt :: gotime
  rr_status :: string
  rr_reason :: string
  rr_forecasts :: "Point list"
  rr_trainedThrough :: gotime
  rr_diagnostics :: requestDiagnostics

section \<open>Configuration\<close>

definition requestDefaults :: requestConfig where
  "requestDefaults =
     \<lparr>rc_intervalSeconds = 30, rc_forecastIntervalSeconds = 0, rc_historySize = 60, rc_lags = 12, rc_horizonSteps = 3,
      rc_quantile = p95, rc_seasonalFeatures = True, rc_nEstimators = 300, rc_maxDepth = 5, rc_learningRate = round64 (1 / 10),
      rc_subsample = round64 (8 / 10), rc_colsampleBytree = Fin 1, rc_minChildWeight = Fin 1, rc_gamma = Fin 0,
      rc_regLambda = Fin 1, rc_regAlpha = Fin 0, rc_features = [], rc_timeoutMillis = 10000\<rparr>"

definition validateHyperparameters :: "requestConfig \<Rightarrow> error option" where
  "validateHyperparameters c = firstError
     (map (\<lambda>v. (\<not> finite_f v \<or> f_le v (Fin 0) \<or> f_lt (Fin 1) v, ''request forecast parameter must be finite and in (0,1]''))
        [rc_learningRate c, rc_subsample c, rc_colsampleBytree c] @
      map (\<lambda>v. (\<not> finite_f v \<or> f_lt v (Fin 0) \<or> f_lt (Fin 1000000) v, ''request forecast parameter must be finite and in [0,1000000]''))
        [rc_minChildWeight c, rc_gamma c, rc_regLambda c, rc_regAlpha c])"

text \<open>The interval of a forecast in seconds: the configured one, or that of the history.\<close>

definition frameSeconds :: "requestConfig \<Rightarrow> int64" where
  "frameSeconds c = (if rc_forecastIntervalSeconds c = 0 then rc_intervalSeconds c else rc_forecastIntervalSeconds c)"

definition chosenInterval :: "Model \<Rightarrow> int64" where
  "chosenInterval model =
     (case m_requestDemand model of None \<Rightarrow> 0
      | Some d \<Rightarrow> if rd_forecastIntervalSeconds d > 0 then rd_forecastIntervalSeconds d else 0)"

definition applyBooster :: "XGBoost \<Rightarrow> requestConfig \<Rightarrow> requestConfig" where
  "applyBooster x c = c\<lparr>
     rc_historySize := (if xgb_historySize x > 0 then xgb_historySize x else rc_historySize c),
     rc_lags := (if xgb_lags x > 0 then xgb_lags x else rc_lags c),
     rc_seasonalFeatures := xgb_seasonalFeatures x,
     rc_quantile := opt_default (rc_quantile c) (xgb_quantileAlpha x),
     rc_nEstimators := opt_default (rc_nEstimators c) (xgb_nEstimators x),
     rc_maxDepth := opt_default (rc_maxDepth c) (xgb_maxDepth x),
     rc_learningRate := opt_default (rc_learningRate c) (xgb_learningRate x),
     rc_subsample := opt_default (rc_subsample c) (xgb_subsample x),
     rc_colsampleBytree := opt_default (rc_colsampleBytree c) (xgb_colsampleBytree x),
     rc_minChildWeight := opt_default (rc_minChildWeight c) (xgb_minChildWeight x),
     rc_gamma := opt_default (rc_gamma c) (xgb_gamma x),
     rc_regLambda := opt_default (rc_regLambda c) (xgb_regLambda x),
     rc_regAlpha := opt_default (rc_regAlpha c) (xgb_regAlpha x)\<rparr>"

definition ConfigFromModel :: "Model \<Rightarrow> requestConfig result" where
  "ConfigFromModel model =
     (case m_xgboost model of None \<Rightarrow> Inl ''request demand requires an XGBoost model''
      | Some x \<Rightarrow>
        let c = requestDefaults\<lparr>rc_forecastIntervalSeconds := chosenInterval model\<rparr>;
            intervalMillis = wrap64 (frameSeconds c * 1000) in
        if rc_forecastIntervalSeconds c \<notin> {0, 5, 10, 15, 30}
        then Inl ''request forecast interval must be 5, 10, 15 or 30 seconds''
        else if xgb_lookAhead x \<le> 0 \<or> xgb_lookAhead x > wrap64 (20 * intervalMillis)
        then Inl ''request demand lookAhead out of range''
        else if present (\<lambda>v. v \<noteq> ''reg:quantileerror'') (xgb_objective x)
        then Inl ''request demand requires the reg:quantileerror objective''
        else
          let c1 = applyBooster x (c\<lparr>rc_horizonSteps := 1 + go_div (xgb_lookAhead x - 1) intervalMillis\<rparr>) in
          case validateHyperparameters c1 of Some e \<Rightarrow> Inl e
          | None \<Rightarrow> Inr (c1\<lparr>rc_timeoutMillis := opt_default (rc_timeoutMillis c1) (m_calculationTimeout model)\<rparr>))"

section \<open>Checks of a request\<close>

definition unixSeconds :: "gotime \<Rightarrow> int" where
  "unixSeconds t = (ns t - unixEpoch) div second"

definition offGrid :: "gotime \<Rightarrow> int64 \<Rightarrow> bool" where
  "offGrid t seconds \<longleftrightarrow> ns t mod second \<noteq> 0 \<or> unixSeconds t mod seconds \<noteq> 0"

fun checkSpecs :: "string list \<Rightarrow> FeatureSpec list \<Rightarrow> error option" where
  "checkSpecs names [] = None"
| "checkSpecs names (s # specs) =
     (if fs_name s = [] \<or> length (fs_name s) > 128 \<or> fs_name s \<in> set names \<or> fs_unit s = [] \<or> length (fs_unit s) > 64 \<or>
        fs_maxAgeSeconds s < 1 \<or> fs_maxAgeSeconds s > 3600
      then Some ''invalid request feature schema'' else checkSpecs (fs_name s # names) specs)"

definition badArrival :: "int64 \<Rightarrow> requestObservation \<Rightarrow> gotime list \<Rightarrow> requestArrival \<Rightarrow> bool" where
  "badArrival frame row fineSeen p \<longleftrightarrow>
     before (ra_at p) (ro_at row) \<or> after (ra_until p) (ro_until row) \<or> t_sub (ra_until p) (ra_at p) \<noteq> wrap64 (frame * second) \<or>
     offGrid (ra_at p) frame \<or> before (ra_receivedAt p) (ra_until p) \<or> after (ra_receivedAt p) (ro_receivedAt row) \<or>
     ra_at p \<in> set fineSeen \<or> \<not> finite_f (ra_coverage p) \<or> f_lt (ra_coverage p) (Fin 0) \<or> f_lt (Fin 1) (ra_coverage p) \<or>
     present (\<lambda>v. \<not> finite_f v \<or> f_lt v (Fin 0) \<or> f_lt (ra_coverage p) p95) (ra_rate p)"

fun checkArrivals :: "int64 \<Rightarrow> requestObservation \<Rightarrow> gotime list \<Rightarrow> requestArrival list \<Rightarrow> error option" where
  "checkArrivals frame row fineSeen [] = None"
| "checkArrivals frame row fineSeen (p # points) =
     (if badArrival frame row fineSeen p then Some ''invalid, duplicate or backdated request subinterval''
      else checkArrivals frame row (ra_at p # fineSeen) points)"

definition checkFeature :: "gotime \<Rightarrow> requestFeature \<Rightarrow> error option" where
  "checkFeature until f =
     (if is_zero (rf_sourceAt f) \<or> is_zero (rf_receivedAt f) \<or> before (rf_receivedAt f) (rf_sourceAt f) \<or>
        present (\<lambda>v. \<not> finite_f v) (rf_value f)
      then Some ''invalid request feature''
      else case rf_window f of
        Some w \<Rightarrow>
          if is_zero (iv_from w) \<or> is_zero (iv_to w) \<or> \<not> before (iv_from w) (iv_to w) \<or> after (iv_to w) until \<or>
            before (rf_receivedAt f) (iv_to w)
          then Some ''invalid measurement window for request feature'' else None
      | None \<Rightarrow> if after (rf_sourceAt f) until then Some ''instant request feature comes from a future interval'' else None)"

fun checkFeatures :: "requestObservation \<Rightarrow> string list \<Rightarrow> error option" where
  "checkFeatures row [] = None"
| "checkFeatures row (name # names) =
     andThen (case ro_features row name of None \<Rightarrow> None | Some f \<Rightarrow> checkFeature (ro_until row) f) (checkFeatures row names)"

definition checkObservation :: "requestConfig \<Rightarrow> gotime list \<Rightarrow> requestObservation \<Rightarrow> error option" where
  "checkObservation c seenAt row =
     andThen (firstError
       [(is_zero (ro_at row) \<or> t_sub (ro_until row) (ro_at row) \<noteq> wrap64 (rc_intervalSeconds c * second) \<or>
           offGrid (ro_at row) (rc_intervalSeconds c) \<or> before (ro_receivedAt row) (ro_until row) \<or> ro_at row \<in> set seenAt,
         ''invalid or duplicate request accounting interval''),
        (int (length (ro_arrivalIntervals row)) > go_div (rc_intervalSeconds c) (frameSeconds c), ''too many request subintervals'')])
     (andThen (checkArrivals (frameSeconds c) row [] (ro_arrivalIntervals row))
     (andThen (firstError
       [(present (\<lambda>v. \<not> finite_f v \<or> f_lt v (Fin 0)) (ro_arrivalsPerSecond row),
         ''request arrival rate must be finite and nonnegative''),
        (present (\<lambda>v. \<not> finite_f v \<or> f_lt v (Fin 0) \<or> f_lt (Fin 1) v \<or> ro_arrivalsPerSecond row \<noteq> None \<and> f_lt v p95)
           (ro_arrivalCoverage row),
         ''request arrival coverage must be valid and at least 95% for a genuine label'')])
     (checkFeatures row (map fs_name (rc_features c)))))"

fun checkObservations :: "requestConfig \<Rightarrow> gotime list \<Rightarrow> requestObservation list \<Rightarrow> error option" where
  "checkObservations c seenAt [] = None"
| "checkObservations c seenAt (row # rows) = andThen (checkObservation c seenAt row) (checkObservations c (ro_at row # seenAt) rows)"

definition validateRequest :: "requestConfig \<Rightarrow> requestObservation list \<Rightarrow> gotime \<Rightarrow> gotime \<Rightarrow> error option" where
  "validateRequest c observations requestedAt firstAt =
     (let frame = frameSeconds c in
      andThen (firstError
        [(frame < 1 \<or> rc_intervalSeconds c < frame \<or> rc_intervalSeconds c mod frame \<noteq> 0, ''forecast interval must divide the history cadence'')])
      (andThen (validateHyperparameters c)
      (andThen (firstError
        [(rc_intervalSeconds c < 1 \<or> rc_intervalSeconds c > 300 \<or> rc_historySize c < 24 \<or> rc_historySize c > 240 \<or> rc_lags c < 1 \<or>
            rc_lags c > 48 \<or> rc_horizonSteps c < 1 \<or> rc_horizonSteps c > 20 \<or> rc_lags c + rc_horizonSteps c + 8 > rc_historySize c \<or>
            \<not> finite_f (rc_quantile c) \<or> f_le (rc_quantile c) (Fin 0) \<or> f_le (Fin 1) (rc_quantile c) \<or> rc_nEstimators c < 1 \<or>
            rc_nEstimators c > 2000 \<or> rc_maxDepth c < 1 \<or> rc_maxDepth c > 16 \<or> rc_timeoutMillis c < 1 \<or> rc_timeoutMillis c > 120000,
          ''invalid request forecast configuration''),
         (is_zero requestedAt \<or> before firstAt requestedAt \<or> offGrid firstAt frame \<or> t_sub firstAt requestedAt > 2 * frame * second,
          ''first request forecast must begin on a future interval boundary within two intervals''),
         (length observations > 4096 \<or> length (rc_features c) > 32, ''request forecast exceeds observation or feature limit'')])
      (andThen (checkSpecs [] (rc_features c)) (checkObservations c [] observations)))))"

section \<open>Checks of an answer\<close>

definition badAvailability :: "requestDiagnostics \<Rightarrow> requestConfig \<Rightarrow> FeatureAvailability \<Rightarrow> bool" where
  "badAvailability d c v \<longleftrightarrow>
     av_trainingTotal v \<noteq> wrap64 (dg_trainingRows d * rc_lags c) \<or> av_inferenceTotal v \<noteq> wrap64 (rc_horizonSteps c * rc_lags c) \<or>
     av_trainingNonMissing v < 0 \<or> av_trainingNonMissing v > av_trainingTotal v \<or>
     av_inferenceNonMissing v < 0 \<or> av_inferenceNonMissing v > av_inferenceTotal v \<or>
     av_trainingRowsWithValue v < 0 \<or> av_trainingRowsWithValue v > dg_trainingRows d \<or>
     av_inferenceRowsWithValue v < 0 \<or> av_inferenceRowsWithValue v > rc_horizonSteps c \<or>
     av_trainingRowsWithValue v > av_trainingNonMissing v \<or> av_inferenceRowsWithValue v > av_inferenceNonMissing v"

definition noAvailability :: FeatureAvailability where
  "noAvailability = \<lparr>av_trainingNonMissing = 0, av_trainingTotal = 0, av_inferenceNonMissing = 0, av_inferenceTotal = 0,
     av_trainingRowsWithValue = 0, av_inferenceRowsWithValue = 0\<rparr>"

fun checkAvailabilities :: "requestDiagnostics \<Rightarrow> requestConfig \<Rightarrow> (string \<times> FeatureAvailability) list \<Rightarrow> error option" where
  "checkAvailabilities d c [] = None"
| "checkAvailabilities d c ((name, v) # rest) =
     (if name \<notin> fs_name ` set (rc_features c) then Some ''request diagnostic reports unconfigured feature''
      else if badAvailability d c v then Some ''invalid request diagnostic feature availability''
      else checkAvailabilities d c rest)"

definition validateDiagnostics :: "requestDiagnostics \<Rightarrow> requestConfig \<Rightarrow> error option" where
  "validateDiagnostics d c =
     andThen (firstError
       [(dg_forecastIntervalSeconds d \<noteq> 0 \<and> dg_forecastIntervalSeconds d \<noteq> frameSeconds c,
         ''request diagnostic forecast interval differs from configuration''),
        (dg_trainingRows d < 0 \<or> dg_trainingRows d > 4096 * 20, ''invalid request diagnostic training rows'')])
     (andThen (checkAvailabilities d c (dg_featureAvailability d))
       (firstError [(dg_arrivalAvailability d \<noteq> noAvailability \<and> badAvailability d c (dg_arrivalAvailability d),
         ''invalid request diagnostic feature availability'')]))"

fun checkPoints :: "gotime \<Rightarrow> int64 \<Rightarrow> int \<Rightarrow> Point list \<Rightarrow> error option" where
  "checkPoints firstAt frame i [] = None"
| "checkPoints firstAt frame i (p # ps) =
     (if \<not> same_instant (p_at p) (t_add firstAt (wrap64 (wrap64 (i * frame) * second))) \<or>
        t_sub (p_until p) (p_at p) \<noteq> wrap64 (frame * second) \<or> \<not> finite_f (p_value p) \<or> f_lt (p_value p) (Fin 0)
      then Some ''invalid request forecast interval or value'' else checkPoints firstAt frame (i + 1) ps)"

definition decodeResult :: "requestResult \<Rightarrow> requestConfig \<Rightarrow> gotime \<Rightarrow> gotime \<Rightarrow> requestResult result" where
  "decodeResult r c requestedAt firstAt =
     (if rr_protocol r \<noteq> ''request-demand-v1'' \<or> rr_unit r \<noteq> ''requests_per_second'' \<or> \<not> same_instant (rr_generatedAt r) requestedAt
      then Inl ''request forecast identity or unit mismatch''
      else if rr_status r = ''warming'' \<or> rr_status r = ''unavailable'' then
        (if rr_reason r = [] \<or> rr_forecasts r \<noteq> [] then Inl ''invalid unavailable request forecast'' else Inr r)
      else if rr_status r \<noteq> ''ready'' \<or> rr_reason r \<noteq> [] \<or> int (length (rr_forecasts r)) \<noteq> rc_horizonSteps c \<or>
        is_zero (rr_trainedThrough r) \<or> after (rr_trainedThrough r) requestedAt
      then Inl ''invalid ready request forecast''
      else case andThen (checkPoints firstAt (frameSeconds c) 0 (rr_forecasts r)) (validateDiagnostics (rr_diagnostics r) c) of
        Some e \<Rightarrow> Inl e | None \<Rightarrow> Inr r)"

type_synonym requestWorker = "requestConfig \<Rightarrow> requestObservation list \<Rightarrow> gotime \<Rightarrow> gotime \<Rightarrow> requestResult result"

definition Forecast :: "requestWorker option \<Rightarrow> requestConfig \<Rightarrow> requestObservation list \<Rightarrow> gotime \<Rightarrow> gotime \<Rightarrow> requestResult result" where
  "Forecast runner c observations requestedAt firstAt =
     (case runner of None \<Rightarrow> Inl ''request forecast runner is unavailable''
      | Some run \<Rightarrow>
        (case validateRequest c observations requestedAt firstAt of
           Some e \<Rightarrow> Inl e
         | None \<Rightarrow>
           let c1 = c\<lparr>rc_features := sort_key fs_name (rc_features c)\<rparr>
           in rbind (run c1 observations requestedAt firstAt) (\<lambda>raw. decodeResult raw c1 requestedAt firstAt)))"

text \<open>The controller passes the configuration it completed as the one override.\<close>

definition PredictRequests :: "requestWorker option \<Rightarrow> Model \<Rightarrow> requestObservation list \<Rightarrow> gotime \<Rightarrow> gotime \<Rightarrow> requestConfig \<Rightarrow>
    requestResult result" where
  "PredictRequests runner model observations requestedAt firstAt override =
     rbind (ConfigFromModel model) (\<lambda>_. Forecast runner override observations requestedAt firstAt)"


section \<open>Horizon and answers\<close>

text \<open>The interval of the defaults with a chosen interval, of which the look-ahead is counted in.\<close>

lemma ConfigFromModel_Inr:
  assumes "ConfigFromModel model = Inr c"
  obtains x f where "m_xgboost model = Some x" "f = (if chosenInterval model = 0 then 30 else chosenInterval model)"
    "chosenInterval model \<in> {0, 5, 10, 15, 30}" "rc_forecastIntervalSeconds c = chosenInterval model" "rc_intervalSeconds c = 30"
    "0 < xgb_lookAhead x" "xgb_lookAhead x \<le> wrap64 (20 * wrap64 (f * 1000))"
    "rc_horizonSteps c = 1 + go_div (xgb_lookAhead x - 1) (wrap64 (f * 1000))"
proof -
  obtain x where x: "m_xgboost model = Some x"
    using assms by (auto simp: ConfigFromModel_def split: option.splits)
  define c0 where "c0 = requestDefaults\<lparr>rc_forecastIntervalSeconds := chosenInterval model\<rparr>"
  have c0: "frameSeconds c0 = (if chosenInterval model = 0 then 30 else chosenInterval model)" "rc_intervalSeconds c0 = 30"
    "rc_forecastIntervalSeconds c0 = chosenInterval model"
    by (simp_all add: c0_def requestDefaults_def frameSeconds_def)
  define millis where "millis = wrap64 (frameSeconds c0 * 1000)"
  define c1 where "c1 = applyBooster x (c0\<lparr>rc_horizonSteps := 1 + go_div (xgb_lookAhead x - 1) millis\<rparr>)"
  have guards: "rc_forecastIntervalSeconds c0 \<in> {0, 5, 10, 15, 30}" "0 < xgb_lookAhead x" "xgb_lookAhead x \<le> wrap64 (20 * millis)"
    and c: "c = c1\<lparr>rc_timeoutMillis := opt_default (rc_timeoutMillis c1) (m_calculationTimeout model)\<rparr>"
    using assms unfolding ConfigFromModel_def x option.case Let_def c0_def [symmetric] millis_def [symmetric] c1_def [symmetric]
    by (simp_all split: if_splits option.splits)
  have "rc_forecastIntervalSeconds c = chosenInterval model" "rc_intervalSeconds c = 30" "rc_horizonSteps c = 1 + go_div (xgb_lookAhead x - 1) millis"
    using c0 by (simp_all add: c c1_def applyBooster_def)
  then show thesis using that [OF x refl] guards c0 by (simp add: millis_def)
qed

lemma frameSeconds_chosen:
  assumes "ConfigFromModel model = Inr c"
  obtains x where "m_xgboost model = Some x" "frameSeconds c \<in> {5, 10, 15, 30}"
    "0 < xgb_lookAhead x" "xgb_lookAhead x \<le> 20000 * frameSeconds c"
    "rc_horizonSteps c = 1 + (xgb_lookAhead x - 1) div (1000 * frameSeconds c)"
proof (rule ConfigFromModel_Inr [OF assms])
  fix x f
  assume x: "m_xgboost model = Some x" "f = (if chosenInterval model = 0 then 30 else chosenInterval model)"
    "chosenInterval model \<in> {0, 5, 10, 15, 30}" "rc_forecastIntervalSeconds c = chosenInterval model" "rc_intervalSeconds c = 30"
    "0 < xgb_lookAhead x" "xgb_lookAhead x \<le> wrap64 (20 * wrap64 (f * 1000))"
    "rc_horizonSteps c = 1 + go_div (xgb_lookAhead x - 1) (wrap64 (f * 1000))"
  then have f: "f = frameSeconds c" "f \<in> {5, 10, 15, 30}" by (auto simp: frameSeconds_def)
  then have w: "wrap64 (f * 1000) = 1000 * f" "wrap64 (20 * (1000 * f)) = 20000 * f" by (auto simp: wrap64_def)
  have "go_div a b = a div b" if "0 \<le> a" "0 < b" for a b
    using that by (cases "a = 0") (auto simp: go_div_def)
  then have "rc_horizonSteps c = 1 + (xgb_lookAhead x - 1) div (1000 * f)" using x(6,8) f(2) unfolding w by auto
  then show thesis using x(1,6,7) f unfolding w by (intro that [OF x(1)]) auto
qed

text \<open>
  The horizon of a configured request model covers its look-ahead with the fewest intervals: it
  has between one and twenty of them, ends no earlier than the look-ahead, and without its last interval
  would end before it.
\<close>

theorem request_horizon_covers_lookahead:
  assumes "ConfigFromModel model = Inr c" "m_xgboost model = Some x"
  shows "1 \<le> rc_horizonSteps c \<and> rc_horizonSteps c \<le> 20 \<and> xgb_lookAhead x \<le> rc_horizonSteps c * (1000 * frameSeconds c) \<and>
    (rc_horizonSteps c - 1) * (1000 * frameSeconds c) < xgb_lookAhead x"
proof -
  define f l where "f = 1000 * frameSeconds c" and "l = xgb_lookAhead x - 1"
  obtain x' where "m_xgboost model = Some x'" "frameSeconds c \<in> {5, 10, 15, 30}" "0 < xgb_lookAhead x'"
    "xgb_lookAhead x' \<le> 20000 * frameSeconds c" "rc_horizonSteps c = 1 + (xgb_lookAhead x' - 1) div (1000 * frameSeconds c)"
    by (rule frameSeconds_chosen [OF assms(1)])
  then have l: "0 < f" "0 \<le> l" "l < 20 * f" "rc_horizonSteps c = 1 + l div f"
    using assms(2) by (auto simp: f_def l_def)
  define q r where "q = l div f" and "r = l mod f"
  have parts: "q * f + r = l" "0 \<le> r" "r < f" using l(1) by (simp_all add: q_def r_def)
  have q: "0 \<le> q" using l(1,2) by (simp add: q_def pos_imp_zdiv_nonneg_iff)
  have "q < 20"
  proof (rule ccontr)
    assume "\<not> q < 20"
    then have "20 * f \<le> q * f" using l(1) by (intro mult_right_mono) auto
    then show False using parts l(3) by linarith
  qed
  moreover have s: "rc_horizonSteps c = 1 + q" by (simp add: l(4) q_def)
  moreover have "xgb_lookAhead x \<le> (1 + q) * f" "q * f < xgb_lookAhead x"
    using parts unfolding distrib_right by (simp_all add: l_def)
  ultimately show ?thesis using q by (simp add: f_def)
qed

lemma t_sub_small: "t_sub t u = d \<Longrightarrow> \<bar>d\<bar> < 9223372036854775807 \<Longrightarrow> ns t = ns u + d"
  by (auto simp: t_sub_def Let_def split: if_splits)

lemma wrap_seconds: "0 \<le> n \<Longrightarrow> n \<le> 6000 \<Longrightarrow> wrap64 n = n \<and> wrap64 (n * second) = n * second"
  by (simp add: wrap64_id in_i64_def)

lemma checkPoints_times:
  assumes "checkPoints firstAt frame i ps = None" "0 \<le> i" "i + int (length ps) \<le> 20" "1 \<le> frame" "frame \<le> 300" "k < length ps"
  shows "ns (p_at (ps ! k)) = ns firstAt + (i + int k) * frame * second \<and> ns (p_until (ps ! k)) = ns (p_at (ps ! k)) + frame * second \<and>
    finite_f (p_value (ps ! k)) \<and> \<not> f_lt (p_value (ps ! k)) (Fin 0)"
  using assms
proof (induction ps arbitrary: i k)
  case (Cons p ps)
  show ?case
  proof (cases k)
    case 0
    have "i \<le> 20" using Cons.prems(3) by simp
    then have "0 \<le> i * frame" "i * frame \<le> 20 * 300" using Cons.prems(2,4,5) by (simp, intro mult_mono) auto
    then have "wrap64 (wrap64 (i * frame) * second) = i * frame * second" "wrap64 (frame * second) = frame * second"
      using wrap_seconds [of "i * frame"] wrap_seconds [of frame] Cons.prems(4,5) by simp_all
    then show ?thesis using Cons.prems 0 t_sub_small [of "p_until p" "p_at p" "frame * second"]
      by (auto simp: same_instant_def split: if_splits)
  next
    case (Suc j)
    have "checkPoints firstAt frame (i + 1) ps = None" using Cons.prems(1) by (simp split: if_splits)
    from Cons.IH [OF this, of j] Cons.prems show ?thesis by (auto simp: Suc algebra_simps)
  qed
qed simp

text \<open>
  C39: safety. A ready forecast that is accepted from the worker has exactly the configured number of
  consecutive intervals of the configured length from the requested start on, with finite values that are not
  negative. None of them starts before the request, and the model was trained on nothing later than it.
\<close>

theorem ready_request_forecast_contiguous:
  assumes "Forecast runner c observations requestedAt firstAt = Inr r" "rr_status r = ''ready''"
  shows "int (length (rr_forecasts r)) = rc_horizonSteps c \<and> 1 \<le> rc_horizonSteps c \<and> \<not> after (rr_trainedThrough r) requestedAt \<and>
    (\<forall>k < length (rr_forecasts r). let p = rr_forecasts r ! k in
       ns (p_at p) = ns firstAt + int k * frameSeconds c * second \<and> ns (p_until p) = ns (p_at p) + frameSeconds c * second \<and>
       \<not> before (p_at p) requestedAt \<and> finite_f (p_value p) \<and> \<not> f_lt (p_value p) (Fin 0))"
proof -
  obtain raw where v: "validateRequest c observations requestedAt firstAt = None"
    and r: "decodeResult raw (c\<lparr>rc_features := sort_key fs_name (rc_features c)\<rparr>) requestedAt firstAt = Inr r"
    using assms(1) by (auto simp: Forecast_def Let_def rbind_eq_Inr_iff split: option.splits)
  have c: "1 \<le> frameSeconds c" "frameSeconds c \<le> 300" "1 \<le> rc_horizonSteps c" "rc_horizonSteps c \<le> 20" "\<not> before firstAt requestedAt"
    using v unfolding validateRequest_def Let_def by auto
  have f: "frameSeconds (c\<lparr>rc_features := sort_key fs_name (rc_features c)\<rparr>) = frameSeconds c" by (simp add: frameSeconds_def)
  have d: "int (length (rr_forecasts r)) = rc_horizonSteps c" "\<not> after (rr_trainedThrough r) requestedAt"
    "checkPoints firstAt (frameSeconds c) 0 (rr_forecasts r) = None"
    using r assms(2) f by (auto simp: decodeResult_def split: if_splits option.splits)
  have "0 \<le> int k * frameSeconds c * second" for k using c(1) by simp
  then show ?thesis using d c checkPoints_times [OF d(3)] by (auto simp: Let_def before_def not_less intro: order_trans)
qed

definition sampleBooster :: XGBoost where
  "sampleBooster = \<lparr>xgb_useUtilizationFeatures = None, xgb_seasonalFeatures = False, xgb_forecastAggregation = [],
     xgb_forecastStrategy = ''direct'', xgb_historySize = 60, xgb_lookAhead = 75000, xgb_lags = 12, xgb_windowSize = None,
     xgb_maxDepth = None, xgb_nEstimators = None, xgb_learningRate = Some (Fin 1), xgb_subsample = Some (Fin 1),
     xgb_colsampleBytree = None, xgb_objective = None, xgb_quantileAlpha = None, xgb_cpuDemandWeightExponent = None,
     xgb_aftLossDistributionScale = None, xgb_cpuCensoringUtilizationThreshold = None, xgb_minChildWeight = None, xgb_gamma = None,
     xgb_regLambda = None, xgb_regAlpha = None\<rparr>"

definition boosterModel :: "int64 \<Rightarrow> Model" where
  "boosterModel lookAhead = \<lparr>m_requestDemand = None, m_forecastReliability = None, m_predictivePolicy = None, m_type = TypeXGBoost,
     m_name = ''m'', m_sessionID = [], m_cpuRequestPerPodMillicores = 0, m_targetCPUUtilizationPercentage = 0,
     m_startInterval = None, m_resetDuration = None, m_calculationTimeout = None, m_perSyncPeriod = None,
     m_predictionMaxAge = None, m_historyMaxAge = None, m_linear = None, m_holtWinters = None, m_arima = None,
     m_xgboost = Some (sampleBooster\<lparr>xgb_lookAhead := lookAhead\<rparr>), m_lightgbm = None\<rparr>"

theorem request_horizon_covers_lookahead_witness:
  "\<exists>c. ConfigFromModel (boosterModel 75000) = Inr c \<and> rc_horizonSteps c = 3 \<and> 75000 \<le> rc_horizonSteps c * (1000 * frameSeconds c)"
proof -
  obtain c where c: "ConfigFromModel (boosterModel 75000) = Inr c" "rc_horizonSteps c = 3"
    by (simp add: ConfigFromModel_def boosterModel_def sampleBooster_def chosenInterval_def frameSeconds_def requestDefaults_def
        applyBooster_def validateHyperparameters_def finite_f_def f_is_nan_def f_is_inf_def f_le_def wrap64_def go_div_def Let_def
        firstError.simps)
  have "m_xgboost (boosterModel 75000) = Some sampleBooster" "xgb_lookAhead sampleBooster = 75000"
    by (simp_all add: boosterModel_def sampleBooster_def)
  then show ?thesis using c request_horizon_covers_lookahead [OF c(1)] by auto
qed

definition sampleRequest :: requestConfig where
  "sampleRequest = requestDefaults\<lparr>rc_quantile := Fin (1 / 2), rc_horizonSteps := 1, rc_learningRate := Fin 1, rc_subsample := Fin 1\<rparr>"

definition sampleAnswer :: requestResult where
  "sampleAnswer = \<lparr>rr_protocol = ''request-demand-v1'', rr_unit = ''requests_per_second'', rr_generatedAt = GoTime (unixEpoch + 25 * second) 0,
     rr_status = ''ready'', rr_reason = [], rr_forecasts = [\<lparr>p_at = GoTime (unixEpoch + 30 * second) 0,
       p_until = GoTime (unixEpoch + 60 * second) 0, p_value = Fin 40\<rparr>], rr_trainedThrough = GoTime unixEpoch 0,
     rr_diagnostics = \<lparr>dg_forecastIntervalSeconds = 0, dg_trainingRows = 0, dg_featureAvailability = [],
       dg_arrivalAvailability = noAvailability\<rparr>\<rparr>"

theorem ready_request_forecast_contiguous_witness:
  "Forecast (Some (\<lambda>_ _ _ _. Inr sampleAnswer)) sampleRequest [] (GoTime (unixEpoch + 25 * second) 0) (GoTime (unixEpoch + 30 * second) 0) =
     Inr sampleAnswer \<and>
   ns (p_until (rr_forecasts sampleAnswer ! 0)) = unixEpoch + 60 * second"
proof -
  let ?requested = "GoTime (unixEpoch + 25 * second) 0" and ?first = "GoTime (unixEpoch + 30 * second) 0"
  have frame: "frameSeconds sampleRequest = 30" by (simp add: frameSeconds_def sampleRequest_def requestDefaults_def)
  have "validateRequest sampleRequest [] ?requested ?first = None"
    by (simp add: validateRequest_def frameSeconds_def Let_def validateHyperparameters_def sampleRequest_def requestDefaults_def finite_f_def
        f_is_nan_def f_is_inf_def f_le_def offGrid_def unixSeconds_def unixEpoch_def t_sub_def)
  moreover have "decodeResult sampleAnswer (sampleRequest\<lparr>rc_features := sort_key fs_name (rc_features sampleRequest)\<rparr>) ?requested ?first = Inr sampleAnswer"
    by (simp add: decodeResult_def sampleAnswer_def sampleRequest_def requestDefaults_def frameSeconds_def validateDiagnostics_def
        same_instant_def t_sub_def finite_f_def f_is_nan_def f_is_inf_def wrap64_def unixEpoch_def firstError.simps)
  ultimately have f: "Forecast (Some (\<lambda>_ _ _ _. Inr sampleAnswer)) sampleRequest [] ?requested ?first = Inr sampleAnswer"
    by (simp add: Forecast_def Let_def)
  have ready: "rr_status sampleAnswer = ''ready''" by (simp add: sampleAnswer_def)
  have "ns (p_at (rr_forecasts sampleAnswer ! 0)) = unixEpoch + 30 * second"
    "ns (p_until (rr_forecasts sampleAnswer ! 0)) = ns (p_at (rr_forecasts sampleAnswer ! 0)) + frameSeconds sampleRequest * second"
    using ready_request_forecast_contiguous [OF f ready] by (simp_all add: sampleAnswer_def Let_def)
  then show ?thesis using f by (simp add: frame)
qed
end
