(* ===== verification/DemandAccounting.thy ===== *)
theory DemandAccounting
  imports RequestForecast
begin

text \<open>
  The state that the request-demand controller (\<open>src/internal/controllers/request_demand.go\<close>) keeps for a model,
  and what a closed slot adds to it: CPU paired with completed requests over the same native intervals, the
  resource and capacity features of its observation, the published forecast, what is kept.

  What is proved: a qualified account pairs requests and CPU over the same intervals of every pod that was
  counted, and no running time of these pods in them was left unmeasured.

  The JSON sizes of rows and the readings of the CPU collectors are parameters.
\<close>

section \<open>Data\<close>

record demandPod =
  dp_identity :: PodIdentity
  dp_seenAt :: gotime

record demandCPUAccount =
  ca_pod :: string
  ca_uid :: string
  ca_from :: gotime
  ca_to :: gotime
  ca_completedRequests :: float64
  ca_cpuSeconds :: float64
  ca_podSeconds :: float64
  ca_coverage :: float64
  ca_sourceAt :: gotime
  ca_receivedAt :: gotime
  ca_boundaryAveraged :: bool

record demandCPURejection =
  cj_pod :: string
  cj_uid :: string
  cj_from :: gotime
  cj_to :: gotime
  cj_reason :: string

record demandAccounting =
  da_rejections :: "demandCPURejection list"
  da_slot :: gotime
  da_window :: Window
  da_pods :: "demandCPUAccount list"
  da_reason :: string
  da_arrivalCoverage :: float64
  da_arrivalBoundaryAveraged :: bool
  da_arrivalPodCoverage :: "PodTrafficCoverage list"
  da_nativeSupportFraction :: float64
  da_expectedPodSeconds :: float64

record demandForecastEvent =
  ev_issuedAt :: gotime
  ev_availableAt :: gotime
  ev_consumedAt :: gotime
  ev_forecasts :: "Point list"
  ev_computedForecasts :: "Point list"
  ev_droppedIntervals :: int64
  ev_diagnostics :: requestDiagnostics

record demandCapacityContext =
  cc_observedAt :: gotime
  cc_requested :: int32
  cc_ready :: float64
  cc_running :: float64
  cc_cpuRequestMillicores :: "int64 option"

record demandState =
  ds_version :: int64
  ds_identity :: string
  ds_createdAt :: gotime
  ds_lastSlot :: gotime
  ds_lastFitSlot :: gotime
  ds_accounting :: "demandAccounting list"
  ds_estimator :: State
  ds_observations :: "requestObservation list"
  ds_forecasts :: "Point list"
  ds_forecastIssuedAt :: gotime
  ds_forecastAvailableAt :: gotime
  ds_forecastConsumedAt :: gotime
  ds_forecastDiagnostics :: "requestDiagnostics option"
  ds_lastForecastDiagnostics :: "requestDiagnostics option"
  ds_forecastEvents :: "demandForecastEvent list"
  ds_lastForecastAttemptAt :: gotime
  ds_lastForecastOutcome :: string
  ds_lastForecastReason :: string
  ds_pods :: "demandPod list"
  ds_context :: "string \<rightharpoonup> requestFeature"
  ds_capacityHistory :: "demandCapacityContext list"

section \<open>CPU of native intervals\<close>

type_synonym podReader = "string \<Rightarrow> string \<Rightarrow> gotime \<Rightarrow> gotime \<Rightarrow> WorkloadObservation option result"

definition batchView :: "string \<Rightarrow> string \<Rightarrow> string \<Rightarrow> CgroupSnapshot \<Rightarrow> CgroupSnapshot" where
  "batchView namespace pod uid s =
     s\<lparr>sn_pods := filter (\<lambda>p. pd_namespace p = namespace \<and> pd_name p = pod \<and> pd_uid p = uid) (sn_pods s)\<rparr>"

definition retainedRead :: "WorkloadObservation \<Rightarrow> string \<Rightarrow> podReader" where
  "retainedRead batch namespace pod uid from to =
     (let views = map (batchView namespace pod uid) (wo_nativeSnapshots batch) in
      if list_all (\<lambda>v. sn_pods v = []) views then Inl ''native pod identity unavailable in retained batch''
      else rbind (Integrate views namespace (\<lambda>_. True) from to (wo_receivedAt batch)) (\<lambda>w. Inr (Some w)))"

record accountScan =
  as_pods :: "demandCPUAccount list"
  as_rejections :: "demandCPURejection list"
  as_window :: Window
  as_first :: bool

definition cpuAccount :: "PodCounterInterval \<Rightarrow> WorkloadObservation \<Rightarrow> demandCPUAccount" where
  "cpuAccount i cpu =
     \<lparr>ca_pod = pc_pod i, ca_uid = pc_uid i, ca_from = pc_start i, ca_to = pc_end i, ca_completedRequests = pc_completedRequests i,
      ca_cpuSeconds = wo_cpuSeconds cpu, ca_podSeconds = wo_runningPodSeconds cpu, ca_coverage = wo_coverage cpu,
      ca_sourceAt = wo_sourceAt cpu, ca_receivedAt = wo_receivedAt cpu, ca_boundaryAveraged = wo_boundaryAveraged cpu\<rparr>"

definition joinAccount :: "demandCPUAccount \<Rightarrow> demandCPUAccount \<Rightarrow> demandCPUAccount" where
  "joinAccount p v =
     p\<lparr>ca_to := ca_to v, ca_completedRequests := f_add (ca_completedRequests p) (ca_completedRequests v),
       ca_cpuSeconds := f_add (ca_cpuSeconds p) (ca_cpuSeconds v), ca_podSeconds := f_add (ca_podSeconds p) (ca_podSeconds v),
       ca_coverage := f_min (ca_coverage p) (ca_coverage v), ca_boundaryAveraged := ca_boundaryAveraged p \<or> ca_boundaryAveraged v,
       ca_sourceAt := (if after (ca_sourceAt v) (ca_sourceAt p) then ca_sourceAt v else ca_sourceAt p),
       ca_receivedAt := (if after (ca_receivedAt v) (ca_receivedAt p) then ca_receivedAt v else ca_receivedAt p)\<rparr>"

definition appendAccount :: "demandCPUAccount list \<Rightarrow> demandCPUAccount \<Rightarrow> demandCPUAccount list" where
  "appendAccount pods v =
     (if pods \<noteq> [] \<and> ca_uid (last pods) = ca_uid v \<and> same_instant (ca_to (last pods)) (ca_from v)
      then butlast pods @ [joinAccount (last pods) v] else pods @ [v])"

definition chargePiece :: "Window \<times> bool \<Rightarrow> PodCounterInterval \<times> WorkloadObservation \<Rightarrow> Window \<times> bool" where
  "chargePiece = (\<lambda>(account, first) (i, cpu).
     (account\<lparr>w_completedRequests := f_add (w_completedRequests account) (pc_completedRequests i),
        w_cpuSeconds := f_add (w_cpuSeconds account) (wo_cpuSeconds cpu),
        w_podSeconds := f_add (w_podSeconds account) (wo_runningPodSeconds cpu),
        w_start := (if first \<or> before (pc_start i) (w_start account) then pc_start i else w_start account),
        w_end := (if first \<or> after (pc_end i) (w_end account) then pc_end i else w_end account)\<rparr>, False))"

definition appendCPU :: "accountScan \<Rightarrow> PodCounterInterval \<Rightarrow> WorkloadObservation \<Rightarrow> accountScan" where
  "appendCPU s i cpu =
     (let (account, first) = chargePiece (as_window s, as_first s) (i, cpu)
      in s\<lparr>as_pods := appendAccount (as_pods s) (cpuAccount i cpu), as_window := account, as_first := first\<rparr>)"

definition validCPU :: "WorkloadObservation option result \<Rightarrow> WorkloadObservation option" where
  "validCPU read = (case read of Inr (Some cpu) \<Rightarrow> if wo_complete cpu \<and> f_le p95 (wo_coverage cpu) then Some cpu else None | _ \<Rightarrow> None)"

fun joinWith :: "string \<Rightarrow> string list \<Rightarrow> string" where
  "joinWith sep [] = []"
| "joinWith sep [r] = r"
| "joinWith sep (r # rs) = r @ sep @ joinWith sep rs"

definition rejectionReason :: "WorkloadObservation option result \<Rightarrow> string" where
  "rejectionReason read =
     (case read of
        Inl _ \<Rightarrow> ''native CPU collection failed''
      | Inr None \<Rightarrow> ''incomplete native CPU accounting''
      | Inr (Some cpu) \<Rightarrow> if wo_missingReasons cpu = [] then ''incomplete native CPU accounting'' else joinWith ''; '' (wo_missingReasons cpu))"

definition rejectCPU :: "accountScan \<Rightarrow> PodCounterInterval \<Rightarrow> WorkloadObservation option result \<Rightarrow> accountScan" where
  "rejectCPU s i read =
     (let reason = rejectionReason read; rs = as_rejections s in
      if rs \<noteq> [] \<and> cj_uid (last rs) = pc_uid i \<and> cj_reason (last rs) = reason \<and> same_instant (cj_to (last rs)) (pc_start i)
      then s\<lparr>as_rejections := butlast rs @ [(last rs)\<lparr>cj_to := pc_end i\<rparr>]\<rparr>
      else if length rs < 64
      then s\<lparr>as_rejections := rs @ [\<lparr>cj_pod = pc_pod i, cj_uid = pc_uid i, cj_from = pc_start i, cj_to = pc_end i, cj_reason = reason\<rparr>]\<rparr>
      else s)"

definition readInterval :: "podReader \<Rightarrow> PodCounterInterval \<Rightarrow> WorkloadObservation option result" where
  "readInterval readCPU i = readCPU (pc_pod i) (pc_uid i) (pc_start i) (pc_end i)"

definition partOf :: "PodCounterInterval \<Rightarrow> PodCounterInterval \<Rightarrow> bool" where
  "partOf i pair \<longleftrightarrow> \<not> (pc_uid pair \<noteq> pc_uid i \<or> before (pc_start pair) (pc_start i) \<or> after (pc_end pair) (pc_end i))"

definition nativePairStep :: "podReader \<Rightarrow> PodCounterInterval \<Rightarrow> accountScan \<times> bool \<times> nat \<Rightarrow> PodCounterInterval \<Rightarrow> accountScan \<times> bool \<times> nat" where
  "nativePairStep readCPU i = (\<lambda>(s, accepted, pairsRead) pair.
     if \<not> partOf i pair then (s, accepted, pairsRead)
     else case validCPU (readInterval readCPU pair) of
       Some part \<Rightarrow> (appendCPU s pair part, True, pairsRead + 1)
     | None \<Rightarrow> (rejectCPU s pair (readInterval readCPU pair), accepted, pairsRead + 1))"

definition groupStep :: "podReader \<Rightarrow> PodCounterInterval list \<Rightarrow> accountScan \<times> nat \<Rightarrow> PodCounterInterval \<Rightarrow> accountScan \<times> nat" where
  "groupStep readCPU native = (\<lambda>(s, acceptedGroups) i.
     case validCPU (readInterval readCPU i) of
       Some cpu \<Rightarrow> (appendCPU s i cpu, acceptedGroups + 1)
     | None \<Rightarrow>
       let (s1, accepted, pairsRead) = foldl (nativePairStep readCPU i) (s, False, 0) native in
       if accepted then (s1, acceptedGroups + 1)
       else if pairsRead = 0 then (rejectCPU s1 i (readInterval readCPU i), acceptedGroups)
       else (s1, acceptedGroups))"

text \<open>A slot is a multiple of thirty seconds, so that its text has no fraction in either RFC 3339 format.\<close>

definition openAccount :: "string \<Rightarrow> gotime \<Rightarrow> TrafficWindow \<Rightarrow> Window" where
  "openAccount identity slot traffic =
     \<lparr>w_id = identity @ ''/'' @ format_time slot, w_start = t_add slot (- 30 * second), w_end = slot, w_availableAt = zero_time,
      w_cpuSeconds = Fin 0, w_completedRequests = Fin 0, w_podSeconds = Fin 0, w_coverage = tw_coverage traffic,
      w_qualified = tw_qualified traffic,
      w_reason = (if tw_qualified traffic then [] else ''incomplete fleet native completion support: '' @ tw_reason traffic)\<rparr>"

definition closeAccount :: "TrafficWindow \<Rightarrow> nat \<Rightarrow> Window \<Rightarrow> Window" where
  "closeAccount traffic acceptedGroups account =
     (let groups = length (tw_perPodIntervals traffic) in
      if groups = 0 \<or> acceptedGroups \<noteq> groups
      then account\<lparr>w_qualified := False, w_reason := ''native CPU/completion support missing for an active fleet member'',
        w_coverage := (if groups > 0 then f_min (w_coverage account) (f_div (f_of_int (int acceptedGroups)) (f_of_int (int groups)))
          else w_coverage account)\<rparr>
      else account)"

definition collectDemandNativeAccounting :: "podReader \<Rightarrow> string \<Rightarrow> string \<Rightarrow> gotime \<Rightarrow> TrafficWindow \<Rightarrow> WorkloadObservation option \<Rightarrow>
    demandAccounting" where
  "collectDemandNativeAccounting gather namespace identity slot traffic retained =
     (let readCPU = (case retained of Some batch \<Rightarrow> if wo_nativeSnapshots batch \<noteq> [] then retainedRead batch namespace else gather
            | None \<Rightarrow> gather);
          (s, acceptedGroups) = foldl (groupStep readCPU (tw_perPodNativeIntervals traffic))
            (\<lparr>as_pods = [], as_rejections = [], as_window = openAccount identity slot traffic, as_first = True\<rparr>, 0)
            (tw_perPodIntervals traffic);
          account = closeAccount traffic acceptedGroups (as_window s)
      in \<lparr>da_rejections = as_rejections s, da_slot = slot, da_window = account, da_pods = as_pods s, da_reason = [],
          da_arrivalCoverage = tw_arrivalCoverage traffic, da_arrivalBoundaryAveraged = tw_arrivalBoundaryAveraged traffic,
          da_arrivalPodCoverage = tw_arrivalPodCoverage traffic,
          da_nativeSupportFraction = (if f_lt (Fin 0) (tw_expectedPodSeconds traffic)
            then f_div (w_podSeconds account) (tw_expectedPodSeconds traffic) else Fin 0),
          da_expectedPodSeconds = tw_expectedPodSeconds traffic\<rparr>)"

section \<open>Features\<close>

definition feature :: "float64 \<Rightarrow> string \<Rightarrow> gotime \<Rightarrow> gotime \<Rightarrow> requestFeature" where
  "feature v unit source receipt = \<lparr>rf_value = Some v, rf_sourceAt = source, rf_receivedAt = receipt, rf_unit = unit, rf_window = None\<rparr>"

definition missingFeature :: "string \<Rightarrow> gotime \<Rightarrow> gotime \<Rightarrow> requestFeature" where
  "missingFeature unit source receipt = \<lparr>rf_value = None, rf_sourceAt = source, rf_receivedAt = receipt, rf_unit = unit, rf_window = None\<rparr>"

definition demandCapacityValues :: "demandCapacityContext \<Rightarrow> (string \<times> requestFeature) list" where
  "demandCapacityValues ctx =
     (let t = cc_observedAt ctx in
      [(''requested_replicas'', feature (f_of_int (cc_requested ctx)) ''replicas'' t t),
       (''ready_replicas'', feature (cc_ready ctx) ''replicas'' t t),
       (''running_replicas'', feature (cc_running ctx) ''replicas'' t t),
       (''cpu_request_per_pod'', (case cc_cpuRequestMillicores ctx of
          None \<Rightarrow> missingFeature ''cores'' t t
        | Some millicores \<Rightarrow> feature (f_div (f_of_int millicores) (f_of_int 1000)) ''cores'' t t))])"

definition selectContext :: "gotime \<Rightarrow> demandCapacityContext option \<Rightarrow> demandCapacityContext \<Rightarrow> demandCapacityContext option" where
  "selectContext until selected ctx =
     (if \<not> after (cc_observedAt ctx) until \<and> (case selected of None \<Rightarrow> True | Some s \<Rightarrow> after (cc_observedAt ctx) (cc_observedAt s))
      then Some ctx else selected)"

definition selectDemandCapacityFeatures :: "requestObservation \<Rightarrow> demandCapacityContext list \<Rightarrow> requestObservation" where
  "selectDemandCapacityFeatures row history =
     (case foldl (selectContext (ro_until row)) None history of
        None \<Rightarrow> row
      | Some ctx \<Rightarrow> row\<lparr>ro_features := ro_features row ++ map_of (demandCapacityValues ctx)\<rparr>)"

definition recordDemandCapacityContext :: "demandState \<Rightarrow> demandCapacityContext \<Rightarrow> demandState" where
  "recordDemandCapacityContext state ctx =
     state\<lparr>ds_capacityHistory := last_n 16 (ds_capacityHistory state @ [ctx]),
           ds_context := ds_context state ++ map_of (demandCapacityValues ctx)\<rparr>"

definition resourceUnits :: "(string \<times> string) list" where
  "resourceUnits = [(''cpu_usage'', ''cores''), (''memory_usage'', ''bytes''), (''cpu_throttled'', ''seconds/second''),
     (''cpu_pressure'', ''seconds/second'')]"

definition usableCPU :: "WorkloadObservation option \<Rightarrow> bool \<Rightarrow> gotime \<Rightarrow> gotime \<Rightarrow> bool" where
  "usableCPU cpu failed until received \<longleftrightarrow> \<not> failed \<and> present (\<lambda>w. wo_complete w \<and> \<not> is_zero (wo_from w) \<and> after (wo_to w) (wo_from w) \<and>
     \<not> after (wo_to w) until \<and> \<not> is_zero (wo_sourceAt w) \<and> \<not> after (wo_sourceAt w) received \<and>
     (is_zero (wo_receivedAt w) \<or> \<not> before (wo_receivedAt w) (wo_sourceAt w) \<and> \<not> after (wo_receivedAt w) received)) cpu"

definition resourceFeature :: "WorkloadObservation \<Rightarrow> gotime \<Rightarrow> gotime \<Rightarrow> string \<Rightarrow> string \<Rightarrow> requestFeature" where
  "resourceFeature w until received name unit =
     (let receipt = (if is_zero (wo_receivedAt w) then received else wo_receivedAt w);
          windowed = (\<lambda>v. (feature v unit (wo_sourceAt w) receipt)\<lparr>rf_window := Some (interval (wo_from w) (wo_to w))\<rparr>);
          seconds = d_seconds (t_sub (wo_to w) (wo_from w)); none = missingFeature unit until received in
      if name = ''cpu_usage'' then windowed (f_div (wo_cpuSeconds w) seconds)
      else if name = ''memory_usage'' then
        (case wo_memoryBytes w of None \<Rightarrow> none | Some bytes \<Rightarrow> feature (f_of_int (int bytes)) unit (wo_memorySourceAt w) receipt)
      else if name = ''cpu_throttled'' then
        (case wo_throttledSeconds w of None \<Rightarrow> none | Some v \<Rightarrow> windowed (f_div v seconds))
      else (case wo_pressureSomeSeconds w of None \<Rightarrow> none | Some v \<Rightarrow> windowed (f_div v seconds)))"

definition resourceValues :: "WorkloadObservation option \<Rightarrow> bool \<Rightarrow> gotime \<Rightarrow> gotime \<Rightarrow> (string \<times> requestFeature) list" where
  "resourceValues cpu failed until received =
     map (\<lambda>(name, unit). (name, case cpu of
         Some w \<Rightarrow> if usableCPU cpu failed until received then resourceFeature w until received name unit else missingFeature unit until received
       | None \<Rightarrow> missingFeature unit until received)) resourceUnits"

definition rowFeature :: "gotime \<Rightarrow> gotime \<Rightarrow> requestFeature \<Rightarrow> requestFeature" where
  "rowFeature until received v =
     (if \<not> after (rf_sourceAt v) until \<or> rf_window v \<noteq> None then v else missingFeature (rf_unit v) until received)"

definition recordDemandResourceFeatures :: "(string \<rightharpoonup> requestFeature) \<Rightarrow> requestObservation \<Rightarrow> WorkloadObservation option \<Rightarrow> bool \<Rightarrow> gotime \<Rightarrow>
    (string \<rightharpoonup> requestFeature) \<times> requestObservation" where
  "recordDemandResourceFeatures context row cpu failed received =
     (let values = resourceValues cpu failed (ro_until row) received
      in (context ++ map_of values,
          row\<lparr>ro_features := ro_features row ++ map_of (map (\<lambda>(name, v). (name, rowFeature (ro_until row) received v)) values)\<rparr>))"

section \<open>Published forecasts and retention\<close>

definition publishRequestForecast :: "demandState \<Rightarrow> requestResult \<Rightarrow> gotime \<Rightarrow> gotime \<Rightarrow> demandState" where
  "publishRequestForecast state r requested available =
     (let future = filter (\<lambda>p. \<not> before (p_at p) available) (rr_forecasts r);
          event = \<lparr>ev_issuedAt = requested, ev_availableAt = available, ev_consumedAt = rr_trainedThrough r, ev_forecasts = future,
            ev_computedForecasts = rr_forecasts r, ev_droppedIntervals = int (length (rr_forecasts r)) - int (length future),
            ev_diagnostics = rr_diagnostics r\<rparr>;
          state1 = state\<lparr>ds_forecastEvents := last_n 10 (ds_forecastEvents state @ [event])\<rparr> in
      if future = []
      then state1\<lparr>ds_lastForecastOutcome := ''unavailable'',
             ds_lastForecastReason := ''no unstarted forecast intervals remained at publication''\<rparr>
      else state1\<lparr>ds_forecasts := mergeRequestInterval (ds_forecasts state) future available, ds_forecastIssuedAt := requested,
             ds_forecastAvailableAt := available, ds_forecastConsumedAt := rr_trainedThrough r,
             ds_forecastDiagnostics := Some (rr_diagnostics r)\<rparr>)"

fun genuineStart :: "nat \<Rightarrow> nat \<Rightarrow> nat \<Rightarrow> requestObservation list \<Rightarrow> nat" where
  "genuineStart required start genuine [] = start"
| "genuineStart required start genuine (row # older) =
     (if ro_arrivalsPerSecond row \<noteq> None
      then if genuine + 1 \<ge> required then start - 1 else genuineStart required (start - 1) (genuine + 1) older
      else genuineStart required (start - 1) genuine older)"

fun storageStart :: "(requestObservation \<Rightarrow> nat) \<Rightarrow> nat \<Rightarrow> nat \<Rightarrow> nat \<Rightarrow> nat \<Rightarrow> requestObservation list \<Rightarrow> nat" where
  "storageStart jsonSize limit start i bytes [] = start"
| "storageStart jsonSize limit start i bytes (row # older) =
     (if i \<le> start then start
      else let bytes1 = bytes + jsonSize row + 1 in
        if bytes1 > limit then i else storageStart jsonSize limit start (i - 1) bytes1 older)"

text \<open>\<open>jsonSize\<close> is the length of the JSON of a row, \<open>limit\<close> two thirds of the limit of the state.\<close>

definition retainDemandObservations :: "(requestObservation \<Rightarrow> nat) \<Rightarrow> nat \<Rightarrow> requestObservation list \<Rightarrow> int64 \<Rightarrow> requestObservation list" where
  "retainDemandObservations jsonSize limit rows required0 =
     (let required = (if required0 < 24 then 60 else required0);
          start0 = genuineStart (nat required) (length rows) 0 (rev rows);
          start1 = (if int (length rows) - 4 * required > int start0 then length rows - nat (4 * required) else start0)
      in drop (storageStart jsonSize limit start1 (length rows) 2 (rev rows)) rows)"


section \<open>Accounts\<close>

text \<open>The reference: which intervals an account is made of, each with its CPU reading.\<close>

fun validPieces :: "podReader \<Rightarrow> PodCounterInterval list \<Rightarrow> (PodCounterInterval \<times> WorkloadObservation) list" where
  "validPieces readCPU [] = []"
| "validPieces readCPU (p # ps) =
     (case validCPU (readInterval readCPU p) of None \<Rightarrow> [] | Some cpu \<Rightarrow> [(p, cpu)]) @ validPieces readCPU ps"

definition piecesOf :: "podReader \<Rightarrow> PodCounterInterval list \<Rightarrow> PodCounterInterval \<Rightarrow> (PodCounterInterval \<times> WorkloadObservation) list" where
  "piecesOf readCPU native i =
     (case validCPU (readInterval readCPU i) of Some cpu \<Rightarrow> [(i, cpu)] | None \<Rightarrow> validPieces readCPU (filter (partOf i) native))"

lemma validPieces_set: "(p, cpu) \<in> set (validPieces readCPU ps) \<longleftrightarrow> p \<in> set ps \<and> validCPU (readInterval readCPU p) = Some cpu"
  by (induction ps) (auto split: option.splits)

lemma piecesOf_set:
  "(p, cpu) \<in> set (piecesOf readCPU native i) \<Longrightarrow> partOf i p \<and> validCPU (readInterval readCPU p) = Some cpu"
  by (auto simp: piecesOf_def validPieces_set partOf_def split: option.splits)

lemma appendCPU_window [simp]:
  "(as_window (appendCPU s i cpu), as_first (appendCPU s i cpu)) = chargePiece (as_window s, as_first s) (i, cpu)"
  by (simp add: appendCPU_def split: prod.split)

lemma rejectCPU_window [simp]: "as_window (rejectCPU s i read) = as_window s" "as_first (rejectCPU s i read) = as_first s"
  by (simp_all add: rejectCPU_def Let_def)

lemma nativePairs_window:
  assumes "foldl (nativePairStep readCPU i) (s, took, n) native = (s', took', n')"
  shows "(as_window s', as_first s') = foldl chargePiece (as_window s, as_first s) (validPieces readCPU (filter (partOf i) native)) \<and>
    (took' \<longleftrightarrow> took \<or> validPieces readCPU (filter (partOf i) native) \<noteq> [])"
  using assms
proof (induction native arbitrary: s took n)
  case (Cons p ps)
  obtain s1 a1 n1 where step: "nativePairStep readCPU i (s, took, n) p = (s1, a1, n1)" by (metis prod_cases3)
  with Cons.prems have "foldl (nativePairStep readCPU i) (s1, a1, n1) ps = (s', took', n')" by simp
  note ih = Cons.IH [OF this]
  show ?case
  proof (cases "partOf i p")
    case True
    then show ?thesis using ih step by (auto simp: nativePairStep_def split: option.splits)
  next
    case False
    then show ?thesis using ih step by (auto simp: nativePairStep_def)
  qed
qed simp

lemma groupStep_window:
  assumes "groupStep readCPU native (s, n) i = (s', n')"
  shows "(as_window s', as_first s') = foldl chargePiece (as_window s, as_first s) (piecesOf readCPU native i) \<and>
    n' = n + (if piecesOf readCPU native i = [] then 0 else 1)"
proof (cases "validCPU (readInterval readCPU i)")
  case None
  obtain s1 took pairsRead where fold: "foldl (nativePairStep readCPU i) (s, False, 0) native = (s1, took, pairsRead)"
    by (metis prod_cases3)
  show ?thesis using assms None nativePairs_window [OF fold] fold by (auto simp: groupStep_def piecesOf_def split: if_splits)
next
  case (Some cpu)
  then show ?thesis using assms by (auto simp: groupStep_def piecesOf_def)
qed

lemma groups_window:
  assumes "foldl (groupStep readCPU native) (s, n) groups = (s', n')"
  shows "(as_window s', as_first s') = foldl chargePiece (as_window s, as_first s) (concat (map (piecesOf readCPU native) groups)) \<and>
    n' = n + length (filter (\<lambda>i. piecesOf readCPU native i \<noteq> []) groups)"
  using assms
proof (induction groups arbitrary: s n)
  case (Cons i groups)
  obtain s1 n1 where step: "groupStep readCPU native (s, n) i = (s1, n1)" by (metis prod.exhaust)
  with Cons.prems have "foldl (groupStep readCPU native) (s1, n1) groups = (s', n')" by simp
  from Cons.IH [OF this] groupStep_window [OF step] show ?case by auto
qed simp

text \<open>The totals of an account are the sums over its pieces, in their order.\<close>

lemma chargePieces_totals:
  fixes account first pieces
  defines "account' \<equiv> fst (foldl chargePiece (account, first) pieces)"
  shows "w_completedRequests account' = foldl f_add (w_completedRequests account) (map (\<lambda>p. pc_completedRequests (fst p)) pieces)"
    "w_cpuSeconds account' = foldl f_add (w_cpuSeconds account) (map (\<lambda>p. wo_cpuSeconds (snd p)) pieces)"
    "w_podSeconds account' = foldl f_add (w_podSeconds account) (map (\<lambda>p. wo_runningPodSeconds (snd p)) pieces)"
    "w_qualified account' = w_qualified account"
  unfolding account'_def
  by (induction pieces arbitrary: account first) (auto simp: chargePiece_def split: prod.splits)

text \<open>Every instant of an interval at which a container of the pod ran was measured by a counter window.\<close>

definition pieceMeasured :: "WorkloadObservation \<Rightarrow> string \<Rightarrow> PodCounterInterval \<Rightarrow> bool" where
  "pieceMeasured batch namespace p \<longleftrightarrow> (\<forall>s \<in> set (wo_nativeSnapshots batch). \<forall>pod \<in> set (sn_pods s).
     pd_namespace pod = namespace \<and> pd_name pod = pc_pod p \<and> pd_uid pod = pc_uid p \<and>
     (is_zero (pd_createdAt pod) \<or> before (pd_createdAt pod) (pc_end p)) \<longrightarrow>
     (\<forall>c \<in> set (pd_containers pod). \<forall>i. ns (pc_start p) \<le> i \<and> i < ns (pc_end p) \<and> runsAt c i \<longrightarrow> measuredBy (ct_windows c) i))"

lemma retainedRead_measured:
  assumes "validCPU (readInterval (retainedRead batch namespace) p) = Some cpu" "0 < ns (pc_start p)"
  shows "pieceMeasured batch namespace p"
  unfolding pieceMeasured_def
proof (intro ballI impI allI, elim conjE)
  fix s pod c i
  assume s: "s \<in> set (wo_nativeSnapshots batch)" "pod \<in> set (sn_pods s)"
    and pod: "pd_namespace pod = namespace" "pd_name pod = pc_pod p" "pd_uid pod = pc_uid p"
      "is_zero (pd_createdAt pod) \<or> before (pd_createdAt pod) (pc_end p)"
    and c: "c \<in> set (pd_containers pod)" "ns (pc_start p) \<le> i" "i < ns (pc_end p)" "runsAt c i"
  let ?views = "map (batchView namespace (pc_pod p) (pc_uid p)) (wo_nativeSnapshots batch)"
  have "Integrate ?views namespace (\<lambda>_. True) (pc_start p) (pc_end p) (wo_receivedAt batch) = Inr cpu" "wo_complete cpu"
    using assms(1) by (auto simp: validCPU_def readInterval_def retainedRead_def Let_def rbind_def split: sum.splits option.splits if_splits)
  moreover have "batchView namespace (pc_pod p) (pc_uid p) s \<in> set ?views" using s(1) by simp
  moreover have "pod \<in> set (sn_pods (batchView namespace (pc_pod p) (pc_uid p) s))" using s(2) pod by (simp add: batchView_def)
  ultimately show "measuredBy (ct_windows c) i" using Integrate_complete_measured assms(2) pod(1,4) c by blast
qed

lemma closeAccount_qualified:
  assumes "w_qualified (closeAccount traffic n account)"
  shows "tw_perPodIntervals traffic \<noteq> [] \<and> n = length (tw_perPodIntervals traffic) \<and> closeAccount traffic n account = account"
  using assms by (simp add: closeAccount_def Let_def split: if_splits)

text \<open>
  The intervals an account may charge: an interval of the traffic window itself when the CPU of its pod over it is
  known, otherwise those native intervals of the same pod within it for which it is, in their order.
\<close>

definition chargedIntervals :: "podReader \<Rightarrow> TrafficWindow \<Rightarrow> PodCounterInterval list" where
  "chargedIntervals readCPU traffic =
     concat (map (\<lambda>i. if validCPU (readInterval readCPU i) \<noteq> None then [i]
         else filter (\<lambda>p. partOf i p \<and> validCPU (readInterval readCPU p) \<noteq> None) (tw_perPodNativeIntervals traffic))
       (tw_perPodIntervals traffic))"

lemma validPieces_fst: "map fst (validPieces readCPU ps) = filter (\<lambda>p. validCPU (readInterval readCPU p) \<noteq> None) ps"
  by (induction ps) (auto split: option.splits)

lemma piecesOf_fst:
  "map fst (piecesOf readCPU native i) = (if validCPU (readInterval readCPU i) \<noteq> None then [i]
     else filter (\<lambda>p. partOf i p \<and> validCPU (readInterval readCPU p) \<noteq> None) native)"
  by (auto simp: piecesOf_def validPieces_fst conj_commute cong: filter_cong split: option.splits)

lemma pieces_charged:
  "map fst (concat (map (piecesOf readCPU (tw_perPodNativeIntervals traffic)) (tw_perPodIntervals traffic))) = chargedIntervals readCPU traffic"
  unfolding chargedIntervals_def map_concat map_map comp_def piecesOf_fst ..

text \<open>
  C40: safety. A qualified account pairs requests and CPU honestly. Its totals are sums over pieces, each an
  interval of the traffic window with its own completed requests and the CPU of the same pod over the same
  interval: an interval of the window whole where its CPU is known, otherwise those native intervals
  within it whose CPU is known, each of them once and in order; every interval of the window has such a piece; and over each
  piece no running time was left out: at every instant at which a container of the pod ran, a counter window
  of the container measured it.
\<close>

theorem qualified_accounting_is_measured:
  assumes "evidence = collectDemandNativeAccounting gather namespace identity slot traffic (Some batch)"
    and "wo_nativeSnapshots batch \<noteq> []" "w_qualified (da_window evidence)"
  shows "\<exists>pieces. map fst pieces = chargedIntervals (retainedRead batch namespace) traffic \<and>
    w_completedRequests (da_window evidence) = foldl f_add (Fin 0) (map pc_completedRequests (chargedIntervals (retainedRead batch namespace) traffic)) \<and>
    w_cpuSeconds (da_window evidence) = foldl f_add (Fin 0) (map (\<lambda>p. wo_cpuSeconds (snd p)) pieces) \<and>
    w_podSeconds (da_window evidence) = foldl f_add (Fin 0) (map (\<lambda>p. wo_runningPodSeconds (snd p)) pieces) \<and>
    tw_perPodIntervals traffic \<noteq> [] \<and> (\<forall>i \<in> set (tw_perPodIntervals traffic). \<exists>p \<in> set pieces. partOf i (fst p)) \<and>
    (\<forall>p \<in> set pieces. validCPU (readInterval (retainedRead batch namespace) (fst p)) = Some (snd p) \<and>
      (0 < ns (pc_start (fst p)) \<longrightarrow> pieceMeasured batch namespace (fst p)))"
proof -
  let ?read = "retainedRead batch namespace" and ?native = "tw_perPodNativeIntervals traffic" and ?groups = "tw_perPodIntervals traffic"
  let ?open = "\<lparr>as_pods = [], as_rejections = [], as_window = openAccount identity slot traffic, as_first = True\<rparr>"
  obtain s n where fold: "foldl (groupStep ?read ?native) (?open, 0) ?groups = (s, n)" by (metis prod.exhaust)
  have ev: "da_window evidence = closeAccount traffic n (as_window s)"
    using assms(1,2) fold by (simp add: collectDemandNativeAccounting_def Let_def)
  define pieces where "pieces = concat (map (piecesOf ?read ?native) ?groups)"
  have w: "as_window s = fst (foldl chargePiece (openAccount identity slot traffic, True) pieces)"
    and n: "n = length (filter (\<lambda>i. piecesOf ?read ?native i \<noteq> []) ?groups)"
    using groups_window [OF fold] by (auto simp: pieces_def dest: arg_cong [where f = fst])
  have all: "?groups \<noteq> []" "n = length ?groups" and same: "da_window evidence = as_window s"
    using closeAccount_qualified [of traffic n "as_window s"] assms(3) unfolding ev by blast+
  have nonempty: "\<forall>i \<in> set ?groups. piecesOf ?read ?native i \<noteq> []"
  proof (rule ccontr)
    assume "\<not> ?thesis"
    then obtain i where "i \<in> set ?groups" "\<not> piecesOf ?read ?native i \<noteq> []" by blast
    then have "n < length ?groups" unfolding n by (rule length_filter_less)
    then show False using all(2) by simp
  qed
  have "\<exists>p \<in> set pieces. partOf i (fst p)" if i: "i \<in> set ?groups" for i
  proof -
    obtain p where p: "p \<in> set (piecesOf ?read ?native i)" using nonempty i last_in_set by blast
    then have "partOf i (fst p)" using piecesOf_set [of "fst p" "snd p" ?read ?native i] by simp
    then show ?thesis using p i by (auto simp: pieces_def)
  qed
  moreover have read: "validCPU (readInterval ?read (fst p)) = Some (snd p)" if "p \<in> set pieces" for p
    using that piecesOf_set [of "fst p" "snd p" ?read ?native] by (auto simp: pieces_def)
  moreover note totals = chargePieces_totals [of "openAccount identity slot traffic" True pieces, folded w, folded same]
  moreover note retainedRead_measured [OF read]
  moreover have charged: "map fst pieces = chargedIntervals ?read traffic" unfolding pieces_def by (rule pieces_charged)
  moreover have "map (\<lambda>p. pc_completedRequests (fst p)) pieces = map pc_completedRequests (chargedIntervals ?read traffic)"
    unfolding charged [symmetric] by simp
  ultimately show ?thesis using all(1)
    by (intro exI [of _ pieces]) (simp add: openAccount_def)
qed

definition samplePiece :: PodCounterInterval where
  "samplePiece = \<lparr>pc_pod = ''web-1'', pc_uid = ''u1'', pc_start = atSecond 1000, pc_end = atSecond 1005, pc_completedRequests = Fin 20\<rparr>"

definition sampleTraffic :: TrafficWindow where
  "sampleTraffic = (emptyWindow (atSecond 990) (atSecond 1020))\<lparr>tw_perPodIntervals := [samplePiece], tw_coverage := Fin 1, tw_qualified := True\<rparr>"

definition sampleBatch :: WorkloadObservation where
  "sampleBatch = ig_result (startIntegration [sampleSnapshot] (atSecond 990) (atSecond 1020) (atSecond 1006))"

theorem qualified_accounting_is_measured_witness:
  "w_qualified (da_window (collectDemandNativeAccounting (\<lambda>_ _ _ _. Inr None) ''shop'' ''id'' (atSecond 1020) sampleTraffic (Some sampleBatch))) \<and>
   (\<exists>p. partOf samplePiece p \<and> pieceMeasured sampleBatch ''shop'' p)"
proof -
  let ?evidence = "collectDemandNativeAccounting (\<lambda>_ _ _ _. Inr None) ''shop'' ''id'' (atSecond 1020) sampleTraffic (Some sampleBatch)"
  have batch: "wo_nativeSnapshots sampleBatch = [sampleSnapshot]" "wo_receivedAt sampleBatch = atSecond 1006"
    by (simp_all add: sampleBatch_def startIntegration_def)
  have view: "batchView ''shop'' ''web-1'' ''u1'' sampleSnapshot = sampleSnapshot" "sn_pods sampleSnapshot \<noteq> []"
    by (simp_all add: batchView_def sampleSnapshot_def samplePod_def)
  obtain r where r: "Integrate [sampleSnapshot] ''shop'' (\<lambda>_. True) (atSecond 1000) (atSecond 1005) (atSecond 1006) = Inr r"
    "wo_complete r" "wo_coverage r = Fin 1"
    using sample_integrates by blast
  have p95: "f_le p95 (Fin 1)" using round64_mono [of "95 / 100" 1] f_of_int_exact [of 1] by (simp add: p95_def f_of_int_def)
  have read: "readInterval (retainedRead sampleBatch ''shop'') samplePiece = Inr (Some r)"
    unfolding readInterval_def retainedRead_def batch
    by (simp add: samplePiece_def view r(1) [simplified] Let_def)
  then have valid: "validCPU (readInterval (retainedRead sampleBatch ''shop'') samplePiece) = Some r"
    using r(2,3) p95 by (simp add: validCPU_def)
  have q: "w_qualified (da_window ?evidence)"
    by (simp add: collectDemandNativeAccounting_def batch sampleTraffic_def groupStep_def valid appendCPU_def chargePiece_def
        closeAccount_def openAccount_def Let_def)
  obtain pieces where p: "\<forall>i \<in> set (tw_perPodIntervals sampleTraffic). \<exists>p \<in> set pieces. partOf i (fst p)"
    "\<forall>p \<in> set pieces. validCPU (readInterval (retainedRead sampleBatch ''shop'') (fst p)) = Some (snd p) \<and>
      (0 < ns (pc_start (fst p)) \<longrightarrow> pieceMeasured sampleBatch ''shop'' (fst p))"
    using qualified_accounting_is_measured [OF refl _ q] batch by auto
  then obtain p where "p \<in> set pieces" "partOf samplePiece (fst p)" by (auto simp: sampleTraffic_def)
  moreover from this have "0 < ns (pc_start (fst p))" by (simp add: partOf_def samplePiece_def)
  ultimately show ?thesis using q p(2) by blast
qed

end
