(* ===== verification/Reconstruction.thy ===== *)
theory Reconstruction
  imports Trajectory DemandAccounting
begin

text \<open>
  \<open>src/internal/controllers/request_demand_reconstructed.go\<close>: scaling on reconstructed CPU demand. The CPU a
  window needed is its measured CPU times its backlog ratio (arrivals per completion). The forecast of that
  demand decides, but never below what the newest closed window needs. The lead from observed start-ups
  (\<open>startup_lead.go\<close>) is here too.

  What is proved: a recommendation has the capacity for the demand measured last, keeps current capacity
  while demand is unmeasured or rising, and moving a forecast rise earlier lowers the forecast nowhere.

  Collected CPU windows, readings of the clock and the published state are arguments.
\<close>

section \<open>Data\<close>

record reconstructedWindow =
  rw_end :: gotime
  rw_measured :: float64
  rw_reconstructed :: float64
  rw_hasRatio :: bool
  rw_previous :: "float64 option"
  rw_fast :: "float64 option"

record reconstructedDecision =
  rd_replicas :: int32
  rd_forecastOnly :: int32
  rd_floor :: int32
  rd_decidedBy :: string
  rd_deadline :: gotime

abbreviation (input) reconstructedFloorValidity :: duration where "reconstructedFloorValidity \<equiv> 60 * second"
abbreviation (input) reconstructedWindowMatch :: duration where "reconstructedWindowMatch \<equiv> 15 * second"
abbreviation (input) reconstructedRisingLookback :: duration where "reconstructedRisingLookback \<equiv> 2 * minute"
abbreviation (input) reconstructedWindowSpacing :: duration where "reconstructedWindowSpacing \<equiv> 25 * second"

section \<open>Reconstructed demand\<close>

definition latestWindowClosed :: "gotime \<Rightarrow> gotime \<Rightarrow> duration \<Rightarrow> bool" where
  "latestWindowClosed end_time now period \<longleftrightarrow>
     period \<le> 0 \<or> \<not> before end_time (t_add (t_truncate now period) (go_div (- period) 3))"

definition observedFeature :: "requestObservation \<Rightarrow> string \<Rightarrow> float64 option" where
  "observedFeature row name =
     (case Option.bind (ro_features row name) rf_value of
        None \<Rightarrow> None
      | Some v \<Rightarrow> if f_is_nan v \<or> f_is_inf v \<or> f_lt v (Fin 0) then None else Some v)"

definition backlogRatio :: "requestObservation \<Rightarrow> float64 option" where
  "backlogRatio row =
     (case (observedFeature row ''traffic_arrivals'', observedFeature row ''traffic_completions'') of
        (Some arrivals, Some completions) \<Rightarrow>
          if f_lt (Fin 0) completions then Some (f_div arrivals completions) else observedFeature row ''traffic_backlog_ratio''
      | _ \<Rightarrow> observedFeature row ''traffic_backlog_ratio'')"

definition ratioStep :: "gotime \<Rightarrow> duration \<times> float64 option \<Rightarrow> requestObservation \<Rightarrow> duration \<times> float64 option" where
  "ratioStep end_time = (\<lambda>(best, ratio) row.
     let d = t_sub (ro_until row) end_time; gap = (if d < 0 then wrap64 (- d) else d) in
     if gap > reconstructedWindowMatch \<or> gap \<ge> best then (best, ratio)
     else case backlogRatio row of None \<Rightarrow> (best, ratio) | Some v \<Rightarrow> (gap, Some v))"

definition windowRatio :: "requestObservation list \<Rightarrow> gotime \<Rightarrow> float64 option" where
  "windowRatio rows end_time = snd (foldl (ratioStep end_time) (reconstructedWindowMatch + 1, None) rows)"

text \<open>A sample of the filtered history has a time where it is used and a CPU total; both default otherwise.\<close>

definition sampleTime :: "TimestampedSample \<Rightarrow> gotime" where
  "sampleTime s = opt_default zero_time (ts_time s)"

definition sampleCPU :: "TimestampedSample \<Rightarrow> int64" where
  "sampleCPU s = opt_default 0 (ts_totalCPUUsageMillicores s)"

definition cores :: "int64 \<Rightarrow> float64" where
  "cores millicores = f_div (f_of_int millicores) (f_of_int 1000)"

definition reconstructSample :: "TimestampedSample \<Rightarrow> requestObservation list \<Rightarrow> TimestampedSample \<times> bool" where
  "reconstructSample s rows =
     (case windowRatio rows (sampleTime s) of
        None \<Rightarrow> (s, False)
      | Some ratio \<Rightarrow>
        (s\<lparr>ts_totalCPUUsageMillicores := Some (f_to_int64 (f_round (f_mul (f_of_int (sampleCPU s)) ratio))),
           ts_metric := map_option (\<lambda>m. f_mul m ratio) (ts_metric s)\<rparr>, True))"

definition reconstructedHistory :: "TimestampedSample list \<Rightarrow> requestObservation list \<Rightarrow> int64 \<Rightarrow> TimestampedSample list \<times> int64" where
  "reconstructedHistory samples rows size_limit =
     (let cpu0 = FilterCPUHistory samples;
          cpu = (if size_limit > 0 \<and> int (length cpu0) > size_limit then last_n (nat size_limit) cpu0 else cpu0);
          rebuilt = map (\<lambda>s. reconstructSample s rows) (filter (\<lambda>s. ts_time s \<noteq> None) cpu)
      in (map fst rebuilt, int (length (filter (\<lambda>r. \<not> snd r) rebuilt))))"

fun previousLoop :: "requestObservation list \<Rightarrow> gotime \<Rightarrow> TimestampedSample list \<Rightarrow> float64 option" where
  "previousLoop rows end_time [] = None"
| "previousLoop rows end_time (s # older) =
     (case ts_time s of
        None \<Rightarrow> previousLoop rows end_time older
      | Some t \<Rightarrow>
        if after t (t_add end_time (- reconstructedWindowSpacing)) then previousLoop rows end_time older
        else if before t (t_add end_time (- reconstructedRisingLookback)) then None
        else Some (cores (sampleCPU (fst (reconstructSample s rows)))))"

definition previousReconstructed :: "TimestampedSample list \<Rightarrow> requestObservation list \<Rightarrow> gotime \<Rightarrow> float64 option" where
  "previousReconstructed cpu rows end_time = previousLoop rows end_time (rev cpu)"

definition currentReconstructedWindow :: "TimestampedSample list \<Rightarrow> requestObservation list \<Rightarrow> gotime \<Rightarrow> reconstructedWindow option" where
  "currentReconstructedWindow samples rows now =
     (let cpu = FilterCPUHistory samples in
      if cpu = [] then None
      else case ts_time (last cpu) of
        None \<Rightarrow> None
      | Some t \<Rightarrow>
        if before now t \<or> \<not> before now (t_add t reconstructedFloorValidity) then None
        else
          let (rebuilt, ok) = reconstructSample (last cpu) rows
          in Some \<lparr>rw_end = t, rw_measured = cores (sampleCPU (last cpu)), rw_reconstructed = cores (sampleCPU rebuilt),
               rw_hasRatio = ok, rw_previous = previousReconstructed (butlast cpu) rows t, rw_fast = None\<rparr>)"

definition reconstructedFloorWindow :: "duration \<Rightarrow> duration" where
  "reconstructedFloorWindow period =
     (let window = go_div period 2; window1 = (if window < 2 * second then 2 * second else window)
      in if window1 > minute then minute else window1)"

definition reconstructedFastWindow :: "duration \<Rightarrow> duration" where
  "reconstructedFastWindow period =
     (let window = go_div (reconstructedFloorWindow period) 3 in if window < 2 * second then 2 * second else window)"

definition latestStep :: "gotime \<Rightarrow> duration \<Rightarrow> gotime \<times> float64 option \<Rightarrow> requestObservation \<Rightarrow> gotime \<times> float64 option" where
  "latestStep end_time period = (\<lambda>(best, ratio) row.
     if after (ro_until row) (t_add end_time second) \<or>
       before (ro_until row) (t_add end_time (wrap64 (wrap64 (- period) - reconstructedWindowMatch))) \<or> \<not> after (ro_until row) best
     then (best, ratio)
     else case backlogRatio row of None \<Rightarrow> (best, ratio) | Some v \<Rightarrow> (ro_until row, Some v))"

definition latestRatio :: "requestObservation list \<Rightarrow> gotime \<Rightarrow> duration \<Rightarrow> float64 option" where
  "latestRatio rows end_time period = snd (foldl (latestStep end_time period) (zero_time, None) rows)"

text \<open>
  \<open>floorRead\<close> and \<open>fastRead\<close> are complete CPU readings, millicores and source time, over the two windows;
  \<open>None\<close> where the collectors could not measure every pod.
\<close>

definition recentReconstructedWindow :: "(int64 \<times> gotime) option \<Rightarrow> (int64 \<times> gotime) option \<Rightarrow> duration \<Rightarrow>
    requestObservation list \<Rightarrow> TimestampedSample list \<Rightarrow> reconstructedWindow option" where
  "recentReconstructedWindow floorRead fastRead period rows samples =
     (case floorRead of None \<Rightarrow> None
      | Some (usage, source) \<Rightarrow>
        let measured = cores usage; ratio = latestRatio rows source period;
            scaled = (\<lambda>v. case ratio of None \<Rightarrow> v | Some x \<Rightarrow> f_mul v x)
        in Some \<lparr>rw_end = source, rw_measured = measured, rw_reconstructed = scaled measured, rw_hasRatio = (ratio \<noteq> None),
             rw_previous = previousReconstructed (FilterCPUHistory samples) rows source,
             rw_fast = map_option (\<lambda>(fast, _). scaled (cores fast)) fastRead\<rparr>)"

definition quarter :: float64 where "quarter = Fin (1 / 4)"

definition demandRising :: "float64 \<Rightarrow> float64 \<Rightarrow> Capacity \<Rightarrow> float64 \<Rightarrow> bool" where
  "demandRising newer older capacity tolerance =
     (let perPod = f_div (f_div (f_mul (f_of_int (cap_requestPerPod capacity)) (f_of_int (cap_targetPercentage capacity)))
            (f_of_int 100)) (f_of_int 1000) in
      if f_le perPod (Fin 0) then False
      else let before_need = f_div older perPod; need = f_div newer perPod
        in f_le quarter (f_sub need before_need) \<and> f_lt (f_mul before_need (f_add (Fin 1) tolerance)) need)"

section \<open>Forecasts in cores\<close>

fun reconstructedPoints :: "CPUForecastPoint list \<Rightarrow> Point list result" where
  "reconstructedPoints [] = Inr []"
| "reconstructedPoints (p # ps) =
     (case (parse_time (fp_at p), parse_time (fp_until p)) of
        (Some t, Some u) \<Rightarrow>
          rbind (reconstructedPoints ps) (\<lambda>qs. Inr (\<lparr>p_at = t, p_until = u, p_value = cores (fp_cpu p)\<rparr> # qs))
      | _ \<Rightarrow> Inl ''invalid reconstructed trajectory time'')"

definition cpuForecastPoint :: "Point \<Rightarrow> CPUForecastPoint" where
  "cpuForecastPoint p = \<lparr>fp_at = format_time (t_utc (p_at p)), fp_until = format_time (t_utc (p_until p)),
     fp_cpu = f_to_int64 (f_round (f_mul (p_value p) (f_of_int 1000)))\<rparr>"

definition cpuForecastPoints :: "Point list \<Rightarrow> CPUForecastPoint list" where
  "cpuForecastPoints points = map cpuForecastPoint points"

text \<open>The pieces a window is split into, given the windows before and after it.\<close>

definition stepShare :: "Capacity \<Rightarrow> float64 \<Rightarrow> int64 \<Rightarrow> int64 \<Rightarrow> int64 \<Rightarrow> float64" where
  "stepShare capacity tolerance previous own following =
     (let before_step = cores previous; v = cores own; after_step = cores following in
      if f_lt before_step after_step \<and> demandRising after_step v capacity tolerance
      then f_min (Fin 1) (f_max (Fin 0) (f_div (f_sub v before_step) (f_sub after_step before_step)))
      else Fin 0)"

definition splitWindow :: "Capacity \<Rightarrow> float64 \<Rightarrow> CPUForecastPoint \<Rightarrow> CPUForecastPoint \<Rightarrow> CPUForecastPoint \<Rightarrow> CPUForecastPoint list" where
  "splitWindow capacity tolerance previous p following =
     (let share = stepShare capacity tolerance (fp_cpu previous) (fp_cpu p) (fp_cpu following) in
      case (parse_time (fp_at p), parse_time (fp_until p)) of
        (Some t, Some u) \<Rightarrow>
          if f_eq share (Fin 0) then [p]
          else
            let rise = format_time (t_utc (t_add u (wrap64 (- f_to_int64 (f_mul share (f_of_int (t_sub u t)))))))
            in (if rise \<noteq> fp_at p then [\<lparr>fp_at = fp_at p, fp_until = rise, fp_cpu = fp_cpu p\<rparr>] else []) @
               [\<lparr>fp_at = rise, fp_until = fp_until p, fp_cpu = fp_cpu following\<rparr>]
      | _ \<Rightarrow> [p])"

fun splitInner :: "Capacity \<Rightarrow> float64 \<Rightarrow> CPUForecastPoint list \<Rightarrow> CPUForecastPoint list" where
  "splitInner capacity tolerance (a # b # c # ps) = splitWindow capacity tolerance a b c @ splitInner capacity tolerance (b # c # ps)"
| "splitInner capacity tolerance [a, b] = [b]"
| "splitInner capacity tolerance ps = []"

definition splitRisingWindows :: "CPUForecastPoint list \<Rightarrow> Capacity \<Rightarrow> float64 \<Rightarrow> CPUForecastPoint list" where
  "splitRisingWindows points capacity tolerance =
     (let out = (case points of [] \<Rightarrow> [] | p # _ \<Rightarrow> p # splitInner capacity tolerance points)
      in if length out > MaxTrajectoryPoints + 1 then points else out)"

definition demandStep :: "duration \<Rightarrow> gotime \<Rightarrow> float64 \<times> bool \<Rightarrow> CPUForecastPoint \<Rightarrow> float64 \<times> bool" where
  "demandStep lead now = (\<lambda>(demand, covered) p.
     case (parse_time (fp_at p), parse_time (fp_until p)) of
       (Some t, Some u) \<Rightarrow>
         let inProgress = (\<not> before now t \<and> before now u);
             soon = (after t now \<and> \<not> after t (t_add now lead))
         in (if (inProgress \<or> soon) \<and> f_lt demand (cores (fp_cpu p)) then cores (fp_cpu p) else demand, covered \<or> inProgress)
     | _ \<Rightarrow> (demand, covered))"

definition windowDemand :: "CPUForecastPoint list \<Rightarrow> duration \<Rightarrow> gotime \<Rightarrow> float64 \<times> bool" where
  "windowDemand points lead now = foldl (demandStep lead now) (Fin 0, False) points"

section \<open>Decisions\<close>

definition holdUntil :: "gotime \<Rightarrow> CPUForecastPoint list \<Rightarrow> gotime" where
  "holdUntil available windows = foldl (\<lambda>until p. case (parse_time (fp_at p), parse_time (fp_until p)) of
       (Some t, Some u) \<Rightarrow> if \<not> before available t \<and> before available u then u else until
     | _ \<Rightarrow> until) zero_time windows"

definition demandThen :: "TimestampedSample list \<Rightarrow> gotime \<Rightarrow> float64 option" where
  "demandThen history consumed = foldl (\<lambda>found s. case (ts_time s, ts_totalCPUUsageMillicores s) of
       (Some t, Some cpu) \<Rightarrow> if \<not> after t consumed then Some (cores cpu) else found
     | _ \<Rightarrow> found) None history"

definition postponedRiseHold :: "demandForecastEvent list \<Rightarrow> TimestampedSample list \<Rightarrow> reconstructedWindow option \<Rightarrow>
    PredictivePolicy \<Rightarrow> Capacity \<Rightarrow> int32 \<Rightarrow> gotime \<Rightarrow> (int32 \<times> gotime) option" where
  "postponedRiseHold events history latest policy capacity current now =
     (case (rev events, latest) of
        (newest # previous # _, Some window) \<Rightarrow>
          if current \<le> 0 then None
          else if is_zero (ev_availableAt newest) \<or> is_zero (ev_consumedAt previous) \<or>
            \<not> before (ev_availableAt previous) (ev_availableAt newest) \<or> before now (ev_availableAt newest)
          then None
          else
            let tolerance = EffectiveTolerance policy;
                windows = splitRisingWindows (ForecastWindows (cpuForecastPoints (ev_forecasts previous))) capacity tolerance;
                until = holdUntil (ev_availableAt newest) windows in
            if is_zero until \<or> \<not> before now until then None
            else
              let (expected, covered) = windowDemand windows (wrap64 (pp_scaleUpLeadSeconds policy * second)) now in
              case demandThen history (ev_consumedAt previous) of
                None \<Rightarrow> None
              | Some earlier_demand \<Rightarrow>
                if \<not> covered \<or> \<not> demandRising expected earlier_demand capacity tolerance \<or>
                  \<not> demandRising expected (rw_reconstructed window) capacity tolerance
                then None
                else case timedConversion (f_to_int64 (f_round (f_mul expected (f_of_int 1000)))) capacity of
                  Inl _ \<Rightarrow> None
                | Inr result \<Rightarrow> Some (if pr_replicas result > current then current else pr_replicas result, until)
      | _ \<Rightarrow> None)"

definition measuredNow :: "reconstructedWindow \<Rightarrow> gotime \<Rightarrow> duration \<Rightarrow> bool" where
  "measuredNow w now period \<longleftrightarrow> \<not> before now (rw_end w) \<and> before now (t_add (rw_end w) reconstructedFloorValidity) \<and>
     latestWindowClosed (rw_end w) now period"

definition demandWindow :: "reconstructedWindow \<Rightarrow> float64 \<Rightarrow> CPUForecastPoint list" where
  "demandWindow w v = cpuForecastPoints [\<lparr>p_at = rw_end w, p_until = t_add (rw_end w) reconstructedFloorValidity, p_value = v\<rparr>]"

definition applyFloor :: "reconstructedWindow \<Rightarrow> PredictivePolicy \<Rightarrow> Capacity \<Rightarrow> int32 \<Rightarrow> int32 \<times> gotime \<Rightarrow> reconstructedDecision \<Rightarrow>
    reconstructedDecision" where
  "applyFloor w policy capacity current = (\<lambda>(floorCount, floorDeadline) d.
     let d1 = d\<lparr>rd_floor := floorCount,
           rd_deadline := (if \<not> is_zero floorDeadline \<and> (is_zero (rd_deadline d) \<or> before floorDeadline (rd_deadline d))
             then floorDeadline else rd_deadline d)\<rparr>;
         d2 = (if floorCount > rd_forecastOnly d then d1\<lparr>rd_replicas := floorCount, rd_decidedBy := ''floor''\<rparr> else d1)
     in if present (\<lambda>p. demandRising (rw_reconstructed w) p capacity (EffectiveTolerance policy)) (rw_previous w) \<and>
          current > rd_replicas d2
        then d2\<lparr>rd_replicas := current, rd_decidedBy := ''rising''\<rparr> else d2)"

definition applyFast :: "reconstructedWindow \<Rightarrow> PredictivePolicy \<Rightarrow> Capacity \<Rightarrow> int32 \<Rightarrow> gotime \<Rightarrow> reconstructedDecision \<Rightarrow>
    reconstructedDecision result" where
  "applyFast w policy capacity current now d =
     (case rw_fast w of None \<Rightarrow> Inr d
      | Some fast \<Rightarrow> rbind (TimedWindowReplicas (demandWindow w fast) policy capacity current now) (\<lambda>(replicas, _).
          if replicas > current \<and> replicas > rd_replicas d
          then Inr (d\<lparr>rd_replicas := replicas, rd_decidedBy := ''fast''\<rparr>) else Inr d))"

definition reconstructedReplicas :: "Point list \<Rightarrow> reconstructedWindow option \<Rightarrow> PredictivePolicy \<Rightarrow> Capacity \<Rightarrow> int32 \<Rightarrow>
    gotime \<Rightarrow> duration \<Rightarrow> reconstructedDecision result" where
  "reconstructedReplicas points latest policy capacity current now period =
     (let windows = splitRisingWindows (ForecastWindows (cpuForecastPoints points)) capacity (EffectiveTolerance policy) in
      rbind (TimedWindowReplicas windows policy capacity current now) (\<lambda>(forecast, deadline).
        let d = \<lparr>rd_replicas = forecast, rd_forecastOnly = forecast, rd_floor = 0, rd_decidedBy = ''forecast'', rd_deadline = deadline\<rparr>;
            hold = d\<lparr>rd_floor := current,
              rd_replicas := (if current > forecast then current else forecast),
              rd_decidedBy := (if current > forecast then ''hold'' else ''forecast'')\<rparr> in
        case latest of None \<Rightarrow> Inr hold
        | Some w \<Rightarrow>
          if \<not> measuredNow w now period then Inr hold
          else rbind (TimedWindowReplicas (demandWindow w (rw_reconstructed w)) policy capacity current now) (\<lambda>floorDecision.
            applyFast w policy capacity current now (applyFloor w policy capacity current floorDecision d))))"

section \<open>Start-up lead\<close>

text \<open>
  A pod as far as the controller reads it: the transition times of its true ready conditions, and for each
  container its name, its image and its CPU request in millicores.
\<close>

record workloadPod =
  sp_name :: string
  sp_uid :: string
  sp_deleted :: bool
  sp_createdAt :: gotime
  sp_readySince :: "gotime list"
  sp_phase :: string
  sp_containers :: "(string \<times> string \<times> int64) list"

definition startupStep :: "gotime \<Rightarrow> duration option \<Rightarrow> gotime \<Rightarrow> duration option" where
  "startupStep created longest ready =
     (let startup = t_sub ready created in
      if startup < 0 \<or> startup > 10 * minute then longest
      else case longest of None \<Rightarrow> Some startup | Some l \<Rightarrow> if startup > l then Some startup else longest)"

definition observedStartup :: "workloadPod list \<Rightarrow> duration option" where
  "observedStartup pods = foldl (\<lambda>longest p. if sp_deleted p then longest
     else foldl (startupStep (sp_createdAt p)) longest (sp_readySince p)) None pods"

definition effectivePolicy :: "PredictivePolicy \<Rightarrow> workloadPod list \<Rightarrow> PredictivePolicy" where
  "effectivePolicy policy pods =
     (if \<not> pp_scaleUpLeadFromStartup policy then policy
      else case observedStartup pods of None \<Rightarrow> policy
        | Some startup \<Rightarrow> policy\<lparr>pp_scaleUpLeadSeconds := f_to_int32 (f_ceil (d_seconds (startup + 5 * second)))\<rparr>)"

definition scopedPolicy :: "Model \<Rightarrow> workloadPod list \<Rightarrow> Model" where
  "scopedPolicy model pods = model\<lparr>m_predictivePolicy := map_option (\<lambda>p. effectivePolicy p pods) (m_predictivePolicy model)\<rparr>"

section \<open>Recommendations\<close>

definition applyHold :: "(int32 \<times> gotime) option \<Rightarrow> reconstructedDecision \<Rightarrow> reconstructedDecision" where
  "applyHold hold d =
     (case hold of None \<Rightarrow> d
      | Some (held, until) \<Rightarrow>
        if held > rd_replicas d
        then d\<lparr>rd_replicas := held, rd_decidedBy := ''postponed'',
               rd_deadline := (if is_zero (rd_deadline d) \<or> before until (rd_deadline d) then until else rd_deadline d)\<rparr>
        else d)"

text \<open>
  \<open>clock\<close> gives the reading of the clock at each step, named by the step. A failure is \<open>Inl\<close> with the reason that
  the status reports.
\<close>

definition setDiagnostic :: "(RequestDemandStatus \<Rightarrow> RequestDemandStatus) \<Rightarrow> ModelStatus \<Rightarrow> ModelStatus" where
  "setDiagnostic f status = status\<lparr>mst_requestDemand := map_option f (mst_requestDemand status)\<rparr>"

definition failDemand :: "string \<Rightarrow> ModelStatus \<Rightarrow> ModelStatus \<times> (int32 \<times> gotime) result" where
  "failDemand reason status = (setDiagnostic (\<lambda>d. d\<lparr>rs_fallbackReason := reason\<rparr>) status, Inl reason)"

definition reportWindow :: "int64 \<Rightarrow> reconstructedWindow option \<Rightarrow> ModelStatus \<Rightarrow> ModelStatus" where
  "reportWindow fallbacks latest = setDiagnostic (\<lambda>d. d\<lparr>rs_reconstructionFallbacks := fallbacks,
     rs_measuredCores := (case latest of None \<Rightarrow> rs_measuredCores d | Some w \<Rightarrow> rw_measured w),
     rs_reconstructedCores := (case latest of None \<Rightarrow> rs_reconstructedCores d | Some w \<Rightarrow> rw_reconstructed w)\<rparr>)"

definition reportDecision :: "reconstructedDecision \<Rightarrow> gotime \<Rightarrow> gotime \<Rightarrow> gotime \<Rightarrow> int64 \<Rightarrow> ModelStatus \<Rightarrow> ModelStatus" where
  "reportDecision d ageDeadline deadline consumed trained status =
     (setDiagnostic (\<lambda>r. r\<lparr>rs_state := ''qualified'', rs_freshUntil := Some ageDeadline, rs_source := ''request-demand'',
        rs_fallbackReason := [], rs_forecastOnlyReplicas := rd_forecastOnly d, rs_floorReplicas := rd_floor d,
        rs_decidedBy := rd_decidedBy d\<rparr>) status)
     \<lparr>mst_state := ''Ready'', mst_historySamples := trained, mst_forecastReplicas := Some (rd_replicas d),
      mst_consumedUntil := Some consumed, mst_expiresAt := Some deadline\<rparr>"

definition reconstructedRecommendation :: "(string \<Rightarrow> gotime) \<Rightarrow> Model \<Rightarrow> int32 \<Rightarrow> int64 option \<Rightarrow> int32 option \<Rightarrow> demandState \<Rightarrow>
    TimestampedSample list \<Rightarrow> TimestampedSample list \<Rightarrow> int64 \<Rightarrow> int64 \<Rightarrow> duration \<Rightarrow> reconstructedWindow option \<Rightarrow> ModelStatus \<Rightarrow>
    ModelStatus \<times> (int32 \<times> gotime) result" where
  "reconstructedRecommendation clock model current request target state samples history fallbacks required period recent status0 =
     (let latest = (case recent of Some w \<Rightarrow> Some w
            | None \<Rightarrow> currentReconstructedWindow samples (ds_observations state) (clock ''latest''));
          status = reportWindow fallbacks latest status0 in
      case (request, target) of
        (Some requestPerPod, Some targetPercentage) \<Rightarrow>
          if int (length history) < required then failDemand ''reconstructed demand history warming up'' status
          else (case (m_predictionMaxAge model, m_predictivePolicy model) of
            (Some maxAge, Some policy) \<Rightarrow>
              let ageDeadline = t_add (ds_forecastConsumedAt state) (wrap64 (maxAge * millisecond)) in
              if is_zero (ds_forecastConsumedAt state) \<or> \<not> before (clock ''age'') ageDeadline
              then failDemand ''reconstructed forecast missing or expired'' status
              else
                let capacity = \<lparr>cap_kind = CPUKind, cap_policy = ''cpu-request-utilization'', cap_requestPerPod = requestPerPod,
                      cap_targetPercentage = targetPercentage\<rparr> in
                (case reconstructedReplicas (ds_forecasts state) latest policy capacity current (clock ''decide'') period of
                   Inl _ \<Rightarrow> failDemand ''reconstructed forecast interval unavailable'' status
                 | Inr decision \<Rightarrow>
                   let d = applyHold (postponedRiseHold (ds_forecastEvents state) history latest policy capacity current (clock ''hold'')) decision;
                       deadline = (if is_zero (rd_deadline d) \<or> before ageDeadline (rd_deadline d) then ageDeadline else rd_deadline d)
                   in (reportDecision d ageDeadline deadline (ds_forecastConsumedAt state) (int (length history)) status,
                       Inr (rd_replicas d, deadline)))
          | _ \<Rightarrow> failDemand ''reconstructed forecast missing or expired'' status)
      | _ \<Rightarrow> failDemand ''CPU capacity configuration unavailable'' status)"

section \<open>Comparing demands\<close>







text \<open>What a window may be replaced by: consecutive windows over the same time, none with less demand.\<close>

definition refinesWindow :: "CPUForecastPoint \<Rightarrow> CPUForecastPoint list \<Rightarrow> bool" where
  "refinesWindow p piece \<longleftrightarrow> piece \<noteq> [] \<and> fp_at (hd piece) = fp_at p \<and> fp_until (last piece) = fp_until p \<and>
     successively (\<lambda>a b. fp_until a = fp_at b) piece \<and> (\<forall>q \<in> set piece. fp_cpu p \<le> fp_cpu q)"

lemma refinesWindow_self [simp]: "refinesWindow p [p]"
  by (simp add: refinesWindow_def)





section \<open>Covered demand\<close>

text \<open>The demand of a window as the capacity conversion sees it, and what a decision owes a measured window.\<close>

definition windowMillicores :: "reconstructedWindow \<Rightarrow> int64" where
  "windowMillicores w = f_to_int64 (f_round (f_mul (rw_reconstructed w) (f_of_int 1000)))"

definition coversWindow :: "PredictivePolicy \<Rightarrow> Capacity \<Rightarrow> int32 \<Rightarrow> reconstructedWindow \<Rightarrow> reconstructedDecision \<Rightarrow> bool" where
  "coversWindow policy capacity current w d \<longleftrightarrow>
     (windowMillicores w * 100 \<le> rd_replicas d * (cap_requestPerPod capacity * cap_targetPercentage capacity) \<or>
      current \<le> rd_replicas d \<and> withinTolerance (windowMillicores w) capacity current (EffectiveTolerance policy)) \<and>
     (present (\<lambda>p. demandRising (rw_reconstructed w) p capacity (EffectiveTolerance policy)) (rw_previous w) \<longrightarrow>
       current \<le> rd_replicas d)"

definition windowFormattable :: "reconstructedWindow \<Rightarrow> bool" where
  "windowFormattable w \<longleftrightarrow> formattable (t_utc (rw_end w)) \<and> formattable (t_utc (t_add (rw_end w) reconstructedFloorValidity))"

lemma demandWindow_times:
  assumes "windowFormattable w" "\<not> before now (rw_end w)" "before now (t_add (rw_end w) reconstructedFloorValidity)"
  obtains p where "demandWindow w v = [p]" "relevant now lead p" "fp_cpu p = f_to_int64 (f_round (f_mul v (f_of_int 1000)))"
  using assms
  by (simp add: demandWindow_def cpuForecastPoints_def cpuForecastPoint_def windowFormattable_def relevant_def inWindow_def
      point_at_def point_until_def parse_or_zero_def parse_format_time t_utc_def before_def)

lemma floor_covers:
  assumes "TimedWindowReplicas (demandWindow w (rw_reconstructed w)) policy capacity current now = Inr (r, b)"
    and "windowFormattable w" "measuredNow w now period" "r \<le> n"
  shows "windowMillicores w * 100 \<le> n * (cap_requestPerPod capacity * cap_targetPercentage capacity) \<or>
    current \<le> n \<and> withinTolerance (windowMillicores w) capacity current (EffectiveTolerance policy)"
proof -
  have now: "\<not> before now (rw_end w)" "before now (t_add (rw_end w) reconstructedFloorValidity)"
    using assms(3) unfolding measuredNow_def by blast+
  obtain p where p: "demandWindow w (rw_reconstructed w) = [p]" "relevant now (leadOf policy) p" "fp_cpu p = windowMillicores w"
    unfolding windowMillicores_def by (rule demandWindow_times [OF assms(2) now])
  note covers = TimedWindowReplicas_covers [OF assms(1) _ p(2), unfolded p(1,3), simplified]
  have "r * (cap_requestPerPod capacity * cap_targetPercentage capacity) \<le> n * (cap_requestPerPod capacity * cap_targetPercentage capacity)"
    using covers(1) assms(4) by (simp add: mult_right_mono)
  then show ?thesis using covers(2) assms(4) by auto
qed

text \<open>The steps after the forecast only add capacity.\<close>

lemma applyFast_raises: "applyFast w policy capacity current now d = Inr d' \<Longrightarrow> rd_replicas d \<le> rd_replicas d' \<and> rd_forecastOnly d' = rd_forecastOnly d \<and> rd_floor d' = rd_floor d"
  by (auto simp: applyFast_def rbind_def split: option.splits sum.splits if_splits)

lemma applyFloor_raises:
  fixes d w policy capacity current r b
  defines "d' \<equiv> applyFloor w policy capacity current (r, b) d"
  assumes "rd_replicas d = rd_forecastOnly d"
  shows "rd_forecastOnly d' = rd_forecastOnly d" "rd_floor d' = r" "rd_forecastOnly d \<le> rd_replicas d'" "r \<le> rd_replicas d'"
    and "present (\<lambda>p. demandRising (rw_reconstructed w) p capacity (EffectiveTolerance policy)) (rw_previous w) \<Longrightarrow> current \<le> rd_replicas d'"
  using assms by (simp_all add: applyFloor_def Let_def)

text \<open>
  C21: safety. A recommendation from reconstructed demand never has fewer replicas than the forecast or the
  floor asks for. While the newest closed window is valid it has the capacity for the demand of that
  window, or keeps the current count with the demand within tolerance, and keeps the current count while
  demand rises; while demand is unmeasured it keeps the current count.
\<close>

theorem reconstructed_demand_covered:
  assumes "reconstructedReplicas points latest policy capacity current now period = Inr d"
    and "pred_option windowFormattable latest"
  shows "rd_forecastOnly d \<le> rd_replicas d \<and> rd_floor d \<le> rd_replicas d \<and>
    (case latest of None \<Rightarrow> current \<le> rd_replicas d
     | Some w \<Rightarrow> if measuredNow w now period then coversWindow policy capacity current w d else current \<le> rd_replicas d)"
proof (cases "\<exists>w. latest = Some w \<and> measuredNow w now period")
  case False
  then show ?thesis using assms(1)
    by (auto simp: reconstructedReplicas_def Let_def rbind_def split: option.splits sum.splits prod.splits if_splits)
next
  case True
  then obtain w where w: "latest = Some w" "measuredNow w now period" by blast
  obtain d0 r b where d0: "rd_replicas d0 = rd_forecastOnly d0"
    and r: "TimedWindowReplicas (demandWindow w (rw_reconstructed w)) policy capacity current now = Inr (r, b)"
    and d: "applyFast w policy capacity current now (applyFloor w policy capacity current (r, b) d0) = Inr d"
  proof -
    from assms(1) w obtain x t r b where "TimedWindowReplicas (demandWindow w (rw_reconstructed w)) policy capacity current now = Inr (r, b)"
      and "applyFast w policy capacity current now (applyFloor w policy capacity current (r, b)
        \<lparr>rd_replicas = x, rd_forecastOnly = x, rd_floor = 0, rd_decidedBy = ''forecast'', rd_deadline = t\<rparr>) = Inr d"
      by (auto simp: reconstructedReplicas_def Let_def rbind_def split: sum.splits prod.splits if_splits)
    then show thesis by (intro that) simp_all
  qed
  note up = applyFloor_raises [OF d0, where r = r and b = b] and fast = applyFast_raises [OF d]
  have "r \<le> rd_replicas d" using up(4) [of w policy capacity current] fast by linarith
  then have "coversWindow policy capacity current w d"
    using floor_covers [OF r _ w(2), of "rd_replicas d"] assms(2) w(1) up(5) [of w capacity policy current] fast
    unfolding coversWindow_def by fastforce
  then show ?thesis using w up(1-4) [of w policy capacity current] fast by auto
qed

definition sampleReconstructed :: reconstructedWindow where
  "sampleReconstructed = \<lparr>rw_end = parse_or_zero ''2024-01-01T00:00:05Z'', rw_measured = Fin 1, rw_reconstructed = Fin 2,
     rw_hasRatio = True, rw_previous = None, rw_fast = None\<rparr>"

definition sampleForecast :: "Point list" where
  "sampleForecast = [\<lparr>p_at = parse_or_zero ''2024-01-01T00:01:00Z'', p_until = parse_or_zero ''2024-01-01T00:02:00Z'', p_value = Fin 1\<rparr>]"

definition sampleSpan :: "int64 \<Rightarrow> string \<Rightarrow> string \<Rightarrow> CPUForecastPoint list" where
  "sampleSpan cpu start until = [\<lparr>fp_at = start, fp_until = until, fp_cpu = cpu\<rparr>]"

text \<open>The instants of the example and their texts.\<close>

lemma sampleInstant5: "parse_or_zero ''2024-01-01T00:00:05Z'' = GoTime 63839664005000000000 0"
  by code_simp

lemma sampleInstant60: "parse_or_zero ''2024-01-01T00:01:00Z'' = GoTime 63839664060000000000 0"
  by code_simp

lemma sampleInstant120: "parse_or_zero ''2024-01-01T00:02:00Z'' = GoTime 63839664120000000000 0"
  by code_simp

lemma sampleText0: "format_time (GoTime 63839664000000000000 0) = ''2024-01-01T00:00:00Z''"
  by code_simp

lemma sampleText5: "format_time (GoTime 63839664005000000000 0) = ''2024-01-01T00:00:05Z''"
  by code_simp

lemma sampleText60: "format_time (GoTime 63839664060000000000 0) = ''2024-01-01T00:01:00Z''"
  by code_simp

lemma sampleText65: "format_time (GoTime 63839664065000000000 0) = ''2024-01-01T00:01:05Z''"
  by code_simp

lemma sampleText120: "format_time (GoTime 63839664120000000000 0) = ''2024-01-01T00:02:00Z''"
  by code_simp

lemmas sampleTimes = sampleInstant5 sampleInstant60 sampleInstant120 sampleText0 sampleText5 sampleText60 sampleText65 sampleText120

lemma sample_windows:
  "splitRisingWindows (ForecastWindows (cpuForecastPoints sampleForecast)) sampleCapacity (EffectiveTolerance samplePolicy) =
     sampleSpan 1000 ''2024-01-01T00:00:00Z'' ''2024-01-01T00:01:00Z''"
  "demandWindow sampleReconstructed (rw_reconstructed sampleReconstructed) =
     sampleSpan 2000 ''2024-01-01T00:00:05Z'' ''2024-01-01T00:01:05Z''"
proof -
  have cpu: "f_to_int64 (f_round (f_mul (Fin 1) (f_of_int 1000))) = 1000" "f_to_int64 (f_round (f_mul (Fin 2) (f_of_int 1000))) = 2000"
    using f_of_int_exact [of 1000] f_of_int_exact [of 2000]
    by (simp_all add: f_of_int_def round_away_def trunc_rat_def in_i64_def floor_eq_iff)
  show "splitRisingWindows (ForecastWindows (cpuForecastPoints sampleForecast)) sampleCapacity (EffectiveTolerance samplePolicy) =
     sampleSpan 1000 ''2024-01-01T00:00:00Z'' ''2024-01-01T00:01:00Z''"
    unfolding sampleForecast_def cpuForecastPoints_def cpuForecastPoint_def
    by (simp add: sampleTimes cpu [simplified] t_utc_def t_add_def t_sub_def wrap64_def ForecastWindows_def point_at_def point_until_def
        splitRisingWindows_def sampleSpan_def Let_def)
  show "demandWindow sampleReconstructed (rw_reconstructed sampleReconstructed) =
     sampleSpan 2000 ''2024-01-01T00:00:05Z'' ''2024-01-01T00:01:05Z''"
    unfolding sampleReconstructed_def demandWindow_def cpuForecastPoints_def cpuForecastPoint_def sampleSpan_def
    by (simp add: sampleTimes cpu [simplified] t_utc_def t_add_def)
qed

lemma sample_replicas:
  "TimedWindowReplicas (sampleSpan 1000 ''2024-01-01T00:00:00Z'' ''2024-01-01T00:01:00Z'') samplePolicy sampleCapacity 4 sampleNow =
     Inr (4, parse_or_zero ''2024-01-01T00:01:00Z'')" (is ?one)
  "TimedWindowReplicas (sampleSpan 2000 ''2024-01-01T00:00:05Z'' ''2024-01-01T00:01:05Z'') samplePolicy sampleCapacity 4 sampleNow =
     Inr (7, parse_or_zero ''2024-01-01T00:01:05Z'')" (is ?two)
proof -
  have valid: "ValidateForecastTrajectory (sampleSpan 1000 ''2024-01-01T00:00:00Z'' ''2024-01-01T00:01:00Z'') = None"
    "ValidateForecastTrajectory (sampleSpan 2000 ''2024-01-01T00:00:05Z'' ''2024-01-01T00:01:05Z'') = None" by code_simp+
  have fold: "foldl (timedStep sampleNow (wrap64 (leadOf samplePolicy))) (False, 0, zero_time)
      (sampleSpan 1000 ''2024-01-01T00:00:00Z'' ''2024-01-01T00:01:00Z'') = (True, 1000, parse_or_zero ''2024-01-01T00:01:00Z'')"
    "foldl (timedStep sampleNow (wrap64 (leadOf samplePolicy))) (False, 0, zero_time)
      (sampleSpan 2000 ''2024-01-01T00:00:05Z'' ''2024-01-01T00:01:05Z'') = (True, 2000, parse_or_zero ''2024-01-01T00:01:05Z'')"
    by code_simp+
  have resolve: "ResolveDemand
      \<lparr>dr_trajectory = [], dr_demand = \<lparr>dm_kind = CPUKind, dm_target = [], dm_value = 1000\<rparr>, dr_consumedUntil = None\<rparr>
      \<lparr>ob_kind = CPUKind, ob_target = [], ob_sourceID = [], ob_at = zero_time, ob_value = 0, ob_capacity = sampleCapacity\<rparr> =
      Inr \<lparr>pr_trajectory = [], pr_replicas = 4, pr_consumedUntil = None\<rparr>"
    "ResolveDemand
      \<lparr>dr_trajectory = [], dr_demand = \<lparr>dm_kind = CPUKind, dm_target = [], dm_value = 2000\<rparr>, dr_consumedUntil = None\<rparr>
      \<lparr>ob_kind = CPUKind, ob_target = [], ob_sourceID = [], ob_at = zero_time, ob_value = 0, ob_capacity = sampleCapacity\<rparr> =
      Inr \<lparr>pr_trajectory = [], pr_replicas = 7, pr_consumedUntil = None\<rparr>"
    by code_simp+
  have tolerance: "EffectiveTolerance samplePolicy = Fin 0" by (simp add: EffectiveTolerance_def samplePolicy_def)
  show ?one by (simp add: TimedWindowReplicas_def valid samplePolicy_valid fold resolve)
  show ?two by (simp add: TimedWindowReplicas_def valid samplePolicy_valid fold resolve tolerance)
qed

theorem reconstructed_demand_covered_witness:
  "\<exists>d. reconstructedReplicas sampleForecast (Some sampleReconstructed) samplePolicy sampleCapacity 4 sampleNow (30 * second) = Inr d \<and>
    rd_replicas d = 7 \<and> rd_forecastOnly d = 4 \<and> coversWindow samplePolicy sampleCapacity 4 sampleReconstructed d"
proof -
  have now: "measuredNow sampleReconstructed sampleNow (30 * second)" "windowFormattable sampleReconstructed" by code_simp+
  obtain d where d: "reconstructedReplicas sampleForecast (Some sampleReconstructed) samplePolicy sampleCapacity 4 sampleNow (30 * second) = Inr d"
    "rd_replicas d = 7" "rd_forecastOnly d = 4"
  proof -
    have w: "rw_previous sampleReconstructed = None" "rw_fast sampleReconstructed = None" by (simp_all add: sampleReconstructed_def)
    show thesis
      by (rule that, simp add: reconstructedReplicas_def sample_windows sample_replicas now [simplified] applyFast_def
        applyFloor_def w Let_def, simp_all)
  qed
  then show ?thesis using reconstructed_demand_covered [OF d(1)] now by auto
qed
end
