(* ===== verification/Spec2Isabelle.thy ===== *)
theory Spec2Isabelle
  imports Decision Trajectory ForecastQuality PredictionCache HistoryWriters ModelRetention Sampler
    CallBounds Estimator Cgroup ChunkStore Traffic Reconstruction
begin

text \<open>
  \<^bold>\<open>HPA-Plus, verified.\<close> HPA-Plus is a Kubernetes controller (in Go, under \<open>src/\<close>) that scales a workload on
  forecasts of its CPU demand beside the reactive metrics of the horizontal pod autoscaler. This
  development models its decision logic and the protocol by which decisions, histories and forecasts
  are kept on the API server, and proves what makes them correct.

  \<^bold>\<open>Parts of the program and how they interact.\<close> A resource is admitted by \<open>internal/validation\<close>. A sampler
  records CPU observations in a training window per model (\<open>internal/history\<close>, \<open>internal/controllers\<close>);
  a model whose window is long enough is run by a worker process, and its forecast of CPU demand
  (\<open>internal/prediction\<close>) is cached with an expiry, or its failure backs off. In each cycle the
  controller converts the demand of the current and impending forecast windows to replicas, plans
  (\<open>internal/decision\<close>) a count from the forecasts and the reactive baseline under the scaling rules
  (\<open>internal/scalebehavior\<close>), and applies it: the intent is journaled in the history, rechecked, the Scale
  written, the status charged, the journal cleared. A restarted controller recovers an unfinished
  intent. A monitor (\<open>internal/forecastquality\<close>) compares forecasts with later observations. For targets
  driven by request counts, a collector on each node reads CPU counters (\<open>internal/cgroup\<close>), their
  integrals over accounting windows feed an estimator of the CPU cost of a request
  (\<open>internal/workloaddemand\<close>), and forecasts of requests are converted by that cost; or the CPU demand of a
  window is reconstructed from its CPU and its ratio of arrivals to completions, and forecast itself.

  \<^bold>\<open>Theories.\<close> Each opens with a text on its own.

  \<^item> \<open>Prelude\<close>, \<open>Float64\<close>, \<open>GoTime\<close>: Go's integers with wrap-around, results and checks; IEEE binary64 as
    rationals with correct rounding; instants, durations and RFC 3339 text.
  \<^item> \<open>ApiTypes\<close> (\<open>api/v1alpha1\<close>): the structs as records, and the defaults.
  \<^item> \<open>ScaleBehavior\<close> (\<open>scalebehavior.go\<close>): strategies, stabilization, rate limits. Lemmas: exactness of the
    strategies, rate limits and windows, nearness of the floating-point percentages to the exact ones.
  \<^item> \<open>Decision\<close> (\<open>decision.go\<close>): the planner. Lemmas: limits, the assist floor, incomplete metrics, holding,
    when planning succeeds, independence of written-out defaults.
  \<^item> \<open>Demand\<close>, \<open>Trajectory\<close> (\<open>internal/prediction\<close>, \<open>internal/algorithm\<close>): conversion of demand, CPU histories,
    timed forecasts with their deadlines, merging and expiry.
  \<^item> \<open>ForecastQuality\<close> (\<open>quality.go\<close>): the monitor as a transition system with its invariant.
  \<^item> \<open>HistoryWindow\<close>, \<open>ModelBackoff\<close>, \<open>PredictionCache\<close> (\<open>history/validation.go\<close>, \<open>history_retention.go\<close>,
    \<open>model_backoff.go\<close>, \<open>prediction_cache.go\<close>): training windows, failure states, cached predictions.
  \<^item> \<open>Effects\<close>: programs over the API server as trees of calls, their traces, monitors on traces and a
    weakest-precondition calculus that reduces trace properties to the program text.
  \<^item> \<open>ScaleJournal\<close>, \<open>JournalProtocol\<close> (\<open>scale_decision.go\<close>, \<open>status.go\<close>, \<open>history_store.go\<close>, \<open>status_budget.go\<close>,
    \<open>history/decision.go\<close>): the journaled Scale write as such programs, and their refinement of an
    abstract protocol for every reply of the server and every point of interruption.
  \<^item> \<open>HistoryWriters\<close> (\<open>controller.go\<close>, \<open>forecast_reliability.go\<close>, \<open>target_history.go\<close>): the other writers of the
    history. The locale \<open>journal_keeping\<close> is their contract, interpreted for each of them.
  \<^item> \<open>Interference\<close>: programs that share a service with others, their interleavings, a rely-guarantee reading
    of a program, and the locale \<open>shared_protocol\<close> for programs that keep a common protocol.
  \<^item> \<open>ChunkStore\<close> (\<open>sharded_store.go\<close>, \<open>store.go\<close>, \<open>history_budget.go\<close>, \<open>history_store.go\<close>, \<open>history/manifest.go\<close>,
    \<open>history/codec.go\<close>): the history store over ConfigMaps with any number of writers at the same time.
    Lemmas: the chunks the root lists are there, a commit is a compare-and-swap, readers start again rather
    than report a chunk that writers took away, what was committed is read back. \<open>Effects\<close> uses the store through that contract.
  \<^item> \<open>Validation\<close> (\<open>internal/validation\<close>, \<open>workloaddemand.ValidateConfig\<close>): the admission checks.
  \<^item> \<open>RateAccounting\<close>: admission, planning and charging together: the decisions of a policy period share
    one allowance, and a validated resource is always planned within it.
  \<^item> \<open>CallBounds\<close>: the programs of the journal protocol make a bounded number of calls whatever the server
    answers, so they end.
  \<^item> \<open>Sampler\<close> (\<open>history_sampler.go\<close>): slots, preparation and admission of samples, requeueing. Lemmas: the
    schedule takes each slot once, histories stay valid whatever was stored, the sampler never stops; its
    mutations interpret \<open>journal_keeping\<close>.
  \<^item> \<open>Cgroup\<close> (\<open>internal/cgroup\<close>): counter windows and their integration. Lemmas: what is reported as complete
    was measured at every instant, windows the collector keeps are accepted for short read intervals, and
    one window between late reads makes the integration fail for long ones.
  \<^item> \<open>Estimator\<close> (\<open>estimator.go\<close>, \<open>requestReplicas\<close> of \<open>request_demand.go\<close>): the online cost estimate. Lemmas:
    its drift state refines a verdict on error directions, its snapshots restore, replica counts derived
    from it hold until their deadline.
  \<^item> \<open>Traffic\<close> (\<open>traffic_lifecycle.go\<close>, \<open>traffic.go\<close>, \<open>demandWindowScope\<close> of \<open>request_demand.go\<close>): request counters
    of the pods of a window. Lemmas: the interval lists denote sets of instants, rates of the fleet are taken
    over exactly the instants at which every pod that may have run was measured, ratios compare like with like.
  \<^item> \<open>RequestForecast\<close> (\<open>prediction/requestdemand/requestdemand.go\<close>): the protocol with the request forecaster.
    Lemmas: the horizon covers the look-ahead, accepted forecasts are consecutive unstarted intervals.
  \<^item> \<open>DemandAccounting\<close> (\<open>request_demand.go\<close>): the persisted state of a request-demand model and what a closed
    slot adds to it. Lemmas: a qualified account pairs CPU and requests over the same, measured intervals;
    with \<open>Cgroup\<close> and \<open>Traffic\<close> this covers the way from counters to the estimator.
  \<^item> \<open>Reconstruction\<close> (\<open>request_demand_reconstructed.go\<close>, \<open>startup_lead.go\<close>): the demand of a window from its
    backlog ratio, and the recommendation from it. Lemmas: what is measured is covered, rising or unmeasured demand keeps the
    current count, forecasts are refined upwards only.
  \<^item> \<open>ModelRetention\<close> (\<open>PruneHistory\<close> of the adapters): what is kept of a validated model's history lets it run.

  \<^bold>\<open>Modelling.\<close> Structs are records, nil-able pointers options, errors values (their text without
  operands), maps HOL maps. Loops are structural recursions or folds; the two that retry are bounded as in
  the code: \<open>mutateLoop\<close> by the five attempts of \<open>mutateHistoryChecked\<close>, \<open>retryOnConflict\<close> by the steps of
  the library's back-off, a parameter (\<open>lib_retries\<close>), and theorems on them hold for every number. The
  pages of a garbage collection are bounded by an argument of \<open>cleanup\<close>, and its theorems too hold for every
  number. Reads of
  the clock are events of the trace, so that time may pass between any two of them. Where a mutation
  reads the clock on some branches only, the reading is taken on all of them, which changes no result.

  \<^bold>\<open>Not modelled.\<close> Input and output (HTTP, processes, the file system, metrics clients), JSON, compression
  and hashes: their results are parameters (\<open>Library\<close>, \<open>ValidationLibrary\<close>, fingerprints and identities as
  opaque strings; \<open>StoreLibrary\<close>, where SHA-256 is taken to be free of collisions). Of Kubernetes' own garbage
  collection only the removal of a root is modelled. The controller's direct write of an unsupported adaptation
  is not a step of the monitor. Logging, telemetry and events, which no decision reads. The pod bookkeeping and the
  file reads of the counter collector, the queries to Prometheus and the reconciliation loop that
  strings the operations together are not modelled. The Python forecasters are another program.
\<close>

end
